(* ===== verification/Prelude.thy ===== *)
theory Prelude
  imports Main
begin

text \<open>
  Shared vocabulary of the development.

  A call of the Python program is a \<^emph>\<open>program\<close>: it takes the state of the system, returns
  either the exception it raised (\<open>Inl\<close>) or its value (\<open>Inr\<close>), and the state it left.
  The state is threaded through a raised exception too, because a row written before a
  \<open>raise\<close> outside a transaction stays written.  The combinators below are sequencing,
  raising, and catching; \<open>keeps\<close> says that a program preserves a predicate of the state
  whether it returns or raises, and the collection \<open>keeps_intros\<close> propagates it through
  the combinators, so that an invariant of the whole system is proved operation by operation.

  The second half holds the list operations behind the ORM calls: \<open>first_by\<close> and
  \<open>latest_by\<close> (\<open>.first()\<close> and \<open>.latest()\<close>), and row updates by a condition.
\<close>

named_theorems keeps_intros "preservation of a state predicate by a program"
named_theorems run_simps "one-step unfolding of the program combinators"
named_theorems reads "programs that only read the state"

section \<open>Programs with exceptions and state\<close>

type_synonym ('w, 'e, 'a) prog = "'w \<Rightarrow> ('e + 'a) \<times> 'w"

definition mret :: "'a \<Rightarrow> ('w, 'e, 'a) prog" where
  "mret x = (\<lambda>w. (Inr x, w))"

definition mraise :: "'e \<Rightarrow> ('w, 'e, 'a) prog" where
  "mraise e = (\<lambda>w. (Inl e, w))"

definition mbind :: "('w, 'e, 'a) prog \<Rightarrow> ('a \<Rightarrow> ('w, 'e, 'b) prog) \<Rightarrow> ('w, 'e, 'b) prog" where
  "mbind m f = (\<lambda>w. case m w of (Inl e, w') \<Rightarrow> (Inl e, w') | (Inr x, w') \<Rightarrow> f x w')"

definition mseq :: "('w, 'e, 'a) prog \<Rightarrow> ('w, 'e, 'b) prog \<Rightarrow> ('w, 'e, 'b) prog" where
  "mseq m k = mbind m (\<lambda>_. k)"

definition mtry :: "('w, 'e, 'a) prog \<Rightarrow> ('e \<Rightarrow> ('w, 'e, 'a) prog) \<Rightarrow> ('w, 'e, 'a) prog" where
  "mtry m h = (\<lambda>w. case m w of (Inl e, w') \<Rightarrow> h e w' | (Inr x, w') \<Rightarrow> (Inr x, w'))"

definition mgets :: "('w \<Rightarrow> 'a) \<Rightarrow> ('w, 'e, 'a) prog" where
  "mgets f = (\<lambda>w. (Inr (f w), w))"

definition mmodify :: "('w \<Rightarrow> 'w) \<Rightarrow> ('w, 'e, unit) prog" where
  "mmodify f = (\<lambda>w. (Inr (), f w))"

definition mlift :: "'e + 'a \<Rightarrow> ('w, 'e, 'a) prog" where
  "mlift r = (\<lambda>w. (r, w))"

definition mwhen :: "bool \<Rightarrow> ('w, 'e, unit) prog \<Rightarrow> ('w, 'e, unit) prog" where
  "mwhen b m = (if b then m else mret ())"

definition mguard :: "bool \<Rightarrow> 'e \<Rightarrow> ('w, 'e, unit) prog" where
  "mguard b e = (if b then mret () else mraise e)"

lemma mret_run [simp, run_simps]: "mret x w = (Inr x, w)"
  by (simp add: mret_def)

lemma mraise_run [simp, run_simps]: "mraise e w = (Inl e, w)"
  by (simp add: mraise_def)

lemma mgets_run [simp, run_simps]: "mgets f w = (Inr (f w), w)"
  by (simp add: mgets_def)

lemma mmodify_run [simp, run_simps]: "mmodify f w = (Inr (), f w)"
  by (simp add: mmodify_def)

lemma mlift_run [simp, run_simps]: "mlift r w = (r, w)"
  by (simp add: mlift_def)

lemma mwhen_run [simp, run_simps]: "mwhen b m w = (if b then m w else (Inr (), w))"
  by (simp add: mwhen_def)

lemma mguard_run [simp, run_simps]: "mguard b e w = (if b then (Inr (), w) else (Inl e, w))"
  by (simp add: mguard_def)

lemma mbind_run [run_simps]:
  "mbind m f w = (case m w of (Inl e, w') \<Rightarrow> (Inl e, w') | (Inr x, w') \<Rightarrow> f x w')"
  by (simp add: mbind_def)

lemma mseq_run [run_simps]:
  "mseq m k w = (case m w of (Inl e, w') \<Rightarrow> (Inl e, w') | (Inr x, w') \<Rightarrow> k w')"
  by (simp add: mseq_def mbind_def)

lemma mtry_run [run_simps]:
  "mtry m h w = (case m w of (Inl e, w') \<Rightarrow> h e w' | (Inr x, w') \<Rightarrow> (Inr x, w'))"
  by (simp add: mtry_def)

lemma mbind_Inr [simp]: "m w = (Inr x, w') \<Longrightarrow> mbind m f w = f x w'"
  by (simp add: mbind_def)

lemma mbind_Inl [simp]: "m w = (Inl e, w') \<Longrightarrow> mbind m f w = (Inl e, w')"
  by (simp add: mbind_def)

lemma mseq_Inr [simp]: "m w = (Inr x, w') \<Longrightarrow> mseq m k w = k w'"
  by (simp add: mseq_def)

lemma mseq_Inl [simp]: "m w = (Inl e, w') \<Longrightarrow> mseq m k w = (Inl e, w')"
  by (simp add: mseq_def)

lemma mtry_Inr [simp]: "m w = (Inr x, w') \<Longrightarrow> mtry m h w = (Inr x, w')"
  by (simp add: mtry_def)

lemma mtry_Inl [simp]: "m w = (Inl e, w') \<Longrightarrow> mtry m h w = h e w'"
  by (simp add: mtry_def)

lemma mbind_assoc: "mbind (mbind m f) g = mbind m (\<lambda>x. mbind (f x) g)"
  by (rule ext) (simp add: mbind_def split: prod.splits sum.splits)

text \<open>Inversion: a sequence that returned ran both parts to a result.\<close>

lemma mbind_InrE:
  assumes "mbind m f w = (Inr y, w2)"
  obtains x w1 where "m w = (Inr x, w1)" and "f x w1 = (Inr y, w2)"
  using assms by (auto simp: mbind_def split: prod.splits sum.splits)

lemma mseq_InrE:
  assumes "mseq m k w = (Inr y, w2)"
  obtains x w1 where "m w = (Inr x, w1)" and "k w1 = (Inr y, w2)"
  using assms by (auto simp: mseq_def elim: mbind_InrE)

lemma mlift_InrE:
  assumes "mlift r w = (Inr y, w2)"
  obtains "r = Inr y" and "w2 = w"
  using assms by simp

section \<open>Preservation of a state predicate\<close>

definition keeps :: "('w \<Rightarrow> bool) \<Rightarrow> ('w, 'e, 'a) prog \<Rightarrow> bool" where
  "keeps P m \<longleftrightarrow> (\<forall>w. P w \<longrightarrow> P (snd (m w)))"

lemma keepsI: "(\<And>w. P w \<Longrightarrow> P (snd (m w))) \<Longrightarrow> keeps P m"
  by (simp add: keeps_def)

lemma keepsD: "keeps P m \<Longrightarrow> P w \<Longrightarrow> P (snd (m w))"
  by (simp add: keeps_def)

lemma keepsD_run: "keeps P m \<Longrightarrow> P w \<Longrightarrow> m w = (r, w') \<Longrightarrow> P w'"
  by (drule (1) keepsD) simp

lemma keeps_mret [keeps_intros]: "keeps P (mret x)"
  by (simp add: keeps_def)

lemma keeps_mraise [keeps_intros]: "keeps P (mraise e)"
  by (simp add: keeps_def)

lemma keeps_mgets [keeps_intros]: "keeps P (mgets f)"
  by (simp add: keeps_def)

lemma keeps_mlift [keeps_intros]: "keeps P (mlift r)"
  by (simp add: keeps_def)

lemma keeps_mguard [keeps_intros]: "keeps P (mguard b e)"
  by (simp add: keeps_def)

lemma keeps_mmodify: "(\<And>w. P w \<Longrightarrow> P (f w)) \<Longrightarrow> keeps P (mmodify f)"
  by (simp add: keeps_def)

lemma keeps_mbind [keeps_intros]:
  assumes "keeps P m" and "\<And>x. keeps P (f x)"
  shows "keeps P (mbind m f)"
proof (rule keepsI)
  fix w assume "P w"
  with assms show "P (snd (mbind m f w))"
    by (cases "m w") (auto simp: mbind_def keeps_def split: sum.splits dest: spec)
qed

lemma keeps_mseq [keeps_intros]: "keeps P m \<Longrightarrow> keeps P k \<Longrightarrow> keeps P (mseq m k)"
  unfolding mseq_def by (rule keeps_mbind)

lemma keeps_mtry [keeps_intros]:
  assumes "keeps P m" and "\<And>e. keeps P (h e)"
  shows "keeps P (mtry m h)"
proof (rule keepsI)
  fix w assume "P w"
  with assms show "P (snd (mtry m h w))"
    by (cases "m w") (auto simp: mtry_def keeps_def split: sum.splits dest: spec)
qed

lemma keeps_mwhen [keeps_intros]: "(b \<Longrightarrow> keeps P m) \<Longrightarrow> keeps P (mwhen b m)"
  by (simp add: mwhen_def keeps_mret)

lemma keeps_if [keeps_intros]:
  "(b \<Longrightarrow> keeps P m) \<Longrightarrow> (\<not> b \<Longrightarrow> keeps P k) \<Longrightarrow> keeps P (if b then m else k)"
  by simp

lemma keeps_option [keeps_intros]:
  "(v = None \<Longrightarrow> keeps P m) \<Longrightarrow> (\<And>x. v = Some x \<Longrightarrow> keeps P (k x)) \<Longrightarrow>
   keeps P (case v of None \<Rightarrow> m | Some x \<Rightarrow> k x)"
  by (simp split: option.splits)

lemma keeps_prod [keeps_intros]:
  "(\<And>a b. v = (a, b) \<Longrightarrow> keeps P (k a b)) \<Longrightarrow> keeps P (case v of (a, b) \<Rightarrow> k a b)"
  by (simp split: prod.splits)

lemma keeps_list [keeps_intros]:
  "(v = [] \<Longrightarrow> keeps P m) \<Longrightarrow> (\<And>x xs. v = x # xs \<Longrightarrow> keeps P (k x xs)) \<Longrightarrow>
   keeps P (case v of [] \<Rightarrow> m | x # xs \<Rightarrow> k x xs)"
  by (simp split: list.splits)

lemma keeps_sum [keeps_intros]:
  "(\<And>x. v = Inl x \<Longrightarrow> keeps P (m x)) \<Longrightarrow> (\<And>x. v = Inr x \<Longrightarrow> keeps P (k x)) \<Longrightarrow>
   keeps P (case v of Inl x \<Rightarrow> m x | Inr x \<Rightarrow> k x)"
  by (simp split: sum.splits)

lemma keeps_let [keeps_intros]: "keeps P (f v) \<Longrightarrow> keeps P (let x = v in f x)"
  by simp

text \<open>A program that never changes the state.\<close>

definition read_only :: "('w, 'e, 'a) prog \<Rightarrow> bool" where
  "read_only m \<longleftrightarrow> (\<forall>w. snd (m w) = w)"

lemma read_onlyD: "read_only m \<Longrightarrow> m w = (r, w') \<Longrightarrow> w' = w"
  by (metis read_only_def snd_conv)

lemma read_only_keeps: "read_only m \<Longrightarrow> keeps P m"
  by (simp add: read_only_def keeps_def)

section \<open>Tables as lists of rows\<close>

text \<open>\<open>min(xs, key=f)\<close> and \<open>max(xs, key=f)\<close>: the first extremal element.\<close>

fun first_by :: "('a \<Rightarrow> 'k::linorder) \<Rightarrow> 'a list \<Rightarrow> 'a option" where
  "first_by f [] = None"
| "first_by f (x # xs) =
     (case first_by f xs of None \<Rightarrow> Some x | Some y \<Rightarrow> if f x \<le> f y then Some x else Some y)"

fun latest_by :: "('a \<Rightarrow> 'k::linorder) \<Rightarrow> 'a list \<Rightarrow> 'a option" where
  "latest_by f [] = None"
| "latest_by f (x # xs) =
     (case latest_by f xs of None \<Rightarrow> Some x | Some y \<Rightarrow> if f y \<le> f x then Some x else Some y)"

lemma first_by_None [simp]: "first_by f xs = None \<longleftrightarrow> xs = []"
  by (cases xs) (auto split: option.splits)

lemma latest_by_None [simp]: "latest_by f xs = None \<longleftrightarrow> xs = []"
  by (cases xs) (auto split: option.splits)

lemma first_by_in: "first_by f xs = Some x \<Longrightarrow> x \<in> set xs"
  by (induction xs arbitrary: x) (auto split: option.splits if_splits)

lemma latest_by_in: "latest_by f xs = Some x \<Longrightarrow> x \<in> set xs"
  by (induction xs arbitrary: x) (auto split: option.splits if_splits)

lemma first_by_le: "first_by f xs = Some x \<Longrightarrow> y \<in> set xs \<Longrightarrow> f x \<le> f y"
proof (induction xs arbitrary: x)
  case (Cons a xs)
  show ?case
  proof (cases "first_by f xs")
    case None
    with Cons.prems show ?thesis by simp
  next
    case (Some z)
    then have "y \<in> set xs \<Longrightarrow> f z \<le> f y" by (rule Cons.IH)
    with Some Cons.prems show ?thesis by (cases "f a \<le> f z") (auto intro: order_trans)
  qed
qed simp

lemma latest_by_ge: "latest_by f xs = Some x \<Longrightarrow> y \<in> set xs \<Longrightarrow> f y \<le> f x"
proof (induction xs arbitrary: x)
  case (Cons a xs)
  show ?case
  proof (cases "latest_by f xs")
    case None
    with Cons.prems show ?thesis by simp
  next
    case (Some z)
    then have "y \<in> set xs \<Longrightarrow> f y \<le> f z" by (rule Cons.IH)
    with Some Cons.prems show ?thesis by (cases "f z \<le> f a") (auto intro: order_trans)
  qed
qed simp

lemma first_by_filter_None [simp]:
  "first_by f (filter P xs) = None \<longleftrightarrow> (\<forall>x\<in>set xs. \<not> P x)"
  by (simp add: filter_empty_conv)

lemma first_by_filter_Some: "first_by f (filter P xs) = Some x \<Longrightarrow> x \<in> set xs \<and> P x"
  by (drule first_by_in) simp

lemma latest_by_filter_Some: "latest_by f (filter P xs) = Some x \<Longrightarrow> x \<in> set xs \<and> P x"
  by (drule latest_by_in) simp

lemma first_by_unique:
  assumes "x \<in> set xs" and "P x" and "\<And>y. y \<in> set xs \<Longrightarrow> P y \<Longrightarrow> y = x"
  shows "first_by f (filter P xs) = Some x"
proof (cases "first_by f (filter P xs)")
  case None
  with assms(1,2) show ?thesis by (auto simp: filter_empty_conv)
next
  case (Some y)
  then have "y \<in> set xs" and "P y" by (auto dest: first_by_filter_Some)
  then have "y = x" by (rule assms(3))
  with Some show ?thesis by simp
qed

text \<open>\<open>UPDATE \<dots> WHERE\<close>: change the rows that satisfy a condition, keep the others.\<close>

definition update_where :: "('a \<Rightarrow> bool) \<Rightarrow> ('a \<Rightarrow> 'a) \<Rightarrow> 'a list \<Rightarrow> 'a list" where
  "update_where P f xs = map (\<lambda>x. if P x then f x else x) xs"

lemma update_where_Nil [simp]: "update_where P f [] = []"
  by (simp add: update_where_def)

lemma update_where_Cons [simp]:
  "update_where P f (x # xs) = (if P x then f x else x) # update_where P f xs"
  by (simp add: update_where_def)

lemma set_update_where:
  "set (update_where P f xs) = {f x | x. x \<in> set xs \<and> P x} \<union> {x \<in> set xs. \<not> P x}"
  by (auto simp: update_where_def)

lemma update_where_mem:
  "y \<in> set (update_where P f xs) \<Longrightarrow> (\<exists>x\<in>set xs. P x \<and> y = f x) \<or> (y \<in> set xs \<and> \<not> P y)"
  by (auto simp: update_where_def split: if_splits)

lemma map_update_where:
  "(\<And>x. g (f x) = g x) \<Longrightarrow> map g (update_where P f xs) = map g xs"
  by (induction xs) auto

lemma length_update_where [simp]: "length (update_where P f xs) = length xs"
  by (simp add: update_where_def)

lemma update_where_idle: "(\<And>x. x \<in> set xs \<Longrightarrow> P x \<Longrightarrow> f x = x) \<Longrightarrow> update_where P f xs = xs"
  by (induction xs) auto

lemma filter_update_where_neg:
  "(\<And>x. P x \<Longrightarrow> \<not> Q (f x)) \<Longrightarrow> filter Q (update_where P f xs) = filter (\<lambda>x. Q x \<and> \<not> P x) xs"
  by (induction xs) auto

text \<open>Uniqueness constraints, restricted to the rows where the column is not NULL.\<close>

definition somes :: "'a option list \<Rightarrow> 'a list" where
  "somes xs = map the (filter (\<lambda>x. x \<noteq> None) xs)"

lemma somes_simps [simp]:
  "somes [] = []" "somes (None # xs) = somes xs" "somes (Some x # xs) = x # somes xs"
  by (simp_all add: somes_def)

lemma somes_append [simp]: "somes (xs @ ys) = somes xs @ somes ys"
  by (simp add: somes_def)

lemma set_somes [simp]: "set (somes xs) = {x. Some x \<in> set xs}"
  by (force simp: somes_def image_iff)

lemma distinct_filter_map:
  "distinct (map g xs) \<Longrightarrow> distinct (map g (filter P xs))"
  by (induction xs) auto

lemma distinct_somes_filter:
  "distinct (somes (map g xs)) \<Longrightarrow> distinct (somes (map g (filter P xs)))"
proof (induction xs)
  case (Cons x xs)
  then show ?case by (cases "g x") auto
qed simp

lemma distinct_map_eqD:
  "distinct (map g xs) \<Longrightarrow> x \<in> set xs \<Longrightarrow> y \<in> set xs \<Longrightarrow> g x = g y \<Longrightarrow> x = y"
  by (meson distinct_map inj_onD)

lemma distinct_somes_eqD:
  "distinct (somes (map g xs)) \<Longrightarrow> x \<in> set xs \<Longrightarrow> y \<in> set xs \<Longrightarrow>
   g x = Some k \<Longrightarrow> g y = Some k \<Longrightarrow> x = y"
proof (induction xs)
  case (Cons a xs)
  from Cons.prems Cons.IH show ?case
    by (cases "g a") (auto, (metis image_eqI)+)
qed simp

lemma find_by_key:
  "distinct (map g xs) \<Longrightarrow> x \<in> set xs \<Longrightarrow> find (\<lambda>y. g y = g x) xs = Some x"
  by (induction xs) auto

section \<open>Strings as the source uses them\<close>

definition startswith :: "string \<Rightarrow> string \<Rightarrow> bool" where
  "startswith s p \<longleftrightarrow> take (length p) s = p"

definition endswith :: "string \<Rightarrow> string \<Rightarrow> bool" where
  "endswith s p \<longleftrightarrow> startswith (rev s) (rev p)"

lemma startswith_append [simp]: "startswith (p @ s) p"
  by (simp add: startswith_def)

lemma startswith_iff: "startswith s p \<longleftrightarrow> (\<exists>t. s = p @ t)"
  by (metis append_eq_conv_conj append_take_drop_id startswith_def)

text \<open>ASCII \<open>lower\<close> and \<open>upper\<close>; email addresses, codes and slugs are ASCII in the program.\<close>

definition lower_char :: "char \<Rightarrow> char" where
  "lower_char c = (if 65 \<le> (of_char c :: nat) \<and> (of_char c :: nat) \<le> 90
                   then char_of (of_char c + (32 :: nat)) else c)"

definition upper_char :: "char \<Rightarrow> char" where
  "upper_char c = (if 97 \<le> (of_char c :: nat) \<and> (of_char c :: nat) \<le> 122
                   then char_of (of_char c - (32 :: nat)) else c)"

definition lower :: "string \<Rightarrow> string" where
  "lower s = map lower_char s"

definition upper :: "string \<Rightarrow> string" where
  "upper s = map upper_char s"

definition is_digit :: "char \<Rightarrow> bool" where
  "is_digit c \<longleftrightarrow> 48 \<le> (of_char c :: nat) \<and> (of_char c :: nat) \<le> 57"

definition is_lower_alpha :: "char \<Rightarrow> bool" where
  "is_lower_alpha c \<longleftrightarrow> 97 \<le> (of_char c :: nat) \<and> (of_char c :: nat) \<le> 122"

definition is_alpha :: "char \<Rightarrow> bool" where
  "is_alpha c \<longleftrightarrow> is_lower_alpha c \<or> (65 \<le> (of_char c :: nat) \<and> (of_char c :: nat) \<le> 90)"

fun drop_while_end :: "('a \<Rightarrow> bool) \<Rightarrow> 'a list \<Rightarrow> 'a list" where
  "drop_while_end P xs = rev (dropWhile P (rev xs))"

definition strip_chars :: "(char \<Rightarrow> bool) \<Rightarrow> string \<Rightarrow> string" where
  "strip_chars P s = drop_while_end P (dropWhile P s)"

text \<open>Decimal representation of a natural number, as \<open>str(n)\<close>.\<close>

fun str_nat :: "nat \<Rightarrow> string" where
  "str_nat n = (if n < 10 then [char_of (48 + n)]
                else str_nat (n div 10) @ [char_of (48 + n mod 10)])"

declare str_nat.simps [simp del]

definition digit_val :: "char \<Rightarrow> nat" where
  "digit_val c = of_char c - 48"

definition nat_of_digits :: "string \<Rightarrow> nat" where
  "nat_of_digits s = foldl (\<lambda>n c. 10 * n + digit_val c) 0 s"

lemma nat_of_digits_snoc: "nat_of_digits (s @ [c]) = 10 * nat_of_digits s + digit_val c"
  by (simp add: nat_of_digits_def)

lemma digit_val_char_of: "d < 10 \<Longrightarrow> digit_val (char_of (48 + d)) = d"
  by (simp add: digit_val_def)

lemma nat_of_digits_str_nat: "nat_of_digits (str_nat n) = n"
proof (induction n rule: str_nat.induct)
  case (1 n)
  show ?case
  proof (cases "n < 10")
    case True
    then show ?thesis
      by (subst str_nat.simps) (simp add: nat_of_digits_def digit_val_char_of)
  next
    case False
    with 1 show ?thesis
      by (subst str_nat.simps) (simp add: nat_of_digits_snoc digit_val_char_of)
  qed
qed

lemma inj_str_nat: "str_nat m = str_nat n \<Longrightarrow> m = n"
  by (metis nat_of_digits_str_nat)

lemma is_digit_char_of: "(d :: nat) < 10 \<Longrightarrow> is_digit (char_of (48 + d))"
  by (simp add: is_digit_def)

lemma str_nat_digits: "c \<in> set (str_nat n) \<Longrightarrow> is_digit c"
proof (induction n rule: str_nat.induct)
  case (1 n)
  then show ?case
    by (subst (asm) str_nat.simps) (auto split: if_splits simp: is_digit_char_of)
qed

lemma str_nat_nonempty [simp]: "str_nat n \<noteq> []"
  by (subst str_nat.simps) simp

end
