(* ===== verification/PyData.thy ===== *)
theory PyData
  imports Prelude
begin

text \<open>
  The Python values the program works on: the exceptions it raises or meets
  (\<open>exn\<close>), JSON as \<open>json.loads\<close> returns it (\<open>json\<close>), with the accesses the code makes
  (\<open>d["k"]\<close>, \<open>d.get("k")\<close>, \<open>xs[0]\<close>, \<open>str\<close>, \<open>int\<close>, truth value), each with the exception
  Python raises where the access fails; \<open>uuid.UUID\<close> with its textual form and its parser; and
  \<open>ts_to_dt\<close>.

  A UUID is the natural number of its 128 bits, a \<open>datetime\<close> is the number of microseconds
  since the epoch, both unbounded in type and bounded by their constructors.  JSON numbers are
  integers: every timestamp, quantity and amount that Stripe sends is one.
\<close>

section \<open>Exceptions\<close>

datatype exn =
    KeyError | TypeError | ValueError | IndexError | AttributeError | OverflowError
  | IntegrityError | DataError | ObjectDoesNotExist | OperationalError
  | ConnectionError | StripeInvalidRequest "string option" | StripeError | HTTPError
  | WebhookDataError string | UserNotFoundError | OrgNotFoundError | SubscriptionNotFoundError
  | SeatsBelowMemberCountError | InsufficientPermissionError | SeatCapReachedAtAcceptError
  | ValidationError | NotFound | PermissionDenied | Http404 | OrgAlreadyOwned
  | InvitationExpired | InvitationEmailExists | InvitationPendingExists | SeatLimitReached
  | InvitationAddressedToOther
  | AuthenticationFailed string | EmailAlreadyExists | InvalidCredentials | AccountDeactivated
  | InvalidPassword | InvalidOAuthCode | OAuthError | OAuthEmailNotVerifiedError
  | CaptchaFailedError | RuntimeError | MultipleObjectsReturned

type_synonym 'a res = "exn + 'a"

definition rbind :: "'a res \<Rightarrow> ('a \<Rightarrow> 'b res) \<Rightarrow> 'b res" where
  "rbind r f = (case r of Inl e \<Rightarrow> Inl e | Inr x \<Rightarrow> f x)"

lemma rbind_simps [simp]: "rbind (Inl e) f = Inl e" "rbind (Inr x) f = f x"
  by (simp_all add: rbind_def)

lemma rbind_InrE:
  assumes "rbind r f = Inr y"
  obtains x where "r = Inr x" and "f x = Inr y"
  using assms by (auto simp: rbind_def split: sum.splits)

section \<open>JSON values\<close>

datatype json =
    JNull
  | JBool bool
  | JInt int
  | JStr string
  | JArr "json list"
  | JObj "(string \<times> json) list"

fun truthy :: "json \<Rightarrow> bool" where
  "truthy JNull = False"
| "truthy (JBool b) = b"
| "truthy (JInt i) = (i \<noteq> 0)"
| "truthy (JStr s) = (s \<noteq> [])"
| "truthy (JArr xs) = (xs \<noteq> [])"
| "truthy (JObj kvs) = (kvs \<noteq> [])"

text \<open>\<open>a or b\<close>\<close>

definition py_or :: "json \<Rightarrow> json \<Rightarrow> json" where
  "py_or a b = (if truthy a then a else b)"

text \<open>\<open>d["k"]\<close>\<close>

fun dindex :: "json \<Rightarrow> string \<Rightarrow> json res" where
  "dindex (JObj kvs) k = (case map_of kvs k of None \<Rightarrow> Inl KeyError | Some v \<Rightarrow> Inr v)"
| "dindex _ k = Inl TypeError"

text \<open>\<open>d.get("k", default)\<close>; a key bound to \<open>null\<close> gives \<open>None\<close>, not the default.\<close>

fun dget_or :: "json \<Rightarrow> string \<Rightarrow> json \<Rightarrow> json res" where
  "dget_or (JObj kvs) k d = (case map_of kvs k of None \<Rightarrow> Inr d | Some v \<Rightarrow> Inr v)"
| "dget_or _ k d = Inl AttributeError"

definition dget :: "json \<Rightarrow> string \<Rightarrow> json res" where
  "dget j k = dget_or j k JNull"

lemma dget_simps [simp]:
  "dget (JObj kvs) k = Inr (case map_of kvs k of None \<Rightarrow> JNull | Some v \<Rightarrow> v)"
  "dget JNull k = Inl AttributeError"
  by (simp_all add: dget_def split: option.splits)

text \<open>\<open>o.attr\<close> on a Stripe object.\<close>

fun attr :: "json \<Rightarrow> string \<Rightarrow> json res" where
  "attr (JObj kvs) k = (case map_of kvs k of None \<Rightarrow> Inl AttributeError | Some v \<Rightarrow> Inr v)"
| "attr _ k = Inl AttributeError"

text \<open>\<open>xs[0]\<close>\<close>

fun item0 :: "json \<Rightarrow> json res" where
  "item0 (JArr []) = Inl IndexError"
| "item0 (JArr (x # xs)) = Inr x"
| "item0 (JStr []) = Inl IndexError"
| "item0 (JStr (c # cs)) = Inr (JStr [c])"
| "item0 (JObj kvs) = Inl KeyError"
| "item0 _ = Inl TypeError"

fun py_len :: "json \<Rightarrow> nat res" where
  "py_len (JArr xs) = Inr (length xs)"
| "py_len (JStr s) = Inr (length s)"
| "py_len (JObj kvs) = Inr (length kvs)"
| "py_len _ = Inl TypeError"

text \<open>\<open>isinstance(x, int)\<close>: \<open>bool\<close> is a subclass of \<open>int\<close>.\<close>

fun as_int :: "json \<Rightarrow> int option" where
  "as_int (JInt i) = Some i"
| "as_int (JBool b) = Some (if b then 1 else 0)"
| "as_int _ = None"

fun as_str :: "json \<Rightarrow> string option" where
  "as_str (JStr s) = Some s"
| "as_str _ = None"

section \<open>Text of integers and of JSON values\<close>

definition hex_digit :: "nat \<Rightarrow> char" where
  "hex_digit d = (if d < 10 then char_of (48 + d) else char_of (87 + d))"

definition hex_val :: "char \<Rightarrow> nat option" where
  "hex_val c = (let n = of_char c in
     if 48 \<le> n \<and> n \<le> 57 then Some (n - 48)
     else if 97 \<le> n \<and> n \<le> 102 then Some (n - 87)
     else if 65 \<le> n \<and> n \<le> 70 then Some (n - 55) else None)"

definition str_int :: "int \<Rightarrow> string" where
  "str_int i = (if i < 0 then ''-'' @ str_nat (nat (- i)) else str_nat (nat i))"

definition is_space :: "char \<Rightarrow> bool" where
  "is_space c \<longleftrightarrow> of_char c \<in> {9, 10, 11, 12, 13, 28, 29, 30, 31, 32 :: nat}"

text \<open>
  The digits of \<open>int(text, base)\<close>: at least one digit, single underscores between digits.
\<close>

fun digits_value :: "nat \<Rightarrow> nat \<Rightarrow> bool \<Rightarrow> string \<Rightarrow> nat option" where
  "digits_value base acc seen [] = (if seen then Some acc else None)"
| "digits_value base acc seen (c # cs) =
     (if c = CHR ''_'' then
        (if seen then
           (case cs of [] \<Rightarrow> None
            | d # ds \<Rightarrow> (case hex_val d of None \<Rightarrow> None
                | Some v \<Rightarrow> if v < base then digits_value base (acc * base + v) True ds else None))
         else None)
      else (case hex_val c of None \<Rightarrow> None
            | Some v \<Rightarrow> if v < base then digits_value base (acc * base + v) True cs else None))"

definition skip_0x :: "nat \<Rightarrow> string \<Rightarrow> string" where
  "skip_0x base s =
     (if base = 16 \<and> (startswith s ''0x'' \<or> startswith s ''0X'')
      then (case drop 2 s of c # cs \<Rightarrow> if c = CHR ''_'' then cs else c # cs | [] \<Rightarrow> [])
      else s)"

definition py_int_text :: "nat \<Rightarrow> string \<Rightarrow> int res" where
  "py_int_text base text =
     (let s = strip_chars is_space text;
          neg = startswith s ''-'';
          body = (if startswith s ''-'' \<or> startswith s ''+'' then tl s else s)
      in case digits_value base 0 False (skip_0x base body) of
           None \<Rightarrow> Inl ValueError
         | Some n \<Rightarrow> Inr (if neg then - int n else int n))"

text \<open>\<open>int(x)\<close>\<close>

fun py_int :: "json \<Rightarrow> int res" where
  "py_int (JInt i) = Inr i"
| "py_int (JBool b) = Inr (if b then 1 else 0)"
| "py_int (JStr s) = py_int_text 10 s"
| "py_int _ = Inl TypeError"

text \<open>\<open>repr\<close> of a string, then \<open>str\<close> of a JSON value (containers print with \<open>repr\<close>).\<close>

definition repr_char :: "char \<Rightarrow> char \<Rightarrow> string" where
  "repr_char q c = (let n = of_char c :: nat in
     if c = q \<or> n = 92 then [char_of (92 :: nat), c]
     else if n = 9 then [char_of (92 :: nat), CHR ''t'']
     else if n = 10 then [char_of (92 :: nat), CHR ''n'']
     else if n = 13 then [char_of (92 :: nat), CHR ''r'']
     else if n < 32 \<or> n = 127
          then [char_of (92 :: nat), CHR ''x'', hex_digit (n div 16), hex_digit (n mod 16)]
     else [c])"

definition repr_str :: "string \<Rightarrow> string" where
  "repr_str s =
     (let sq = char_of (39 :: nat); dq = char_of (34 :: nat);
          q = (if sq \<in> set s \<and> dq \<notin> set s then dq else sq)
      in q # concat (map (repr_char q) s) @ [q])"

definition join :: "string \<Rightarrow> string list \<Rightarrow> string" where
  "join sep xs = (case xs of [] \<Rightarrow> [] | y # ys \<Rightarrow> y @ concat (map (\<lambda>z. sep @ z) ys))"

fun py_repr :: "json \<Rightarrow> string" where
  "py_repr JNull = ''None''"
| "py_repr (JBool b) = (if b then ''True'' else ''False'')"
| "py_repr (JInt i) = str_int i"
| "py_repr (JStr s) = repr_str s"
| "py_repr (JArr xs) = ''['' @ join '', '' (map py_repr xs) @ '']''"
| "py_repr (JObj kvs) =
     ''{'' @ join '', '' (map (\<lambda>(k, v). repr_str k @ '': '' @ py_repr v) kvs) @ ''}''"

fun py_str :: "json \<Rightarrow> string" where
  "py_str (JStr s) = s"
| "py_str j = py_repr j"

section \<open>UUIDs\<close>

type_synonym uuid = nat

fun hex_digits :: "nat \<Rightarrow> nat \<Rightarrow> string" where
  "hex_digits 0 n = []"
| "hex_digits (Suc k) n = hex_digits k (n div 16) @ [hex_digit (n mod 16)]"

text \<open>\<open>str(u)\<close>: 8-4-4-4-12 hexadecimal digits.\<close>

definition uuid_str :: "uuid \<Rightarrow> string" where
  "uuid_str u = (let h = hex_digits 32 u in
     take 8 h @ ''-'' @ take 4 (drop 8 h) @ ''-'' @ take 4 (drop 12 h) @ ''-''
     @ take 4 (drop 16 h) @ ''-'' @ drop 20 h)"

text \<open>\<open>s.replace(pat, "")\<close>\<close>

function remove_all :: "string \<Rightarrow> string \<Rightarrow> string" where
  "remove_all pat s =
     (if s = [] then []
      else if pat \<noteq> [] \<and> startswith s pat then remove_all pat (drop (length pat) s)
      else hd s # remove_all pat (tl s))"
  by pat_completeness auto
termination
  by (relation "measure (\<lambda>(pat, s). length s)") auto

declare remove_all.simps [simp del]

text \<open>\<open>UUID(text)\<close>: the constructor of the standard library.\<close>

definition uuid_parse :: "string \<Rightarrow> uuid res" where
  "uuid_parse text =
     (let h = remove_all ''uuid:'' (remove_all ''urn:'' text);
          h = filter (\<lambda>c. c \<noteq> CHR ''-'') (strip_chars (\<lambda>c. c = CHR ''{'' \<or> c = CHR ''}'') h)
      in if length h \<noteq> 32 then Inl ValueError
         else rbind (py_int_text 16 h)
           (\<lambda>n. if 0 \<le> n \<and> n < 2 ^ 128 then Inr (nat n) else Inl ValueError))"

text \<open>\<open>UUID(x)\<close> for a JSON value: anything but a string has no \<open>replace\<close>.\<close>

fun uuid_of_json :: "json \<Rightarrow> uuid res" where
  "uuid_of_json (JStr s) = uuid_parse s"
| "uuid_of_json JNull = Inl TypeError"
| "uuid_of_json _ = Inl AttributeError"

section \<open>Stripe timestamps\<close>

type_synonym datetime = int

definition epoch_to_dt :: "int \<Rightarrow> datetime res" where
  "epoch_to_dt n =
     (if n < - (2 ^ 63) \<or> 2 ^ 63 \<le> n then Inl OverflowError
      else if n < -62135596800 \<or> 253402300799 < n then Inl ValueError
      else Inr (n * 1000000))"

definition ts_to_dt :: "json \<Rightarrow> datetime option res" where
  "ts_to_dt value =
     (if value = JNull then Inr None
      else rbind (py_int value) (\<lambda>n. rbind (epoch_to_dt n) (\<lambda>d. Inr (Some d))))"

lemma ts_to_dt_None [simp]: "ts_to_dt JNull = Inr None"
  by (simp add: ts_to_dt_def)

lemma ts_to_dt_Some_iff:
  "ts_to_dt v = Inr (Some d) \<longleftrightarrow>
   v \<noteq> JNull \<and> (\<exists>n. py_int v = Inr n \<and> -62135596800 \<le> n \<and> n \<le> 253402300799 \<and> d = n * 1000000)"
  by (auto simp: ts_to_dt_def epoch_to_dt_def rbind_def split: sum.splits if_splits)

section \<open>A UUID survives its textual form\<close>

lemma length_hex_digits [simp]: "length (hex_digits k n) = k"
  by (induction k arbitrary: n) auto

lemma hex_val_hex_digit: "d < 16 \<Longrightarrow> hex_val (hex_digit d) = Some d"
  by (auto simp: hex_val_def hex_digit_def Let_def)

definition is_hex :: "char \<Rightarrow> bool" where
  "is_hex c \<longleftrightarrow> hex_val c \<noteq> None"

lemma is_hex_hex_digit: "d < 16 \<Longrightarrow> is_hex (hex_digit d)"
  by (simp add: is_hex_def hex_val_hex_digit)

lemma hex_digits_hex: "c \<in> set (hex_digits k n) \<Longrightarrow> is_hex c"
  by (induction k arbitrary: n) (auto simp: is_hex_hex_digit)

lemma is_hex_not_special:
  "is_hex c \<Longrightarrow> c \<noteq> CHR ''_'' \<and> c \<noteq> CHR ''-'' \<and> c \<noteq> CHR ''+'' \<and> c \<noteq> CHR '':''
     \<and> c \<noteq> CHR ''{'' \<and> c \<noteq> CHR ''}'' \<and> c \<noteq> CHR ''x'' \<and> c \<noteq> CHR ''X'' \<and> \<not> is_space c"
  by (auto simp: is_hex_def hex_val_def is_space_def Let_def split: if_splits)

lemma digits_value_append_hex:
  "\<forall>c\<in>set s. is_hex c \<Longrightarrow> d < 16 \<Longrightarrow>
   digits_value 16 acc b (s @ [hex_digit d]) =
     map_option (\<lambda>n. n * 16 + d) (digits_value 16 acc (b \<or> s = []) s)"
proof (induction s arbitrary: acc b)
  case Nil
  then show ?case
    using is_hex_not_special [OF is_hex_hex_digit [OF Nil.prems(2)]]
    by (simp add: hex_val_hex_digit)
next
  case (Cons c s)
  from Cons.prems(1) have c: "is_hex c" and s: "\<forall>c\<in>set s. is_hex c" by auto
  from c have "c \<noteq> CHR ''_''" by (auto dest: is_hex_not_special)
  with Cons.IH [OF s Cons.prems(2), of _ True] show ?case
    by (auto split: option.splits)
qed

lemma digits_value_hex_digits:
  "n < 16 ^ Suc k \<Longrightarrow> digits_value 16 0 False (hex_digits (Suc k) n) = Some n"
proof (induction k arbitrary: n)
  case 0
  then show ?case
    using is_hex_not_special [OF is_hex_hex_digit, of n] by (simp add: hex_val_hex_digit)
next
  case (Suc k)
  from Suc.prems have "n div 16 < 16 ^ Suc k" by simp
  from Suc.IH [OF this]
  have ih: "digits_value 16 0 False (hex_digits (Suc k) (n div 16)) = Some (n div 16)" .
  have "digits_value 16 0 False (hex_digits (Suc k) (n div 16) @ [hex_digit (n mod 16)])
      = map_option (\<lambda>m. m * 16 + n mod 16)
          (digits_value 16 0 (False \<or> hex_digits (Suc k) (n div 16) = [])
            (hex_digits (Suc k) (n div 16)))"
    by (rule digits_value_append_hex) (auto dest: hex_digits_hex simp: is_hex_hex_digit)
  with ih show ?case by simp
qed

lemma remove_all_no_head:
  "p \<notin> set s \<Longrightarrow> p \<in> set pat \<Longrightarrow> remove_all pat s = s"
proof (induction s)
  case Nil
  show ?case by (simp add: remove_all.simps)
next
  case (Cons c s)
  have "\<not> startswith (c # s) pat"
  proof
    assume "startswith (c # s) pat"
    then obtain t where "c # s = pat @ t" by (auto simp: startswith_iff)
    with Cons.prems show False by (metis Un_iff set_append)
  qed
  with Cons show ?case by (subst remove_all.simps) simp
qed

lemma strip_chars_idle:
  "s \<noteq> [] \<Longrightarrow> \<not> P (hd s) \<Longrightarrow> \<not> P (last s) \<Longrightarrow> strip_chars P s = s"
proof -
  assume s: "s \<noteq> []" "\<not> P (hd s)" "\<not> P (last s)"
  from s have fw: "dropWhile P s = s" by (cases s) simp_all
  obtain t where t: "rev s = last s # t"
    using s(1) by (metis append_butlast_last_id rev_eq_Cons_iff rev_rev_ident)
  have "dropWhile P (rev s) = rev s" unfolding t using s(3) by simp
  with fw show ?thesis by (simp add: strip_chars_def)
qed

lemma uuid_str_dashless:
  "filter (\<lambda>c. c \<noteq> CHR ''-'') (uuid_str u) = hex_digits 32 u"
proof -
  let ?h = "hex_digits 32 u"
  have h: "filter (\<lambda>c. c \<noteq> CHR ''-'') xs = xs" if "set xs \<subseteq> set ?h" for xs
    using that by (intro filter_True) (auto dest!: hex_digits_hex is_hex_not_special)
  have join: "take n (drop m ?h) @ drop (m + n) ?h = drop m ?h" for n m
    by (metis append_take_drop_id drop_drop add.commute)
  have "take 8 ?h @ take 4 (drop 8 ?h) @ take 4 (drop 12 ?h) @ take 4 (drop 16 ?h) @ drop 20 ?h
      = ?h"
    using join [of 8 0] join [of 4 8] join [of 4 12] join [of 4 16] by simp
  moreover have "set (take 4 (drop n ?h)) \<subseteq> set ?h" for n
    by (meson set_drop_subset set_take_subset subset_trans)
  ultimately show ?thesis
    by (simp add: uuid_str_def Let_def h set_take_subset set_drop_subset)
qed

lemma uuid_str_chars: "c \<in> set (uuid_str u) \<Longrightarrow> c = CHR ''-'' \<or> is_hex c"
proof -
  assume "c \<in> set (uuid_str u)"
  then have "c = CHR ''-'' \<or> c \<in> set (filter (\<lambda>c. c \<noteq> CHR ''-'') (uuid_str u))" by simp
  then show ?thesis by (auto simp: uuid_str_dashless dest: hex_digits_hex)
qed

lemma uuid_str_nonempty: "uuid_str u \<noteq> []"
  using uuid_str_dashless [of u] length_hex_digits [of 32 u] by (metis filter.simps(1) list.size(3) zero_neq_numeral)

lemma uuid_parse_str: "u < 2 ^ 128 \<Longrightarrow> uuid_parse (uuid_str u) = Inr u"
proof -
  assume u: "u < 2 ^ 128"
  let ?s = "uuid_str u" and ?h = "hex_digits 32 u"
  have ne: "?s \<noteq> []" by (rule uuid_str_nonempty)
  have nocolon: "CHR '':'' \<notin> set ?s"
    using uuid_str_chars is_hex_not_special by force
  have clean: "remove_all ''uuid:'' (remove_all ''urn:'' ?s) = ?s"
    using nocolon by (simp add: remove_all_no_head [where p = "CHR '':''"])
  have strip: "strip_chars (\<lambda>c. c = CHR ''{'' \<or> c = CHR ''}'') ?s = ?s"
  proof (rule strip_chars_idle [OF ne])
    have "c \<noteq> CHR ''{'' \<and> c \<noteq> CHR ''}''" if "c \<in> set ?s" for c
      using uuid_str_chars [OF that] is_hex_not_special by auto
    then show "\<not> (hd ?s = CHR ''{'' \<or> hd ?s = CHR ''}'')"
      and "\<not> (last ?s = CHR ''{'' \<or> last ?s = CHR ''}'')"
      using ne by (metis hd_in_set, metis last_in_set)
  qed
  have hs: "?h \<noteq> []" using length_hex_digits [of 32 u] by (metis list.size(3) zero_neq_numeral)
  have hd1: "is_hex (hd ?h)" using hs by (meson hd_in_set hex_digits_hex)
  have l1: "is_hex (last ?h)" using hs by (meson last_in_set hex_digits_hex)
  have sp: "strip_chars is_space ?h = ?h"
    using hs hd1 l1 is_hex_not_special by (intro strip_chars_idle) auto
  obtain a b cs where h: "?h = a # b # cs"
    using length_hex_digits [of 32 u] by (metis length_0_conv length_Suc_conv list.exhaust one_eq_numeral_iff
        list.size(3) list.size(4) One_nat_def add_0 semiring_norm(85) zero_neq_numeral plus_1_eq_Suc)
  have b: "is_hex a" "is_hex b" using hex_digits_hex [of _ 32 u] h by auto
  have nosign: "\<not> startswith ?h ''-''" "\<not> startswith ?h ''+''"
    and no0x: "skip_0x 16 ?h = ?h"
    using b is_hex_not_special unfolding h by (auto simp: startswith_def skip_0x_def)
  have s31: "Suc 31 = 32" by simp
  have "u < 16 ^ 32" using u by simp
  then have "digits_value 16 0 False ?h = Some u"
    using digits_value_hex_digits [of u 31, unfolded s31] by blast
  then have "py_int_text 16 ?h = Inr (int u)"
    by (simp add: py_int_text_def sp nosign no0x Let_def)
  moreover have "int u < 2 ^ 128" using u by (metis of_nat_less_iff of_nat_numeral of_nat_power)
  ultimately show ?thesis
    by (simp add: uuid_parse_def clean strip uuid_str_dashless Let_def)
qed

end
