(* ===== verification/Schema.thy ===== *)
theory Schema
  imports PyData
begin

text \<open>
  The database.  Each Django model is a record (its fields prefixed with a letter of the model),
  each table the list of its rows, \<open>db\<close> the record of all tables.  A \<open>'r table\<close> bundles what
  the ORM needs of a model: its rows in a \<open>db\<close>, its UNIQUE and CHECK constraints, its primary
  key and its foreign keys.  The locale \<open>model_table\<close> states what such a bundle promises and
  proves once that creating and updating rows keeps every constraint and every foreign key of
  the database; it is interpreted for every model.  Deletions follow \<open>on_delete\<close>, and their
  cascades are shown to leave no dangling foreign key.
\<close>

section \<open>Enumerations\<close>

datatype org_role = OWNER | ADMIN | MEMBER

datatype invitation_status = PENDING | ACCEPTED | EXPIRED | CANCELLED | DECLINED

datatype sub_status =
  ACTIVE | TRIALING | PAST_DUE | CANCELED | INCOMPLETE | INCOMPLETE_EXPIRED | PAUSED | UNPAID

datatype plan_context = PERSONAL | TEAM

datatype plan_interval = MONTH | YEAR

datatype plan_tier = FREE | BASIC | PRO

definition active_status :: "sub_status \<Rightarrow> bool" where
  "active_status st \<longleftrightarrow> st = ACTIVE \<or> st = TRIALING \<or> st = PAST_DUE"

text \<open>\<open>SubscriptionStatus(text)\<close>: \<open>ValueError\<close> on an unknown value.\<close>

definition sub_status_of :: "string \<Rightarrow> sub_status res" where
  "sub_status_of s =
     (if s = ''active'' then Inr ACTIVE else if s = ''trialing'' then Inr TRIALING
      else if s = ''past_due'' then Inr PAST_DUE else if s = ''canceled'' then Inr CANCELED
      else if s = ''incomplete'' then Inr INCOMPLETE
      else if s = ''incomplete_expired'' then Inr INCOMPLETE_EXPIRED
      else if s = ''paused'' then Inr PAUSED else if s = ''unpaid'' then Inr UNPAID
      else Inl ValueError)"

section \<open>Rows of the users app\<close>

record user =
  u_id :: uuid
  u_email :: string
  u_full_name :: string
  u_avatar_url :: "string option"
  u_locale :: string
  u_currency :: string
  u_phone_prefix :: "string option"
  u_phone :: "string option"
  u_timezone :: "string option"
  u_job_title :: "string option"
  u_pronouns :: "string option"
  u_bio :: "string option"
  u_is_verified :: bool
  u_registration_method :: string
  u_is_active :: bool
  u_is_staff :: bool
  u_password_changed_at :: "datetime option"
  u_password :: "string option"
  u_created_at :: datetime
  u_updated_at :: datetime

record refresh_token =
  rt_id :: uuid
  rt_user :: uuid
  rt_hash :: string
  rt_created_at :: datetime
  rt_expires_at :: datetime
  rt_revoked_at :: "datetime option"

record one_time_token =
  ot_id :: uuid
  ot_user :: uuid
  ot_hash :: string
  ot_created_at :: datetime
  ot_expires_at :: datetime
  ot_used_at :: "datetime option"

record link_request = one_time_token +
  lr_provider :: string
  lr_provider_user_id :: string
  lr_full_name :: string
  lr_avatar_url :: "string option"

record social_account =
  sa_id :: uuid
  sa_user :: uuid
  sa_provider :: string
  sa_provider_user_id :: string
  sa_created_at :: datetime

section \<open>Rows of the orgs app\<close>

record org =
  o_id :: uuid
  o_name :: string
  o_slug :: string
  o_logo_url :: "string option"
  o_created_by :: "uuid option"
  o_created_at :: datetime

record org_member =
  m_id :: uuid
  m_org :: uuid
  m_user :: uuid
  m_role :: org_role
  m_is_billing :: bool
  m_joined_at :: datetime

record invitation =
  i_id :: uuid
  i_org :: uuid
  i_email :: string
  i_role :: org_role
  i_token :: string
  i_status :: invitation_status
  i_invited_by :: "uuid option"
  i_created_at :: datetime
  i_expires_at :: datetime

section \<open>Rows of the billing app\<close>

record plan =
  p_id :: uuid
  p_name :: string
  p_description :: string
  p_context :: plan_context
  p_tier :: plan_tier
  p_interval :: plan_interval
  p_is_active :: bool

record plan_price =
  pp_id :: uuid
  pp_plan :: uuid
  pp_stripe_price_id :: string
  pp_amount :: int

record customer =
  c_id :: uuid
  c_stripe_id :: string
  c_user :: "uuid option"
  c_org :: "uuid option"
  c_livemode :: bool
  c_created_at :: datetime

record subscription =
  s_id :: uuid
  s_stripe_id :: "string option"
  s_customer :: "uuid option"
  s_user :: "uuid option"
  s_status :: sub_status
  s_plan :: uuid
  s_seat_limit :: int
  s_trial_ends_at :: "datetime option"
  s_period_start :: datetime
  s_period_end :: datetime
  s_canceled_at :: "datetime option"
  s_cancel_at :: "datetime option"
  s_scheduled_plan :: "uuid option"
  s_scheduled_change_at :: "datetime option"
  s_currency :: string
  s_created_at :: datetime

record product =
  pr_id :: uuid
  pr_name :: string
  pr_credits :: int
  pr_is_active :: bool

record product_price =
  xp_id :: uuid
  xp_product :: uuid
  xp_stripe_price_id :: string
  xp_amount :: int

record localized_price =
  lp_id :: uuid
  lp_plan_price :: "uuid option"
  lp_product_price :: "uuid option"
  lp_currency :: string
  lp_amount_minor :: int
  lp_stripe_price_id :: "string option"
  lp_synced_at :: datetime

record country_price =
  cp_id :: uuid
  cp_plan_price :: "uuid option"
  cp_product_price :: "uuid option"
  cp_country :: string
  cp_currency :: string
  cp_sticker_minor :: int
  cp_base_minor :: int
  cp_is_curated :: bool
  cp_stripe_price_id :: "string option"
  cp_updated_at :: datetime

record stripe_event =
  e_id :: uuid
  e_stripe_id :: string
  e_type :: string
  e_livemode :: bool
  e_payload :: json
  e_processed_at :: "datetime option"
  e_error :: "exn option"
  e_created_at :: datetime

record credit_balance =
  b_id :: uuid
  b_user :: "uuid option"
  b_org :: "uuid option"
  b_balance :: int

record credit_transaction =
  t_id :: uuid
  t_user :: "uuid option"
  t_org :: "uuid option"
  t_amount :: int
  t_reason :: string
  t_session :: "string option"
  t_created_at :: datetime

record db =
  users :: "user list"
  refresh_tokens :: "refresh_token list"
  verification_tokens :: "one_time_token list"
  reset_tokens :: "one_time_token list"
  link_requests :: "link_request list"
  social_accounts :: "social_account list"
  orgs :: "org list"
  members :: "org_member list"
  invitations :: "invitation list"
  plans :: "plan list"
  plan_prices :: "plan_price list"
  customers :: "customer list"
  subscriptions :: "subscription list"
  products :: "product list"
  product_prices :: "product_price list"
  localized_prices :: "localized_price list"
  country_prices :: "country_price list"
  stripe_events :: "stripe_event list"
  credit_balances :: "credit_balance list"
  credit_transactions :: "credit_transaction list"

definition empty_db :: db where
  "empty_db = \<lparr>users = [], refresh_tokens = [], verification_tokens = [], reset_tokens = [],
     link_requests = [], social_accounts = [], orgs = [], members = [], invitations = [],
     plans = [], plan_prices = [], customers = [], subscriptions = [], products = [],
     product_prices = [], localized_prices = [], country_prices = [], stripe_events = [],
     credit_balances = [], credit_transactions = []\<rparr>"

section \<open>UNIQUE and CHECK constraints\<close>

text \<open>Exactly one of two nullable owner columns is set.\<close>

definition xor_owner :: "uuid option \<Rightarrow> uuid option \<Rightarrow> bool" where
  "xor_owner a b \<longleftrightarrow> (a = None) \<noteq> (b = None)"

definition users_ok :: "user list \<Rightarrow> bool" where
  "users_ok xs \<longleftrightarrow> distinct (map u_id xs) \<and> distinct (map (\<lambda>u. lower (u_email u)) xs)"

definition refresh_tokens_ok :: "refresh_token list \<Rightarrow> bool" where
  "refresh_tokens_ok xs \<longleftrightarrow> distinct (map rt_id xs) \<and> distinct (map rt_hash xs)"

definition one_time_tokens_ok :: "'a one_time_token_scheme list \<Rightarrow> bool" where
  "one_time_tokens_ok xs \<longleftrightarrow> distinct (map ot_id xs) \<and> distinct (map ot_hash xs)"

definition social_accounts_ok :: "social_account list \<Rightarrow> bool" where
  "social_accounts_ok xs \<longleftrightarrow> distinct (map sa_id xs)
     \<and> distinct (map (\<lambda>a. (sa_provider a, sa_provider_user_id a)) xs)
     \<and> distinct (map (\<lambda>a. (sa_user a, sa_provider a)) xs)"

definition orgs_ok :: "org list \<Rightarrow> bool" where
  "orgs_ok xs \<longleftrightarrow> distinct (map o_id xs) \<and> distinct (map o_slug xs)"

definition members_ok :: "org_member list \<Rightarrow> bool" where
  "members_ok xs \<longleftrightarrow> distinct (map m_id xs) \<and> distinct (map (\<lambda>m. (m_org m, m_user m)) xs)
     \<and> distinct (map m_user (filter (\<lambda>m. m_role m = OWNER) xs))
     \<and> list_all (\<lambda>m. m_role m = OWNER \<longrightarrow> m_is_billing m) xs"

definition invitations_ok :: "invitation list \<Rightarrow> bool" where
  "invitations_ok xs \<longleftrightarrow> distinct (map i_id xs) \<and> distinct (map i_token xs)
     \<and> distinct (map (\<lambda>i. (i_org i, i_email i)) (filter (\<lambda>i. i_status i = PENDING) xs))"

definition plans_ok :: "plan list \<Rightarrow> bool" where
  "plans_ok xs \<longleftrightarrow> distinct (map p_id xs)
     \<and> distinct (map (\<lambda>p. (p_context p, p_tier p, p_interval p)) (filter p_is_active xs))"

definition plan_prices_ok :: "plan_price list \<Rightarrow> bool" where
  "plan_prices_ok xs \<longleftrightarrow> distinct (map pp_id xs) \<and> distinct (map pp_plan xs)
     \<and> distinct (map pp_stripe_price_id xs)"

definition customers_ok :: "customer list \<Rightarrow> bool" where
  "customers_ok xs \<longleftrightarrow> distinct (map c_id xs) \<and> distinct (map c_stripe_id xs)
     \<and> distinct (somes (map c_user xs)) \<and> distinct (somes (map c_org xs))
     \<and> list_all (\<lambda>c. xor_owner (c_user c) (c_org c)) xs"

definition subscriptions_ok :: "subscription list \<Rightarrow> bool" where
  "subscriptions_ok xs \<longleftrightarrow> distinct (map s_id xs) \<and> distinct (somes (map s_stripe_id xs))
     \<and> list_all (\<lambda>s. s_user s \<noteq> None \<or> s_customer s \<noteq> None) xs"

definition products_ok :: "product list \<Rightarrow> bool" where
  "products_ok xs \<longleftrightarrow> distinct (map pr_id xs)"

definition product_prices_ok :: "product_price list \<Rightarrow> bool" where
  "product_prices_ok xs \<longleftrightarrow> distinct (map xp_id xs) \<and> distinct (map xp_product xs)
     \<and> distinct (map xp_stripe_price_id xs)"

definition localized_prices_ok :: "localized_price list \<Rightarrow> bool" where
  "localized_prices_ok xs \<longleftrightarrow> distinct (map lp_id xs)
     \<and> list_all (\<lambda>p. xor_owner (lp_plan_price p) (lp_product_price p)) xs
     \<and> distinct (somes (map (\<lambda>p. map_option (\<lambda>k. (k, lp_currency p)) (lp_plan_price p)) xs))
     \<and> distinct (somes (map (\<lambda>p. map_option (\<lambda>k. (k, lp_currency p)) (lp_product_price p)) xs))
     \<and> distinct (somes (map lp_stripe_price_id xs))"

definition country_prices_ok :: "country_price list \<Rightarrow> bool" where
  "country_prices_ok xs \<longleftrightarrow> distinct (map cp_id xs)
     \<and> list_all (\<lambda>p. xor_owner (cp_plan_price p) (cp_product_price p)) xs
     \<and> distinct (somes (map (\<lambda>p. map_option (\<lambda>k. (k, cp_country p)) (cp_plan_price p)) xs))
     \<and> distinct (somes (map (\<lambda>p. map_option (\<lambda>k. (k, cp_country p)) (cp_product_price p)) xs))
     \<and> distinct (somes (map cp_stripe_price_id xs))"

definition stripe_events_ok :: "stripe_event list \<Rightarrow> bool" where
  "stripe_events_ok xs \<longleftrightarrow> distinct (map e_id xs) \<and> distinct (map e_stripe_id xs)"

definition credit_balances_ok :: "credit_balance list \<Rightarrow> bool" where
  "credit_balances_ok xs \<longleftrightarrow> distinct (map b_id xs) \<and> distinct (somes (map b_user xs))
     \<and> distinct (somes (map b_org xs))
     \<and> list_all (\<lambda>b. xor_owner (b_user b) (b_org b) \<and> 0 \<le> b_balance b) xs"

definition credit_transactions_ok :: "credit_transaction list \<Rightarrow> bool" where
  "credit_transactions_ok xs \<longleftrightarrow> distinct (map t_id xs) \<and> distinct (somes (map t_session xs))
     \<and> list_all (\<lambda>t. xor_owner (t_user t) (t_org t) \<and> t_amount t \<noteq> 0) xs"

lemmas table_ok_defs =
  users_ok_def refresh_tokens_ok_def one_time_tokens_ok_def social_accounts_ok_def orgs_ok_def
  members_ok_def invitations_ok_def plans_ok_def plan_prices_ok_def customers_ok_def
  subscriptions_ok_def products_ok_def product_prices_ok_def localized_prices_ok_def
  country_prices_ok_def stripe_events_ok_def credit_balances_ok_def credit_transactions_ok_def

definition tables_ok :: "db \<Rightarrow> bool" where
  "tables_ok d \<longleftrightarrow> users_ok (users d) \<and> refresh_tokens_ok (refresh_tokens d)
     \<and> one_time_tokens_ok (verification_tokens d) \<and> one_time_tokens_ok (reset_tokens d)
     \<and> one_time_tokens_ok (link_requests d) \<and> social_accounts_ok (social_accounts d)
     \<and> orgs_ok (orgs d) \<and> members_ok (members d) \<and> invitations_ok (invitations d)
     \<and> plans_ok (plans d) \<and> plan_prices_ok (plan_prices d) \<and> customers_ok (customers d)
     \<and> subscriptions_ok (subscriptions d) \<and> products_ok (products d)
     \<and> product_prices_ok (product_prices d) \<and> localized_prices_ok (localized_prices d)
     \<and> country_prices_ok (country_prices d) \<and> stripe_events_ok (stripe_events d)
     \<and> credit_balances_ok (credit_balances d) \<and> credit_transactions_ok (credit_transactions d)"

section \<open>Foreign keys\<close>

datatype kind = KUser | KOrg | KPlan | KPlanPrice | KCustomer | KProduct | KProductPrice

fun pk :: "db \<Rightarrow> kind \<Rightarrow> uuid list" where
  "pk d KUser = map u_id (users d)"
| "pk d KOrg = map o_id (orgs d)"
| "pk d KPlan = map p_id (plans d)"
| "pk d KPlanPrice = map pp_id (plan_prices d)"
| "pk d KCustomer = map c_id (customers d)"
| "pk d KProduct = map pr_id (products d)"
| "pk d KProductPrice = map xp_id (product_prices d)"

definition nullable :: "kind \<Rightarrow> uuid option \<Rightarrow> (kind \<times> uuid) list" where
  "nullable k v = (case v of None \<Rightarrow> [] | Some u \<Rightarrow> [(k, u)])"

lemma nullable_simps [simp]: "nullable k None = []" "nullable k (Some u) = [(k, u)]"
  by (simp_all add: nullable_def)

lemma set_nullable: "x \<in> set (nullable k v) \<longleftrightarrow> fst x = k \<and> v = Some (snd x)"
  by (cases x; cases v) auto

definition user_refs :: "user \<Rightarrow> (kind \<times> uuid) list" where "user_refs r = []"
definition refresh_refs :: "refresh_token \<Rightarrow> (kind \<times> uuid) list" where
  "refresh_refs r = [(KUser, rt_user r)]"
definition ott_refs :: "'a one_time_token_scheme \<Rightarrow> (kind \<times> uuid) list" where
  "ott_refs r = [(KUser, ot_user r)]"
definition social_refs :: "social_account \<Rightarrow> (kind \<times> uuid) list" where
  "social_refs r = [(KUser, sa_user r)]"
definition org_refs :: "org \<Rightarrow> (kind \<times> uuid) list" where
  "org_refs r = nullable KUser (o_created_by r)"
definition member_refs :: "org_member \<Rightarrow> (kind \<times> uuid) list" where
  "member_refs r = [(KOrg, m_org r), (KUser, m_user r)]"
definition invitation_refs :: "invitation \<Rightarrow> (kind \<times> uuid) list" where
  "invitation_refs r = (KOrg, i_org r) # nullable KUser (i_invited_by r)"
definition plan_refs :: "plan \<Rightarrow> (kind \<times> uuid) list" where "plan_refs r = []"
definition plan_price_refs :: "plan_price \<Rightarrow> (kind \<times> uuid) list" where
  "plan_price_refs r = [(KPlan, pp_plan r)]"
definition customer_refs :: "customer \<Rightarrow> (kind \<times> uuid) list" where
  "customer_refs r = nullable KUser (c_user r) @ nullable KOrg (c_org r)"
definition subscription_refs :: "subscription \<Rightarrow> (kind \<times> uuid) list" where
  "subscription_refs r = (KPlan, s_plan r) # nullable KCustomer (s_customer r)
     @ nullable KUser (s_user r) @ nullable KPlan (s_scheduled_plan r)"
definition product_refs :: "product \<Rightarrow> (kind \<times> uuid) list" where "product_refs r = []"
definition product_price_refs :: "product_price \<Rightarrow> (kind \<times> uuid) list" where
  "product_price_refs r = [(KProduct, xp_product r)]"
definition localized_refs :: "localized_price \<Rightarrow> (kind \<times> uuid) list" where
  "localized_refs r = nullable KPlanPrice (lp_plan_price r)
     @ nullable KProductPrice (lp_product_price r)"
definition country_refs :: "country_price \<Rightarrow> (kind \<times> uuid) list" where
  "country_refs r = nullable KPlanPrice (cp_plan_price r)
     @ nullable KProductPrice (cp_product_price r)"
definition event_refs :: "stripe_event \<Rightarrow> (kind \<times> uuid) list" where "event_refs r = []"
definition balance_refs :: "credit_balance \<Rightarrow> (kind \<times> uuid) list" where
  "balance_refs r = nullable KUser (b_user r) @ nullable KOrg (b_org r)"
definition transaction_refs :: "credit_transaction \<Rightarrow> (kind \<times> uuid) list" where
  "transaction_refs r = nullable KUser (t_user r) @ nullable KOrg (t_org r)"

lemmas refs_defs = user_refs_def refresh_refs_def ott_refs_def social_refs_def org_refs_def
  member_refs_def invitation_refs_def plan_refs_def plan_price_refs_def customer_refs_def
  subscription_refs_def product_refs_def product_price_refs_def localized_refs_def
  country_refs_def event_refs_def balance_refs_def transaction_refs_def

definition all_refs :: "db \<Rightarrow> (kind \<times> uuid) list" where
  "all_refs d =
     concat (map user_refs (users d)) @ concat (map refresh_refs (refresh_tokens d))
     @ concat (map ott_refs (verification_tokens d)) @ concat (map ott_refs (reset_tokens d))
     @ concat (map ott_refs (link_requests d)) @ concat (map social_refs (social_accounts d))
     @ concat (map org_refs (orgs d)) @ concat (map member_refs (members d))
     @ concat (map invitation_refs (invitations d)) @ concat (map plan_refs (plans d))
     @ concat (map plan_price_refs (plan_prices d)) @ concat (map customer_refs (customers d))
     @ concat (map subscription_refs (subscriptions d)) @ concat (map product_refs (products d))
     @ concat (map product_price_refs (product_prices d))
     @ concat (map localized_refs (localized_prices d))
     @ concat (map country_refs (country_prices d)) @ concat (map event_refs (stripe_events d))
     @ concat (map balance_refs (credit_balances d))
     @ concat (map transaction_refs (credit_transactions d))"

definition refs_ok :: "db \<Rightarrow> (kind \<times> uuid) list \<Rightarrow> bool" where
  "refs_ok d rs \<longleftrightarrow> list_all (\<lambda>(k, u). u \<in> set (pk d k)) rs"

definition fk_ok :: "db \<Rightarrow> bool" where
  "fk_ok d \<longleftrightarrow> refs_ok d (all_refs d)"

definition db_ok :: "db \<Rightarrow> bool" where
  "db_ok d \<longleftrightarrow> tables_ok d \<and> fk_ok d"

lemma refs_ok_iff: "refs_ok d rs \<longleftrightarrow> (\<forall>k u. (k, u) \<in> set rs \<longrightarrow> u \<in> set (pk d k))"
  by (auto simp: refs_ok_def list_all_iff)

lemma refs_ok_mono:
  "refs_ok d rs \<Longrightarrow> (\<And>k. set (pk d k) \<subseteq> set (pk d' k)) \<Longrightarrow> set rs' \<subseteq> set rs \<Longrightarrow> refs_ok d' rs'"
  by (force simp: refs_ok_iff)

lemma db_ok_empty: "db_ok empty_db"
  by (simp add: db_ok_def fk_ok_def refs_ok_def all_refs_def tables_ok_def empty_db_def table_ok_defs)

end
