(* ===== verification/Store.thy ===== *)
theory Store
  imports Schema
begin

text \<open>
  The running system: the database, the clock, the source of fresh identifiers and random
  tokens, the transaction bookkeeping (\<open>hooks\<close> are the \<open>on_commit\<close> callbacks of the open
  transaction), the Celery queue, the log of the calls sent to Stripe, and the shared cache.

  Everything outside the repository is a field of \<open>env\<close>: the answers of the Stripe API (a
  function of the calls already made and the call), the password hasher, SHA-256, Django's
  \<open>slugify\<close>, and the settings.  One operation runs at one instant of the clock; time passes
  between operations.
\<close>

section \<open>Calls to Stripe and queued tasks\<close>

record checkout_params =
  k_customer :: string
  k_client_reference_id :: string
  k_mode :: string
  k_price :: string
  k_quantity :: int
  k_locale :: string
  k_success_url :: string
  k_cancel_url :: string
  k_allow_promotion_codes :: bool
  k_adaptive_pricing :: bool
  k_automatic_tax :: bool
  k_tax_id_collection :: bool
  k_customer_update_address :: string
  k_metadata :: "(string \<times> string) list option"
  k_trial_period_days :: "int option"

record schedule_phase =
  ph_price :: string
  ph_quantity :: int
  ph_start :: int
  ph_end :: "int option"
  ph_proration :: string

record price_params =
  np_product :: string
  np_unit_amount :: int
  np_currency :: string
  np_lookup_key :: string
  np_interval :: "string option"
  np_metadata :: "(string \<times> string) list"

datatype stripe_call =
    CustomerCreate string "string option" string "(string \<times> string) list"
  | CustomerDelete string
  | SubRetrieve string
  | SubModifyCancelAt string string
  | SubModifyItem string string "string option" int string
      \<comment> \<open>subscription, item id, price, quantity, proration behaviour\<close>
  | SubCancel string "bool option"
  | SchedRetrieve string
  | SchedRelease string
  | SchedCreate string
  | SchedModify string string "schedule_phase list"
  | PriceRetrieve string
  | CheckoutCreate checkout_params
  | PortalCreate string string string "json option"
  | PriceList "string list"
  | PriceCreate price_params
  | PriceArchive string
  | PriceSetExclusive string
  | ProductCreate string "string option" "(string \<times> string) list"
  | ProductModify string "string option" "string option" "(string \<times> string) list option"
  | ProductArchive string
  | ProductListActive
  | ActivePricesOfProduct string
  | ActiveSubscriptionsOf string

datatype task =
    ProcessStripeWebhook uuid
  | DeleteOrgOnSubscriptionCancel uuid
  | CancelStripeSubs "string list" string
  | SendInvitationEmail string string string string
  | SendVerificationEmail string string
  | SendPasswordResetEmail string string
  | SendSocialLinkEmail string string string
  | SendSubscriptionCancelNotice "string list" string string

datatype cache_value = CachedUser user | CachedTokens string string | CachedOne

record world =
  db :: db
  clock :: datetime
  id_supply :: "nat \<Rightarrow> nat"
  text_supply :: "nat \<Rightarrow> string"
  drawn :: nat
  in_atomic :: bool
  hooks :: "task list"
  queue :: "task list"
  calls :: "stripe_call list"
  cache :: "string \<Rightarrow> (cache_value \<times> datetime) option"

record env =
  stripe :: "stripe_call list \<Rightarrow> stripe_call \<Rightarrow> exn + json"
  sha256 :: "string \<Rightarrow> string"
  make_password :: "string \<Rightarrow> string"
  check_password :: "string \<Rightarrow> string \<Rightarrow> bool"
  normalize_email :: "string \<Rightarrow> string"
  slugify :: "string \<Rightarrow> string"
  billing_currencies :: "string list"
  stripe_secret_key :: string

type_synonym 'a io = "(world, exn, 'a) prog"

section \<open>Models\<close>

record 'r table =
  t_get :: "db \<Rightarrow> 'r list"
  t_set :: "'r list \<Rightarrow> db \<Rightarrow> db"
  t_ok :: "'r list \<Rightarrow> bool"
  t_pk :: "'r \<Rightarrow> uuid"
  t_refs :: "'r \<Rightarrow> (kind \<times> uuid) list"

text \<open>\<open>Model.objects.create(\<dots>)\<close>: the database rejects a row that breaks a constraint.\<close>

definition create_row :: "'r table \<Rightarrow> 'r \<Rightarrow> unit io" where
  "create_row T r = (\<lambda>w.
     if t_ok T (t_get T (db w) @ [r]) \<and> refs_ok (db w) (t_refs T r)
     then (Inr (), w\<lparr>db := t_set T (t_get T (db w) @ [r]) (db w)\<rparr>)
     else (Inl IntegrityError, w))"

text \<open>\<open>Model.objects.filter(P).update(\<dots>)\<close>, and \<open>row.save(update_fields=\<dots>)\<close> by primary key.\<close>

definition update_rows :: "'r table \<Rightarrow> ('r \<Rightarrow> bool) \<Rightarrow> ('r \<Rightarrow> 'r) \<Rightarrow> unit io" where
  "update_rows T P f = (\<lambda>w.
     let xs = update_where P f (t_get T (db w)) in
     if t_ok T xs \<and> list_all (\<lambda>r. P r \<longrightarrow> refs_ok (db w) (t_refs T (f r))) (t_get T (db w))
     then (Inr (), w\<lparr>db := t_set T xs (db w)\<rparr>)
     else (Inl IntegrityError, w))"

definition save_row :: "'r table \<Rightarrow> uuid \<Rightarrow> ('r \<Rightarrow> 'r) \<Rightarrow> unit io" where
  "save_row T k f = update_rows T (\<lambda>r. t_pk T r = k) f"

text \<open>\<open>Model.objects.filter(P).first()\<close> without an ordering: the least primary key.\<close>

definition rows :: "'r table \<Rightarrow> ('r \<Rightarrow> bool) \<Rightarrow> 'r list io" where
  "rows T P = mgets (\<lambda>w. filter P (t_get T (db w)))"

definition first_row :: "'r table \<Rightarrow> ('r \<Rightarrow> bool) \<Rightarrow> 'r option io" where
  "first_row T P = mgets (\<lambda>w. first_by (t_pk T) (filter P (t_get T (db w))))"

definition exists_row :: "'r table \<Rightarrow> ('r \<Rightarrow> bool) \<Rightarrow> bool io" where
  "exists_row T P = mgets (\<lambda>w. list_ex P (t_get T (db w)))"

definition count_rows :: "'r table \<Rightarrow> ('r \<Rightarrow> bool) \<Rightarrow> nat io" where
  "count_rows T P = mgets (\<lambda>w. length (filter P (t_get T (db w))))"

text \<open>\<open>Model.objects.get(\<dots>)\<close> on a condition that the constraints make unique.\<close>

definition get_row :: "'r table \<Rightarrow> ('r \<Rightarrow> bool) \<Rightarrow> exn \<Rightarrow> 'r io" where
  "get_row T P e = mbind (first_row T P) (\<lambda>r. case r of None \<Rightarrow> mraise e | Some x \<Rightarrow> mret x)"

lemma rows_run [simp, run_simps]: "rows T P w = (Inr (filter P (t_get T (db w))), w)"
  by (simp add: rows_def)

lemma first_row_run [simp, run_simps]:
  "first_row T P w = (Inr (first_by (t_pk T) (filter P (t_get T (db w)))), w)"
  by (simp add: first_row_def)

lemma exists_row_run [simp, run_simps]:
  "exists_row T P w = (Inr (list_ex P (t_get T (db w))), w)"
  by (simp add: exists_row_def)

lemma count_rows_run [simp, run_simps]:
  "count_rows T P w = (Inr (length (filter P (t_get T (db w)))), w)"
  by (simp add: count_rows_def)

lemma get_row_run [simp, run_simps]:
  "get_row T P e w = (case first_by (t_pk T) (filter P (t_get T (db w))) of
     None \<Rightarrow> (Inl e, w) | Some x \<Rightarrow> (Inr x, w))"
  by (simp add: get_row_def mbind_run split: option.splits)

lemma keeps_reads [keeps_intros]:
  "keeps Q (rows T P)" "keeps Q (first_row T P)" "keeps Q (exists_row T P)"
  "keeps Q (count_rows T P)" "keeps Q (get_row T P e)"
  by (auto simp: keeps_def split: option.splits)

text \<open>What a model promises to the rest of the database.\<close>

locale model_table =
  fixes T :: "'r table"
  assumes get_set: "t_get T (t_set T xs d) = xs"
    and set_get: "t_set T (t_get T d) d = d"
    and refs_set: "set (all_refs (t_set T xs d))
        \<subseteq> set (all_refs d) \<union> (\<Union>r\<in>set xs. set (t_refs T r))"
    and refs_get: "r \<in> set (t_get T d) \<Longrightarrow> set (t_refs T r) \<subseteq> set (all_refs d)"
    and pk_set: "set (map (t_pk T) (t_get T d)) \<subseteq> set (map (t_pk T) xs)
        \<Longrightarrow> set (pk d k) \<subseteq> set (pk (t_set T xs d) k)"
    and ok_set: "tables_ok d \<Longrightarrow> t_ok T xs \<Longrightarrow> tables_ok (t_set T xs d)"
    and ok_get: "tables_ok d \<Longrightarrow> t_ok T (t_get T d)"
begin

lemma replace_ok:
  assumes "db_ok d" and "t_ok T xs"
    and "set (map (t_pk T) (t_get T d)) \<subseteq> set (map (t_pk T) xs)"
    and "\<And>r. r \<in> set xs \<Longrightarrow> r \<in> set (t_get T d) \<or> refs_ok d (t_refs T r)"
  shows "db_ok (t_set T xs d)"
proof -
  have old: "refs_ok d (all_refs d)" using assms(1) by (simp add: db_ok_def fk_ok_def)
  have "refs_ok d (t_refs T r)" if "r \<in> set xs" for r
    using assms(4) [OF that] refs_get [of r d] old by (auto simp: refs_ok_iff)
  with old have "refs_ok d (all_refs (t_set T xs d))"
    using refs_set [of xs d] by (fastforce simp: refs_ok_iff)
  then have "refs_ok (t_set T xs d) (all_refs (t_set T xs d))"
    by (rule refs_ok_mono) (use pk_set [OF assms(3)] in auto)
  with assms(1,2) show ?thesis
    using ok_set [of d xs] by (simp add: db_ok_def fk_ok_def)
qed

lemma create_row_ok: "keeps (\<lambda>w. db_ok (db w)) (create_row T r)"
  by (rule keepsI) (auto simp: create_row_def get_set intro!: replace_ok)

lemma update_rows_ok:
  assumes "\<And>r. t_pk T (f r) = t_pk T r"
  shows "keeps (\<lambda>w. db_ok (db w)) (update_rows T P f)"
proof (rule keepsI)
  fix w :: world assume ok: "db_ok (db w)"
  show "db_ok (db (snd (update_rows T P f w)))"
  proof (cases "t_ok T (update_where P f (t_get T (db w)))
      \<and> list_all (\<lambda>r. P r \<longrightarrow> refs_ok (db w) (t_refs T (f r))) (t_get T (db w))")
    case True
    have "map (t_pk T) (update_where P f (t_get T (db w))) = map (t_pk T) (t_get T (db w))"
      using assms by (rule map_update_where)
    with True ok show ?thesis
      by (auto simp: update_rows_def Let_def list_all_iff dest!: update_where_mem
          intro!: replace_ok)
  qed (use ok in \<open>auto simp: update_rows_def Let_def\<close>)
qed

lemma save_row_ok:
  "(\<And>r. t_pk T (f r) = t_pk T r) \<Longrightarrow> keeps (\<lambda>w. db_ok (db w)) (save_row T k f)"
  unfolding save_row_def by (rule update_rows_ok)

text \<open>The row that was created is read back.\<close>

lemma create_row_reads:
  "create_row T r w = (Inr (), w') \<Longrightarrow> t_get T (db w') = t_get T (db w) @ [r]"
  by (auto simp: create_row_def get_set split: if_splits)

lemma update_rows_reads:
  "update_rows T P f w = (Inr (), w') \<Longrightarrow> t_get T (db w') = update_where P f (t_get T (db w))"
  by (auto simp: update_rows_def get_set Let_def split: if_splits)

end

lemma model_table_intro:
  assumes "\<And>xs d. t_get T (t_set T xs d) = xs"
    and "\<And>d. t_set T (t_get T d) d = d"
    and "\<And>xs d. set (all_refs (t_set T xs d))
        \<subseteq> set (all_refs d) \<union> (\<Union>r\<in>set xs. set (t_refs T r))"
    and "\<And>r d. r \<in> set (t_get T d) \<Longrightarrow> set (t_refs T r) \<subseteq> set (all_refs d)"
    and "\<And>d xs k. set (map (t_pk T) (t_get T d)) \<subseteq> set (map (t_pk T) xs)
        \<Longrightarrow> set (pk d k) \<subseteq> set (pk (t_set T xs d) k)"
    and "\<And>d xs. tables_ok d \<Longrightarrow> t_ok T xs \<Longrightarrow> tables_ok (t_set T xs d)"
    and "\<And>d. tables_ok d \<Longrightarrow> t_ok T (t_get T d)"
  shows "model_table T"
  using assms by unfold_locales

section \<open>The models of the program\<close>

text \<open>\<open>all_refs\<close> is a union of one block per table; replacing a table changes one block.\<close>

lemma block_skip: "B \<subseteq> D \<union> X \<Longrightarrow> A \<union> B \<subseteq> A \<union> D \<union> X"
  by blast

lemma block_here: "X \<union> B \<subseteq> A \<union> B \<union> X"
  by blast

lemmas block_rules = block_skip block_here Un_upper2

definition users_T :: "user table" where
  "users_T = \<lparr>t_get = users, t_set = (\<lambda>xs d. d\<lparr>users := xs\<rparr>),
     t_ok = users_ok, t_pk = u_id, t_refs = user_refs\<rparr>"

definition refresh_tokens_T :: "refresh_token table" where
  "refresh_tokens_T = \<lparr>t_get = refresh_tokens, t_set = (\<lambda>xs d. d\<lparr>refresh_tokens := xs\<rparr>),
     t_ok = refresh_tokens_ok, t_pk = rt_id, t_refs = refresh_refs\<rparr>"

definition verification_tokens_T :: "one_time_token table" where
  "verification_tokens_T = \<lparr>t_get = verification_tokens, t_set = (\<lambda>xs d. d\<lparr>verification_tokens := xs\<rparr>),
     t_ok = one_time_tokens_ok, t_pk = ot_id, t_refs = ott_refs\<rparr>"

definition reset_tokens_T :: "one_time_token table" where
  "reset_tokens_T = \<lparr>t_get = reset_tokens, t_set = (\<lambda>xs d. d\<lparr>reset_tokens := xs\<rparr>),
     t_ok = one_time_tokens_ok, t_pk = ot_id, t_refs = ott_refs\<rparr>"

definition link_requests_T :: "link_request table" where
  "link_requests_T = \<lparr>t_get = link_requests, t_set = (\<lambda>xs d. d\<lparr>link_requests := xs\<rparr>),
     t_ok = one_time_tokens_ok, t_pk = ot_id, t_refs = ott_refs\<rparr>"

definition social_accounts_T :: "social_account table" where
  "social_accounts_T = \<lparr>t_get = social_accounts, t_set = (\<lambda>xs d. d\<lparr>social_accounts := xs\<rparr>),
     t_ok = social_accounts_ok, t_pk = sa_id, t_refs = social_refs\<rparr>"

definition orgs_T :: "org table" where
  "orgs_T = \<lparr>t_get = orgs, t_set = (\<lambda>xs d. d\<lparr>orgs := xs\<rparr>),
     t_ok = orgs_ok, t_pk = o_id, t_refs = org_refs\<rparr>"

definition members_T :: "org_member table" where
  "members_T = \<lparr>t_get = members, t_set = (\<lambda>xs d. d\<lparr>members := xs\<rparr>),
     t_ok = members_ok, t_pk = m_id, t_refs = member_refs\<rparr>"

definition invitations_T :: "invitation table" where
  "invitations_T = \<lparr>t_get = invitations, t_set = (\<lambda>xs d. d\<lparr>invitations := xs\<rparr>),
     t_ok = invitations_ok, t_pk = i_id, t_refs = invitation_refs\<rparr>"

definition plans_T :: "plan table" where
  "plans_T = \<lparr>t_get = plans, t_set = (\<lambda>xs d. d\<lparr>plans := xs\<rparr>),
     t_ok = plans_ok, t_pk = p_id, t_refs = plan_refs\<rparr>"

definition plan_prices_T :: "plan_price table" where
  "plan_prices_T = \<lparr>t_get = plan_prices, t_set = (\<lambda>xs d. d\<lparr>plan_prices := xs\<rparr>),
     t_ok = plan_prices_ok, t_pk = pp_id, t_refs = plan_price_refs\<rparr>"

definition customers_T :: "customer table" where
  "customers_T = \<lparr>t_get = customers, t_set = (\<lambda>xs d. d\<lparr>customers := xs\<rparr>),
     t_ok = customers_ok, t_pk = c_id, t_refs = customer_refs\<rparr>"

definition subscriptions_T :: "subscription table" where
  "subscriptions_T = \<lparr>t_get = subscriptions, t_set = (\<lambda>xs d. d\<lparr>subscriptions := xs\<rparr>),
     t_ok = subscriptions_ok, t_pk = s_id, t_refs = subscription_refs\<rparr>"

definition products_T :: "product table" where
  "products_T = \<lparr>t_get = products, t_set = (\<lambda>xs d. d\<lparr>products := xs\<rparr>),
     t_ok = products_ok, t_pk = pr_id, t_refs = product_refs\<rparr>"

definition product_prices_T :: "product_price table" where
  "product_prices_T = \<lparr>t_get = product_prices, t_set = (\<lambda>xs d. d\<lparr>product_prices := xs\<rparr>),
     t_ok = product_prices_ok, t_pk = xp_id, t_refs = product_price_refs\<rparr>"

definition localized_prices_T :: "localized_price table" where
  "localized_prices_T = \<lparr>t_get = localized_prices, t_set = (\<lambda>xs d. d\<lparr>localized_prices := xs\<rparr>),
     t_ok = localized_prices_ok, t_pk = lp_id, t_refs = localized_refs\<rparr>"

definition country_prices_T :: "country_price table" where
  "country_prices_T = \<lparr>t_get = country_prices, t_set = (\<lambda>xs d. d\<lparr>country_prices := xs\<rparr>),
     t_ok = country_prices_ok, t_pk = cp_id, t_refs = country_refs\<rparr>"

definition stripe_events_T :: "stripe_event table" where
  "stripe_events_T = \<lparr>t_get = stripe_events, t_set = (\<lambda>xs d. d\<lparr>stripe_events := xs\<rparr>),
     t_ok = stripe_events_ok, t_pk = e_id, t_refs = event_refs\<rparr>"

definition credit_balances_T :: "credit_balance table" where
  "credit_balances_T = \<lparr>t_get = credit_balances, t_set = (\<lambda>xs d. d\<lparr>credit_balances := xs\<rparr>),
     t_ok = credit_balances_ok, t_pk = b_id, t_refs = balance_refs\<rparr>"

definition credit_transactions_T :: "credit_transaction table" where
  "credit_transactions_T = \<lparr>t_get = credit_transactions, t_set = (\<lambda>xs d. d\<lparr>credit_transactions := xs\<rparr>),
     t_ok = credit_transactions_ok, t_pk = t_id, t_refs = transaction_refs\<rparr>"

lemmas table_defs =
  users_T_def refresh_tokens_T_def verification_tokens_T_def reset_tokens_T_def link_requests_T_def social_accounts_T_def orgs_T_def members_T_def invitations_T_def plans_T_def plan_prices_T_def customers_T_def subscriptions_T_def products_T_def product_prices_T_def localized_prices_T_def country_prices_T_def stripe_events_T_def credit_balances_T_def credit_transactions_T_def

lemma table_simps [simp]:
  "t_get users_T = users" "t_set users_T = (\<lambda>xs d. d\<lparr>users := xs\<rparr>)"
  "t_ok users_T = users_ok" "t_pk users_T = u_id" "t_refs users_T = user_refs"
  "t_get refresh_tokens_T = refresh_tokens" "t_set refresh_tokens_T = (\<lambda>xs d. d\<lparr>refresh_tokens := xs\<rparr>)"
  "t_ok refresh_tokens_T = refresh_tokens_ok" "t_pk refresh_tokens_T = rt_id" "t_refs refresh_tokens_T = refresh_refs"
  "t_get verification_tokens_T = verification_tokens" "t_set verification_tokens_T = (\<lambda>xs d. d\<lparr>verification_tokens := xs\<rparr>)"
  "t_ok verification_tokens_T = one_time_tokens_ok" "t_pk verification_tokens_T = ot_id" "t_refs verification_tokens_T = ott_refs"
  "t_get reset_tokens_T = reset_tokens" "t_set reset_tokens_T = (\<lambda>xs d. d\<lparr>reset_tokens := xs\<rparr>)"
  "t_ok reset_tokens_T = one_time_tokens_ok" "t_pk reset_tokens_T = ot_id" "t_refs reset_tokens_T = ott_refs"
  "t_get link_requests_T = link_requests" "t_set link_requests_T = (\<lambda>xs d. d\<lparr>link_requests := xs\<rparr>)"
  "t_ok link_requests_T = one_time_tokens_ok" "t_pk link_requests_T = ot_id" "t_refs link_requests_T = ott_refs"
  "t_get social_accounts_T = social_accounts" "t_set social_accounts_T = (\<lambda>xs d. d\<lparr>social_accounts := xs\<rparr>)"
  "t_ok social_accounts_T = social_accounts_ok" "t_pk social_accounts_T = sa_id" "t_refs social_accounts_T = social_refs"
  "t_get orgs_T = orgs" "t_set orgs_T = (\<lambda>xs d. d\<lparr>orgs := xs\<rparr>)"
  "t_ok orgs_T = orgs_ok" "t_pk orgs_T = o_id" "t_refs orgs_T = org_refs"
  "t_get members_T = members" "t_set members_T = (\<lambda>xs d. d\<lparr>members := xs\<rparr>)"
  "t_ok members_T = members_ok" "t_pk members_T = m_id" "t_refs members_T = member_refs"
  "t_get invitations_T = invitations" "t_set invitations_T = (\<lambda>xs d. d\<lparr>invitations := xs\<rparr>)"
  "t_ok invitations_T = invitations_ok" "t_pk invitations_T = i_id" "t_refs invitations_T = invitation_refs"
  "t_get plans_T = plans" "t_set plans_T = (\<lambda>xs d. d\<lparr>plans := xs\<rparr>)"
  "t_ok plans_T = plans_ok" "t_pk plans_T = p_id" "t_refs plans_T = plan_refs"
  "t_get plan_prices_T = plan_prices" "t_set plan_prices_T = (\<lambda>xs d. d\<lparr>plan_prices := xs\<rparr>)"
  "t_ok plan_prices_T = plan_prices_ok" "t_pk plan_prices_T = pp_id" "t_refs plan_prices_T = plan_price_refs"
  "t_get customers_T = customers" "t_set customers_T = (\<lambda>xs d. d\<lparr>customers := xs\<rparr>)"
  "t_ok customers_T = customers_ok" "t_pk customers_T = c_id" "t_refs customers_T = customer_refs"
  "t_get subscriptions_T = subscriptions" "t_set subscriptions_T = (\<lambda>xs d. d\<lparr>subscriptions := xs\<rparr>)"
  "t_ok subscriptions_T = subscriptions_ok" "t_pk subscriptions_T = s_id" "t_refs subscriptions_T = subscription_refs"
  "t_get products_T = products" "t_set products_T = (\<lambda>xs d. d\<lparr>products := xs\<rparr>)"
  "t_ok products_T = products_ok" "t_pk products_T = pr_id" "t_refs products_T = product_refs"
  "t_get product_prices_T = product_prices" "t_set product_prices_T = (\<lambda>xs d. d\<lparr>product_prices := xs\<rparr>)"
  "t_ok product_prices_T = product_prices_ok" "t_pk product_prices_T = xp_id" "t_refs product_prices_T = product_price_refs"
  "t_get localized_prices_T = localized_prices" "t_set localized_prices_T = (\<lambda>xs d. d\<lparr>localized_prices := xs\<rparr>)"
  "t_ok localized_prices_T = localized_prices_ok" "t_pk localized_prices_T = lp_id" "t_refs localized_prices_T = localized_refs"
  "t_get country_prices_T = country_prices" "t_set country_prices_T = (\<lambda>xs d. d\<lparr>country_prices := xs\<rparr>)"
  "t_ok country_prices_T = country_prices_ok" "t_pk country_prices_T = cp_id" "t_refs country_prices_T = country_refs"
  "t_get stripe_events_T = stripe_events" "t_set stripe_events_T = (\<lambda>xs d. d\<lparr>stripe_events := xs\<rparr>)"
  "t_ok stripe_events_T = stripe_events_ok" "t_pk stripe_events_T = e_id" "t_refs stripe_events_T = event_refs"
  "t_get credit_balances_T = credit_balances" "t_set credit_balances_T = (\<lambda>xs d. d\<lparr>credit_balances := xs\<rparr>)"
  "t_ok credit_balances_T = credit_balances_ok" "t_pk credit_balances_T = b_id" "t_refs credit_balances_T = balance_refs"
  "t_get credit_transactions_T = credit_transactions" "t_set credit_transactions_T = (\<lambda>xs d. d\<lparr>credit_transactions := xs\<rparr>)"
  "t_ok credit_transactions_T = credit_transactions_ok" "t_pk credit_transactions_T = t_id" "t_refs credit_transactions_T = transaction_refs"
  by (simp_all add: table_defs)

interpretation users_tab: model_table users_T
proof (rule model_table_intro, goal_cases)
  case (5 d xs k)
  then show ?case by (cases k) auto
next
  case 3
  show ?case by (simp add: all_refs_def del: Un_subset_iff sup.bounded_iff UN_subset_iff) (rule block_rules subset_refl)+
next
  case (4 r d)
  then show ?case by (auto simp: all_refs_def)
qed (simp_all add: tables_ok_def)

interpretation refresh_tokens_tab: model_table refresh_tokens_T
proof (rule model_table_intro, goal_cases)
  case (5 d xs k)
  then show ?case by (cases k) auto
next
  case 3
  show ?case by (simp add: all_refs_def del: Un_subset_iff sup.bounded_iff UN_subset_iff) (rule block_rules subset_refl)+
next
  case (4 r d)
  then show ?case by (auto simp: all_refs_def)
qed (simp_all add: tables_ok_def)

interpretation verification_tokens_tab: model_table verification_tokens_T
proof (rule model_table_intro, goal_cases)
  case (5 d xs k)
  then show ?case by (cases k) auto
next
  case 3
  show ?case by (simp add: all_refs_def del: Un_subset_iff sup.bounded_iff UN_subset_iff) (rule block_rules subset_refl)+
next
  case (4 r d)
  then show ?case by (auto simp: all_refs_def)
qed (simp_all add: tables_ok_def)

interpretation reset_tokens_tab: model_table reset_tokens_T
proof (rule model_table_intro, goal_cases)
  case (5 d xs k)
  then show ?case by (cases k) auto
next
  case 3
  show ?case by (simp add: all_refs_def del: Un_subset_iff sup.bounded_iff UN_subset_iff) (rule block_rules subset_refl)+
next
  case (4 r d)
  then show ?case by (auto simp: all_refs_def)
qed (simp_all add: tables_ok_def)

interpretation link_requests_tab: model_table link_requests_T
proof (rule model_table_intro, goal_cases)
  case (5 d xs k)
  then show ?case by (cases k) auto
next
  case 3
  show ?case by (simp add: all_refs_def del: Un_subset_iff sup.bounded_iff UN_subset_iff) (rule block_rules subset_refl)+
next
  case (4 r d)
  then show ?case by (auto simp: all_refs_def)
qed (simp_all add: tables_ok_def)

interpretation social_accounts_tab: model_table social_accounts_T
proof (rule model_table_intro, goal_cases)
  case (5 d xs k)
  then show ?case by (cases k) auto
next
  case 3
  show ?case by (simp add: all_refs_def del: Un_subset_iff sup.bounded_iff UN_subset_iff) (rule block_rules subset_refl)+
next
  case (4 r d)
  then show ?case by (auto simp: all_refs_def)
qed (simp_all add: tables_ok_def)

interpretation orgs_tab: model_table orgs_T
proof (rule model_table_intro, goal_cases)
  case (5 d xs k)
  then show ?case by (cases k) auto
next
  case 3
  show ?case by (simp add: all_refs_def del: Un_subset_iff sup.bounded_iff UN_subset_iff) (rule block_rules subset_refl)+
next
  case (4 r d)
  then show ?case by (auto simp: all_refs_def)
qed (simp_all add: tables_ok_def)

interpretation members_tab: model_table members_T
proof (rule model_table_intro, goal_cases)
  case (5 d xs k)
  then show ?case by (cases k) auto
next
  case 3
  show ?case by (simp add: all_refs_def del: Un_subset_iff sup.bounded_iff UN_subset_iff) (rule block_rules subset_refl)+
next
  case (4 r d)
  then show ?case by (auto simp: all_refs_def)
qed (simp_all add: tables_ok_def)

interpretation invitations_tab: model_table invitations_T
proof (rule model_table_intro, goal_cases)
  case (5 d xs k)
  then show ?case by (cases k) auto
next
  case 3
  show ?case by (simp add: all_refs_def del: Un_subset_iff sup.bounded_iff UN_subset_iff) (rule block_rules subset_refl)+
next
  case (4 r d)
  then show ?case by (auto simp: all_refs_def)
qed (simp_all add: tables_ok_def)

interpretation plans_tab: model_table plans_T
proof (rule model_table_intro, goal_cases)
  case (5 d xs k)
  then show ?case by (cases k) auto
next
  case 3
  show ?case by (simp add: all_refs_def del: Un_subset_iff sup.bounded_iff UN_subset_iff) (rule block_rules subset_refl)+
next
  case (4 r d)
  then show ?case by (auto simp: all_refs_def)
qed (simp_all add: tables_ok_def)

interpretation plan_prices_tab: model_table plan_prices_T
proof (rule model_table_intro, goal_cases)
  case (5 d xs k)
  then show ?case by (cases k) auto
next
  case 3
  show ?case by (simp add: all_refs_def del: Un_subset_iff sup.bounded_iff UN_subset_iff) (rule block_rules subset_refl)+
next
  case (4 r d)
  then show ?case by (auto simp: all_refs_def)
qed (simp_all add: tables_ok_def)

interpretation customers_tab: model_table customers_T
proof (rule model_table_intro, goal_cases)
  case (5 d xs k)
  then show ?case by (cases k) auto
next
  case 3
  show ?case by (simp add: all_refs_def del: Un_subset_iff sup.bounded_iff UN_subset_iff) (rule block_rules subset_refl)+
next
  case (4 r d)
  then show ?case by (auto simp: all_refs_def)
qed (simp_all add: tables_ok_def)

interpretation subscriptions_tab: model_table subscriptions_T
proof (rule model_table_intro, goal_cases)
  case (5 d xs k)
  then show ?case by (cases k) auto
next
  case 3
  show ?case by (simp add: all_refs_def del: Un_subset_iff sup.bounded_iff UN_subset_iff) (rule block_rules subset_refl)+
next
  case (4 r d)
  then show ?case by (auto simp: all_refs_def)
qed (simp_all add: tables_ok_def)

interpretation products_tab: model_table products_T
proof (rule model_table_intro, goal_cases)
  case (5 d xs k)
  then show ?case by (cases k) auto
next
  case 3
  show ?case by (simp add: all_refs_def del: Un_subset_iff sup.bounded_iff UN_subset_iff) (rule block_rules subset_refl)+
next
  case (4 r d)
  then show ?case by (auto simp: all_refs_def)
qed (simp_all add: tables_ok_def)

interpretation product_prices_tab: model_table product_prices_T
proof (rule model_table_intro, goal_cases)
  case (5 d xs k)
  then show ?case by (cases k) auto
next
  case 3
  show ?case by (simp add: all_refs_def del: Un_subset_iff sup.bounded_iff UN_subset_iff) (rule block_rules subset_refl)+
next
  case (4 r d)
  then show ?case by (auto simp: all_refs_def)
qed (simp_all add: tables_ok_def)

interpretation localized_prices_tab: model_table localized_prices_T
proof (rule model_table_intro, goal_cases)
  case (5 d xs k)
  then show ?case by (cases k) auto
next
  case 3
  show ?case by (simp add: all_refs_def del: Un_subset_iff sup.bounded_iff UN_subset_iff) (rule block_rules subset_refl)+
next
  case (4 r d)
  then show ?case by (auto simp: all_refs_def)
qed (simp_all add: tables_ok_def)

interpretation country_prices_tab: model_table country_prices_T
proof (rule model_table_intro, goal_cases)
  case (5 d xs k)
  then show ?case by (cases k) auto
next
  case 3
  show ?case by (simp add: all_refs_def del: Un_subset_iff sup.bounded_iff UN_subset_iff) (rule block_rules subset_refl)+
next
  case (4 r d)
  then show ?case by (auto simp: all_refs_def)
qed (simp_all add: tables_ok_def)

interpretation stripe_events_tab: model_table stripe_events_T
proof (rule model_table_intro, goal_cases)
  case (5 d xs k)
  then show ?case by (cases k) auto
next
  case 3
  show ?case by (simp add: all_refs_def del: Un_subset_iff sup.bounded_iff UN_subset_iff) (rule block_rules subset_refl)+
next
  case (4 r d)
  then show ?case by (auto simp: all_refs_def)
qed (simp_all add: tables_ok_def)

interpretation credit_balances_tab: model_table credit_balances_T
proof (rule model_table_intro, goal_cases)
  case (5 d xs k)
  then show ?case by (cases k) auto
next
  case 3
  show ?case by (simp add: all_refs_def del: Un_subset_iff sup.bounded_iff UN_subset_iff) (rule block_rules subset_refl)+
next
  case (4 r d)
  then show ?case by (auto simp: all_refs_def)
qed (simp_all add: tables_ok_def)

interpretation credit_transactions_tab: model_table credit_transactions_T
proof (rule model_table_intro, goal_cases)
  case (5 d xs k)
  then show ?case by (cases k) auto
next
  case 3
  show ?case by (simp add: all_refs_def del: Un_subset_iff sup.bounded_iff UN_subset_iff) (rule block_rules subset_refl)+
next
  case (4 r d)
  then show ?case by (auto simp: all_refs_def)
qed (simp_all add: tables_ok_def)

text \<open>Writing through a model keeps the database consistent; one rule per model.\<close>

definition consistent :: "world \<Rightarrow> bool" where
  "consistent w \<longleftrightarrow> db_ok (db w)"

lemma consistent_intro: "keeps (\<lambda>w. db_ok (db w)) m \<Longrightarrow> keeps consistent m"
  by (simp add: keeps_def consistent_def)

lemmas create_consistent [keeps_intros] =
  users_tab.create_row_ok [THEN consistent_intro]
  refresh_tokens_tab.create_row_ok [THEN consistent_intro]
  verification_tokens_tab.create_row_ok [THEN consistent_intro]
  reset_tokens_tab.create_row_ok [THEN consistent_intro]
  link_requests_tab.create_row_ok [THEN consistent_intro]
  social_accounts_tab.create_row_ok [THEN consistent_intro]
  orgs_tab.create_row_ok [THEN consistent_intro]
  members_tab.create_row_ok [THEN consistent_intro]
  invitations_tab.create_row_ok [THEN consistent_intro]
  customers_tab.create_row_ok [THEN consistent_intro]
  subscriptions_tab.create_row_ok [THEN consistent_intro]
  localized_prices_tab.create_row_ok [THEN consistent_intro]
  country_prices_tab.create_row_ok [THEN consistent_intro]
  stripe_events_tab.create_row_ok [THEN consistent_intro]
  credit_balances_tab.create_row_ok [THEN consistent_intro]
  credit_transactions_tab.create_row_ok [THEN consistent_intro]

lemmas update_consistent [keeps_intros] =
  users_tab.update_rows_ok [THEN consistent_intro]
  refresh_tokens_tab.update_rows_ok [THEN consistent_intro]
  verification_tokens_tab.update_rows_ok [THEN consistent_intro]
  reset_tokens_tab.update_rows_ok [THEN consistent_intro]
  link_requests_tab.update_rows_ok [THEN consistent_intro]
  social_accounts_tab.update_rows_ok [THEN consistent_intro]
  orgs_tab.update_rows_ok [THEN consistent_intro]
  members_tab.update_rows_ok [THEN consistent_intro]
  invitations_tab.update_rows_ok [THEN consistent_intro]
  plan_prices_tab.update_rows_ok [THEN consistent_intro]
  customers_tab.update_rows_ok [THEN consistent_intro]
  subscriptions_tab.update_rows_ok [THEN consistent_intro]
  product_prices_tab.update_rows_ok [THEN consistent_intro]
  localized_prices_tab.update_rows_ok [THEN consistent_intro]
  country_prices_tab.update_rows_ok [THEN consistent_intro]
  stripe_events_tab.update_rows_ok [THEN consistent_intro]
  credit_balances_tab.update_rows_ok [THEN consistent_intro]

lemmas save_consistent [keeps_intros] =
  users_tab.save_row_ok [THEN consistent_intro]
  refresh_tokens_tab.save_row_ok [THEN consistent_intro]
  verification_tokens_tab.save_row_ok [THEN consistent_intro]
  reset_tokens_tab.save_row_ok [THEN consistent_intro]
  link_requests_tab.save_row_ok [THEN consistent_intro]
  social_accounts_tab.save_row_ok [THEN consistent_intro]
  orgs_tab.save_row_ok [THEN consistent_intro]
  members_tab.save_row_ok [THEN consistent_intro]
  invitations_tab.save_row_ok [THEN consistent_intro]
  plan_prices_tab.save_row_ok [THEN consistent_intro]
  customers_tab.save_row_ok [THEN consistent_intro]
  subscriptions_tab.save_row_ok [THEN consistent_intro]
  product_prices_tab.save_row_ok [THEN consistent_intro]
  localized_prices_tab.save_row_ok [THEN consistent_intro]
  country_prices_tab.save_row_ok [THEN consistent_intro]
  stripe_events_tab.save_row_ok [THEN consistent_intro]
  credit_balances_tab.save_row_ok [THEN consistent_intro]

section \<open>The clock, random values and the outside world\<close>

definition now :: "datetime io" where
  "now = mgets clock"

text \<open>\<open>uuid4()\<close> and \<open>secrets.token_urlsafe()\<close>.\<close>

definition fresh_uuid :: "uuid io" where
  "fresh_uuid = (\<lambda>w. (Inr (id_supply w (drawn w)), w\<lparr>drawn := drawn w + 1\<rparr>))"

definition fresh_text :: "string io" where
  "fresh_text = (\<lambda>w. (Inr (text_supply w (drawn w)), w\<lparr>drawn := drawn w + 1\<rparr>))"

definition call_stripe :: "env \<Rightarrow> stripe_call \<Rightarrow> json io" where
  "call_stripe E c = (\<lambda>w. (stripe E (calls w) c, w\<lparr>calls := calls w @ [c]\<rparr>))"

definition delay :: "task \<Rightarrow> unit io" where
  "delay t = mmodify (\<lambda>w. w\<lparr>queue := queue w @ [t]\<rparr>)"

definition on_commit :: "task \<Rightarrow> unit io" where
  "on_commit t = mmodify (\<lambda>w. if in_atomic w then w\<lparr>hooks := hooks w @ [t]\<rparr>
                              else w\<lparr>queue := queue w @ [t]\<rparr>)"

text \<open>
  \<open>transaction.atomic()\<close>.  The outermost block opens a transaction, an inner one a savepoint;
  an exception restores the database and drops the callbacks registered inside, and a
  successful outermost block runs its callbacks.  Neither undoes what was sent to Stripe, what
  was queued directly, or what was written to the cache.
\<close>

definition atomic :: "'a io \<Rightarrow> 'a io" where
  "atomic m = (\<lambda>w.
     if in_atomic w then
       (case m w of
          (Inl e, w') \<Rightarrow> (Inl e, w'\<lparr>db := db w, hooks := hooks w\<rparr>)
        | (Inr x, w') \<Rightarrow> (Inr x, w'))
     else
       (case m (w\<lparr>in_atomic := True, hooks := []\<rparr>) of
          (Inl e, w') \<Rightarrow> (Inl e, w'\<lparr>db := db w, in_atomic := False, hooks := hooks w\<rparr>)
        | (Inr x, w') \<Rightarrow>
            (Inr x, w'\<lparr>in_atomic := False, hooks := hooks w, queue := queue w' @ hooks w'\<rparr>)))"

lemma now_run [simp, run_simps]: "now w = (Inr (clock w), w)"
  by (simp add: now_def)

lemma fresh_uuid_run [simp, run_simps]:
  "fresh_uuid w = (Inr (id_supply w (drawn w)), w\<lparr>drawn := drawn w + 1\<rparr>)"
  by (simp add: fresh_uuid_def)

lemma fresh_text_run [simp, run_simps]:
  "fresh_text w = (Inr (text_supply w (drawn w)), w\<lparr>drawn := drawn w + 1\<rparr>)"
  by (simp add: fresh_text_def)

lemma call_stripe_run [simp, run_simps]:
  "call_stripe E c w = (stripe E (calls w) c, w\<lparr>calls := calls w @ [c]\<rparr>)"
  by (simp add: call_stripe_def)

lemma delay_run [simp, run_simps]: "delay t w = (Inr (), w\<lparr>queue := queue w @ [t]\<rparr>)"
  by (simp add: delay_def)

lemma on_commit_run [simp, run_simps]:
  "on_commit t w = (Inr (), if in_atomic w then w\<lparr>hooks := hooks w @ [t]\<rparr>
                            else w\<lparr>queue := queue w @ [t]\<rparr>)"
  by (simp add: on_commit_def)

text \<open>A transaction that raised leaves the database as it was.\<close>

lemma atomic_raise_db: "atomic m w = (Inl e, w') \<Longrightarrow> db w' = db w"
  by (auto simp: atomic_def split: if_splits prod.splits sum.splits)

lemma atomic_InrE:
  assumes "atomic m w = (Inr x, w')"
  obtains w0 w1 where "db w0 = db w" and "clock w0 = clock w" and "in_atomic w0"
    and "m w0 = (Inr x, w1)" and "db w' = db w1"
proof (cases "in_atomic w")
  case True
  with assms show ?thesis
    using that [of w w'] by (auto simp: atomic_def split: prod.splits sum.splits)
next
  case False
  with assms show ?thesis
    using that [of "w\<lparr>in_atomic := True, hooks := []\<rparr>"]
    by (auto simp: atomic_def split: prod.splits sum.splits)
qed

definition enter :: "world \<Rightarrow> world" where
  "enter w = (if in_atomic w then w else w\<lparr>in_atomic := True, hooks := []\<rparr>)"

lemma enter_fields [simp]:
  "db (enter w) = db w" "clock (enter w) = clock w" "drawn (enter w) = drawn w"
  "id_supply (enter w) = id_supply w" "text_supply (enter w) = text_supply w"
  "calls (enter w) = calls w" "cache (enter w) = cache w" "queue (enter w) = queue w"
  "in_atomic (enter w)"
  by (simp_all add: enter_def)

lemma atomic_enter: "fst (atomic m w) = fst (m (enter w))"
  by (simp add: atomic_def enter_def split: prod.splits sum.splits)

lemma atomic_enter_db: "fst (m (enter w)) = Inr x \<Longrightarrow> db (snd (atomic m w)) = db (snd (m (enter w)))"
  by (cases "m (enter w)") (auto simp: atomic_def enter_def split: prod.splits sum.splits if_splits)

text \<open>
  A predicate of the database alone is kept by a transaction whose body keeps it; what a
  transaction adds to the rest of the state does not matter to it.
\<close>

definition on_db :: "(db \<Rightarrow> bool) \<Rightarrow> world \<Rightarrow> bool" where
  "on_db Q w \<longleftrightarrow> Q (db w)"

lemma consistent_on_db: "consistent = on_db db_ok"
  by (rule ext) (simp add: consistent_def on_db_def)

lemma keeps_atomic_on_db: "keeps (on_db Q) m \<Longrightarrow> keeps (on_db Q) (atomic m)"
proof (rule keepsI)
  fix w assume m: "keeps (on_db Q) m" and w: "on_db Q w"
  have w0: "on_db Q (w\<lparr>in_atomic := True, hooks := []\<rparr>)" using w by (simp add: on_db_def)
  from keepsD [OF m w] keepsD [OF m w0] w show "on_db Q (snd (atomic m w))"
    by (auto simp: atomic_def on_db_def split: prod.splits sum.splits)
qed

lemma keeps_atomic [keeps_intros]: "keeps consistent m \<Longrightarrow> keeps consistent (atomic m)"
  unfolding consistent_on_db by (rule keeps_atomic_on_db)

text \<open>A transaction commits only what its body returned from, so the body may pass through any state.\<close>

lemma keeps_atomic_commit:
  assumes "\<And>w x w'. Q (db w) \<Longrightarrow> m w = (Inr x, w') \<Longrightarrow> Q (db w')"
  shows "keeps (on_db Q) (atomic m)"
proof (rule keepsI)
  fix w assume w: "on_db Q w"
  show "on_db Q (snd (atomic m w))"
  proof (cases "atomic m w")
    case (Pair r w')
    show ?thesis
    proof (cases r)
      case (Inl e)
      with Pair have "db w' = db w" by (simp add: atomic_raise_db)
      with Pair w show ?thesis by (simp add: on_db_def)
    next
      case (Inr x)
      with Pair have "atomic m w = (Inr x, w')" by simp
      then obtain w0 w1 where "db w0 = db w" "m w0 = (Inr x, w1)" "db w' = db w1"
        by (rule atomic_InrE)
      with assms [of w0 x w1] Pair w show ?thesis by (simp add: on_db_def)
    qed
  qed
qed

lemma keeps_outside_on_db [keeps_intros]:
  "keeps (on_db Q) now" "keeps (on_db Q) fresh_uuid" "keeps (on_db Q) fresh_text"
  "keeps (on_db Q) (call_stripe E c)" "keeps (on_db Q) (delay t)" "keeps (on_db Q) (on_commit t)"
  by (simp_all add: keeps_def on_db_def)

lemma keeps_outside [keeps_intros]:
  "keeps consistent now" "keeps consistent fresh_uuid" "keeps consistent fresh_text"
  "keeps consistent (call_stripe E c)" "keeps consistent (delay t)"
  "keeps consistent (on_commit t)"
  by (simp_all add: consistent_on_db keeps_intros)

text \<open>The clock and the supplies of random values never change, and drawing only goes forward.\<close>

definition supplied :: "(nat \<Rightarrow> nat) \<Rightarrow> (nat \<Rightarrow> string) \<Rightarrow> datetime \<Rightarrow> nat \<Rightarrow> world \<Rightarrow> bool" where
  "supplied f g t n w \<longleftrightarrow> id_supply w = f \<and> text_supply w = g \<and> clock w = t \<and> n \<le> drawn w"

lemma supplied_start: "supplied (id_supply w) (text_supply w) (clock w) (drawn w) w"
  by (simp add: supplied_def)

lemma keeps_supplied [keeps_intros]:
  "keeps (supplied f g t n) (create_row T r)" "keeps (supplied f g t n) (update_rows T P h)"
  "keeps (supplied f g t n) (save_row T k h)" "keeps (supplied f g t n) now"
  "keeps (supplied f g t n) fresh_uuid" "keeps (supplied f g t n) fresh_text"
  "keeps (supplied f g t n) (call_stripe E c)" "keeps (supplied f g t n) (delay q)"
  "keeps (supplied f g t n) (on_commit q)"
  by (auto simp: keeps_def supplied_def create_row_def update_rows_def save_row_def Let_def)

lemma keeps_supplied_atomic [keeps_intros]:
  assumes "keeps (supplied f g t n) m" shows "keeps (supplied f g t n) (atomic m)"
proof (rule keepsI)
  fix w assume w: "supplied f g t n w"
  then have w0: "supplied f g t n (w\<lparr>in_atomic := True, hooks := []\<rparr>)" by (simp add: supplied_def)
  from keepsD [OF assms w] keepsD [OF assms w0] w show "supplied f g t n (snd (atomic m w))"
    by (auto simp: atomic_def supplied_def split: prod.splits sum.splits)
qed

text \<open>A write to one table leaves what another part of the database says unchanged.\<close>

lemma keeps_create_on_db:
  "(\<And>d xs. Q d \<Longrightarrow> Q (t_set T xs d)) \<Longrightarrow> keeps (on_db Q) (create_row T r)"
  by (simp add: keeps_def on_db_def create_row_def)

lemma keeps_update_on_db:
  "(\<And>d xs. Q d \<Longrightarrow> Q (t_set T xs d)) \<Longrightarrow> keeps (on_db Q) (update_rows T P h)"
  by (simp add: keeps_def on_db_def update_rows_def Let_def)

lemma keeps_save_on_db:
  "(\<And>d xs. Q d \<Longrightarrow> Q (t_set T xs d)) \<Longrightarrow> keeps (on_db Q) (save_row T k h)"
  by (simp add: save_row_def keeps_update_on_db)

lemmas on_db_writes = keeps_create_on_db keeps_update_on_db keeps_save_on_db keeps_atomic_on_db

section \<open>The cache\<close>

text \<open>Entries expire; \<open>cache.add\<close> writes only where no live entry is, and says whether it did.\<close>

definition cache_live :: "world \<Rightarrow> string \<Rightarrow> cache_value option" where
  "cache_live w k = (case cache w k of None \<Rightarrow> None
     | Some (v, expires) \<Rightarrow> if clock w < expires then Some v else None)"

definition cache_get :: "string \<Rightarrow> cache_value option io" where
  "cache_get k = mgets (\<lambda>w. cache_live w k)"

definition cache_set :: "string \<Rightarrow> cache_value \<Rightarrow> int \<Rightarrow> unit io" where
  "cache_set k v ttl = mmodify (\<lambda>w. w\<lparr>cache := (cache w)(k := Some (v, clock w + ttl * 1000000))\<rparr>)"

definition cache_delete :: "string \<Rightarrow> unit io" where
  "cache_delete k = mmodify (\<lambda>w. w\<lparr>cache := (cache w)(k := None)\<rparr>)"

definition cache_add :: "string \<Rightarrow> cache_value \<Rightarrow> int \<Rightarrow> bool io" where
  "cache_add k v ttl = mbind (cache_get k) (\<lambda>old.
     if old = None then mseq (cache_set k v ttl) (mret True) else mret False)"

lemma cache_run [simp, run_simps]:
  "cache_get k w = (Inr (cache_live w k), w)"
  "cache_set k v ttl w = (Inr (), w\<lparr>cache := (cache w)(k := Some (v, clock w + ttl * 1000000))\<rparr>)"
  "cache_delete k w = (Inr (), w\<lparr>cache := (cache w)(k := None)\<rparr>)"
  "cache_add k v ttl w =
     (if cache_live w k = None
      then (Inr True, w\<lparr>cache := (cache w)(k := Some (v, clock w + ttl * 1000000))\<rparr>)
      else (Inr False, w))"
  by (simp_all add: cache_get_def cache_set_def cache_delete_def cache_add_def run_simps)

lemma keeps_cache_on_db [keeps_intros]:
  "keeps (on_db Q) (cache_get k)" "keeps (on_db Q) (cache_set k v ttl)"
  "keeps (on_db Q) (cache_delete k)" "keeps (on_db Q) (cache_add k v ttl)"
  by (simp_all add: keeps_def on_db_def)

lemma keeps_cache_supplied [keeps_intros]:
  "keeps (supplied f g t n) (cache_get k)" "keeps (supplied f g t n) (cache_set k v ttl)"
  "keeps (supplied f g t n) (cache_delete k)" "keeps (supplied f g t n) (cache_add k v ttl)"
  by (simp_all add: keeps_def supplied_def)

lemma keeps_cache [keeps_intros]:
  "keeps consistent (cache_get k)" "keeps consistent (cache_set k v ttl)"
  "keeps consistent (cache_delete k)" "keeps consistent (cache_add k v ttl)"
  by (simp_all add: consistent_on_db keeps_intros)

lemma cache_add_once:
  "cache_add k v ttl w = (Inr True, w') \<Longrightarrow> 0 < ttl \<Longrightarrow> clock w'' = clock w' \<Longrightarrow>
   cache w'' k = cache w' k \<Longrightarrow> fst (cache_add k v' ttl' w'') = Inr False"
  by (auto simp: cache_live_def split: if_splits)

text \<open>A world to start from, for evaluations at concrete inputs.\<close>

definition start_world :: "db \<Rightarrow> world" where
  "start_world d = \<lparr>db = d, clock = 0, id_supply = (\<lambda>n. 1000 + n),
     text_supply = (\<lambda>n. str_nat n), drawn = 0, in_atomic = False, hooks = [], queue = [],
     calls = [], cache = (\<lambda>k. None)\<rparr>"

definition start_env :: env where
  "start_env = \<lparr>stripe = (\<lambda>log c. Inr (JObj [(''id'', JStr ''new'')])), sha256 = (\<lambda>s. ''h'' @ s),
     make_password = (\<lambda>s. ''p'' @ s), check_password = (\<lambda>s p. p = ''p'' @ s),
     normalize_email = (\<lambda>s. s), slugify = lower, billing_currencies = [''usd'', ''eur''],
     stripe_secret_key = ''sk_test''\<rparr>"

end
