(* ===== verification/Cascade.thy ===== *)
theory Cascade
  imports Store
begin

text \<open>
  Deletion of rows, with the \<open>on_delete\<close> rules of the models: deleting a user or an
  organisation deletes what belongs to it (\<open>CASCADE\<close>) and clears the references that may
  outlive it (\<open>SET_NULL\<close>).  Deleting a user also fires the \<open>post_delete\<close> signal, which evicts
  the user from the authentication cache.  Every deletion leaves a consistent database: no
  constraint is broken and no foreign key dangles.
\<close>

section \<open>Cascades\<close>

definition hits :: "uuid list \<Rightarrow> uuid option \<Rightarrow> bool" where
  "hits ids v = (case v of None \<Rightarrow> False | Some k \<Rightarrow> k \<in> set ids)"

definition keep :: "('a \<Rightarrow> bool) \<Rightarrow> 'a list \<Rightarrow> 'a list" where
  "keep dead xs = filter (\<lambda>x. \<not> dead x) xs"

definition cascade_customers :: "(customer \<Rightarrow> bool) \<Rightarrow> db \<Rightarrow> db" where
  "cascade_customers P d = (let ids = map c_id (filter P (customers d)) in
     d\<lparr>customers := keep P (customers d),
       subscriptions := keep (\<lambda>s. hits ids (s_customer s)) (subscriptions d)\<rparr>)"

definition cascade_users :: "(user \<Rightarrow> bool) \<Rightarrow> db \<Rightarrow> db" where
  "cascade_users P d0 = (let ids = map u_id (filter P (users d0));
       d = cascade_customers (\<lambda>c. hits ids (c_user c)) d0 in
     d\<lparr>users := keep P (users d),
       refresh_tokens := keep (\<lambda>t. rt_user t \<in> set ids) (refresh_tokens d),
       verification_tokens := keep (\<lambda>t. ot_user t \<in> set ids) (verification_tokens d),
       reset_tokens := keep (\<lambda>t. ot_user t \<in> set ids) (reset_tokens d),
       link_requests := keep (\<lambda>t. ot_user t \<in> set ids) (link_requests d),
       social_accounts := keep (\<lambda>a. sa_user a \<in> set ids) (social_accounts d),
       orgs := update_where (\<lambda>r. hits ids (o_created_by r)) (\<lambda>r. r\<lparr>o_created_by := None\<rparr>) (orgs d),
       members := keep (\<lambda>m. m_user m \<in> set ids) (members d),
       invitations := update_where (\<lambda>r. hits ids (i_invited_by r))
         (\<lambda>r. r\<lparr>i_invited_by := None\<rparr>) (invitations d),
       subscriptions := keep (\<lambda>s. hits ids (s_user s)) (subscriptions d),
       credit_balances := keep (\<lambda>b. hits ids (b_user b)) (credit_balances d),
       credit_transactions := keep (\<lambda>t. hits ids (t_user t)) (credit_transactions d)\<rparr>)"

definition cascade_orgs :: "(org \<Rightarrow> bool) \<Rightarrow> db \<Rightarrow> db" where
  "cascade_orgs P d0 = (let ids = map o_id (filter P (orgs d0));
       d = cascade_customers (\<lambda>c. hits ids (c_org c)) d0 in
     d\<lparr>orgs := keep P (orgs d),
       members := keep (\<lambda>m. m_org m \<in> set ids) (members d),
       invitations := keep (\<lambda>i. i_org i \<in> set ids) (invitations d),
       credit_balances := keep (\<lambda>b. hits ids (b_org b)) (credit_balances d),
       credit_transactions := keep (\<lambda>t. hits ids (t_org t)) (credit_transactions d)\<rparr>)"

section \<open>Constraints survive the removal of rows\<close>

lemma set_keep [simp]: "set (keep P xs) = {x \<in> set xs. \<not> P x}"
  by (simp add: keep_def)

lemma keep_distinct: "distinct (map g xs) \<Longrightarrow> distinct (map g (keep P xs))"
  unfolding keep_def by (rule distinct_filter_map)

lemma keep_somes: "distinct (somes (map g xs)) \<Longrightarrow> distinct (somes (map g (keep P xs)))"
  unfolding keep_def by (rule distinct_somes_filter)

lemma keep_filter_distinct:
  "distinct (map g (filter Q xs)) \<Longrightarrow> distinct (map g (filter Q (keep P xs)))"
  unfolding keep_def by (induction xs) auto

lemma keep_all: "list_all Q xs \<Longrightarrow> list_all Q (keep P xs)"
  by (auto simp: list_all_iff)

lemmas keep_rules = keep_distinct keep_somes keep_filter_distinct keep_all

lemma keep_ok [simp]:
  "users_ok us \<Longrightarrow> users_ok (keep P1 us)"
  "refresh_tokens_ok rs \<Longrightarrow> refresh_tokens_ok (keep P2 rs)"
  "one_time_tokens_ok ts \<Longrightarrow> one_time_tokens_ok (keep P3 ts)"
  "social_accounts_ok ss \<Longrightarrow> social_accounts_ok (keep P4 ss)"
  "orgs_ok os \<Longrightarrow> orgs_ok (keep P5 os)"
  "members_ok ms \<Longrightarrow> members_ok (keep P6 ms)"
  "invitations_ok is \<Longrightarrow> invitations_ok (keep P7 is)"
  "customers_ok cs \<Longrightarrow> customers_ok (keep P8 cs)"
  "subscriptions_ok su \<Longrightarrow> subscriptions_ok (keep P9 su)"
  "credit_balances_ok bs \<Longrightarrow> credit_balances_ok (keep P10 bs)"
  "credit_transactions_ok xs \<Longrightarrow> credit_transactions_ok (keep P11 xs)"
  by (simp_all add: table_ok_defs keep_rules)

lemma clear_created_by_ok [simp]:
  "orgs_ok os \<Longrightarrow> orgs_ok (update_where P (\<lambda>r. r\<lparr>o_created_by := v\<rparr>) os)"
  by (simp add: orgs_ok_def map_update_where)

lemma clear_invited_by_ok [simp]:
  "invitations_ok is \<Longrightarrow> invitations_ok (update_where P (\<lambda>r. r\<lparr>i_invited_by := v\<rparr>) is)"
proof -
  have "map (\<lambda>i. (i_org i, i_email i))
      (filter (\<lambda>i. i_status i = PENDING) (update_where P (\<lambda>r. r\<lparr>i_invited_by := v\<rparr>) is))
    = map (\<lambda>i. (i_org i, i_email i)) (filter (\<lambda>i. i_status i = PENDING) is)"
    by (induction "is") auto
  then show "invitations_ok is \<Longrightarrow> ?thesis"
    by (simp add: invitations_ok_def map_update_where)
qed

lemma cascade_customers_tables: "tables_ok d \<Longrightarrow> tables_ok (cascade_customers P d)"
  by (simp add: tables_ok_def cascade_customers_def Let_def)

lemma cascade_users_tables:
  assumes "tables_ok d" shows "tables_ok (cascade_users P d)"
proof -
  let ?d = "cascade_customers (\<lambda>c. hits (map u_id (filter P (users d))) (c_user c)) d"
  have "tables_ok ?d" using assms by (rule cascade_customers_tables)
  then show ?thesis by (simp add: tables_ok_def cascade_users_def Let_def)
qed

lemma cascade_orgs_tables:
  assumes "tables_ok d" shows "tables_ok (cascade_orgs P d)"
proof -
  let ?d = "cascade_customers (\<lambda>c. hits (map o_id (filter P (orgs d))) (c_org c)) d"
  have "tables_ok ?d" using assms by (rule cascade_customers_tables)
  then show ?thesis by (simp add: tables_ok_def cascade_orgs_def Let_def)
qed

section \<open>No foreign key dangles\<close>

lemma list_all_concat_map:
  "list_all Q (concat (map f xs)) \<longleftrightarrow> list_all (\<lambda>x. list_all Q (f x)) xs"
  by (induction xs) auto

lemma list_all_trivial: "list_all (\<lambda>x. True) xs"
  by (induction xs) auto

lemma fk_ok_rows:
  "fk_ok d \<longleftrightarrow>
     list_all (\<lambda>r. refs_ok d (refresh_refs r)) (refresh_tokens d)
   \<and> list_all (\<lambda>r. refs_ok d (ott_refs r)) (verification_tokens d)
   \<and> list_all (\<lambda>r. refs_ok d (ott_refs r)) (reset_tokens d)
   \<and> list_all (\<lambda>r. refs_ok d (ott_refs r)) (link_requests d)
   \<and> list_all (\<lambda>r. refs_ok d (social_refs r)) (social_accounts d)
   \<and> list_all (\<lambda>r. refs_ok d (org_refs r)) (orgs d)
   \<and> list_all (\<lambda>r. refs_ok d (member_refs r)) (members d)
   \<and> list_all (\<lambda>r. refs_ok d (invitation_refs r)) (invitations d)
   \<and> list_all (\<lambda>r. refs_ok d (plan_price_refs r)) (plan_prices d)
   \<and> list_all (\<lambda>r. refs_ok d (customer_refs r)) (customers d)
   \<and> list_all (\<lambda>r. refs_ok d (subscription_refs r)) (subscriptions d)
   \<and> list_all (\<lambda>r. refs_ok d (product_price_refs r)) (product_prices d)
   \<and> list_all (\<lambda>r. refs_ok d (localized_refs r)) (localized_prices d)
   \<and> list_all (\<lambda>r. refs_ok d (country_refs r)) (country_prices d)
   \<and> list_all (\<lambda>r. refs_ok d (balance_refs r)) (credit_balances d)
   \<and> list_all (\<lambda>r. refs_ok d (transaction_refs r)) (credit_transactions d)"
  by (simp add: fk_ok_def all_refs_def refs_ok_def list_all_concat_map list_all_trivial
      user_refs_def plan_refs_def product_refs_def event_refs_def)

lemma refs_ok_simps [simp]:
  "refs_ok d []" "refs_ok d ((k, u) # rs) \<longleftrightarrow> u \<in> set (pk d k) \<and> refs_ok d rs"
  "refs_ok d (rs @ rs') \<longleftrightarrow> refs_ok d rs \<and> refs_ok d rs'"
  "refs_ok d (nullable k v) \<longleftrightarrow> (\<forall>u. v = Some u \<longrightarrow> u \<in> set (pk d k))"
  by (auto simp: refs_ok_def nullable_def split: option.splits)

lemma hits_iff: "hits ids v \<longleftrightarrow> (\<exists>k. v = Some k \<and> k \<in> set ids)"
  by (auto simp: hits_def split: option.splits)

text \<open>
  A reference survives a deletion when the row it points to does.  \<open>dead\<close> are the primary keys
  that were removed; a table is \<open>covered\<close> when each of its remaining references was there before
  and points to a key that is not dead.
\<close>

definition survives :: "db \<Rightarrow> db \<Rightarrow> (kind \<Rightarrow> uuid \<Rightarrow> bool) \<Rightarrow> bool" where
  "survives d d' dead \<longleftrightarrow> (\<forall>k u. u \<in> set (pk d k) \<longrightarrow> \<not> dead k u \<longrightarrow> u \<in> set (pk d' k))"

definition covered ::
  "(kind \<Rightarrow> uuid \<Rightarrow> bool) \<Rightarrow> ('r \<Rightarrow> (kind \<times> uuid) list) \<Rightarrow> 'r list \<Rightarrow> 'r list \<Rightarrow> bool" where
  "covered dead g xs xs' \<longleftrightarrow>
     (\<forall>r\<in>set xs'. \<forall>(k, u)\<in>set (g r). \<not> dead k u \<and> (\<exists>r0\<in>set xs. (k, u) \<in> set (g r0)))"

lemma covered_same: "(\<And>r k u. (k, u) \<in> set (g r) \<Longrightarrow> \<not> dead k u) \<Longrightarrow> covered dead g xs xs"
  by (auto simp: covered_def)

lemma covered_keep:
  "(\<And>r k u. \<not> Q r \<Longrightarrow> (k, u) \<in> set (g r) \<Longrightarrow> \<not> dead k u) \<Longrightarrow> covered dead g xs (keep Q xs)"
  by (auto simp: covered_def)

lemma covered_update:
  assumes "\<And>r k u. \<not> P r \<Longrightarrow> (k, u) \<in> set (g r) \<Longrightarrow> \<not> dead k u"
    and "\<And>r k u. P r \<Longrightarrow> (k, u) \<in> set (g (f r)) \<Longrightarrow> (k, u) \<in> set (g r) \<and> \<not> dead k u"
  shows "covered dead g xs (update_where P f xs)"
  using assms by (fastforce simp: covered_def dest!: update_where_mem)

lemmas covered_rules = covered_keep covered_update covered_same

lemma covered_refs:
  "covered dead g xs xs' \<Longrightarrow> survives d d' dead \<Longrightarrow> list_all (\<lambda>r. refs_ok d (g r)) xs \<Longrightarrow>
   list_all (\<lambda>r. refs_ok d' (g r)) xs'"
  by (fastforce simp: covered_def survives_def refs_ok_iff list_all_iff)

lemma fk_ok_survives:
  assumes "fk_ok d" and s: "survives d d' dead"
    and "covered dead refresh_refs (refresh_tokens d) (refresh_tokens d')"
    and "covered dead ott_refs (verification_tokens d) (verification_tokens d')"
    and "covered dead ott_refs (reset_tokens d) (reset_tokens d')"
    and "covered dead ott_refs (link_requests d) (link_requests d')"
    and "covered dead social_refs (social_accounts d) (social_accounts d')"
    and "covered dead org_refs (orgs d) (orgs d')"
    and "covered dead member_refs (members d) (members d')"
    and "covered dead invitation_refs (invitations d) (invitations d')"
    and "covered dead plan_price_refs (plan_prices d) (plan_prices d')"
    and "covered dead customer_refs (customers d) (customers d')"
    and "covered dead subscription_refs (subscriptions d) (subscriptions d')"
    and "covered dead product_price_refs (product_prices d) (product_prices d')"
    and "covered dead localized_refs (localized_prices d) (localized_prices d')"
    and "covered dead country_refs (country_prices d) (country_prices d')"
    and "covered dead balance_refs (credit_balances d) (credit_balances d')"
    and "covered dead transaction_refs (credit_transactions d) (credit_transactions d')"
  shows "fk_ok d'"
  using assms(1) unfolding fk_ok_rows by (elim conjE, intro conjI) (rule assms(3-) [THEN covered_refs, OF s]; assumption)+

lemma kept_key: "k \<in> set (map f xs) \<Longrightarrow> k \<notin> set (map f (filter P xs)) \<Longrightarrow> k \<in> set (map f (keep P xs))"
  by auto

lemmas ref_mem = refs_defs set_nullable hits_iff

lemma cascade_customers_survives:
  "survives d (cascade_customers P d)
     (\<lambda>k u. k = KCustomer \<and> u \<in> set (map c_id (filter P (customers d))))"
  unfolding survives_def
proof (intro allI impI)
  fix k u
  assume "u \<in> set (pk d k)"
    and "\<not> (k = KCustomer \<and> u \<in> set (map c_id (filter P (customers d))))"
  then show "u \<in> set (pk (cascade_customers P d) k)"
    using kept_key [of u c_id "customers d" P]
    by (cases k) (simp_all add: cascade_customers_def Let_def)
qed

lemma cascade_customers_fields [simp]:
  "customers (cascade_customers P d) = keep P (customers d)"
  "subscriptions (cascade_customers P d)
     = keep (\<lambda>s. hits (map c_id (filter P (customers d))) (s_customer s)) (subscriptions d)"
  "users (cascade_customers P d) = users d"
  "refresh_tokens (cascade_customers P d) = refresh_tokens d"
  "verification_tokens (cascade_customers P d) = verification_tokens d"
  "reset_tokens (cascade_customers P d) = reset_tokens d"
  "link_requests (cascade_customers P d) = link_requests d"
  "social_accounts (cascade_customers P d) = social_accounts d"
  "orgs (cascade_customers P d) = orgs d" "members (cascade_customers P d) = members d"
  "invitations (cascade_customers P d) = invitations d" "plans (cascade_customers P d) = plans d"
  "plan_prices (cascade_customers P d) = plan_prices d"
  "products (cascade_customers P d) = products d"
  "product_prices (cascade_customers P d) = product_prices d"
  "localized_prices (cascade_customers P d) = localized_prices d"
  "country_prices (cascade_customers P d) = country_prices d"
  "stripe_events (cascade_customers P d) = stripe_events d"
  "credit_balances (cascade_customers P d) = credit_balances d"
  "credit_transactions (cascade_customers P d) = credit_transactions d"
  by (simp_all add: cascade_customers_def Let_def)

lemma cascade_customers_fk:
  assumes "fk_ok d" shows "fk_ok (cascade_customers P d)"
  by (rule fk_ok_survives [OF assms cascade_customers_survives]; simp del: set_map set_filter;
      rule covered_rules; auto simp: ref_mem)

lemma survives_users:
  assumes "users d' = keep P (users d)" and "map o_id (orgs d') = map o_id (orgs d)"
    and "plans d' = plans d" and "plan_prices d' = plan_prices d" and "customers d' = customers d"
    and "products d' = products d" and "product_prices d' = product_prices d"
  shows "survives d d' (\<lambda>k u. k = KUser \<and> u \<in> set (map u_id (filter P (users d))))"
  unfolding survives_def
proof (intro allI impI)
  fix k u
  assume "u \<in> set (pk d k)" and "\<not> (k = KUser \<and> u \<in> set (map u_id (filter P (users d))))"
  then show "u \<in> set (pk d' k)"
    using kept_key [of u u_id "users d" P] assms by (cases k) (simp_all del: set_map)
qed

lemma survives_orgs:
  assumes "orgs d' = keep P (orgs d)" and "users d' = users d"
    and "plans d' = plans d" and "plan_prices d' = plan_prices d" and "customers d' = customers d"
    and "products d' = products d" and "product_prices d' = product_prices d"
  shows "survives d d' (\<lambda>k u. k = KOrg \<and> u \<in> set (map o_id (filter P (orgs d))))"
  unfolding survives_def
proof (intro allI impI)
  fix k u
  assume "u \<in> set (pk d k)" and "\<not> (k = KOrg \<and> u \<in> set (map o_id (filter P (orgs d))))"
  then show "u \<in> set (pk d' k)"
    using kept_key [of u o_id "orgs d" P] assms by (cases k) (simp_all del: set_map)
qed

text \<open>The customers of the deleted owner are gone before its row is.\<close>

lemma no_customer_left:
  "(\<And>c. P c \<longleftrightarrow> hits ids (g c)) \<Longrightarrow> r \<in> set (customers (cascade_customers P d)) \<Longrightarrow>
   \<not> hits ids (g r)"
  by simp

lemma covered_sub:
  "(\<And>r k u. r \<in> set xs \<Longrightarrow> (k, u) \<in> set (g r) \<Longrightarrow> \<not> dead k u) \<Longrightarrow> covered dead g xs xs"
  by (auto simp: covered_def)

lemma cascade_users_fk:
  assumes "fk_ok d" shows "fk_ok (cascade_users P d)"
proof -
  let ?ids = "map u_id (filter P (users d))"
  let ?c = "cascade_customers (\<lambda>c. hits ?ids (c_user c)) d"
  have c: "fk_ok ?c" using assms by (rule cascade_customers_fk)
  have s: "survives ?c (cascade_users P d)
      (\<lambda>k u. k = KUser \<and> u \<in> set (map u_id (filter P (users ?c))))"
    by (rule survives_users) (simp_all add: cascade_users_def Let_def map_update_where)
  show ?thesis
    by (rule fk_ok_survives [OF c s]; simp add: cascade_users_def Let_def del: set_map set_filter set_keep;
        rule covered_keep covered_update covered_sub; auto simp: ref_mem image_iff)
qed

lemma cascade_orgs_fk:
  assumes "fk_ok d" shows "fk_ok (cascade_orgs P d)"
proof -
  let ?ids = "map o_id (filter P (orgs d))"
  let ?c = "cascade_customers (\<lambda>c. hits ?ids (c_org c)) d"
  have c: "fk_ok ?c" using assms by (rule cascade_customers_fk)
  have s: "survives ?c (cascade_orgs P d)
      (\<lambda>k u. k = KOrg \<and> u \<in> set (map o_id (filter P (orgs ?c))))"
    by (rule survives_orgs) (simp_all add: cascade_orgs_def Let_def)
  show ?thesis
    by (rule fk_ok_survives [OF c s]; simp add: cascade_orgs_def Let_def del: set_map set_filter set_keep;
        rule covered_keep covered_update covered_sub; auto simp: ref_mem image_iff)
qed

lemma cascade_users_ok: "db_ok d \<Longrightarrow> db_ok (cascade_users P d)"
  by (simp add: db_ok_def cascade_users_tables cascade_users_fk)

lemma cascade_orgs_ok: "db_ok d \<Longrightarrow> db_ok (cascade_orgs P d)"
  by (simp add: db_ok_def cascade_orgs_tables cascade_orgs_fk)

section \<open>Deletions as operations\<close>

text \<open>Rows that nothing points to: \<open>Model.objects.filter(P).delete()\<close>.\<close>

definition delete_rows :: "'r table \<Rightarrow> ('r \<Rightarrow> bool) \<Rightarrow> nat io" where
  "delete_rows T P = (\<lambda>w. (Inr (length (filter P (t_get T (db w)))),
     w\<lparr>db := t_set T (keep P (t_get T (db w))) (db w)\<rparr>))"

lemma delete_rows_run [simp, run_simps]:
  "delete_rows T P w = (Inr (length (filter P (t_get T (db w)))),
     w\<lparr>db := t_set T (keep P (t_get T (db w))) (db w)\<rparr>)"
  by (simp add: delete_rows_def)

locale leaf_table = model_table T for T :: "'r table" +
  assumes unreferenced: "pk (t_set T xs d) k = pk d k"
    and ok_keep: "t_ok T xs \<Longrightarrow> t_ok T (keep P xs)"
begin

lemma delete_rows_ok: "keeps consistent (delete_rows T P)"
proof (rule keepsI)
  fix w assume "consistent w"
  then have d: "tables_ok (db w)" "refs_ok (db w) (all_refs (db w))"
    by (simp_all add: consistent_def db_ok_def fk_ok_def)
  let ?xs = "keep P (t_get T (db w))"
  have "set (all_refs (t_set T ?xs (db w))) \<subseteq> set (all_refs (db w))"
    using refs_set [of ?xs "db w"] refs_get [of _ "db w"] by fastforce
  with d(2) have "refs_ok (t_set T ?xs (db w)) (all_refs (t_set T ?xs (db w)))"
    by (simp add: refs_ok_iff unreferenced subset_iff)
  moreover have "tables_ok (t_set T ?xs (db w))"
    by (rule ok_set [OF d(1)]) (rule ok_keep [OF ok_get [OF d(1)]])
  ultimately show "consistent (snd (delete_rows T P w))"
    by (simp add: consistent_def db_ok_def fk_ok_def)
qed

lemma delete_rows_reads:
  "t_get T (db (snd (delete_rows T P w))) = filter (\<lambda>r. \<not> P r) (t_get T (db w))"
  by (simp add: get_set keep_def)

end

lemma leaf_table_intro:
  "model_table T \<Longrightarrow> (\<And>xs d k. pk (t_set T xs d) k = pk d k) \<Longrightarrow>
   (\<And>xs P. t_ok T xs \<Longrightarrow> t_ok T (keep P xs)) \<Longrightarrow> leaf_table T"
  by (simp add: leaf_table_def leaf_table_axioms_def)

lemma pk_leaf [simp]:
  "pk (d\<lparr>refresh_tokens := x1\<rparr>) k = pk d k" "pk (d\<lparr>verification_tokens := x2\<rparr>) k = pk d k"
  "pk (d\<lparr>reset_tokens := x2\<rparr>) k = pk d k" "pk (d\<lparr>link_requests := x3\<rparr>) k = pk d k"
  "pk (d\<lparr>social_accounts := x4\<rparr>) k = pk d k" "pk (d\<lparr>members := x5\<rparr>) k = pk d k"
  "pk (d\<lparr>invitations := x6\<rparr>) k = pk d k" "pk (d\<lparr>subscriptions := x7\<rparr>) k = pk d k"
  by (cases k; simp)+

interpretation refresh_tokens_leaf: leaf_table refresh_tokens_T
  by (rule leaf_table_intro [OF refresh_tokens_tab.model_table_axioms]) simp_all

interpretation verification_tokens_leaf: leaf_table verification_tokens_T
  by (rule leaf_table_intro [OF verification_tokens_tab.model_table_axioms]) simp_all

interpretation reset_tokens_leaf: leaf_table reset_tokens_T
  by (rule leaf_table_intro [OF reset_tokens_tab.model_table_axioms]) simp_all

interpretation link_requests_leaf: leaf_table link_requests_T
  by (rule leaf_table_intro [OF link_requests_tab.model_table_axioms]) simp_all

interpretation members_leaf: leaf_table members_T
  by (rule leaf_table_intro [OF members_tab.model_table_axioms]) simp_all

interpretation invitations_leaf: leaf_table invitations_T
  by (rule leaf_table_intro [OF invitations_tab.model_table_axioms]) simp_all

interpretation subscriptions_leaf: leaf_table subscriptions_T
  by (rule leaf_table_intro [OF subscriptions_tab.model_table_axioms]) simp_all

lemmas delete_consistent [keeps_intros] =
  refresh_tokens_leaf.delete_rows_ok verification_tokens_leaf.delete_rows_ok
  reset_tokens_leaf.delete_rows_ok link_requests_leaf.delete_rows_ok members_leaf.delete_rows_ok
  invitations_leaf.delete_rows_ok subscriptions_leaf.delete_rows_ok

text \<open>
  Users and organisations.  \<open>_invalidate_auth_user_cache\<close> runs on every saved or deleted
  instance, so each write of a user row through an instance evicts its cache entry.
\<close>

definition auth_user_key :: "uuid \<Rightarrow> string" where
  "auth_user_key u = ''auth_user:'' @ uuid_str u"

definition invalidate_auth_user_cache :: "uuid \<Rightarrow> unit io" where
  "invalidate_auth_user_cache u = cache_delete (auth_user_key u)"

definition insert_user :: "user \<Rightarrow> unit io" where
  "insert_user u = mseq (create_row users_T u) (invalidate_auth_user_cache (u_id u))"

definition save_user :: "uuid \<Rightarrow> (user \<Rightarrow> user) \<Rightarrow> unit io" where
  "save_user k f = mseq (save_row users_T k f) (invalidate_auth_user_cache k)"

definition delete_users :: "(user \<Rightarrow> bool) \<Rightarrow> unit io" where
  "delete_users P = mmodify (\<lambda>w. let gone = map (\<lambda>u. auth_user_key (u_id u)) (filter P (users (db w))) in
     w\<lparr>db := cascade_users P (db w), cache := (\<lambda>k. if k \<in> set gone then None else cache w k)\<rparr>)"

definition delete_orgs :: "(org \<Rightarrow> bool) \<Rightarrow> unit io" where
  "delete_orgs P = mmodify (\<lambda>w. w\<lparr>db := cascade_orgs P (db w)\<rparr>)"

lemma keeps_delete_users [keeps_intros]: "keeps consistent (delete_users P)"
  unfolding delete_users_def
  by (rule keeps_mmodify) (simp add: consistent_def Let_def cascade_users_ok)

lemma keeps_delete_orgs [keeps_intros]: "keeps consistent (delete_orgs P)"
  unfolding delete_orgs_def by (rule keeps_mmodify) (simp add: consistent_def cascade_orgs_ok)

lemma keeps_insert_user [keeps_intros]: "keeps consistent (insert_user u)"
  unfolding insert_user_def invalidate_auth_user_cache_def by (intro keeps_intros)

lemma keeps_save_user [keeps_intros]:
  "(\<And>r. u_id (f r) = u_id r) \<Longrightarrow> keeps consistent (save_user k f)"
  unfolding save_user_def invalidate_auth_user_cache_def by (intro keeps_intros) simp

text \<open>The identifiers still to be drawn are not primary keys of the model's table.\<close>

definition uuids_fresh :: "'r table \<Rightarrow> world \<Rightarrow> bool" where
  "uuids_fresh T w \<longleftrightarrow> (\<forall>n\<ge>drawn w. id_supply w n \<notin> set (map (t_pk T) (t_get T (db w))))"

end
