(* ===== verification/Repos.thy ===== *)
theory Repos
  imports Cascade
begin

text \<open>
  The repositories.  The core services see them as Python \<open>Protocol\<close>s
  (\<open>saasmint_core/repositories\<close>), here records of operations; what the services rely on is
  stated by the locales \<open>subscription_repository\<close>, \<open>customer_repository\<close> and
  \<open>event_repository\<close>.  The Django implementations (\<open>apps/billing/repositories.py\<close>) follow, and
  each locale is interpreted on them.
\<close>

section \<open>Protocols\<close>

record subscription_repo =
  sub_by_stripe_id :: "string \<Rightarrow> subscription option io"
  sub_active_for_user :: "uuid \<Rightarrow> subscription option io"
  sub_active_for_customer :: "uuid \<Rightarrow> subscription option io"
  sub_save :: "subscription \<Rightarrow> unit io"

record customer_repo =
  cust_by_id :: "uuid \<Rightarrow> customer option io"
  cust_by_stripe_id :: "string \<Rightarrow> customer option io"
  cust_by_user_id :: "uuid \<Rightarrow> customer option io"
  cust_by_org_id :: "uuid \<Rightarrow> customer option io"
  cust_save :: "customer \<Rightarrow> customer io"
  cust_delete :: "uuid \<Rightarrow> unit io"

record plan_repo =
  plans_active :: "plan list io"
  price_by_stripe_id :: "string \<Rightarrow> plan_price option io"

record event_repo =
  event_save :: "stripe_event \<Rightarrow> unit io"
  event_mark_processed :: "string \<Rightarrow> unit io"
  event_mark_failed :: "string \<Rightarrow> exn \<Rightarrow> unit io"

section \<open>Contracts\<close>

text \<open>What saving a subscription makes of the stored rows; \<open>created_at\<close> is never rewritten.\<close>

definition upsert_subscription ::
  "datetime \<Rightarrow> subscription \<Rightarrow> subscription list \<Rightarrow> subscription list" where
  "upsert_subscription t s xs =
     (if s_id s \<in> set (map s_id xs)
      then update_where (\<lambda>r. s_id r = s_id s) (\<lambda>r. s\<lparr>s_created_at := s_created_at r\<rparr>) xs
      else xs @ [s\<lparr>s_created_at := t\<rparr>])"

definition find_stripe :: "string \<Rightarrow> subscription list \<Rightarrow> subscription option" where
  "find_stripe sid xs = first_by s_id (filter (\<lambda>s. s_stripe_id s = Some sid) xs)"

lemma find_stripe_Some: "find_stripe sid xs = Some s \<Longrightarrow> s \<in> set xs \<and> s_stripe_id s = Some sid"
  unfolding find_stripe_def by (rule first_by_filter_Some)

lemma find_stripe_None: "find_stripe sid xs = None \<longleftrightarrow> (\<forall>s\<in>set xs. s_stripe_id s \<noteq> Some sid)"
  by (simp add: find_stripe_def filter_empty_conv)

lemma find_stripe_mem:
  assumes "distinct (somes (map s_stripe_id xs))" and "s \<in> set xs" and "s_stripe_id s = Some sid"
  shows "find_stripe sid xs = Some s"
  unfolding find_stripe_def
  by (rule first_by_unique) (use assms distinct_somes_eqD [OF assms(1)] in auto)

locale subscription_repository =
  fixes R :: subscription_repo
    and stored :: "db \<Rightarrow> subscription list"
    and good :: "db \<Rightarrow> bool"
  assumes by_stripe_id: "sub_by_stripe_id R sid w = (Inr (find_stripe sid (stored (db w))), w)"
    and save_stores: "sub_save R s w = (Inr (), w') \<Longrightarrow>
        stored (db w') = upsert_subscription (clock w) s (stored (db w))"
    and save_only: "sub_save R s w = (Inr (), w') \<Longrightarrow> stored (db w') = stored (db w) \<Longrightarrow>
        db w' = db w"
    and save_refuses: "sub_save R s w = (Inl e, w') \<Longrightarrow> w' = w"
    and save_good: "good (db w) \<Longrightarrow> good (db (snd (sub_save R s w)))"
    and good_keys: "good (db w) \<Longrightarrow>
        distinct (map s_id (stored (db w))) \<and> distinct (somes (map s_stripe_id (stored (db w))))"
    and active_for_customer: "sub_active_for_customer R c w = (Inr (Some s), w') \<Longrightarrow>
        w' = w \<and> s \<in> set (stored (db w)) \<and> s_customer s = Some c \<and> active_status (s_status s)"
    and no_active_for_customer: "sub_active_for_customer R c w = (Inr None, w') \<Longrightarrow>
        w' = w \<and> (\<forall>s\<in>set (stored (db w)). s_customer s = Some c \<longrightarrow> \<not> active_status (s_status s))"
    and active_returns: "\<exists>r. sub_active_for_customer R c w = (Inr r, w)"
begin

text \<open>A saved subscription is found again under its Stripe id.\<close>

lemma upsert_mem: "\<exists>r\<in>set (upsert_subscription t s xs). \<exists>c. r = s\<lparr>s_created_at := c\<rparr>"
  by (fastforce simp: upsert_subscription_def update_where_def)

lemma save_finds:
  assumes "good (db w)" and "sub_save R s w = (Inr (), w')" and "s_stripe_id s = Some sid"
  shows "\<exists>c. find_stripe sid (stored (db w')) = Some (s\<lparr>s_created_at := c\<rparr>)"
proof -
  have "good (db w')" using save_good [OF assms(1), of s] assms(2) by simp
  then have d: "distinct (somes (map s_stripe_id (stored (db w'))))" by (simp add: good_keys)
  obtain r c where "r \<in> set (stored (db w'))" "r = s\<lparr>s_created_at := c\<rparr>"
    using upsert_mem [of "clock w" s "stored (db w)"] save_stores [OF assms(2)] by auto
  with find_stripe_mem [OF d, of r sid] assms(3) show ?thesis by auto
qed

text \<open>Saving a modified copy of a stored row changes that row only, and keeps its \<open>created_at\<close>.\<close>

lemma save_existing:
  assumes "good (db w)" and "r \<in> set (stored (db w))" and "s_id s = s_id r"
    and "sub_save R s w = (Inr (), w')"
  shows "stored (db w') = map (\<lambda>x. if x = r then s\<lparr>s_created_at := s_created_at r\<rparr> else x) (stored (db w))"
proof -
  have "x = r" if "x \<in> set (stored (db w))" "s_id x = s_id r" for x
    using good_keys [OF assms(1)] assms(2) that by (auto intro: distinct_map_eqD)
  with assms save_stores [OF assms(4)] show ?thesis
    by (auto simp: upsert_subscription_def update_where_def)
qed

lemma save_same:
  assumes "good (db w)" and "s \<in> set (stored (db w))" and "sub_save R s w = (Inr (), w')"
  shows "stored (db w') = stored (db w)"
  using save_existing [OF assms(1,2) refl assms(3)] by (simp add: map_idI)

lemma save_others:
  assumes "good (db w)" and "sub_save R s w = (Inr (), w')" and "x \<in> set (stored (db w'))"
  shows "x \<in> set (stored (db w)) \<or> (\<exists>c. x = s\<lparr>s_created_at := c\<rparr>)"
  using assms(3) unfolding save_stores [OF assms(2)]
  by (auto simp: upsert_subscription_def update_where_def split: if_splits)

end

locale customer_repository =
  fixes C :: customer_repo
    and customers_of :: "db \<Rightarrow> customer list"
  assumes cust_reads: "cust_by_id C k w = (Inr (first_by c_id (filter (\<lambda>c. c_id c = k) (customers_of (db w)))), w)"
    and cust_reads_stripe: "cust_by_stripe_id C sid w
        = (Inr (first_by c_id (filter (\<lambda>c. c_stripe_id c = sid) (customers_of (db w)))), w)"
begin

lemma by_id_Some:
  "cust_by_id C k w = (Inr (Some c), w') \<Longrightarrow> w' = w \<and> c \<in> set (customers_of (db w)) \<and> c_id c = k"
  using first_by_filter_Some [of c_id "\<lambda>c. c_id c = k"] by (auto simp: cust_reads)

lemma by_stripe_id_Some:
  "cust_by_stripe_id C sid w = (Inr (Some c), w') \<Longrightarrow>
   w' = w \<and> c \<in> set (customers_of (db w)) \<and> c_stripe_id c = sid"
  using first_by_filter_Some [of c_id "\<lambda>c. c_stripe_id c = sid"] by (auto simp: cust_reads_stripe)

end

text \<open>Marking an event changes the event's own row: processed, or failed with its error.\<close>

locale event_repository =
  fixes V :: event_repo
    and events_of :: "world \<Rightarrow> stripe_event list"
    and good :: "world \<Rightarrow> bool"
  assumes mark_processed_rows: "good w \<Longrightarrow> \<exists>w'. event_mark_processed V sid w = (Inr (), w') \<and>
      events_of w' = update_where (\<lambda>e. e_stripe_id e = sid)
        (\<lambda>e. e\<lparr>e_processed_at := Some (clock w), e_error := None\<rparr>) (events_of w)"
    and mark_failed_rows: "good w \<Longrightarrow> \<exists>w'. event_mark_failed V sid x w = (Inr (), w') \<and>
      events_of w' = update_where (\<lambda>e. e_stripe_id e = sid) (\<lambda>e. e\<lparr>e_error := Some x\<rparr>) (events_of w)"
begin

lemma mark_processed_marks:
  assumes "good w" and "e \<in> set (events_of (snd (event_mark_processed V sid w)))"
    and "e_stripe_id e = sid"
  shows "e_processed_at e = Some (clock w) \<and> e_error e = None"
proof -
  obtain w' where "event_mark_processed V sid w = (Inr (), w')" and
    "events_of w' = update_where (\<lambda>e. e_stripe_id e = sid)
        (\<lambda>e. e\<lparr>e_processed_at := Some (clock w), e_error := None\<rparr>) (events_of w)"
    using mark_processed_rows [OF assms(1)] by blast
  with assms(2) have "(\<exists>e0. e = e0\<lparr>e_processed_at := Some (clock w), e_error := None\<rparr>)
      \<or> e_stripe_id e \<noteq> sid"
    by (auto dest!: update_where_mem)
  with assms(3) show ?thesis by auto
qed

lemma mark_failed_marks:
  assumes "good w" and "e \<in> set (events_of (snd (event_mark_failed V sid x w)))"
    and "e_stripe_id e = sid"
  shows "e_error e = Some x"
proof -
  obtain w' where "event_mark_failed V sid x w = (Inr (), w')" and
    "events_of w' = update_where (\<lambda>e. e_stripe_id e = sid) (\<lambda>e. e\<lparr>e_error := Some x\<rparr>) (events_of w)"
    using mark_failed_rows [OF assms(1)] by blast
  with assms(2) have "(\<exists>e0. e = e0\<lparr>e_error := Some x\<rparr>) \<or> e_stripe_id e \<noteq> sid"
    by (auto dest!: update_where_mem)
  with assms(3) show ?thesis by auto
qed

end

section \<open>The Django repositories\<close>

definition customer_save :: "customer \<Rightarrow> customer io" where
  "customer_save c =
     (let lookup = (\<lambda>r. if c_user c \<noteq> None then c_user r = c_user c
                        else if c_org c \<noteq> None then c_org r = c_org c else c_id r = c_id c) in
      mbind (first_row customers_T lookup) (\<lambda>found.
      case found of
        Some r \<Rightarrow> mseq (save_row customers_T (c_id r)
            (\<lambda>r. r\<lparr>c_stripe_id := c_stripe_id c, c_user := c_user c, c_org := c_org c,
                   c_livemode := c_livemode c\<rparr>)) (mret c)
      | None \<Rightarrow> mbind (if c_user c \<noteq> None \<or> c_org c \<noteq> None then fresh_uuid else mret (c_id c)) (\<lambda>i.
          mbind now (\<lambda>t.
          mseq (create_row customers_T (c\<lparr>c_id := i, c_created_at := t\<rparr>)) (mret c)))))"

definition customer_delete :: "uuid \<Rightarrow> unit io" where
  "customer_delete k = mmodify (\<lambda>w. w\<lparr>db := cascade_customers (\<lambda>c. c_id c = k) (db w)\<rparr>)"

definition customer_get :: "(customer \<Rightarrow> bool) \<Rightarrow> customer option io" where
  "customer_get P = first_row customers_T P"

definition django_customers :: customer_repo where
  "django_customers = \<lparr>cust_by_id = (\<lambda>k. customer_get (\<lambda>c. c_id c = k)),
     cust_by_stripe_id = (\<lambda>s. customer_get (\<lambda>c. c_stripe_id c = s)),
     cust_by_user_id = (\<lambda>u. customer_get (\<lambda>c. c_user c = Some u)),
     cust_by_org_id = (\<lambda>g. customer_get (\<lambda>c. c_org c = Some g)),
     cust_save = customer_save, cust_delete = customer_delete\<rparr>"

definition subscription_by_stripe_id :: "string \<Rightarrow> subscription option io" where
  "subscription_by_stripe_id sid = first_row subscriptions_T (\<lambda>s. s_stripe_id s = Some sid)"

definition get_latest_active :: "(subscription \<Rightarrow> bool) \<Rightarrow> subscription option io" where
  "get_latest_active P =
     mgets (\<lambda>w. latest_by s_created_at (filter (\<lambda>s. active_status (s_status s) \<and> P s) (subscriptions (db w))))"

definition customer_owned_by :: "world \<Rightarrow> uuid \<Rightarrow> subscription \<Rightarrow> bool" where
  "customer_owned_by w u s =
     list_ex (\<lambda>c. Some (c_id c) = s_customer s \<and> c_user c = Some u) (customers (db w))"

definition get_active_for_user :: "uuid \<Rightarrow> subscription option io" where
  "get_active_for_user u =
     mbind (get_latest_active (\<lambda>s. s_user s = Some u)) (\<lambda>by_user.
     mbind (mgets (\<lambda>w. w)) (\<lambda>w.
     mbind (get_latest_active (customer_owned_by w u)) (\<lambda>by_customer.
     mret (latest_by s_created_at (somes [by_user, by_customer])))))"

definition get_active_for_customer :: "uuid \<Rightarrow> subscription option io" where
  "get_active_for_customer c =
     mbind (rows subscriptions_T (\<lambda>s. s_customer s = Some c \<and> active_status (s_status s))) (\<lambda>xs.
     case xs of
       [] \<Rightarrow> mret None
     | x # rest \<Rightarrow>
         if rest = [] then mret (Some x) else get_latest_active (\<lambda>s. s_customer s = Some c))"

definition subscription_save :: "subscription \<Rightarrow> unit io" where
  "subscription_save s =
     mbind (exists_row subscriptions_T (\<lambda>r. s_id r = s_id s)) (\<lambda>found.
     if found
     then save_row subscriptions_T (s_id s) (\<lambda>r. s\<lparr>s_id := s_id r, s_created_at := s_created_at r\<rparr>)
     else mbind now (\<lambda>t. create_row subscriptions_T (s\<lparr>s_created_at := t\<rparr>)))"

definition django_subscriptions :: subscription_repo where
  "django_subscriptions = \<lparr>sub_by_stripe_id = subscription_by_stripe_id,
     sub_active_for_user = get_active_for_user,
     sub_active_for_customer = get_active_for_customer, sub_save = subscription_save\<rparr>"

definition django_plans :: plan_repo where
  "django_plans = \<lparr>plans_active = rows plans_T p_is_active,
     price_by_stripe_id = (\<lambda>s. first_row plan_prices_T (\<lambda>p. pp_stripe_price_id p = s))\<rparr>"

definition stripe_event_save :: "stripe_event \<Rightarrow> unit io" where
  "stripe_event_save e =
     mbind (exists_row stripe_events_T (\<lambda>r. e_id r = e_id e)) (\<lambda>found.
     if found
     then save_row stripe_events_T (e_id e) (\<lambda>r. e\<lparr>e_id := e_id r, e_created_at := e_created_at r\<rparr>)
     else mbind now (\<lambda>t. create_row stripe_events_T (e\<lparr>e_created_at := t\<rparr>)))"

definition mark_processed :: "string \<Rightarrow> unit io" where
  "mark_processed sid = mbind now (\<lambda>t. update_rows stripe_events_T (\<lambda>e. e_stripe_id e = sid)
     (\<lambda>e. e\<lparr>e_processed_at := Some t, e_error := None\<rparr>))"

definition mark_failed :: "string \<Rightarrow> exn \<Rightarrow> unit io" where
  "mark_failed sid x = update_rows stripe_events_T (\<lambda>e. e_stripe_id e = sid)
     (\<lambda>e. e\<lparr>e_error := Some x\<rparr>)"

definition django_events :: event_repo where
  "django_events = \<lparr>event_save = stripe_event_save, event_mark_processed = mark_processed,
     event_mark_failed = mark_failed\<rparr>"

lemmas django_repos = django_customers_def django_subscriptions_def django_plans_def
  django_events_def

lemma django_sel [simp]:
  "cust_by_id django_customers = (\<lambda>k. customer_get (\<lambda>c. c_id c = k))"
  "cust_by_stripe_id django_customers = (\<lambda>s. customer_get (\<lambda>c. c_stripe_id c = s))"
  "cust_by_user_id django_customers = (\<lambda>u. customer_get (\<lambda>c. c_user c = Some u))"
  "cust_by_org_id django_customers = (\<lambda>g. customer_get (\<lambda>c. c_org c = Some g))"
  "cust_save django_customers = customer_save" "cust_delete django_customers = customer_delete"
  "sub_by_stripe_id django_subscriptions = subscription_by_stripe_id"
  "sub_active_for_user django_subscriptions = get_active_for_user"
  "sub_active_for_customer django_subscriptions = get_active_for_customer"
  "sub_save django_subscriptions = subscription_save"
  "plans_active django_plans = rows plans_T p_is_active"
  "price_by_stripe_id django_plans
     = (\<lambda>s. first_row plan_prices_T (\<lambda>p. pp_stripe_price_id p = s))"
  "event_save django_events = stripe_event_save"
  "event_mark_processed django_events = mark_processed"
  "event_mark_failed django_events = mark_failed"
  by (simp_all add: django_repos)

section \<open>The contracts hold\<close>

lemma consistent_subscriptions:
  "consistent w \<Longrightarrow> subscriptions_ok (subscriptions (db w))"
  by (simp add: consistent_def db_ok_def tables_ok_def)

lemma keeps_subscription_save [keeps_intros]: "keeps consistent (subscription_save s)"
  unfolding subscription_save_def by (intro keeps_intros) simp

lemma subscription_save_stores:
  assumes "subscription_save s w = (Inr (), w')"
  shows "subscriptions (db w') = upsert_subscription (clock w) s (subscriptions (db w))"
proof -
  have "update_where (\<lambda>r. s_id r = s_id s) (\<lambda>r. s\<lparr>s_id := s_id r, s_created_at := s_created_at r\<rparr>) xs
      = update_where (\<lambda>r. s_id r = s_id s) (\<lambda>r. s\<lparr>s_created_at := s_created_at r\<rparr>) xs" for xs
    by (induction xs) auto
  moreover have "list_ex (\<lambda>r. s_id r = s_id s) xs \<longleftrightarrow> s_id s \<in> set (map s_id xs)" for xs
    by (induction xs) auto
  ultimately show ?thesis
    using assms by (auto simp: subscription_save_def run_simps save_row_def update_rows_def
        create_row_def upsert_subscription_def Let_def split: if_splits)
qed

lemma subscription_save_only:
  assumes "subscription_save s w = (Inr (), w')"
    and "subscriptions (db w') = subscriptions (db w)"
  shows "db w' = db w"
proof -
  have "\<exists>xs. db w' = (db w)\<lparr>subscriptions := xs\<rparr>"
    using assms(1) by (auto simp: subscription_save_def run_simps save_row_def update_rows_def
        create_row_def Let_def split: if_splits)
  with assms(2) show ?thesis by auto
qed

lemma subscription_save_refuses: "subscription_save s w = (Inl e, w') \<Longrightarrow> w' = w"
  by (auto simp: subscription_save_def run_simps save_row_def update_rows_def
      create_row_def Let_def split: if_splits)

lemma get_active_for_customer_run:
  "get_active_for_customer c w =
     (Inr (case filter (\<lambda>s. s_customer s = Some c \<and> active_status (s_status s)) (subscriptions (db w)) of
        [] \<Rightarrow> None | x # rest \<Rightarrow> if rest = [] then Some x
          else latest_by s_created_at (filter (\<lambda>s. active_status (s_status s) \<and> s_customer s = Some c)
                 (subscriptions (db w)))), w)"
  by (auto simp: get_active_for_customer_def get_latest_active_def run_simps split: list.splits)

lemma get_active_for_customer_Some:
  assumes "get_active_for_customer c w = (Inr (Some s), w')"
  shows "w' = w \<and> s \<in> set (subscriptions (db w)) \<and> s_customer s = Some c \<and> active_status (s_status s)"
proof (cases "filter (\<lambda>s. s_customer s = Some c \<and> active_status (s_status s)) (subscriptions (db w))")
  case Nil
  with assms show ?thesis by (simp add: get_active_for_customer_run)
next
  case (Cons x rest)
  then have "x \<in> set (filter (\<lambda>s. s_customer s = Some c \<and> active_status (s_status s)) (subscriptions (db w)))"
    by simp
  with Cons assms show ?thesis
    by (auto simp: get_active_for_customer_run split: if_splits dest: latest_by_filter_Some)
qed

lemma get_active_for_customer_None:
  assumes "get_active_for_customer c w = (Inr None, w')"
  shows "w' = w \<and> (\<forall>s\<in>set (subscriptions (db w)). s_customer s = Some c \<longrightarrow> \<not> active_status (s_status s))"
proof (cases "filter (\<lambda>s. s_customer s = Some c \<and> active_status (s_status s)) (subscriptions (db w))")
  case Nil
  with assms show ?thesis by (auto simp: get_active_for_customer_run filter_empty_conv)
next
  case (Cons x rest)
  then have x: "x \<in> set (subscriptions (db w))" "s_customer x = Some c" "active_status (s_status x)"
    by (metis (mono_tags, lifting) list.set_intros(1) mem_Collect_eq set_filter)+
  with Cons assms show ?thesis
    by (auto simp: get_active_for_customer_run filter_empty_conv split: if_splits)
qed

interpretation subs: subscription_repository django_subscriptions subscriptions db_ok
proof (unfold_locales, goal_cases)
  case (1 sid w)
  show ?case
    by (simp add: django_subscriptions_def subscription_by_stripe_id_def find_stripe_def)
next
  case (2 s w w')
  then show ?case by (simp add: django_subscriptions_def subscription_save_stores)
next
  case (3 s w w')
  then show ?case by (simp add: django_subscriptions_def subscription_save_only)
next
  case (4 s w e w')
  then show ?case by (simp add: django_subscriptions_def subscription_save_refuses)
next
  case (5 w s)
  then show ?case
    using keepsD [OF keeps_subscription_save] by (simp add: django_subscriptions_def consistent_def)
next
  case (6 w)
  then show ?case by (simp add: db_ok_def tables_ok_def subscriptions_ok_def)
next
  case (7 c w s w')
  then show ?case using get_active_for_customer_Some by (simp add: django_subscriptions_def)
next
  case (8 c w w')
  then show ?case using get_active_for_customer_None by (simp add: django_subscriptions_def)
next
  case (9 c w)
  show ?case by (simp add: django_subscriptions_def get_active_for_customer_run)
qed

interpretation custs: customer_repository django_customers customers
  by unfold_locales (simp_all add: django_customers_def customer_get_def)

lemma consistent_events: "consistent w \<Longrightarrow> stripe_events_ok (stripe_events (db w))"
  by (simp add: consistent_def db_ok_def tables_ok_def)

lemma update_events_run:
  assumes "consistent w" and "\<And>e. e_id (f e) = e_id e" and "\<And>e. e_stripe_id (f e) = e_stripe_id e"
  shows "update_rows stripe_events_T P f w
    = (Inr (), w\<lparr>db := (db w)\<lparr>stripe_events := update_where P f (stripe_events (db w))\<rparr>\<rparr>)"
proof -
  have "stripe_events_ok (update_where P f (stripe_events (db w)))"
    using consistent_events [OF assms(1)] assms(2,3)
    by (simp add: stripe_events_ok_def map_update_where)
  then show ?thesis
    by (simp add: update_rows_def Let_def event_refs_def refs_ok_def list_all_iff)
qed

interpretation evs: event_repository django_events "\<lambda>w. stripe_events (db w)" consistent
  by unfold_locales
    (simp_all add: django_events_def mark_processed_def mark_failed_def update_events_run run_simps)

lemma keeps_repos [keeps_intros]:
  "keeps consistent (customer_save c)" "keeps consistent (stripe_event_save v)"
  "keeps consistent (mark_processed sid)" "keeps consistent (mark_failed sid x)"
  "keeps consistent (customer_delete k)" "keeps consistent (customer_get P)"
  "keeps consistent (subscription_by_stripe_id sid)" "keeps consistent (get_latest_active Q)"
  "keeps consistent (get_active_for_user u)" "keeps consistent (get_active_for_customer k)"
proof -
  show "keeps consistent (customer_delete k)"
    unfolding customer_delete_def
    by (rule keeps_mmodify) (simp add: consistent_def db_ok_def cascade_customers_tables cascade_customers_fk)
qed (unfold customer_save_def stripe_event_save_def mark_processed_def mark_failed_def Let_def
    customer_get_def subscription_by_stripe_id_def get_latest_active_def get_active_for_user_def
    get_active_for_customer_def, (intro keeps_intros; simp)+)

end
