(* ===== verification/Samples.thy ===== *)
theory Samples
  imports Cascade
begin

text \<open>
  A small database, on which the properties that have hypotheses are instantiated: two users, an
  organisation of the first with the second as a member, a personal and a team plan with their
  prices, a subscription of each kind, and a product worth 100 credits.
\<close>

definition sample_user :: user where
  "sample_user = \<lparr>u_id = 1, u_email = ''ann@example.com'', u_full_name = ''Ann'',
     u_avatar_url = None, u_locale = ''en'', u_currency = ''usd'', u_phone_prefix = None,
     u_phone = None, u_timezone = None, u_job_title = None, u_pronouns = None, u_bio = None,
     u_is_verified = True, u_registration_method = ''email'', u_is_active = True,
     u_is_staff = False, u_password_changed_at = None, u_password = Some ''psecret'',
     u_created_at = 0, u_updated_at = 0\<rparr>"

definition sample_sub :: subscription where
  "sample_sub = \<lparr>s_id = 40, s_stripe_id = Some ''sub_1'', s_customer = Some 30, s_user = Some 1,
     s_status = ACTIVE, s_plan = 20, s_seat_limit = 1, s_trial_ends_at = None,
     s_period_start = 0, s_period_end = 1000000, s_canceled_at = None, s_cancel_at = None,
     s_scheduled_plan = Some 22, s_scheduled_change_at = Some 1000000, s_currency = ''usd'',
     s_created_at = 0\<rparr>"

definition sample_db :: db where
  "sample_db = empty_db\<lparr>
     users := [sample_user, sample_user\<lparr>u_id := 2, u_email := ''bob@example.com'', u_full_name := ''Bob''\<rparr>],
     orgs := [\<lparr>o_id = 10, o_name = ''Acme'', o_slug = ''acme'', o_logo_url = None,
                o_created_by = Some 1, o_created_at = 0\<rparr>],
     members := [\<lparr>m_id = 11, m_org = 10, m_user = 1, m_role = OWNER, m_is_billing = True, m_joined_at = 0\<rparr>,
                 \<lparr>m_id = 12, m_org = 10, m_user = 2, m_role = MEMBER, m_is_billing = False, m_joined_at = 0\<rparr>],
     plans := [\<lparr>p_id = 20, p_name = ''Pro'', p_description = [], p_context = PERSONAL, p_tier = PRO,
                 p_interval = MONTH, p_is_active = True\<rparr>,
               \<lparr>p_id = 22, p_name = ''Basic'', p_description = [], p_context = PERSONAL, p_tier = BASIC,
                 p_interval = MONTH, p_is_active = True\<rparr>,
               \<lparr>p_id = 24, p_name = ''Team'', p_description = [], p_context = TEAM, p_tier = PRO,
                 p_interval = MONTH, p_is_active = True\<rparr>],
     plan_prices := [\<lparr>pp_id = 21, pp_plan = 20, pp_stripe_price_id = ''price_1'', pp_amount = 1900\<rparr>,
                     \<lparr>pp_id = 23, pp_plan = 22, pp_stripe_price_id = ''price_2'', pp_amount = 900\<rparr>,
                     \<lparr>pp_id = 25, pp_plan = 24, pp_stripe_price_id = ''price_3'', pp_amount = 4900\<rparr>],
     customers := [\<lparr>c_id = 30, c_stripe_id = ''cus_1'', c_user = Some 1, c_org = None,
                     c_livemode = False, c_created_at = 0\<rparr>,
                   \<lparr>c_id = 31, c_stripe_id = ''cus_2'', c_user = None, c_org = Some 10,
                     c_livemode = False, c_created_at = 0\<rparr>],
     subscriptions := [sample_sub,
       sample_sub\<lparr>s_id := 41, s_stripe_id := Some ''sub_2'', s_customer := Some 31, s_user := None,
         s_plan := 24, s_seat_limit := 3, s_scheduled_plan := None, s_scheduled_change_at := None\<rparr>],
     products := [\<lparr>pr_id = 7, pr_name = ''pack'', pr_credits = 100, pr_is_active = True\<rparr>]\<rparr>"

lemmas sample_simps = sample_db_def empty_db_def start_world_def sample_user_def sample_sub_def

lemma sample_consistent: "consistent (start_world sample_db)"
  by (simp add: consistent_def db_ok_def tables_ok_def table_ok_defs fk_ok_rows sample_simps
      refs_defs xor_owner_def lower_def lower_char_def)

lemma sample_fresh:
  "uuids_fresh credit_transactions_T (start_world sample_db)"
  "uuids_fresh credit_balances_T (start_world sample_db)"
  "uuids_fresh subscriptions_T (start_world sample_db)"
  "uuids_fresh orgs_T (start_world sample_db)" "uuids_fresh members_T (start_world sample_db)"
  "uuids_fresh customers_T (start_world sample_db)" "uuids_fresh users_T (start_world sample_db)"
  by (simp_all add: uuids_fresh_def sample_simps)

end
