(* ===== verification/Billing.thy ===== *)
theory Billing
  imports Repos Samples
begin

text \<open>
  The core billing service, \<open>saasmint_core/services/billing.py\<close>: Stripe customers, checkout and
  portal sessions, cancelling and resuming a subscription and releasing its schedule.  The locale
  \<open>billing_client\<close> holds what these operations do to the stored rows and to the Stripe log over
  any subscription repository.
\<close>

section \<open>Customers\<close>

text \<open>Fields of the domain models are validated: a string, a boolean.\<close>

definition want_str :: "json \<Rightarrow> string res" where
  "want_str j = (case j of JStr s \<Rightarrow> Inr s | _ \<Rightarrow> Inl ValueError)"

definition want_bool :: "json \<Rightarrow> bool res" where
  "want_bool j = (case j of JBool b \<Rightarrow> Inr b | JInt i \<Rightarrow> (if i = 0 then Inr False
     else if i = 1 then Inr True else Inl ValueError) | _ \<Rightarrow> Inl ValueError)"

definition new_customer :: "uuid \<Rightarrow> json \<Rightarrow> uuid option \<Rightarrow> uuid option \<Rightarrow> datetime \<Rightarrow> customer res" where
  "new_customer i j user org t =
     rbind (attr j ''id'') (\<lambda>sid. rbind (attr j ''livemode'') (\<lambda>live.
     rbind (want_str sid) (\<lambda>sid. rbind (want_bool live) (\<lambda>live.
     if xor_owner user org
     then Inr \<lparr>c_id = i, c_stripe_id = sid, c_user = user, c_org = org, c_livemode = live,
               c_created_at = t\<rparr>
     else Inl ValueError))))"

definition owner_metadata :: "uuid option \<Rightarrow> uuid option \<Rightarrow> (string \<times> string) list" where
  "owner_metadata user org =
     (case user of Some u \<Rightarrow> [(''user_id'', uuid_str u)] | None \<Rightarrow> [])
   @ (case org of Some g \<Rightarrow> [(''org_id'', uuid_str g)] | None \<Rightarrow> [])"

definition get_or_create_customer ::
  "env \<Rightarrow> uuid option \<Rightarrow> uuid option \<Rightarrow> string \<Rightarrow> string option \<Rightarrow> string \<Rightarrow> customer_repo \<Rightarrow> customer io" where
  "get_or_create_customer E user org email name locale C =
     mbind (case user of Some u \<Rightarrow> cust_by_user_id C u
            | None \<Rightarrow> (case org of Some g \<Rightarrow> cust_by_org_id C g | None \<Rightarrow> mraise ValueError)) (\<lambda>existing.
     case existing of Some c \<Rightarrow> mret c
     | None \<Rightarrow>
       mbind (call_stripe E (CustomerCreate email name locale (owner_metadata user org))) (\<lambda>j.
       mbind fresh_uuid (\<lambda>i. mbind now (\<lambda>t.
       mbind (mlift (new_customer i j user org t)) (\<lambda>c. cust_save C c)))))"

definition create_team_stripe_customer ::
  "env \<Rightarrow> uuid \<Rightarrow> string \<Rightarrow> string option \<Rightarrow> string \<Rightarrow> json io" where
  "create_team_stripe_customer E user email name locale =
     mbind (call_stripe E (CustomerCreate email name locale
       [(''user_id'', uuid_str user), (''scope'', ''team_checkout'')])) (\<lambda>j. mlift (attr j ''id''))"

section \<open>Sessions\<close>

definition checkout_request ::
  "string \<Rightarrow> string \<Rightarrow> string \<Rightarrow> string \<Rightarrow> string \<Rightarrow> int \<Rightarrow> string \<Rightarrow> string \<Rightarrow> string \<Rightarrow>
   (string \<times> string) list option \<Rightarrow> int option \<Rightarrow> checkout_params" where
  "checkout_request mode customer price client_ref currency quantity locale success cancel metadata trial =
     \<lparr>k_customer = customer, k_client_reference_id = client_ref, k_mode = mode, k_price = price,
      k_quantity = quantity, k_locale = locale, k_success_url = success, k_cancel_url = cancel,
      k_allow_promotion_codes = True, k_adaptive_pricing = (currency = ''usd''),
      k_automatic_tax = True, k_tax_id_collection = True, k_customer_update_address = ''auto'',
      k_metadata = metadata, k_trial_period_days = trial\<rparr>"

definition create_checkout_session ::
  "env \<Rightarrow> string \<Rightarrow> string \<Rightarrow> string \<Rightarrow> string \<Rightarrow> int \<Rightarrow> string \<Rightarrow> string \<Rightarrow> string \<Rightarrow>
   int option \<Rightarrow> (string \<times> string) list option \<Rightarrow> json io" where
  "create_checkout_session E customer price client_ref currency quantity locale success cancel trial metadata =
     mbind (call_stripe E (CheckoutCreate (checkout_request ''subscription'' customer price client_ref
       currency quantity locale success cancel metadata trial))) (\<lambda>j. mlift (attr j ''url''))"

definition create_product_checkout_session ::
  "env \<Rightarrow> string \<Rightarrow> string \<Rightarrow> string \<Rightarrow> string \<Rightarrow> string \<Rightarrow> string \<Rightarrow> string \<Rightarrow>
   (string \<times> string) list option \<Rightarrow> json io" where
  "create_product_checkout_session E customer price client_ref currency locale success cancel metadata =
     mbind (call_stripe E (CheckoutCreate (checkout_request ''payment'' customer price client_ref
       currency 1 locale success cancel metadata None))) (\<lambda>j. mlift (attr j ''url''))"

definition create_billing_portal_session ::
  "env \<Rightarrow> string \<Rightarrow> string \<Rightarrow> string \<Rightarrow> json option \<Rightarrow> json io" where
  "create_billing_portal_session E customer locale return_url flow =
     mbind (call_stripe E (PortalCreate customer locale return_url flow)) (\<lambda>j. mlift (attr j ''url''))"

section \<open>Cancelling, resuming, releasing\<close>

definition releasable :: "json \<Rightarrow> bool" where
  "releasable status \<longleftrightarrow> status = JStr ''not_started'' \<or> status = JStr ''active''"

definition release_pending_schedule :: "env \<Rightarrow> string \<Rightarrow> unit io" where
  "release_pending_schedule E sid =
     mbind (call_stripe E (SubRetrieve sid)) (\<lambda>sub.
     mbind (mlift (attr sub ''schedule'')) (\<lambda>schedule_id.
     if \<not> truthy schedule_id then mret ()
     else mbind (call_stripe E (SchedRetrieve (py_str schedule_id))) (\<lambda>schedule.
       mbind (mlift (attr schedule ''status'')) (\<lambda>status.
       if \<not> releasable status then mret ()
       else mbind (mlift (attr schedule ''id'')) (\<lambda>k.
         mseq (call_stripe E (SchedRelease (py_str k))) (mret ()))))))"

text \<open>The copy of the row that mirrors a response of Stripe; an unknown status is ignored.\<close>

definition with_cancel_state :: "subscription \<Rightarrow> json \<Rightarrow> subscription res" where
  "with_cancel_state s j =
     rbind (attr j ''cancel_at'') (\<lambda>cancel_at.
     rbind (attr j ''canceled_at'') (\<lambda>canceled_at.
     rbind (attr j ''status'') (\<lambda>status.
     rbind (ts_to_dt cancel_at) (\<lambda>cancel_at.
     rbind (ts_to_dt canceled_at) (\<lambda>canceled_at.
     Inr (s\<lparr>s_cancel_at := cancel_at, s_canceled_at := canceled_at,
            s_status := (case status of
               JStr t \<Rightarrow> (case sub_status_of t of Inr st \<Rightarrow> st | Inl _ \<Rightarrow> s_status s)
             | _ \<Rightarrow> s_status s)\<rparr>))))))"

definition mirror_cancel_state :: "subscription \<Rightarrow> json \<Rightarrow> subscription_repo \<Rightarrow> unit io" where
  "mirror_cancel_state s j S = mbind (mlift (with_cancel_state s j)) (sub_save S)"

text \<open>\<open>active is None or active.stripe_id is None\<close>\<close>

definition require_active :: "subscription_repo \<Rightarrow> uuid \<Rightarrow> (subscription \<times> string) io" where
  "require_active S customer =
     mbind (sub_active_for_customer S customer) (\<lambda>active.
     case active of None \<Rightarrow> mraise SubscriptionNotFoundError
     | Some s \<Rightarrow> (case s_stripe_id s of None \<Rightarrow> mraise SubscriptionNotFoundError
                  | Some sid \<Rightarrow> mret (s, sid)))"

definition cancel_subscription :: "env \<Rightarrow> uuid \<Rightarrow> bool \<Rightarrow> subscription_repo \<Rightarrow> unit io" where
  "cancel_subscription E customer at_period_end S =
     mbind (require_active S customer) (\<lambda>(active, sid).
     mseq (mwhen (s_scheduled_plan active \<noteq> None) (release_pending_schedule E sid))
     (if at_period_end
      then mbind (call_stripe E (SubModifyCancelAt sid ''min_period_end''))
             (\<lambda>j. mirror_cancel_state active j S)
      else mbind (call_stripe E (SubCancel sid None)) (\<lambda>j. mirror_cancel_state active j S)))"

definition release_pending_schedule_for_customer :: "env \<Rightarrow> uuid \<Rightarrow> subscription_repo \<Rightarrow> unit io" where
  "release_pending_schedule_for_customer E customer S =
     mbind (require_active S customer) (\<lambda>(active, sid).
     mseq (release_pending_schedule E sid)
     (mwhen (s_scheduled_plan active \<noteq> None \<or> s_scheduled_change_at active \<noteq> None)
       (sub_save S (active\<lparr>s_scheduled_plan := None, s_scheduled_change_at := None\<rparr>))))"

definition resume_subscription :: "env \<Rightarrow> uuid \<Rightarrow> subscription_repo \<Rightarrow> unit io" where
  "resume_subscription E customer S =
     mbind (require_active S customer) (\<lambda>(active, sid).
     mbind (call_stripe E (SubModifyCancelAt sid [])) (\<lambda>j. mirror_cancel_state active j S))"

section \<open>The calls they make\<close>

text \<open>
  What releasing asks of Stripe: it always looks at the subscription, at the schedule when one is
  attached, and releases it when it can be.
\<close>

definition release_calls :: "env \<Rightarrow> stripe_call list \<Rightarrow> string \<Rightarrow> stripe_call list option" where
  "release_calls E log sid =
     (case rbind (stripe E log (SubRetrieve sid)) (\<lambda>sub. attr sub ''schedule'') of
        Inl _ \<Rightarrow> None
      | Inr k \<Rightarrow>
        if \<not> truthy k then Some [SubRetrieve sid]
        else (case stripe E (log @ [SubRetrieve sid]) (SchedRetrieve (py_str k)) of
            Inl _ \<Rightarrow> None
          | Inr schedule \<Rightarrow>
            (case (attr schedule ''status'', attr schedule ''id'') of
               (Inr status, Inr i) \<Rightarrow>
                 if releasable status
                 then Some [SubRetrieve sid, SchedRetrieve (py_str k), SchedRelease (py_str i)]
                 else Some [SubRetrieve sid, SchedRetrieve (py_str k)]
             | (Inr status, Inl _) \<Rightarrow>
                 if releasable status then None else Some [SubRetrieve sid, SchedRetrieve (py_str k)]
             | _ \<Rightarrow> None)))"

lemma release_Inr:
  assumes "release_pending_schedule E sid w = (Inr (), w')"
  shows "\<exists>cs. release_calls E (calls w) sid = Some cs \<and> w' = w\<lparr>calls := calls w @ cs\<rparr>"
  using assms unfolding release_pending_schedule_def release_calls_def
  by (auto simp: run_simps split: sum.splits if_splits)

lemma release_db: "db (snd (release_pending_schedule E sid w)) = db w"
  by (auto simp: release_pending_schedule_def run_simps split: sum.splits)

lemma release_no_mutation:
  "set (calls (snd (release_pending_schedule E sid w))) \<subseteq> set (calls w)
     \<union> {c. \<exists>k. c = SubRetrieve k \<or> c = SchedRetrieve k \<or> c = SchedRelease k}"
  by (auto simp: release_pending_schedule_def run_simps split: sum.splits)

locale billing_client = subscription_repository S stored good for S stored good +
  assumes save_local: "sub_save S s w = (r, w') \<Longrightarrow> calls w' = calls w \<and> queue w' = queue w"
begin

lemma save_copy:
  assumes "good (db w)" and "r \<in> set (stored (db w))" and "s_id s = s_id r"
    and "s_created_at s = s_created_at r" and "sub_save S s w = (Inr (), w')"
  shows "stored (db w') = map (\<lambda>x. if x = r then s else x) (stored (db w))"
proof -
  have "s\<lparr>s_created_at := s_created_at r\<rparr> = s" using assms(4) by simp
  with save_existing [OF assms(1,2,3,5)] show ?thesis by simp
qed

lemma require_active_Inr:
  assumes "require_active S k w = (Inr (s, sid), w')"
  shows "w' = w \<and> s \<in> set (stored (db w)) \<and> s_customer s = Some k \<and> active_status (s_status s)
    \<and> s_stripe_id s = Some sid"
proof -
  obtain r where r: "sub_active_for_customer S k w = (Inr r, w)" using active_returns by blast
  show ?thesis
  proof (cases r)
    case (Some s0)
    with r active_for_customer [of k w s0 w] assms show ?thesis
      by (auto simp: require_active_def run_simps split: option.splits)
  qed (use assms r in \<open>simp add: require_active_def run_simps\<close>)
qed

lemma require_active_Inl:
  assumes "require_active S k w = (Inl e, w')"
  shows "w' = w \<and> e = SubscriptionNotFoundError"
proof -
  obtain r where r: "sub_active_for_customer S k w = (Inr r, w)" using active_returns by blast
  with assms show ?thesis
    by (cases r) (auto simp: require_active_def run_simps split: option.splits)
qed

lemma require_active_none:
  assumes "\<And>s. s \<in> set (stored (db w)) \<Longrightarrow> s_customer s = Some k \<Longrightarrow> active_status (s_status s)
    \<Longrightarrow> s_stripe_id s = None"
  shows "require_active S k w = (Inl SubscriptionNotFoundError, w)"
proof -
  obtain r where r: "sub_active_for_customer S k w = (Inr r, w)" using active_returns by blast
  with active_for_customer [of k w _ w] assms show ?thesis
    by (cases r) (auto simp: require_active_def run_simps)
qed

text \<open>
  A cancellation that returned: the schedule was dealt with first when one was pending, then one
  cancelling call, then the row of the cancelled subscription alone carries Stripe's answer.
\<close>

lemma cancel_Inr:
  assumes "good (db w)" and "cancel_subscription E k at_period_end S w = (Inr (), w')"
  obtains s sid cs j s' where "s \<in> set (stored (db w))" and "s_customer s = Some k"
    and "active_status (s_status s)" and "s_stripe_id s = Some sid"
    and "if s_scheduled_plan s = None then cs = [] else release_calls E (calls w) sid = Some cs"
    and "calls w' = calls w @ cs @ [if at_period_end then SubModifyCancelAt sid ''min_period_end''
                                     else SubCancel sid None]"
    and "stripe E (calls w @ cs) (if at_period_end then SubModifyCancelAt sid ''min_period_end''
           else SubCancel sid None) = Inr j"
    and "with_cancel_state s j = Inr s'"
    and "stored (db w') = map (\<lambda>x. if x = s then s' else x) (stored (db w))"
proof -
  let ?c = "\<lambda>sid. if at_period_end then SubModifyCancelAt sid ''min_period_end'' else SubCancel sid None"
  from assms(2) obtain s sid where a: "require_active S k w = (Inr (s, sid), w)"
    and rest: "mseq (mwhen (s_scheduled_plan s \<noteq> None) (release_pending_schedule E sid))
      (mbind (call_stripe E (?c sid)) (\<lambda>j. mirror_cancel_state s j S)) w = (Inr (), w')"
    unfolding cancel_subscription_def
    by (elim mbind_InrE) (auto dest: require_active_Inr split: if_splits)
  note s = require_active_Inr [OF a]
  from rest obtain w1 where rel: "mwhen (s_scheduled_plan s \<noteq> None) (release_pending_schedule E sid) w = (Inr (), w1)"
    and k: "mbind (call_stripe E (?c sid)) (\<lambda>j. mirror_cancel_state s j S) w1 = (Inr (), w')"
    by (auto elim: mseq_InrE)
  obtain cs where cs: "if s_scheduled_plan s = None then cs = [] else release_calls E (calls w) sid = Some cs"
    and w1: "w1 = w\<lparr>calls := calls w @ cs\<rparr>"
    using rel release_Inr [of E sid w w1] that by (cases "s_scheduled_plan s = None") auto
  from k obtain j s' where j: "stripe E (calls w1) (?c sid) = Inr j" and s': "with_cancel_state s j = Inr s'"
    and save: "sub_save S s' (w1\<lparr>calls := calls w1 @ [?c sid]\<rparr>) = (Inr (), w')"
    by (auto simp: mirror_cancel_state_def run_simps split: sum.splits)
  have id: "s_id s' = s_id s" "s_created_at s' = s_created_at s"
    using s' by (auto simp: with_cancel_state_def elim!: rbind_InrE)
  have "stored (db w') = map (\<lambda>x. if x = s then s' else x) (stored (db w))"
    using save_copy [where r = s, OF _ _ id save] assms(1) s w1 by simp
  moreover have "calls w' = calls w @ cs @ [?c sid]" using save_local [OF save] w1 by simp
  ultimately show thesis using that s cs j s' w1 by auto
qed

lemma mirror_Inl:
  "mirror_cancel_state s j S w = (Inl e, w') \<Longrightarrow> db w' = db w"
  by (auto simp: mirror_cancel_state_def run_simps split: sum.splits dest: save_refuses)

lemma cancel_Inl:
  assumes "cancel_subscription E k at_period_end S w = (Inl e, w')"
  shows "db w' = db w"
proof (cases "require_active S k w")
  case (Pair r w1)
  show ?thesis
  proof (cases r)
    case (Inl x)
    with Pair assms require_active_Inl [of k w x w1] show ?thesis
      by (auto simp: cancel_subscription_def run_simps)
  next
    case (Inr p)
    obtain s sid where p: "p = (s, sid)" by (cases p)
    with Pair Inr have a: "require_active S k w = (Inr (s, sid), w)"
      using require_active_Inr by blast
    have "db (snd (mwhen (s_scheduled_plan s \<noteq> None) (release_pending_schedule E sid) w)) = db w"
      by (simp add: release_db)
    with a assms show ?thesis
      by (auto simp: cancel_subscription_def run_simps release_db split: prod.splits sum.splits if_splits
          dest!: mirror_Inl) (metis release_db snd_conv)+
  qed
qed

lemma resume_Inr:
  assumes "good (db w)" and "resume_subscription E k S w = (Inr (), w')"
  obtains s sid j s' where "s \<in> set (stored (db w))" and "s_customer s = Some k"
    and "active_status (s_status s)" and "s_stripe_id s = Some sid"
    and "calls w' = calls w @ [SubModifyCancelAt sid []]"
    and "stripe E (calls w) (SubModifyCancelAt sid []) = Inr j"
    and "with_cancel_state s j = Inr s'"
    and "stored (db w') = map (\<lambda>x. if x = s then s' else x) (stored (db w))"
proof -
  from assms(2) obtain s sid where a: "require_active S k w = (Inr (s, sid), w)"
    and rest: "mbind (call_stripe E (SubModifyCancelAt sid [])) (\<lambda>j. mirror_cancel_state s j S) w = (Inr (), w')"
    unfolding resume_subscription_def by (elim mbind_InrE) (auto dest: require_active_Inr)
  note s = require_active_Inr [OF a]
  from rest obtain j s' where j: "stripe E (calls w) (SubModifyCancelAt sid []) = Inr j"
    and s': "with_cancel_state s j = Inr s'"
    and save: "sub_save S s' (w\<lparr>calls := calls w @ [SubModifyCancelAt sid []]\<rparr>) = (Inr (), w')"
    by (auto simp: mirror_cancel_state_def run_simps split: sum.splits)
  have id: "s_id s' = s_id s" "s_created_at s' = s_created_at s"
    using s' by (auto simp: with_cancel_state_def elim!: rbind_InrE)
  have st: "stored (db w') = map (\<lambda>x. if x = s then s' else x) (stored (db w))"
    using save_copy [where r = s, OF _ _ id save] assms(1) s by simp
  show thesis using that [OF _ _ _ _ _ j s' st] s save_local [OF save] by simp
qed

lemma release_for_customer_Inr:
  assumes "good (db w)" and "release_pending_schedule_for_customer E k S w = (Inr (), w')"
  obtains s sid cs where "s \<in> set (stored (db w))" and "s_customer s = Some k"
    and "s_stripe_id s = Some sid" and "release_calls E (calls w) sid = Some cs"
    and "calls w' = calls w @ cs"
    and "stored (db w') = map (\<lambda>x. if x = s
           then s\<lparr>s_scheduled_plan := None, s_scheduled_change_at := None\<rparr> else x) (stored (db w))"
proof -
  let ?s' = "\<lambda>s::subscription. s\<lparr>s_scheduled_plan := None, s_scheduled_change_at := None\<rparr>"
  from assms(2) obtain s sid where a: "require_active S k w = (Inr (s, sid), w)"
    and rest: "mseq (release_pending_schedule E sid)
      (mwhen (s_scheduled_plan s \<noteq> None \<or> s_scheduled_change_at s \<noteq> None) (sub_save S (?s' s))) w = (Inr (), w')"
    unfolding release_pending_schedule_for_customer_def
    by (elim mbind_InrE) (auto dest: require_active_Inr)
  note s = require_active_Inr [OF a]
  from rest obtain w1 where rel: "release_pending_schedule E sid w = (Inr (), w1)"
    and k: "mwhen (s_scheduled_plan s \<noteq> None \<or> s_scheduled_change_at s \<noteq> None) (sub_save S (?s' s)) w1 = (Inr (), w')"
    by (auto elim: mseq_InrE)
  from release_Inr [OF rel] obtain cs where cs: "release_calls E (calls w) sid = Some cs"
    and w1: "w1 = w\<lparr>calls := calls w @ cs\<rparr>" by blast
  show thesis
  proof (cases "s_scheduled_plan s \<noteq> None \<or> s_scheduled_change_at s \<noteq> None")
    case True
    with k have save: "sub_save S (?s' s) w1 = (Inr (), w')" by simp
    have "stored (db w') = map (\<lambda>x. if x = s then ?s' s else x) (stored (db w))"
      using save_copy [where r = s, OF _ _ _ _ save] assms(1) s w1 by simp
    then show thesis
      using that [of s sid cs] s cs save_local [OF save] w1 by simp
  next
    case False
    then have "?s' s = s" by simp
    then have "map (\<lambda>x. if x = s then ?s' s else x) (stored (db w)) = stored (db w)"
      by (simp add: map_idI)
    with False k that [of s sid cs] s cs w1 show thesis by auto
  qed
qed

end

section \<open>The Django repositories\<close>

lemma subscription_save_local:
  "subscription_save s w = (r, w') \<Longrightarrow> calls w' = calls w \<and> queue w' = queue w"
  by (auto simp: subscription_save_def run_simps save_row_def update_rows_def
      create_row_def Let_def split: if_splits)

interpretation bill: billing_client django_subscriptions subscriptions db_ok
  by unfold_locales (simp add: subscription_save_local)

lemma keeps_release [keeps_intros]: "keeps consistent (release_pending_schedule E sid)"
  unfolding release_pending_schedule_def by (intro keeps_intros)

lemma keeps_billing [keeps_intros]:
  "keeps consistent (get_or_create_customer E user org email name locale django_customers)"
  "keeps consistent (cancel_subscription E k at_end django_subscriptions)"
  "keeps consistent (release_pending_schedule_for_customer E k django_subscriptions)"
  "keeps consistent (resume_subscription E k django_subscriptions)"
  unfolding get_or_create_customer_def cancel_subscription_def resume_subscription_def
    release_pending_schedule_for_customer_def mirror_cancel_state_def require_active_def django_sel
  by (intro keeps_intros)+

section \<open>Properties\<close>

text \<open>
  C7.  A cancellation that succeeds first frees the subscription from a pending schedule (it looks
  the schedule up and releases it when it can be released), then makes exactly one cancelling call,
  and mirrors Stripe's answer into the row of the customer's active subscription and no other.
\<close>

theorem cancel_releases_then_cancels:
  assumes "consistent w"
    and "cancel_subscription E k at_period_end django_subscriptions w = (Inr (), w')"
  shows "\<exists>s\<in>set (subscriptions (db w)). \<exists>sid cs j s'.
      s_customer s = Some k \<and> active_status (s_status s) \<and> s_stripe_id s = Some sid
    \<and> (if s_scheduled_plan s = None then cs = [] else release_calls E (calls w) sid = Some cs)
    \<and> (let c = if at_period_end then SubModifyCancelAt sid ''min_period_end'' else SubCancel sid None
       in calls w' = calls w @ cs @ [c] \<and> stripe E (calls w @ cs) c = Inr j)
    \<and> with_cancel_state s j = Inr s'
    \<and> subscriptions (db w') = map (\<lambda>x. if x = s then s' else x) (subscriptions (db w))"
proof -
  from assms have "db_ok (db w)" by (simp add: consistent_def)
  from this assms(2) show ?thesis
    by (rule bill.cancel_Inr) (auto simp: Let_def)
qed

text \<open> Cancelling, resuming and releasing refuse a customer without an active Stripe
  subscription before any call to Stripe, and change nothing.\<close>

theorem no_active_subscription:
  assumes "\<And>s. s \<in> set (subscriptions (db w)) \<Longrightarrow> s_customer s = Some k \<Longrightarrow>
      active_status (s_status s) \<Longrightarrow> s_stripe_id s = None"
  shows "cancel_subscription E k at_period_end django_subscriptions w = (Inl SubscriptionNotFoundError, w)
    \<and> resume_subscription E k django_subscriptions w = (Inl SubscriptionNotFoundError, w)
    \<and> release_pending_schedule_for_customer E k django_subscriptions w
        = (Inl SubscriptionNotFoundError, w)"
proof -
  from assms have "require_active django_subscriptions k w = (Inl SubscriptionNotFoundError, w)"
    by (rule bill.require_active_none)
  then show ?thesis
    by (simp add: cancel_subscription_def resume_subscription_def
        release_pending_schedule_for_customer_def run_simps)
qed

text \<open> Releasing the schedule of a customer clears both fields of the pending change in the
  row of the released subscription, and no other row.\<close>

theorem release_clears_pending_change:
  assumes "consistent w"
    and "release_pending_schedule_for_customer E k django_subscriptions w = (Inr (), w')"
  shows "\<exists>s\<in>set (subscriptions (db w)). \<exists>sid cs.
      s_customer s = Some k \<and> s_stripe_id s = Some sid
    \<and> release_calls E (calls w) sid = Some cs \<and> calls w' = calls w @ cs
    \<and> subscriptions (db w') = map (\<lambda>x. if x = s
        then s\<lparr>s_scheduled_plan := None, s_scheduled_change_at := None\<rparr> else x) (subscriptions (db w))"
proof -
  from assms have "db_ok (db w)" by (simp add: consistent_def)
  from this assms(2) show ?thesis by (rule bill.release_for_customer_Inr) blast
qed

lemma customer_save_returns: "customer_save c w = (Inr c', w') \<Longrightarrow> c' = c"
  by (auto simp: customer_save_def run_simps Let_def split: option.splits prod.splits sum.splits)

text \<open>
   A customer is created once: when \<open>get_or_create_customer\<close> returned, asking again for the
  same owner finds the stored row, without a call to Stripe and without a change.
\<close>

theorem customer_created_once:
  assumes "consistent w"
    and "get_or_create_customer E (Some u) None email name locale django_customers w = (Inr c, w1)"
  shows "\<exists>c'. get_or_create_customer E (Some u) None email' name' locale' django_customers w1 = (Inr c', w1)
    \<and> c_stripe_id c' = c_stripe_id c \<and> c_user c' = Some u"
proof (cases "first_by c_id (filter (\<lambda>c. c_user c = Some u) (customers (db w)))")
  case (Some c0)
  then have "c_user c0 = Some u" using first_by_filter_Some by fast
  with Some assms(2) show ?thesis
    by (auto simp: get_or_create_customer_def customer_get_def run_simps)
next
  case None
  then have none: "\<And>r. r \<in> set (customers (db w)) \<Longrightarrow> c_user r \<noteq> Some u"
    by (auto simp: filter_empty_conv)
  from assms(2) None obtain i j t w2 c2 where c2: "new_customer i j (Some u) None t = Inr c2"
    and save2: "customer_save c2 w2 = (Inr c, w1)" and w2: "db w2 = db w"
    by (auto simp: get_or_create_customer_def customer_get_def run_simps split: sum.splits)
  with customer_save_returns [OF save2] have c: "new_customer i j (Some u) None t = Inr c"
    and save: "customer_save c w2 = (Inr c, w1)" by simp_all
  from c have cu: "c_user c = Some u" by (auto simp: new_customer_def elim!: rbind_InrE split: if_splits)
  with save none w2 obtain i' t' where rows: "customers (db w1) = customers (db w) @ [c\<lparr>c_id := i', c_created_at := t'\<rparr>]"
    by (auto simp: customer_save_def run_simps create_row_def filter_empty_conv split: option.splits if_splits
        dest!: first_by_filter_Some)
  with rows none have "filter (\<lambda>c. c_user c = Some u) (customers (db w1)) = [c\<lparr>c_id := i', c_created_at := t'\<rparr>]"
    using cu by (simp add: filter_empty_conv)
  with cu show ?thesis
    by (simp add: get_or_create_customer_def customer_get_def run_simps)
qed

section \<open>Witnesses\<close>

text \<open>A Stripe that holds an active schedule \<open>sched_1\<close> on every subscription.\<close>

definition sample_env :: env where
  "sample_env = start_env\<lparr>stripe := (\<lambda>log c. case c of
       SubRetrieve k \<Rightarrow> Inr (JObj [(''id'', JStr k), (''schedule'', JStr ''sched_1''),
         (''items'', JObj [(''data'', JArr [JObj [(''id'', JStr ''si_1''), (''quantity'', JInt 3),
           (''price'', JObj [(''id'', JStr ''price_1''), (''unit_amount'', JInt 1900),
              (''currency'', JStr ''usd'')]),
           (''current_period_start'', JInt 10), (''current_period_end'', JInt 20)]])])])
     | SchedRetrieve k \<Rightarrow> Inr (JObj [(''id'', JStr k), (''status'', JStr ''active'')])
     | PriceRetrieve k \<Rightarrow> Inr (JObj [(''currency'', JStr ''usd'')])
     | CustomerCreate e n l m \<Rightarrow> Inr (JObj [(''id'', JStr ''cus_new''), (''livemode'', JBool False)])
     | _ \<Rightarrow> Inr (JObj [(''id'', JStr ''x''), (''status'', JStr ''active''), (''cancel_at'', JInt 20),
         (''canceled_at'', JNull)]))\<rparr>"

theorem cancel_releases_then_cancels_witness:
  "\<exists>cs. calls (snd (cancel_subscription sample_env 30 True django_subscriptions (start_world sample_db)))
     = cs @ [SubModifyCancelAt ''sub_1'' ''min_period_end''] \<and> SchedRelease ''sched_1'' \<in> set cs"
proof -
  let ?run = "cancel_subscription sample_env 30 True django_subscriptions (start_world sample_db)"
  have "fst ?run = Inr ()" by code_simp
  then have "?run = (Inr (), snd ?run)" by (simp add: prod_eq_iff)
  from cancel_releases_then_cancels [OF sample_consistent this]
  obtain s sid cs j s' where s: "s \<in> set (subscriptions (db (start_world sample_db)))"
    "s_customer s = Some 30" "s_stripe_id s = Some sid"
    and cs: "if s_scheduled_plan s = None then cs = []
       else release_calls sample_env (calls (start_world sample_db)) sid = Some cs"
    and log: "calls (snd ?run) = calls (start_world sample_db) @ cs @ [SubModifyCancelAt sid ''min_period_end'']"
    by (auto simp: Let_def)
  from s have "sid = ''sub_1''" "s_scheduled_plan s = Some 22"
    by (auto simp: sample_simps)
  moreover have "release_calls sample_env (calls (start_world sample_db)) ''sub_1''
      = Some [SubRetrieve ''sub_1'', SchedRetrieve ''sched_1'', SchedRelease ''sched_1'']"
    by code_simp
  moreover have "calls (start_world sample_db) = []" by (simp add: start_world_def)
  ultimately show ?thesis using cs log by auto
qed

theorem no_active_subscription_witness:
  "cancel_subscription sample_env 99 True django_subscriptions (start_world sample_db)
     = (Inl SubscriptionNotFoundError, start_world sample_db)"
  by (rule no_active_subscription [THEN conjunct1]) (auto simp: sample_simps)

theorem release_clears_pending_change_witness:
  "\<exists>s\<in>set (subscriptions (db (snd (release_pending_schedule_for_customer sample_env 30
      django_subscriptions (start_world sample_db))))). s_id s = 40 \<and> s_scheduled_plan s = None"
proof -
  let ?run = "release_pending_schedule_for_customer sample_env 30 django_subscriptions (start_world sample_db)"
  have "fst ?run = Inr ()" by code_simp
  then have "?run = (Inr (), snd ?run)" by (simp add: prod_eq_iff)
  from release_clears_pending_change [OF sample_consistent this]
  obtain s where s: "s \<in> set (subscriptions (db (start_world sample_db)))" "s_customer s = Some 30"
    and rows: "subscriptions (db (snd ?run)) = map (\<lambda>x. if x = s
        then s\<lparr>s_scheduled_plan := None, s_scheduled_change_at := None\<rparr> else x)
        (subscriptions (db (start_world sample_db)))"
    by auto
  from s have "s = sample_sub" by (auto simp: sample_simps)
  with s rows show ?thesis by (auto simp: sample_sub_def)
qed

theorem customer_created_once_witness:
  "\<exists>c. get_or_create_customer sample_env (Some 2) None ''b'' None ''en'' django_customers
     (snd (get_or_create_customer sample_env (Some 2) None ''b'' None ''en'' django_customers
        (start_world sample_db)))
    = (Inr c, snd (get_or_create_customer sample_env (Some 2) None ''b'' None ''en'' django_customers
        (start_world sample_db))) \<and> c_stripe_id c = ''cus_new''"
proof -
  let ?run = "get_or_create_customer sample_env (Some 2) None ''b'' None ''en'' django_customers
    (start_world sample_db)"
  have "map_sum id c_stripe_id (fst ?run) = Inr ''cus_new''" by code_simp
  then obtain c where c: "fst ?run = Inr c" "c_stripe_id c = ''cus_new''"
    by (cases "fst ?run") auto
  then have "?run = (Inr c, snd ?run)" by (simp add: prod_eq_iff)
  from customer_created_once [OF sample_consistent this] c show ?thesis by metis
qed

end
