(* ===== verification/Plans.thy ===== *)
theory Plans
  imports Billing
begin

text \<open>
  The subscription lifecycle, \<open>saasmint_core/services/subscriptions.py\<close>: switching a plan now or
  at the end of the period, and changing the number of seats.  The lemmas compute the calls that
  each operation sends to Stripe.
\<close>

section \<open>Operations\<close>

text \<open>\<open>_safe_get\<close>: a missing key of a mapping is \<open>None\<close>; indexing anything else raises.\<close>

definition safe_get :: "json \<Rightarrow> string \<Rightarrow> json res" where
  "safe_get j k = (if j = JNull then Inr JNull else case dindex j k of
     Inl e \<Rightarrow> if e = KeyError \<or> e = AttributeError then Inr JNull else Inl e
   | Inr v \<Rightarrow> Inr v)"

definition first_item :: "json \<Rightarrow> json res" where
  "first_item sub = rbind (rbind (dindex sub ''items'') (\<lambda>i. dindex i ''data'')) item0"

definition item_id :: "json \<Rightarrow> string res" where
  "item_id item = rbind (dindex item ''id'') (\<lambda>j. Inr (py_str j))"

definition current_quantity :: "json \<Rightarrow> int res" where
  "current_quantity item = rbind (safe_get item ''quantity'') (\<lambda>q.
     Inr (case as_int q of Some n \<Rightarrow> n | None \<Rightarrow> 1))"

definition is_downgrade :: "int option \<Rightarrow> json \<Rightarrow> bool res" where
  "is_downgrade new_amount item = (case new_amount of None \<Rightarrow> Inr False
     | Some n \<Rightarrow>
       rbind (safe_get item ''price'') (\<lambda>price.
       rbind (if price = JNull then Inr JNull else safe_get price ''unit_amount'') (\<lambda>amount.
       Inr (case as_int amount of Some m \<Rightarrow> n < m | None \<Rightarrow> False))))"

definition read_period_field :: "json \<Rightarrow> json \<Rightarrow> string \<Rightarrow> int res" where
  "read_period_field sub item field =
     rbind (safe_get item field) (\<lambda>v.
     rbind (if v = JNull then safe_get sub field else Inr v) (\<lambda>v.
     case as_int v of Some n \<Rightarrow> Inr n
     | None \<Rightarrow> rbind (dindex sub ''id'') (\<lambda>_. Inl ValueError)))"

definition apply_immediate_plan_change ::
  "env \<Rightarrow> json \<Rightarrow> string \<Rightarrow> string \<Rightarrow> string \<Rightarrow> bool \<Rightarrow> int \<Rightarrow> unit io" where
  "apply_immediate_plan_change E sub sid item price prorate quantity =
     mbind (mlift (safe_get sub ''schedule'')) (\<lambda>schedule.
     mbind (if truthy schedule
       then mseq (call_stripe E (SchedRelease (py_str schedule)))
           (mbind (call_stripe E (SubRetrieve sid)) (\<lambda>sub.
             mlift (rbind (first_item sub) item_id)))
       else mret item) (\<lambda>item.
     mseq (call_stripe E (SubModifyItem sid item (Some price) quantity
       (if prorate then ''create_prorations'' else ''none''))) (mret ())))"

text \<open>\<open>str(item["price"].get("currency") or "").lower()\<close>, and the same attribute of the new price.\<close>

definition currency_text :: "json \<Rightarrow> string" where
  "currency_text c = lower (py_str (py_or c (JStr [])))"

definition downgrade_phases :: "string \<Rightarrow> string \<Rightarrow> int \<Rightarrow> int \<Rightarrow> int \<Rightarrow> schedule_phase list" where
  "downgrade_phases price new_price quantity pstart pend =
     [\<lparr>ph_price = price, ph_quantity = quantity, ph_start = pstart, ph_end = Some pend,
       ph_proration = ''none''\<rparr>,
      \<lparr>ph_price = new_price, ph_quantity = quantity, ph_start = pend, ph_end = None,
       ph_proration = ''none''\<rparr>]"

definition schedule_downgrade_at_period_end :: "env \<Rightarrow> json \<Rightarrow> string \<Rightarrow> int \<Rightarrow> unit io" where
  "schedule_downgrade_at_period_end E sub new_price quantity =
     mbind (mlift (first_item sub)) (\<lambda>item.
     mbind (mlift (read_period_field sub item ''current_period_end'')) (\<lambda>pend.
     mbind (mlift (read_period_field sub item ''current_period_start'')) (\<lambda>pstart.
     mbind (mlift (rbind (dindex item ''price'') (\<lambda>p. rbind (dindex p ''id'') (\<lambda>i. Inr (py_str i))))) (\<lambda>price.
     mbind (mlift (rbind (dindex item ''price'') (\<lambda>p. rbind (dget p ''currency'') (\<lambda>c. Inr (currency_text c))))) (\<lambda>cur.
     mbind (call_stripe E (PriceRetrieve new_price)) (\<lambda>np.
     mbind (mlift (rbind (attr np ''currency'') (\<lambda>c. Inr (currency_text c)))) (\<lambda>new_cur.
     mseq (mguard (\<not> (cur \<noteq> [] \<and> new_cur \<noteq> [] \<and> cur \<noteq> new_cur)) ValueError)
     (mbind (mlift (safe_get sub ''schedule'')) (\<lambda>existing.
     mbind (if truthy existing then mret (py_str existing)
       else mbind (mlift (dindex sub ''id'')) (\<lambda>i.
         mbind (call_stripe E (SchedCreate (py_str i))) (\<lambda>s.
         mlift (rbind (dindex s ''id'') (\<lambda>k. Inr (py_str k)))))) (\<lambda>schedule_id.
     mseq (call_stripe E (SchedModify schedule_id ''release''
       (downgrade_phases price new_price quantity pstart pend))) (mret ())))))))))))"

definition change_plan ::
  "env \<Rightarrow> string \<Rightarrow> string \<Rightarrow> int option \<Rightarrow> bool \<Rightarrow> int option \<Rightarrow> unit io" where
  "change_plan E sid price new_amount prorate quantity =
     mbind (call_stripe E (SubRetrieve sid)) (\<lambda>sub.
     mbind (mlift (first_item sub)) (\<lambda>item.
     mbind (mlift (item_id item)) (\<lambda>iid.
     mbind (mlift (current_quantity item)) (\<lambda>cur.
     mbind (mlift (is_downgrade new_amount item)) (\<lambda>down.
     let n = (case quantity of Some q \<Rightarrow> q | None \<Rightarrow> cur) in
     if down then schedule_downgrade_at_period_end E sub price n
     else apply_immediate_plan_change E sub sid iid price prorate n)))))"

definition update_seat_count :: "env \<Rightarrow> subscription \<Rightarrow> int \<Rightarrow> subscription_repo \<Rightarrow> unit io" where
  "update_seat_count E active quantity S =
     mseq (mguard (1 \<le> quantity) ValueError)
     (case s_stripe_id active of None \<Rightarrow> mraise ValueError
      | Some sid \<Rightarrow>
        mbind (call_stripe E (SubRetrieve sid)) (\<lambda>sub.
        mbind (mlift (first_item sub)) (\<lambda>item.
        mbind (mlift (item_id item)) (\<lambda>iid.
        mbind (mlift (rbind (dindex item ''quantity'') (\<lambda>q. case as_int q of
            Some n \<Rightarrow> Inr n | None \<Rightarrow> Inl TypeError))) (\<lambda>cur.
        mseq (call_stripe E (SubModifyItem sid iid None quantity
          (if quantity > cur then ''create_prorations'' else ''none'')))
        (mwhen (s_seat_limit active \<noteq> quantity)
          (sub_save S (active\<lparr>s_seat_limit := quantity\<rparr>))))))))"

section \<open>The calls they make\<close>

lemma read_period_Inr:
  assumes "read_period_field sub item field = Inr n"
  obtains u v where "safe_get item field = Inr u"
    and "(if u = JNull then safe_get sub field else Inr u) = Inr v" and "as_int v = Some n"
proof -
  from assms obtain u v where u: "safe_get item field = Inr u"
    and v: "(if u = JNull then safe_get sub field else Inr u) = Inr v"
    and n: "(case as_int v of Some n \<Rightarrow> Inr n | None \<Rightarrow> rbind (dindex sub ''id'') (\<lambda>_. Inl ValueError)) = Inr n"
    unfolding read_period_field_def by (elim rbind_InrE)
  from n have "as_int v = Some n" by (cases "as_int v") (auto elim!: rbind_InrE)
  with u v show thesis by (rule that)
qed

lemma schedule_downgrade_Inr:
  assumes "schedule_downgrade_at_period_end E sub price n w = (Inr (), w')"
    and it: "first_item sub = Inr item" and pr: "dindex item ''price'' = Inr pr"
    and sched: "safe_get sub ''schedule'' = Inr sched"
  obtains ps pe pid k cs where "read_period_field sub item ''current_period_start'' = Inr ps"
    and "read_period_field sub item ''current_period_end'' = Inr pe" and "dindex pr ''id'' = Inr pid"
    and "if truthy sched then cs = [] \<and> k = py_str sched
      else \<exists>i s j. dindex sub ''id'' = Inr i \<and> cs = [SchedCreate (py_str i)]
        \<and> stripe E (calls w @ [PriceRetrieve price]) (SchedCreate (py_str i)) = Inr s
        \<and> dindex s ''id'' = Inr j \<and> k = py_str j"
    and "db w' = db w"
    and "calls w' = calls w @ [PriceRetrieve price] @ cs
        @ [SchedModify k ''release'' (downgrade_phases (py_str pid) price n ps pe)]"
proof -
  let ?w = "w\<lparr>calls := calls w @ [PriceRetrieve price]\<rparr>"
  from assms(1) obtain ps pe pid k w2 where r: "read_period_field sub item ''current_period_start'' = Inr ps"
    "read_period_field sub item ''current_period_end'' = Inr pe" "dindex pr ''id'' = Inr pid"
    and k: "(if truthy sched then mret (py_str sched)
       else mbind (mlift (dindex sub ''id'')) (\<lambda>i.
         mbind (call_stripe E (SchedCreate (py_str i))) (\<lambda>s.
         mlift (rbind (dindex s ''id'') (\<lambda>k. Inr (py_str k)))))) ?w = (Inr k, w2)"
    and m: "w' = w2\<lparr>calls := calls w2 @ [SchedModify k ''release'' (downgrade_phases (py_str pid) price n ps pe)]\<rparr>"
    unfolding schedule_downgrade_at_period_end_def it pr sched
    by (elim mbind_InrE mseq_InrE mlift_InrE) (auto simp: run_simps it pr sched elim!: rbind_InrE split: if_splits sum.splits)
  show thesis
  proof (cases "truthy sched")
    case True
    with k have "k = py_str sched" "w2 = ?w" by simp_all
    with True m show thesis by (intro that [OF r, of "[]" k]) simp_all
  next
    case False
    with k obtain i s j where i: "dindex sub ''id'' = Inr i"
      "stripe E (calls w @ [PriceRetrieve price]) (SchedCreate (py_str i)) = Inr s"
      "dindex s ''id'' = Inr j" "k = py_str j" and w2: "w2 = ?w\<lparr>calls := calls ?w @ [SchedCreate (py_str i)]\<rparr>"
      by (auto simp: run_simps elim!: rbind_InrE split: sum.splits)
    then have "\<exists>i' s j. dindex sub ''id'' = Inr i' \<and> [SchedCreate (py_str i)] = [SchedCreate (py_str i')]
        \<and> stripe E (calls w @ [PriceRetrieve price]) (SchedCreate (py_str i')) = Inr s
        \<and> dindex s ''id'' = Inr j \<and> k = py_str j" by blast
    with False m w2 show thesis by (intro that [OF r, of "[SchedCreate (py_str i)]" k]) simp_all
  qed
qed

lemma apply_immediate_Inr:
  assumes "apply_immediate_plan_change E sub sid iid price prorate n w = (Inr (), w')"
  shows "\<exists>schedule i. safe_get sub ''schedule'' = Inr schedule \<and> db w' = db w
    \<and> calls w' = calls w
        @ (if truthy schedule then [SchedRelease (py_str schedule), SubRetrieve sid] else [])
        @ [SubModifyItem sid i (Some price) n (if prorate then ''create_prorations'' else ''none'')]
    \<and> (\<not> truthy schedule \<longrightarrow> i = iid)"
  using assms unfolding apply_immediate_plan_change_def
  by (elim mbind_InrE mseq_InrE mlift_InrE) (auto simp: run_simps split: if_splits sum.splits)

lemma change_plan_Inr:
  assumes "change_plan E sid price new_amount prorate quantity w = (Inr (), w')"
  obtains sub item iid cur down where "stripe E (calls w) (SubRetrieve sid) = Inr sub"
    and "first_item sub = Inr item" and "item_id item = Inr iid" and "current_quantity item = Inr cur"
    and "is_downgrade new_amount item = Inr down"
    and "(if down then schedule_downgrade_at_period_end E sub price (case quantity of Some q \<Rightarrow> q | None \<Rightarrow> cur)
      else apply_immediate_plan_change E sub sid iid price prorate (case quantity of Some q \<Rightarrow> q | None \<Rightarrow> cur))
      (w\<lparr>calls := calls w @ [SubRetrieve sid]\<rparr>) = (Inr (), w')"
  using assms unfolding change_plan_def Let_def
  by (elim mbind_InrE mlift_InrE) (auto simp: run_simps split: sum.splits)

lemma change_plan_branch:
  assumes "change_plan E sid price new_amount prorate quantity w = (Inr (), w')"
    and "stripe E (calls w) (SubRetrieve sid) = Inr sub" and "first_item sub = Inr item"
    and "is_downgrade new_amount item = Inr d" and "current_quantity item = Inr cur"
  obtains iid where "(if d
      then schedule_downgrade_at_period_end E sub price (case quantity of Some q \<Rightarrow> q | None \<Rightarrow> cur)
      else apply_immediate_plan_change E sub sid iid price prorate (case quantity of Some q \<Rightarrow> q | None \<Rightarrow> cur))
      (w\<lparr>calls := calls w @ [SubRetrieve sid]\<rparr>) = (Inr (), w')"
  using assms(1) by (rule change_plan_Inr) (use assms(2-5) in auto)

locale seat_client = billing_client
begin

lemma seats_Inr:
  assumes "good (db w)" and "update_seat_count E active quantity S w = (Inr (), w')"
    and "active \<in> set (stored (db w))"
  shows "1 \<le> quantity \<and> (\<exists>sid iid cur. s_stripe_id active = Some sid
    \<and> calls w' = calls w @ [SubRetrieve sid, SubModifyItem sid iid None quantity
        (if quantity > cur then ''create_prorations'' else ''none'')]
    \<and> (\<exists>sub item q. stripe E (calls w) (SubRetrieve sid) = Inr sub \<and> first_item sub = Inr item
        \<and> dindex item ''quantity'' = Inr q \<and> as_int q = Some cur)
    \<and> stored (db w') = map (\<lambda>x. if x = active then active\<lparr>s_seat_limit := quantity\<rparr> else x) (stored (db w)))"
proof -
  from assms(2) obtain sid where q: "1 \<le> quantity" and sid: "s_stripe_id active = Some sid"
    by (auto simp: update_seat_count_def run_simps split: if_splits option.splits)
  from assms(2) q sid obtain sub item iid j cur where sub: "stripe E (calls w) (SubRetrieve sid) = Inr sub"
    and item: "first_item sub = Inr item" and j: "dindex item ''quantity'' = Inr j" "as_int j = Some cur"
    and rest: "mwhen (s_seat_limit active \<noteq> quantity) (sub_save S (active\<lparr>s_seat_limit := quantity\<rparr>))
      (w\<lparr>calls := calls w @ [SubRetrieve sid, SubModifyItem sid iid None quantity
        (if quantity > cur then ''create_prorations'' else ''none'')]\<rparr>) = (Inr (), w')"
    by (auto simp: update_seat_count_def run_simps split: sum.splits option.splits elim!: rbind_InrE)
  show ?thesis
  proof (cases "s_seat_limit active = quantity")
    case True
    then have "active\<lparr>s_seat_limit := quantity\<rparr> = active" by simp
    then have "map (\<lambda>x. if x = active then active\<lparr>s_seat_limit := quantity\<rparr> else x) (stored (db w)) = stored (db w)"
      by (simp add: map_idI)
    with True q sid sub item j rest show ?thesis by auto
  next
    case False
    with rest have save: "sub_save S (active\<lparr>s_seat_limit := quantity\<rparr>)
      (w\<lparr>calls := calls w @ [SubRetrieve sid, SubModifyItem sid iid None quantity
        (if quantity > cur then ''create_prorations'' else ''none'')]\<rparr>) = (Inr (), w')" by simp
    have "stored (db w') = map (\<lambda>x. if x = active then active\<lparr>s_seat_limit := quantity\<rparr> else x) (stored (db w))"
      using save_copy [where r = active, OF _ _ _ _ save] assms(1,3) by simp
    with q sid sub item j save_local [OF save] show ?thesis by auto
  qed
qed

end

interpretation seats: seat_client django_subscriptions subscriptions db_ok
  by unfold_locales

lemma keeps_plans [keeps_intros]:
  "keeps consistent (change_plan E sid price amount prorate seats)"
  "keeps consistent (update_seat_count E active quantity django_subscriptions)"
  unfolding change_plan_def update_seat_count_def schedule_downgrade_at_period_end_def
    apply_immediate_plan_change_def Let_def django_sel
  by (intro keeps_intros)+

section \<open>Properties\<close>

lemma downgrade_found:
  assumes "dindex item ''price'' = Inr pr" and "dindex pr ''unit_amount'' = Inr a" and "as_int a = Some m" and "n < m"
  shows "is_downgrade (Some n) item = Inr True"
  using assms by (cases item; cases pr) (auto simp: is_downgrade_def safe_get_def split: option.splits)

text \<open>
  C8.  A switch to a price below the amount that the subscription pays is deferred: Stripe is asked
  to modify a schedule, never the subscription.  The schedule is the one the subscription already
  has, or one created from it.  Its first phase keeps the current price from the start of the
  billing period to its end, its second starts at that instant on the new price, both with the
  same number of seats and no proration.  A date of the period is that of the item and, when it
  has none, that of the subscription.
\<close>

theorem downgrade_is_deferred:
  assumes "change_plan E sid price (Some n) prorate quantity w = (Inr (), w')"
    and "stripe E (calls w) (SubRetrieve sid) = Inr sub" and "first_item sub = Inr item"
    and "dindex item ''price'' = Inr pr" and "dindex pr ''unit_amount'' = Inr a" and "as_int a = Some m" and "n < m"
    and "safe_get item ''quantity'' = Inr q" and "safe_get sub ''schedule'' = Inr sched"
  shows "\<exists>k cs p1 p2 pid s e s' e'. calls w' = calls w @ [SubRetrieve sid, PriceRetrieve price] @ cs
        @ [SchedModify k ''release'' [p1, p2]]
    \<and> (if truthy sched then cs = [] \<and> k = py_str sched
       else \<exists>i created j. dindex sub ''id'' = Inr i \<and> cs = [SchedCreate (py_str i)]
         \<and> stripe E (calls w @ [SubRetrieve sid, PriceRetrieve price]) (SchedCreate (py_str i)) = Inr created
         \<and> dindex created ''id'' = Inr j \<and> k = py_str j)
    \<and> dindex pr ''id'' = Inr pid \<and> ph_price p1 = py_str pid \<and> ph_price p2 = price
    \<and> safe_get item ''current_period_start'' = Inr s
    \<and> (if s = JNull then safe_get sub ''current_period_start'' else Inr s) = Inr s'
    \<and> as_int s' = Some (ph_start p1)
    \<and> safe_get item ''current_period_end'' = Inr e
    \<and> (if e = JNull then safe_get sub ''current_period_end'' else Inr e) = Inr e'
    \<and> as_int e' = Some (ph_start p2) \<and> ph_end p1 = Some (ph_start p2) \<and> ph_end p2 = None
    \<and> ph_quantity p1 = (case quantity of Some x \<Rightarrow> x | None \<Rightarrow> (case as_int q of Some x \<Rightarrow> x | None \<Rightarrow> 1))
    \<and> ph_quantity p2 = ph_quantity p1
    \<and> ph_proration p1 = ''none'' \<and> ph_proration p2 = ''none'' \<and> db w' = db w"
proof -
  let ?n = "case quantity of Some x \<Rightarrow> x | None \<Rightarrow> (case as_int q of Some x \<Rightarrow> x | None \<Rightarrow> 1)"
  have "current_quantity item = Inr (case as_int q of Some x \<Rightarrow> x | None \<Rightarrow> 1)"
    using assms(8) by (simp add: current_quantity_def)
  then obtain iid where "schedule_downgrade_at_period_end E sub price ?n
      (w\<lparr>calls := calls w @ [SubRetrieve sid]\<rparr>) = (Inr (), w')"
    by (rule change_plan_branch [OF assms(1-3) downgrade_found [OF assms(4-7)]]) simp
  then obtain ps pe pid k cs where ps: "read_period_field sub item ''current_period_start'' = Inr ps"
    and pe: "read_period_field sub item ''current_period_end'' = Inr pe" and pid: "dindex pr ''id'' = Inr pid"
    and cs: "if truthy sched then cs = [] \<and> k = py_str sched
      else \<exists>i s j. dindex sub ''id'' = Inr i \<and> cs = [SchedCreate (py_str i)]
        \<and> stripe E (calls w @ [SubRetrieve sid, PriceRetrieve price]) (SchedCreate (py_str i)) = Inr s
        \<and> dindex s ''id'' = Inr j \<and> k = py_str j"
    and d: "db w' = db w"
    and c: "calls w' = calls w @ [SubRetrieve sid, PriceRetrieve price] @ cs
        @ [SchedModify k ''release'' (downgrade_phases (py_str pid) price ?n ps pe)]"
    by (rule schedule_downgrade_Inr [OF _ assms(3,4,9)]) (rule that, simp_all cong: if_cong)
  obtain s s' where s: "safe_get item ''current_period_start'' = Inr s"
    "(if s = JNull then safe_get sub ''current_period_start'' else Inr s) = Inr s'" "as_int s' = Some ps"
    using ps by (rule read_period_Inr)
  obtain e e' where e: "safe_get item ''current_period_end'' = Inr e"
    "(if e = JNull then safe_get sub ''current_period_end'' else Inr e) = Inr e'" "as_int e' = Some pe"
    using pe by (rule read_period_Inr)
  show ?thesis
    by (rule exI [of _ k], rule exI [of _ cs],
        rule exI [of _ "\<lparr>ph_price = py_str pid, ph_quantity = ?n, ph_start = ps, ph_end = Some pe, ph_proration = ''none''\<rparr>"],
        rule exI [of _ "\<lparr>ph_price = price, ph_quantity = ?n, ph_start = pe, ph_end = None, ph_proration = ''none''\<rparr>"],
        rule exI [of _ pid], rule exI [of _ s], rule exI [of _ e], rule exI [of _ s'], rule exI [of _ e'],
        intro conjI c [unfolded downgrade_phases_def] cs pid s(1,2) e(1,2) d)
      (simp_all add: s(3) e(3))
qed

text \<open>
   Any other switch happens now: a schedule that pins the subscription is released and the
  subscription read again, and only then is it modified, carrying the number of seats.
\<close>

theorem switch_releases_then_modifies:
  assumes "change_plan E sid price new_amount prorate quantity w = (Inr (), w')"
    and "stripe E (calls w) (SubRetrieve sid) = Inr sub" and "first_item sub = Inr item"
    and "is_downgrade new_amount item = Inr False" and "current_quantity item = Inr cur"
  shows "\<exists>schedule i. safe_get sub ''schedule'' = Inr schedule
    \<and> calls w' = calls w @ [SubRetrieve sid]
        @ (if truthy schedule then [SchedRelease (py_str schedule), SubRetrieve sid] else [])
        @ [SubModifyItem sid i (Some price) (case quantity of Some q \<Rightarrow> q | None \<Rightarrow> cur)
            (if prorate then ''create_prorations'' else ''none'')]
    \<and> db w' = db w"
proof -
  let ?n = "case quantity of Some q \<Rightarrow> q | None \<Rightarrow> cur"
  from assms obtain iid where "apply_immediate_plan_change E sub sid iid price prorate ?n
      (w\<lparr>calls := calls w @ [SubRetrieve sid]\<rparr>) = (Inr (), w')"
    by (rule change_plan_branch) simp
  from apply_immediate_Inr [OF this] show ?thesis by auto
qed

text \<open>
   Changing the number of seats prorates exactly when seats are added, sends one
  modification with the requested number, and stores that number in the row of the subscription.
\<close>

theorem seat_change_prorates_increases:
  assumes "consistent w" and "active \<in> set (subscriptions (db w))"
    and "update_seat_count E active quantity django_subscriptions w = (Inr (), w')"
  shows "1 \<le> quantity \<and> (\<exists>sid iid cur. s_stripe_id active = Some sid
    \<and> calls w' = calls w @ [SubRetrieve sid, SubModifyItem sid iid None quantity
        (if quantity > cur then ''create_prorations'' else ''none'')]
    \<and> (\<exists>sub item q. stripe E (calls w) (SubRetrieve sid) = Inr sub \<and> first_item sub = Inr item
        \<and> dindex item ''quantity'' = Inr q \<and> as_int q = Some cur)
    \<and> subscriptions (db w') = map (\<lambda>x. if x = active then active\<lparr>s_seat_limit := quantity\<rparr> else x)
        (subscriptions (db w)))"
  using assms by (intro seats.seats_Inr) (simp_all add: consistent_def)

section \<open>Witnesses\<close>

definition sample_stripe_sub :: json where
  "sample_stripe_sub = JObj [(''id'', JStr ''sub_1''), (''schedule'', JStr ''sched_1''),
     (''items'', JObj [(''data'', JArr [JObj [(''id'', JStr ''si_1''), (''quantity'', JInt 3),
       (''price'', JObj [(''id'', JStr ''price_1''), (''unit_amount'', JInt 1900),
          (''currency'', JStr ''usd'')]),
       (''current_period_start'', JInt 10), (''current_period_end'', JInt 20)]])])]"

definition sample_item :: json where
  "sample_item = JObj [(''id'', JStr ''si_1''), (''quantity'', JInt 3),
     (''price'', JObj [(''id'', JStr ''price_1''), (''unit_amount'', JInt 1900),
        (''currency'', JStr ''usd'')]),
     (''current_period_start'', JInt 10), (''current_period_end'', JInt 20)]"

lemma sample_stripe:
  "stripe sample_env (calls (start_world sample_db)) (SubRetrieve ''sub_1'') = Inr sample_stripe_sub"
  by (simp add: sample_env_def sample_stripe_sub_def)

lemma sample_items:
  "first_item sample_stripe_sub = Inr sample_item" "current_quantity sample_item = Inr 3"
  "is_downgrade (Some 900) sample_item = Inr True" "is_downgrade (Some 4900) sample_item = Inr False"
  by code_simp+

theorem downgrade_is_deferred_witness:
  "\<exists>p1 p2. calls (snd (change_plan sample_env ''sub_1'' ''price_2'' (Some 900) True None (start_world sample_db)))
    = [SubRetrieve ''sub_1'', PriceRetrieve ''price_2'', SchedModify ''sched_1'' ''release'' [p1, p2]]
    \<and> ph_price p1 = ''price_1'' \<and> ph_start p1 = 10 \<and> ph_end p1 = Some 20
    \<and> ph_price p2 = ''price_2'' \<and> ph_start p2 = 20 \<and> ph_quantity p1 = 3"
proof -
  let ?run = "change_plan sample_env ''sub_1'' ''price_2'' (Some 900) True None (start_world sample_db)"
  have "fst ?run = Inr ()" by code_simp
  then have run: "?run = (Inr (), snd ?run)" by (simp add: prod_eq_iff)
  let ?pr = "JObj [(''id'', JStr ''price_1''), (''unit_amount'', JInt 1900), (''currency'', JStr ''usd'')]"
  have pr: "dindex sample_item ''price'' = Inr ?pr" "dindex ?pr ''unit_amount'' = Inr (JInt 1900)"
    "as_int (JInt 1900) = Some 1900" "900 < (1900::int)" "safe_get sample_item ''quantity'' = Inr (JInt 3)"
    "safe_get sample_stripe_sub ''schedule'' = Inr (JStr ''sched_1'')"
    by (simp_all add: sample_item_def sample_stripe_sub_def safe_get_def)
  obtain k cs p1 p2 pid s e s' e' where
    l: "calls (snd ?run) = calls (start_world sample_db) @ [SubRetrieve ''sub_1'', PriceRetrieve ''price_2''] @ cs
        @ [SchedModify k ''release'' [p1, p2]]" "cs = []" "k = ''sched_1''"
    and p: "dindex ?pr ''id'' = Inr pid" "ph_price p1 = py_str pid" "ph_price p2 = ''price_2''"
    and s: "safe_get sample_item ''current_period_start'' = Inr s" "(if s = JNull then safe_get sample_stripe_sub ''current_period_start'' else Inr s) = Inr s'"
      "as_int s' = Some (ph_start p1)"
    and e: "safe_get sample_item ''current_period_end'' = Inr e" "(if e = JNull then safe_get sample_stripe_sub ''current_period_end'' else Inr e) = Inr e'"
      "as_int e' = Some (ph_start p2)" "ph_end p1 = Some (ph_start p2)" and q: "ph_quantity p1 = 3"
    using downgrade_is_deferred [OF run sample_stripe sample_items(1) pr]
    by (elim exE conjE) (rule that, simp_all cong: if_cong)
  from p s e have "ph_price p1 = ''price_1''" "ph_start p1 = 10" "ph_start p2 = 20"
    by (auto simp: sample_item_def safe_get_def)
  with l p(3) e(4) q show ?thesis by (intro exI [of _ p1] exI [of _ p2]) (simp add: start_world_def)
qed

theorem switch_releases_then_modifies_witness:
  "\<exists>i. calls (snd (change_plan sample_env ''sub_1'' ''price_3'' (Some 4900) True None (start_world sample_db)))
    = [SubRetrieve ''sub_1'', SchedRelease ''sched_1'', SubRetrieve ''sub_1'',
       SubModifyItem ''sub_1'' i (Some ''price_3'') 3 ''create_prorations'']"
proof -
  let ?run = "change_plan sample_env ''sub_1'' ''price_3'' (Some 4900) True None (start_world sample_db)"
  have "fst ?run = Inr ()" by code_simp
  then have "?run = (Inr (), snd ?run)" by (simp add: prod_eq_iff)
  from switch_releases_then_modifies [OF this sample_stripe sample_items(1,4,2)] obtain schedule i where
    k: "safe_get sample_stripe_sub ''schedule'' = Inr schedule"
    and log: "calls (snd ?run) = calls (start_world sample_db) @ [SubRetrieve ''sub_1'']
        @ (if truthy schedule then [SchedRelease (py_str schedule), SubRetrieve ''sub_1''] else [])
        @ [SubModifyItem ''sub_1'' i (Some ''price_3'') 3 ''create_prorations'']"
    by auto
  from k have "schedule = JStr ''sched_1''" by (simp add: safe_get_def sample_stripe_sub_def)
  with log show ?thesis by (simp add: start_world_def)
qed

theorem seat_change_prorates_increases_witness:
  "\<exists>s\<in>set (subscriptions (db (snd (update_seat_count sample_env sample_sub 5 django_subscriptions
      (start_world sample_db))))). s_stripe_id s = Some ''sub_1'' \<and> s_seat_limit s = 5"
proof -
  let ?run = "update_seat_count sample_env sample_sub 5 django_subscriptions (start_world sample_db)"
  have "fst ?run = Inr ()" by code_simp
  then have run: "?run = (Inr (), snd ?run)" by (simp add: prod_eq_iff)
  have e: "sample_sub \<in> set (subscriptions (db (start_world sample_db)))"
    by (simp add: sample_db_def start_world_def)
  from seat_change_prorates_increases [OF sample_consistent e run]
  have "subscriptions (db (snd ?run)) = map (\<lambda>x. if x = sample_sub then sample_sub\<lparr>s_seat_limit := 5\<rparr> else x)
      (subscriptions (db (start_world sample_db)))" by blast
  then have "sample_sub\<lparr>s_seat_limit := 5\<rparr> \<in> set (subscriptions (db (snd ?run)))"
    using e by auto
  then show ?thesis by (rule bexI [rotated]) (simp add: sample_sub_def)
qed

end
