(* ===== verification/Auth.thy ===== *)
theory Auth
  imports Samples
begin

text \<open>
  Sessions and one-time tokens, \<open>apps/users/authentication.py\<close>, with the clean-up tasks of
  \<open>apps/users/tasks.py\<close>: signed access tokens and their verification on each request, refresh
  tokens with rotation and reuse detection, and the one-time tokens of email verification,
  password reset and account linking.  The JWT library is a parameter (\<open>jwt\<close>): an encoder, and a
  decoder that may refuse a token as expired or invalid.

  The locale \<open>token_table\<close> states what the three one-time token models share; what consuming a
  token does is proved in it once.
\<close>

section \<open>Lifetimes\<close>

definition seconds :: "int \<Rightarrow> int" where
  "seconds n = n * 1000000"

definition access_token_lifetime :: int where "access_token_lifetime = seconds (15 * 60)"
definition refresh_token_lifetime :: int where "refresh_token_lifetime = seconds (7 * 24 * 3600)"
definition email_verification_lifetime :: int where "email_verification_lifetime = seconds (24 * 3600)"
definition password_reset_lifetime :: int where "password_reset_lifetime = seconds (10 * 60)"
definition social_link_lifetime :: int where "social_link_lifetime = seconds (15 * 60)"

definition hash_token :: "env \<Rightarrow> string \<Rightarrow> string" where
  "hash_token E raw = sha256 E raw"

section \<open>Access tokens\<close>

datatype jwt_error = ExpiredSignature | InvalidToken

record jwt =
  jwt_encode :: "json \<Rightarrow> string"
  jwt_decode :: "datetime \<Rightarrow> string \<Rightarrow> jwt_error + json"

text \<open>\<open>int(pwd_changed.timestamp())\<close>, which truncates towards zero, or 0.\<close>

definition pwd_stamp :: "user \<Rightarrow> int" where
  "pwd_stamp u = (case u_password_changed_at u of None \<Rightarrow> 0
     | Some t \<Rightarrow> if t < 0 then - ((- t) div 1000000) else t div 1000000)"

definition access_claims :: "user \<Rightarrow> datetime \<Rightarrow> json" where
  "access_claims u t = JObj [(''sub'', JStr (uuid_str (u_id u))), (''email'', JStr (u_email u)),
     (''type'', JStr ''access''), (''iat'', JInt (t div 1000000)),
     (''exp'', JInt ((t + access_token_lifetime) div 1000000)), (''pwd_iat'', JInt (pwd_stamp u))]"

definition create_access_token :: "jwt \<Rightarrow> user \<Rightarrow> string io" where
  "create_access_token J u = mbind now (\<lambda>t. mret (jwt_encode J (access_claims u t)))"

definition auth_cache_ttl :: int where "auth_cache_ttl = 60"

text \<open>The user of the \<open>sub\<close> claim, from the cache or from the database.\<close>

definition load_auth_user :: "string \<Rightarrow> user io" where
  "load_auth_user sub =
     mbind (cache_get (''auth_user:'' @ sub)) (\<lambda>cached.
     case cached of Some (CachedUser u) \<Rightarrow> mret u
     | _ \<Rightarrow>
       (case uuid_parse sub of Inl e \<Rightarrow> mraise ValidationError
        | Inr k \<Rightarrow>
          mbind (get_row users_T (\<lambda>u. u_id u = k \<and> u_is_active u)
            (AuthenticationFailed ''user_not_found'')) (\<lambda>u.
          mseq (cache_set (''auth_user:'' @ sub) (CachedUser u) auth_cache_ttl) (mret u))))"

definition pwd_iat_claim :: "json \<Rightarrow> int res" where
  "pwd_iat_claim payload = rbind (dget_or payload ''pwd_iat'' (JInt 0)) (\<lambda>j.
     Inr (case as_int j of Some i \<Rightarrow> i | None \<Rightarrow> 0))"

definition authenticate :: "jwt \<Rightarrow> string \<Rightarrow> (user \<times> string) option io" where
  "authenticate J header =
     (if \<not> startswith header ''Bearer '' then mret None else
      let token = drop 7 header in
      mbind now (\<lambda>t.
      case jwt_decode J t token of
        Inl ExpiredSignature \<Rightarrow> mraise (AuthenticationFailed ''token_expired'')
      | Inl InvalidToken \<Rightarrow> mraise (AuthenticationFailed ''invalid_token'')
      | Inr payload \<Rightarrow>
        mbind (mlift (dget payload ''type'')) (\<lambda>type.
        if type \<noteq> JStr ''access'' then mraise (AuthenticationFailed ''invalid_token'') else
        mbind (mlift (dget payload ''sub'')) (\<lambda>sub.
        (case as_str sub of None \<Rightarrow> mraise (AuthenticationFailed ''invalid_token'')
         | Some s \<Rightarrow>
           if s = [] then mraise (AuthenticationFailed ''invalid_token'') else
           mbind (load_auth_user s) (\<lambda>u.
           mbind (mlift (pwd_iat_claim payload)) (\<lambda>pwd_iat.
           if pwd_iat < pwd_stamp u then mraise (AuthenticationFailed ''token_revoked'')
           else mret (Some (u, token)))))))))"

section \<open>Refresh tokens\<close>

definition create_refresh_token :: "env \<Rightarrow> user \<Rightarrow> string io" where
  "create_refresh_token E u =
     mbind fresh_text (\<lambda>raw. mbind fresh_uuid (\<lambda>i. mbind now (\<lambda>t.
     mseq (create_row refresh_tokens_T \<lparr>rt_id = i, rt_user = u_id u, rt_hash = hash_token E raw,
             rt_created_at = t, rt_expires_at = t + refresh_token_lifetime, rt_revoked_at = None\<rparr>)
     (mret raw))))"

definition revoke_where :: "(refresh_token \<Rightarrow> bool) \<Rightarrow> unit io" where
  "revoke_where P = mbind now (\<lambda>t. update_rows refresh_tokens_T
     (\<lambda>r. P r \<and> rt_revoked_at r = None) (\<lambda>r. r\<lparr>rt_revoked_at := Some t\<rparr>))"

definition revoke_refresh_token :: "env \<Rightarrow> string \<Rightarrow> unit io" where
  "revoke_refresh_token E raw = revoke_where (\<lambda>r. rt_hash r = hash_token E raw)"

definition revoke_all_refresh_tokens :: "user \<Rightarrow> unit io" where
  "revoke_all_refresh_tokens u = revoke_where (\<lambda>r. rt_user r = u_id u)"

text \<open>\<open>select_related("user")\<close> joins the owner; without an owner there is no row.\<close>

definition owner_or :: "uuid \<Rightarrow> exn \<Rightarrow> user io" where
  "owner_or k e = get_row users_T (\<lambda>u. u_id u = k) e"

definition rotate_refresh_token :: "env \<Rightarrow> string \<Rightarrow> (user \<times> string) io" where
  "rotate_refresh_token E raw =
     mbind (get_row refresh_tokens_T (\<lambda>r. rt_hash r = hash_token E raw)
       (AuthenticationFailed ''invalid_token'')) (\<lambda>rt.
     mbind (owner_or (rt_user rt) (AuthenticationFailed ''invalid_token'')) (\<lambda>u.
     if rt_revoked_at rt \<noteq> None
     then mseq (revoke_where (\<lambda>r. rt_user r = rt_user rt))
            (mraise (AuthenticationFailed ''token_revoked''))
     else mbind now (\<lambda>t.
       if rt_expires_at rt \<le> t then mraise (AuthenticationFailed ''token_expired'')
       else if \<not> u_is_active u then mraise (AuthenticationFailed ''user_not_found'')
       else mseq (save_row refresh_tokens_T (rt_id rt) (\<lambda>r. r\<lparr>rt_revoked_at := Some t\<rparr>))
         (mbind (create_refresh_token E u) (\<lambda>new. mret (u, new))))))"

section \<open>One-time tokens\<close>

definition create_one_time_token ::
  "env \<Rightarrow> one_time_token table \<Rightarrow> user \<Rightarrow> int \<Rightarrow> string io" where
  "create_one_time_token E T u lifetime =
     mbind fresh_text (\<lambda>raw. mbind fresh_uuid (\<lambda>i. mbind now (\<lambda>t.
     mseq (create_row T \<lparr>ot_id = i, ot_user = u_id u, ot_hash = hash_token E raw,
             ot_created_at = t, ot_expires_at = t + lifetime, ot_used_at = None\<rparr>)
     (mret raw))))"

definition consume_one_time_token ::
  "env \<Rightarrow> 'a one_time_token_scheme table \<Rightarrow> string \<Rightarrow> ('a one_time_token_scheme \<times> user) io" where
  "consume_one_time_token E T raw = (let h = hash_token E raw in
     mbind now (\<lambda>t.
     mbind (get_row T (\<lambda>r. ot_hash r = h) (AuthenticationFailed ''invalid_token'')) (\<lambda>obj.
     mbind (owner_or (ot_user obj) (AuthenticationFailed ''invalid_token'')) (\<lambda>u.
     if ot_used_at obj \<noteq> None then mraise (AuthenticationFailed ''token_used'')
     else if ot_expires_at obj \<le> t then mraise (AuthenticationFailed ''token_expired'')
     else
       let live = (\<lambda>r. ot_hash r = h \<and> ot_used_at r = None \<and> t < ot_expires_at r) in
       mbind (count_rows T live) (\<lambda>updated.
       mseq (update_rows T live (\<lambda>r. r\<lparr>ot_used_at := Some t\<rparr>))
       (if updated = 0 then mraise (AuthenticationFailed ''token_used'')
        else if \<not> u_is_active u then mraise (AuthenticationFailed ''user_not_found'')
        else mret (obj\<lparr>ot_used_at := Some t\<rparr>, u)))))))"

definition verify_one_time_token :: "env \<Rightarrow> one_time_token table \<Rightarrow> string \<Rightarrow> user io" where
  "verify_one_time_token E T raw = mbind (consume_one_time_token E T raw) (\<lambda>(obj, u). mret u)"

definition create_email_verification_token :: "env \<Rightarrow> user \<Rightarrow> string io" where
  "create_email_verification_token E u =
     create_one_time_token E verification_tokens_T u email_verification_lifetime"

definition verify_email_token :: "env \<Rightarrow> string \<Rightarrow> user io" where
  "verify_email_token E raw = verify_one_time_token E verification_tokens_T raw"

definition create_password_reset_token :: "env \<Rightarrow> user \<Rightarrow> string io" where
  "create_password_reset_token E u =
     create_one_time_token E reset_tokens_T u password_reset_lifetime"

definition verify_password_reset_token :: "env \<Rightarrow> string \<Rightarrow> user io" where
  "verify_password_reset_token E raw = verify_one_time_token E reset_tokens_T raw"

definition create_social_link_token ::
  "env \<Rightarrow> user \<Rightarrow> string \<Rightarrow> string \<Rightarrow> string \<Rightarrow> string option \<Rightarrow> string io" where
  "create_social_link_token E u provider provider_user_id full_name avatar_url =
     mbind fresh_text (\<lambda>raw. mbind fresh_uuid (\<lambda>i. mbind now (\<lambda>t.
     mseq (create_row link_requests_T \<lparr>ot_id = i, ot_user = u_id u, ot_hash = hash_token E raw,
             ot_created_at = t, ot_expires_at = t + social_link_lifetime, ot_used_at = None,
             lr_provider = provider, lr_provider_user_id = provider_user_id,
             lr_full_name = full_name, lr_avatar_url = avatar_url\<rparr>)
     (mret raw))))"

definition verify_social_link_token :: "env \<Rightarrow> string \<Rightarrow> (link_request \<times> user) io" where
  "verify_social_link_token E raw = consume_one_time_token E link_requests_T raw"

section \<open>Clean-up\<close>

text \<open>
  \<open>_delete_expired_rows\<close>: batches of at most 10000 identifiers, until a batch is short.  One
  batch deletes the first expired rows; the loop ends because a full batch leaves fewer rows.
\<close>

definition expired_batch :: nat where "expired_batch = 10000"

function prune :: "nat \<Rightarrow> ('a \<Rightarrow> bool) \<Rightarrow> ('a \<Rightarrow> uuid) \<Rightarrow> 'a list \<Rightarrow> 'a list" where
  "prune b P key xs =
     (let ids = map key (take b (filter P xs)) in
      if ids = [] then xs
      else let ys = filter (\<lambda>x. key x \<notin> set ids) xs in
        if length xs - length ys < b then ys else prune b P key ys)"
  by pat_completeness auto
termination
proof (relation "measure (\<lambda>(b, P, key, xs). length xs)", simp, goal_cases)
  case (1 b P key xs ids ys)
  then obtain x where "x \<in> set (take b (filter P xs))"
    by (metis list.map_disc_iff list.set_intros(1) neq_Nil_conv)
  then have "x \<in> set xs" "key x \<in> set ids"
    using 1 by (auto dest: in_set_takeD)
  with 1 show ?case by (auto intro: length_filter_less)
qed

declare prune.simps [simp del]

definition delete_expired_rows :: "'r table \<Rightarrow> ('r \<Rightarrow> datetime) \<Rightarrow> unit io" where
  "delete_expired_rows T expires = mmodify (\<lambda>w. w\<lparr>db := t_set T
     (prune expired_batch (\<lambda>r. expires r < clock w) (t_pk T) (t_get T (db w))) (db w)\<rparr>)"

definition cleanup_expired_refresh_tokens :: "unit io" where
  "cleanup_expired_refresh_tokens = delete_expired_rows refresh_tokens_T rt_expires_at"

definition cleanup_expired_social_link_requests :: "unit io" where
  "cleanup_expired_social_link_requests = delete_expired_rows link_requests_T ot_expires_at"

definition cleanup_expired_email_verification_tokens :: "unit io" where
  "cleanup_expired_email_verification_tokens = delete_expired_rows verification_tokens_T ot_expires_at"

definition cleanup_expired_password_reset_tokens :: "unit io" where
  "cleanup_expired_password_reset_tokens = delete_expired_rows reset_tokens_T ot_expires_at"

section \<open>Invariants\<close>

lemma keeps_refresh [keeps_intros]:
  "keeps consistent (create_refresh_token E u)" "keeps consistent (revoke_where P)"
  "keeps consistent (owner_or k e)"
  unfolding create_refresh_token_def revoke_where_def owner_or_def
  by (intro keeps_intros; simp)+

lemma keeps_rotate [keeps_intros]: "keeps consistent (rotate_refresh_token E raw)"
  unfolding rotate_refresh_token_def by (intro keeps_intros) simp

lemma keeps_one_time [keeps_intros]:
  "keeps consistent (create_email_verification_token E u)"
  "keeps consistent (create_password_reset_token E u)"
  "keeps consistent (create_social_link_token E u p pid name avatar)"
  unfolding create_email_verification_token_def create_password_reset_token_def
    create_social_link_token_def create_one_time_token_def
  by (intro keeps_intros)+

lemma keeps_revoke [keeps_intros]:
  "keeps consistent (revoke_refresh_token E raw)" "keeps consistent (revoke_all_refresh_tokens u)"
  unfolding revoke_refresh_token_def revoke_all_refresh_tokens_def by (intro keeps_intros)+

lemma keeps_authenticate [keeps_intros]: "keeps consistent (authenticate J header)"
  unfolding authenticate_def load_auth_user_def Let_def
  by (intro keeps_intros | split jwt_error.split cache_value.split option.split, intro conjI impI allI)+

section \<open>Consuming a one-time token\<close>

text \<open>What the three one-time token models have in common.\<close>

locale token_table = model_table T for T :: "'a one_time_token_scheme table" +
  assumes key: "t_pk T = ot_id" and refs: "t_refs T = ott_refs" and ok: "t_ok T = one_time_tokens_ok"
    and same_users: "users (t_set T xs d) = users d"
begin

lemma rows_distinct: "consistent w \<Longrightarrow> distinct (map ot_hash (t_get T (db w)))"
  using ok_get [of "db w"] by (simp add: consistent_def db_ok_def ok one_time_tokens_ok_def)

lemma find_token:
  assumes "consistent w" and "o1 \<in> set (t_get T (db w))" and "ot_hash o1 = h"
  shows "first_by ot_id (filter (\<lambda>r. ot_hash r = h) (t_get T (db w))) = Some o1"
  by (rule first_by_unique) (use assms in \<open>auto intro: distinct_map_eqD [OF rows_distinct]\<close>)

text \<open>Every token has its owner, because the foreign key is never dangling.\<close>

lemma token_owner:
  assumes "consistent w" and "o1 \<in> set (t_get T (db w))"
  obtains u where "u \<in> set (users (db w))" and "u_id u = ot_user o1"
proof -
  have "set (ott_refs o1) \<subseteq> set (all_refs (db w))" using refs_get [OF assms(2)] by (simp add: refs)
  then have "(KUser, ot_user o1) \<in> set (all_refs (db w))" by (auto simp: ott_refs_def)
  then have "ot_user o1 \<in> set (pk (db w) KUser)"
    using assms(1) unfolding consistent_def db_ok_def fk_ok_def refs_ok_iff by blast
  with that show ?thesis by auto
qed

definition burn :: "string \<Rightarrow> world \<Rightarrow> world" where
  "burn h w = w\<lparr>db := t_set T (update_where (\<lambda>r. ot_hash r = h)
     (\<lambda>r. r\<lparr>ot_used_at := Some (clock w)\<rparr>) (t_get T (db w))) (db w)\<rparr>"

lemma burn_update:
  assumes "consistent w" and "o1 \<in> set (t_get T (db w))" and "ot_hash o1 = h"
    and "ot_used_at o1 = None" and "clock w < ot_expires_at o1"
  shows "update_rows T (\<lambda>r. ot_hash r = h \<and> ot_used_at r = None \<and> clock w < ot_expires_at r)
      (\<lambda>r. r\<lparr>ot_used_at := Some (clock w)\<rparr>) w = (Inr (), burn h w)"
proof -
  let ?live = "\<lambda>r. ot_hash r = h \<and> ot_used_at r = None \<and> clock w < ot_expires_at r"
  have eq: "?live r \<longleftrightarrow> ot_hash r = h" if "r \<in> set (t_get T (db w))" for r
    using that assms distinct_map_eqD [OF rows_distinct [OF assms(1)], of r o1] by auto
  then have up: "update_where ?live f (t_get T (db w)) = update_where (\<lambda>r. ot_hash r = h) f (t_get T (db w))" for f
    by (simp add: update_where_def)
  have "one_time_tokens_ok (t_get T (db w))"
    using assms(1) ok_get [of "db w"] by (simp add: consistent_def db_ok_def ok)
  then have k: "one_time_tokens_ok (update_where P (\<lambda>r. r\<lparr>ot_used_at := v\<rparr>) (t_get T (db w)))" for P v
    by (simp add: one_time_tokens_ok_def map_update_where)
  have fk: "refs_ok (db w) (ott_refs r)" if "r \<in> set (t_get T (db w))" for r
    using refs_get [OF that] assms(1)
    by (auto simp: consistent_def db_ok_def fk_ok_def refs refs_ok_iff)
  show ?thesis
    using fk by (auto simp: update_rows_def Let_def ok refs k burn_def up list_all_iff ott_refs_def)
qed

text \<open>The result of consuming a known token, on every branch.\<close>

lemma consume_known:
  assumes w: "consistent w" and o1: "o1 \<in> set (t_get T (db w))" "ot_hash o1 = hash_token E raw"
    and u: "u \<in> set (users (db w))" "u_id u = ot_user o1"
  shows "consume_one_time_token E T raw w =
    (if ot_used_at o1 \<noteq> None then (Inl (AuthenticationFailed ''token_used''), w)
     else if ot_expires_at o1 \<le> clock w then (Inl (AuthenticationFailed ''token_expired''), w)
     else (if u_is_active u then Inr (o1\<lparr>ot_used_at := Some (clock w)\<rparr>, u)
           else Inl (AuthenticationFailed ''user_not_found''), burn (hash_token E raw) w))"
proof -
  note f = find_token [OF w o1]
  have d: "distinct (map u_id (users (db w)))"
    using w by (simp add: consistent_def db_ok_def tables_ok_def users_ok_def)
  have g: "first_by u_id (filter (\<lambda>v. u_id v = ot_user o1) (users (db w))) = Some u"
    by (rule first_by_unique) (use u in \<open>auto intro: distinct_map_eqD [OF d]\<close>)
  have us: "t_get users_T = users" "t_pk users_T = u_id" by (simp_all add: users_T_def)
  show ?thesis
  proof (cases "ot_used_at o1 = None \<and> clock w < ot_expires_at o1")
    case True
    then have "o1 \<in> set (filter (\<lambda>r. ot_hash r = hash_token E raw \<and> ot_used_at r = None
        \<and> clock w < ot_expires_at r) (t_get T (db w)))" using o1 by simp
    then have "filter (\<lambda>r. ot_hash r = hash_token E raw \<and> ot_used_at r = None
        \<and> clock w < ot_expires_at r) (t_get T (db w)) \<noteq> []" by (metis empty_iff list.set(1))
    with True show ?thesis
      using burn_update [OF w o1] by (simp add: consume_one_time_token_def Let_def run_simps key f g us owner_or_def)
  qed (auto simp: consume_one_time_token_def Let_def run_simps key f g us owner_or_def)
qed

lemma consume_unknown:
  "(\<And>r. r \<in> set (t_get T (db w)) \<Longrightarrow> ot_hash r \<noteq> hash_token E raw) \<Longrightarrow>
   consume_one_time_token E T raw w = (Inl (AuthenticationFailed ''invalid_token''), w)"
  by (auto simp: consume_one_time_token_def Let_def run_simps key split: option.splits
      dest!: first_by_filter_Some)

lemma keeps_consume: "keeps consistent (consume_one_time_token E T raw)"
  unfolding consume_one_time_token_def Let_def
  by (intro keeps_intros update_rows_ok [THEN consistent_intro]) (simp add: key)

text \<open>A token that was consumed is never consumed again while its row stands.\<close>

lemma consume_once:
  assumes w: "consistent w" and run: "consume_one_time_token E T raw w = (Inr (x, u), w1)"
    and w2: "consistent w2" and rows: "t_get T (db w2) = t_get T (db w1)"
  shows "fst (consume_one_time_token E T raw w2) = Inl (AuthenticationFailed ''token_used'')"
proof -
  obtain o1 where o1: "o1 \<in> set (t_get T (db w))" "ot_hash o1 = hash_token E raw"
    using consume_unknown [of w E raw] run by fastforce
  then obtain v where v: "v \<in> set (users (db w))" "u_id v = ot_user o1"
    using token_owner [OF w] by blast
  have "w1 = burn (hash_token E raw) w"
    using run unfolding consume_known [OF w o1 v] by (auto split: if_splits)
  then have "o1\<lparr>ot_used_at := Some (clock w)\<rparr> \<in> set (t_get T (db w2))"
    using o1 rows by (force simp: burn_def get_set set_update_where)
  moreover then obtain v2 where "v2 \<in> set (users (db w2))" "u_id v2 = ot_user o1"
    using token_owner [OF w2] by (metis one_time_token.select_convs(2) one_time_token.surjective
        one_time_token.update_convs(6))
  ultimately show ?thesis
    using consume_known [OF w2, of "o1\<lparr>ot_used_at := Some (clock w)\<rparr>"] o1(2) by simp
qed

end

interpretation verification: token_table verification_tokens_T
  using verification_tokens_tab.model_table_axioms
  by (simp add: token_table_def token_table_axioms_def)

interpretation reset: token_table reset_tokens_T
  using reset_tokens_tab.model_table_axioms
  by (simp add: token_table_def token_table_axioms_def)

interpretation link: token_table link_requests_T
  using link_requests_tab.model_table_axioms
  by (simp add: token_table_def token_table_axioms_def)

lemma keeps_verify [keeps_intros]:
  "keeps consistent (verify_email_token E raw)"
  "keeps consistent (verify_password_reset_token E raw)"
  "keeps consistent (verify_social_link_token E raw)"
  unfolding verify_email_token_def verify_password_reset_token_def verify_one_time_token_def
    verify_social_link_token_def
  by (intro keeps_intros verification.keeps_consume reset.keeps_consume link.keeps_consume)+

section \<open>Pruning in batches\<close>

lemma filter_keys:
  assumes "distinct (map key xs)" and "set zs \<subseteq> set xs"
  shows "filter (\<lambda>x. key x \<notin> set (map key zs)) xs = filter (\<lambda>x. x \<notin> set zs) xs"
  by (rule filter_cong [OF refl]) (use assms in \<open>auto dest: distinct_map_eqD\<close>)

lemma length_removed:
  assumes "distinct xs" and "distinct zs" and "set zs \<subseteq> set xs"
  shows "length xs - length (filter (\<lambda>x. x \<notin> set zs) xs) = length zs"
proof -
  have "length (filter (\<lambda>x. x \<in> set zs) xs) = card (set zs)"
  proof -
    have "set (filter (\<lambda>x. x \<in> set zs) xs) = set zs" using assms(3) by auto
    then show ?thesis using distinct_card [OF distinct_filter [OF assms(1)], of "\<lambda>x. x \<in> set zs"] by simp
  qed
  then show ?thesis
    using assms(2) sum_length_filter_compl [of "\<lambda>x. x \<in> set zs" xs] by (simp add: distinct_card)
qed

text \<open>Whatever the size of the batches, pruning removes exactly the rows it is asked to.\<close>

lemma prune_eq:
  "distinct (map key xs) \<Longrightarrow> 0 < b \<Longrightarrow> prune b P key xs = filter (\<lambda>x. \<not> P x) xs"
proof (induction b P key xs rule: prune.induct)
  case (1 b P key xs)
  let ?zs = "take b (filter P xs)" and ?ids = "map key (take b (filter P xs))"
  let ?ys = "filter (\<lambda>x. key x \<notin> set ?ids) xs"
  have d: "distinct xs" using 1(2) by (simp add: distinct_map)
  have sub: "set ?zs \<subseteq> set xs" "\<And>z. z \<in> set ?zs \<Longrightarrow> P z"
    by (auto dest!: in_set_takeD)
  have ys: "?ys = filter (\<lambda>x. x \<notin> set ?zs) xs" by (rule filter_keys [OF 1(2) sub(1)])
  have len: "length xs - length ?ys = length ?zs"
    unfolding ys by (rule length_removed [OF d _ sub(1)]) (simp add: d)
  have same: "filter (\<lambda>x. \<not> P x) ?ys = filter (\<lambda>x. \<not> P x) xs"
    unfolding ys filter_filter by (rule filter_cong [OF refl]) (use sub(2) in blast)
  consider "?ids = []" | "?ids \<noteq> []" "length ?zs < b" | "?ids \<noteq> []" "\<not> length ?zs < b" by blast
  then show ?case
  proof cases
    case 1
    then have "filter P xs = []" using \<open>0 < b\<close> by simp
    then have "filter (\<lambda>x. \<not> P x) xs = xs" by (simp add: filter_empty_conv filter_id_conv)
    with 1 show ?thesis by (subst prune.simps) simp
  next
    case 2
    then have "?zs = filter P xs" by (simp add: min_def split: if_splits)
    then have "set ?zs = {x \<in> set xs. P x}" by simp
    then have "?ys = filter (\<lambda>x. \<not> P x) xs"
      unfolding ys by (intro filter_cong [OF refl]) blast
    moreover have "length (filter P xs) < b" using 2(2) by simp
    ultimately show ?thesis using 2 len by (subst prune.simps) (simp add: Let_def)
  next
    case 3
    have "distinct (map key ?ys)" using 1(2) by (rule distinct_filter_map)
    with 3 len 1(1) [OF refl _ refl] \<open>0 < b\<close> same
    have "prune b P key ?ys = filter (\<lambda>x. \<not> P x) xs" by simp
    with 3 len show ?thesis by (subst prune.simps) (simp add: Let_def)
  qed
qed

lemma delete_expired_consistent:
  assumes "\<And>P. keeps consistent (delete_rows T P)"
    and "\<And>w. consistent w \<Longrightarrow> distinct (map (t_pk T) (t_get T (db w)))"
  shows "keeps consistent (delete_expired_rows T expires)"
proof (rule keepsI)
  fix w assume w: "consistent w"
  have "snd (delete_expired_rows T expires w) = snd (delete_rows T (\<lambda>r. expires r < clock w) w)"
    by (simp add: delete_expired_rows_def prune_eq [OF assms(2) [OF w]] expired_batch_def keep_def)
  with keepsD [OF assms(1) w] show "consistent (snd (delete_expired_rows T expires w))" by simp
qed

section \<open>Refresh tokens\<close>

lemma consistent_refresh: "consistent w \<Longrightarrow> refresh_tokens_ok (refresh_tokens (db w))"
  by (simp add: consistent_def db_ok_def tables_ok_def)

lemma refresh_fk:
  "consistent w \<Longrightarrow> r \<in> set (refresh_tokens (db w)) \<Longrightarrow> rt_user r \<in> set (map u_id (users (db w)))"
  by (simp add: consistent_def db_ok_def fk_ok_rows list_all_iff refresh_refs_def)

lemma update_refresh_run:
  assumes "consistent w"
  shows "update_rows refresh_tokens_T P (\<lambda>r. r\<lparr>rt_revoked_at := v\<rparr>) w
    = (Inr (), w\<lparr>db := (db w)\<lparr>refresh_tokens
         := update_where P (\<lambda>r. r\<lparr>rt_revoked_at := v\<rparr>) (refresh_tokens (db w))\<rparr>\<rparr>)"
proof -
  have "refresh_tokens_ok (update_where P (\<lambda>r. r\<lparr>rt_revoked_at := v\<rparr>) (refresh_tokens (db w)))"
    using consistent_refresh [OF assms] by (simp add: refresh_tokens_ok_def map_update_where)
  then show ?thesis
    using refresh_fk [OF assms] by (simp add: update_rows_def Let_def list_all_iff refresh_refs_def)
qed

lemma find_refresh:
  assumes "consistent w" and "r \<in> set (refresh_tokens (db w))" and "rt_hash r = h"
  shows "first_by rt_id (filter (\<lambda>r. rt_hash r = h) (refresh_tokens (db w))) = Some r"
  by (rule first_by_unique) (use assms consistent_refresh [OF assms(1)]
      in \<open>auto simp: refresh_tokens_ok_def intro: distinct_map_eqD\<close>)

lemma find_user:
  assumes "consistent w" and "u \<in> set (users (db w))" and "u_id u = k"
  shows "first_by u_id (filter (\<lambda>v. u_id v = k) (users (db w))) = Some u"
proof -
  have d: "distinct (map u_id (users (db w)))"
    using assms(1) by (simp add: consistent_def db_ok_def tables_ok_def users_ok_def)
  show ?thesis by (rule first_by_unique) (use assms(2,3) in \<open>auto intro: distinct_map_eqD [OF d]\<close>)
qed

lemma refresh_owner:
  assumes "consistent w" and "r \<in> set (refresh_tokens (db w))"
  obtains u where "u \<in> set (users (db w))" and "u_id u = rt_user r"
  using refresh_fk [OF assms] by auto

text \<open>Presenting a revoked token revokes every token of its user.\<close>

lemma rotate_revoked:
  assumes w: "consistent w" and r: "r \<in> set (refresh_tokens (db w))" "rt_hash r = hash_token E raw"
    and "rt_revoked_at r \<noteq> None"
  shows "rotate_refresh_token E raw w = (Inl (AuthenticationFailed ''token_revoked''),
    w\<lparr>db := (db w)\<lparr>refresh_tokens := update_where (\<lambda>t. rt_user t = rt_user r \<and> rt_revoked_at t = None)
        (\<lambda>t. t\<lparr>rt_revoked_at := Some (clock w)\<rparr>) (refresh_tokens (db w))\<rparr>\<rparr>)"
proof -
  obtain u where u: "u \<in> set (users (db w))" "u_id u = rt_user r" using refresh_owner [OF w r(1)] .
  show ?thesis
    using assms(4) by (simp add: rotate_refresh_token_def run_simps owner_or_def find_refresh [OF w r]
        find_user [OF w u] revoke_where_def update_refresh_run [OF w])
qed

text \<open>A rotation that returned revoked the presented token and created the one it returned.\<close>

lemma rotate_Inr:
  assumes w: "consistent w" and run: "rotate_refresh_token E raw w = (Inr (u, new), w1)"
  obtains r n where "r \<in> set (refresh_tokens (db w))" and "rt_hash r = hash_token E raw"
    and "rt_revoked_at r = None" and "clock w < rt_expires_at r"
    and "u \<in> set (users (db w))" and "u_id u = rt_user r" and "u_is_active u"
    and "rt_user n = u_id u" and "rt_hash n = hash_token E new" and "rt_revoked_at n = None"
    and "rt_expires_at n = clock w + refresh_token_lifetime"
    and "db w1 = (db w)\<lparr>refresh_tokens := map (\<lambda>t. if t = r then r\<lparr>rt_revoked_at := Some (clock w)\<rparr> else t)
           (refresh_tokens (db w)) @ [n]\<rparr>"
proof -
  from run obtain r where r: "r \<in> set (refresh_tokens (db w))" "rt_hash r = hash_token E raw"
    by (auto simp: rotate_refresh_token_def run_simps split: option.splits dest!: first_by_filter_Some)
  obtain v where v: "v \<in> set (users (db w))" "u_id v = rt_user r" using refresh_owner [OF w r(1)] .
  let ?rows = "update_where (\<lambda>t. rt_id t = rt_id r) (\<lambda>t. t\<lparr>rt_revoked_at := Some (clock w)\<rparr>) (refresh_tokens (db w))"
  have rows: "?rows = map (\<lambda>t. if t = r then r\<lparr>rt_revoked_at := Some (clock w)\<rparr> else t) (refresh_tokens (db w))"
    using consistent_refresh [OF w] r(1) unfolding update_where_def
    by (auto simp: refresh_tokens_ok_def dest: distinct_map_eqD [of rt_id])
  from run have live: "rt_revoked_at r = None \<and> clock w < rt_expires_at r \<and> u_is_active v"
    and create: "mbind (create_refresh_token E v) (\<lambda>new. mret (v, new))
      (w\<lparr>db := (db w)\<lparr>refresh_tokens := ?rows\<rparr>\<rparr>) = (Inr (u, new), w1)"
    by (simp_all add: rotate_refresh_token_def run_simps owner_or_def find_refresh [OF w r]
        find_user [OF w v] revoke_where_def save_row_def update_refresh_run [OF w] split: if_splits)
  from create obtain n where n: "db w1 = (db w)\<lparr>refresh_tokens := ?rows @ [n]\<rparr>" "u = v"
      "rt_user n = u_id v" "rt_hash n = hash_token E new"
      "rt_revoked_at n = None" "rt_expires_at n = clock w + refresh_token_lifetime"
    by (atomize_elim) (auto simp: create_refresh_token_def run_simps create_row_def split: if_splits)
  show ?thesis
    by (rule that [OF r]) (use live n v in \<open>auto simp: rows\<close>)
qed

text \<open>
  Rotation: a refresh token is accepted only while it is unrevoked, unexpired and its user
  active; the presented token is then revoked and exactly one new token, of the same user and
  with a full lifetime, is added.  No other row of any table changes.
\<close>

theorem refresh_rotation:
  assumes "consistent w" and "rotate_refresh_token E raw w = (Inr (u, new), w1)"
  shows "\<exists>r n. r \<in> set (refresh_tokens (db w)) \<and> rt_hash r = hash_token E raw
    \<and> rt_revoked_at r = None \<and> clock w < rt_expires_at r
    \<and> u \<in> set (users (db w)) \<and> u_id u = rt_user r \<and> u_is_active u
    \<and> rt_user n = u_id u \<and> rt_hash n = hash_token E new \<and> rt_revoked_at n = None
    \<and> rt_expires_at n = clock w + refresh_token_lifetime
    \<and> db w1 = (db w)\<lparr>refresh_tokens := map (\<lambda>t. if t = r then r\<lparr>rt_revoked_at := Some (clock w)\<rparr> else t)
           (refresh_tokens (db w)) @ [n]\<rparr>"
  by (rule rotate_Inr [OF assms]) blast

text \<open>
  Whatever else happens to the refresh tokens: tokens are issued, rotated and revoked, those that
  expired are deleted, accounts are deleted with theirs, and work elsewhere leaves the table alone.
  A newly drawn token is not the one at hand (\<open>secrets.token_urlsafe\<close> does not repeat itself).
\<close>

inductive token_work :: "env \<Rightarrow> string \<Rightarrow> world \<Rightarrow> world \<Rightarrow> bool" for E :: env and raw :: string where
  issues: "create_refresh_token E u w = (r, w') \<Longrightarrow>
     (\<forall>new. r = Inr new \<longrightarrow> hash_token E new \<noteq> hash_token E raw) \<Longrightarrow> token_work E raw w w'"
| rotates: "rotate_refresh_token E old w = (r, w') \<Longrightarrow>
     (\<forall>u new. r = Inr (u, new) \<longrightarrow> hash_token E new \<noteq> hash_token E raw) \<Longrightarrow> token_work E raw w w'"
| revokes: "revoke_refresh_token E old w = (r, w') \<Longrightarrow> token_work E raw w w'"
| revokes_all: "revoke_all_refresh_tokens u w = (r, w') \<Longrightarrow> token_work E raw w w'"
| cleans: "cleanup_expired_refresh_tokens w = (r, w') \<Longrightarrow> token_work E raw w w'"
| erases: "consistent w' \<Longrightarrow> refresh_tokens (db w') = filter (\<lambda>t. rt_user t \<noteq> k) (refresh_tokens (db w)) \<Longrightarrow>
     token_work E raw w w'"
| elsewhere: "consistent w' \<Longrightarrow> refresh_tokens (db w') = refresh_tokens (db w) \<Longrightarrow> token_work E raw w w'"

text \<open>The rows that answer to a token are revoked and belong to \<open>k\<close>.\<close>

definition burnt :: "string \<Rightarrow> uuid \<Rightarrow> refresh_token list \<Rightarrow> bool" where
  "burnt h k rs \<longleftrightarrow> (\<forall>t\<in>set rs. rt_hash t = h \<longrightarrow> rt_revoked_at t \<noteq> None \<and> rt_user t = k)"

lemma burnt_simps [simp]:
  "burnt h k (rs @ [n]) \<longleftrightarrow> burnt h k rs \<and> (rt_hash n = h \<longrightarrow> rt_revoked_at n \<noteq> None \<and> rt_user n = k)"
  "burnt h k rs \<Longrightarrow> burnt h k (filter P rs)"
  "burnt h k rs \<Longrightarrow> burnt h k (update_where P (\<lambda>r. r\<lparr>rt_revoked_at := Some t\<rparr>) rs)"
  by (auto simp: burnt_def dest!: update_where_mem split: if_splits)

lemma burnt_revoke:
  "revoke_where P w = (r, w') \<Longrightarrow> burnt h k (refresh_tokens (db w)) \<Longrightarrow> burnt h k (refresh_tokens (db w'))"
  by (auto simp: revoke_where_def run_simps update_rows_def Let_def split: if_splits)

lemma burnt_save:
  "save_row refresh_tokens_T i (\<lambda>r. r\<lparr>rt_revoked_at := Some t\<rparr>) w = (r, w') \<Longrightarrow>
   burnt h k (refresh_tokens (db w)) \<Longrightarrow> burnt h k (refresh_tokens (db w'))"
  by (auto simp: save_row_def update_rows_def Let_def split: if_splits)

lemma burnt_create:
  "create_refresh_token E u w = (r, w') \<Longrightarrow> (\<forall>new. r = Inr new \<longrightarrow> hash_token E new \<noteq> h) \<Longrightarrow>
   burnt h k (refresh_tokens (db w)) \<Longrightarrow> burnt h k (refresh_tokens (db w'))"
  by (auto simp: create_refresh_token_def run_simps create_row_def split: if_splits)

lemma burnt_rotate:
  assumes run: "rotate_refresh_token E old w = (r, w')"
    and new: "\<forall>u new. r = Inr (u, new) \<longrightarrow> hash_token E new \<noteq> h" and b: "burnt h k (refresh_tokens (db w))"
  shows "burnt h k (refresh_tokens (db w'))"
proof -
  consider "db w' = db w" | P r1 where "revoke_where P w = (r1, w')"
    | i t w1 u where "save_row refresh_tokens_T i (\<lambda>r. r\<lparr>rt_revoked_at := Some t\<rparr>) w = (Inr (), w1)"
        "mbind (create_refresh_token E u) (\<lambda>new. mret (u, new)) w1 = (r, w')"
    | i t r1 where "save_row refresh_tokens_T i (\<lambda>r. r\<lparr>rt_revoked_at := Some t\<rparr>) w = (r1, w')"
    using run unfolding rotate_refresh_token_def owner_or_def
    by (auto simp: run_simps split: option.splits if_splits sum.splits prod.splits)
  then show ?thesis
  proof cases
    case 1
    with b show ?thesis by simp
  next
    case 2
    then show ?thesis using b by (rule burnt_revoke)
  next
    case 3
    obtain r1 where c: "create_refresh_token E u w1 = (r1, w')" and "\<forall>new. r1 = Inr new \<longrightarrow> r = Inr (u, new)"
      using 3(2) by (cases "create_refresh_token E u w1") (auto simp: mbind_run split: sum.splits)
    with new have "\<forall>new. r1 = Inr new \<longrightarrow> hash_token E new \<noteq> h" by blast
    with burnt_create [OF c] burnt_save [OF 3(1) b] show ?thesis by blast
  next
    case 4
    then show ?thesis using b by (rule burnt_save)
  qed
qed

lemma clean_rows:
  assumes "consistent w" and "cleanup_expired_refresh_tokens w = (r, w')"
  shows "w' = w\<lparr>db := (db w)\<lparr>refresh_tokens := filter (\<lambda>r. clock w \<le> rt_expires_at r) (refresh_tokens (db w))\<rparr>\<rparr>"
proof -
  have "distinct (map rt_id (refresh_tokens (db w)))"
    using consistent_refresh [OF assms(1)] by (simp add: refresh_tokens_ok_def)
  with assms(2) show ?thesis
    by (simp add: cleanup_expired_refresh_tokens_def delete_expired_rows_def prune_eq expired_batch_def
        not_less refresh_tokens_T_def)
qed

lemma clean_consistent: "keeps consistent cleanup_expired_refresh_tokens"
  unfolding cleanup_expired_refresh_tokens_def
  by (rule delete_expired_consistent, rule delete_consistent)
    (simp add: consistent_def db_ok_def tables_ok_def table_ok_defs)

lemma token_work_keeps:
  assumes "token_work E raw w w'" and "consistent w \<and> burnt (hash_token E raw) k (refresh_tokens (db w))"
  shows "consistent w' \<and> burnt (hash_token E raw) k (refresh_tokens (db w'))"
  using assms
proof (induction rule: token_work.cases)
  case (issues u w r w')
  then show ?case using keepsD_run [OF keeps_refresh(1) _ issues(3)] burnt_create by blast
next
  case (rotates old w r w')
  then show ?case using keepsD_run [OF keeps_rotate _ rotates(3)] burnt_rotate by blast
next
  case (revokes old w r w')
  then show ?case using keepsD_run [OF keeps_revoke(1) _ revokes(3)] burnt_revoke
    unfolding revoke_refresh_token_def by blast
next
  case (revokes_all u w r w')
  then show ?case using keepsD_run [OF keeps_revoke(2) _ revokes_all(3)] burnt_revoke
    unfolding revoke_all_refresh_tokens_def by blast
next
  case (cleans w r w')
  then show ?case using keepsD_run [OF clean_consistent _ cleans(3)] clean_rows [OF _ cleans(3)] by simp
qed simp_all

text \<open>
  C9. Theft detection.  Once a refresh token has been rotated, whoever presents it again is refused,
  at any later time, whatever tokens were issued, rotated, revoked or cleaned up in between, its
  successors included.  As long as its row is stored, that attempt revokes every token of the
  user: none of them is live afterwards, and whoever presents one of them is refused.  (Only the
  clean-up of expired tokens and the deletion of the account remove the row, and then the token
  is unknown.)
\<close>

theorem refresh_theft_detection:
  assumes "consistent w" and "rotate_refresh_token E raw w = (Inr (u, new), w1)"
    and "hash_token E new \<noteq> hash_token E raw" and "(token_work E raw)\<^sup>*\<^sup>* w1 w2"
    and "rotate_refresh_token E raw w2 = (out, w3)"
  shows "(\<exists>t\<in>set (refresh_tokens (db w1)). rt_hash t = hash_token E raw)
    \<and> (if \<exists>t\<in>set (refresh_tokens (db w2)). rt_hash t = hash_token E raw
       then out = Inl (AuthenticationFailed ''token_revoked'')
         \<and> (\<forall>t\<in>set (refresh_tokens (db w3)). rt_user t = u_id u \<longrightarrow> rt_revoked_at t \<noteq> None
              \<and> (\<forall>raw'. rt_hash t = hash_token E raw' \<longrightarrow>
                   fst (rotate_refresh_token E raw' w3) = Inl (AuthenticationFailed ''token_revoked'')))
       else out = Inl (AuthenticationFailed ''invalid_token'') \<and> w3 = w2)"
proof -
  obtain r n where r: "r \<in> set (refresh_tokens (db w))" "rt_hash r = hash_token E raw"
      "u_id u = rt_user r" and n: "rt_hash n = hash_token E new"
    and db1: "db w1 = (db w)\<lparr>refresh_tokens := map (\<lambda>t. if t = r then r\<lparr>rt_revoked_at := Some (clock w)\<rparr> else t)
           (refresh_tokens (db w)) @ [n]\<rparr>"
    by (rule rotate_Inr [OF assms(1,2)]) (rule that; assumption)
  have there: "\<exists>t\<in>set (refresh_tokens (db w1)). rt_hash t = hash_token E raw"
    using r(1,2) unfolding db1 by (auto intro!: bexI [of _ "r\<lparr>rt_revoked_at := Some (clock w)\<rparr>"])
  have one: "t = r" if "t \<in> set (refresh_tokens (db w))" "rt_hash t = hash_token E raw" for t
    using consistent_refresh [OF assms(1)] that r(1,2) by (auto simp: refresh_tokens_ok_def intro: distinct_map_eqD)
  have "burnt (hash_token E raw) (u_id u) (map (\<lambda>t. if t = r then r\<lparr>rt_revoked_at := Some (clock w)\<rparr> else t)
      (refresh_tokens (db w)))"
    unfolding burnt_def
  proof (intro ballI impI)
    fix x
    assume "x \<in> set (map (\<lambda>t. if t = r then r\<lparr>rt_revoked_at := Some (clock w)\<rparr> else t) (refresh_tokens (db w)))"
      and h: "rt_hash x = hash_token E raw"
    then obtain t where t: "t \<in> set (refresh_tokens (db w))" "x = (if t = r then r\<lparr>rt_revoked_at := Some (clock w)\<rparr> else t)"
      by auto
    have "t = r"
    proof (rule ccontr)
      assume "t \<noteq> r"
      with t h one show False by simp
    qed
    with t(2) r(3) show "rt_revoked_at x \<noteq> None \<and> rt_user x = u_id u" by simp
  qed
  then have "burnt (hash_token E raw) (u_id u) (refresh_tokens (db w1))" using assms(3) n by (simp add: db1)
  with keepsD_run [OF keeps_rotate assms(1,2)]
  have "consistent w1 \<and> burnt (hash_token E raw) (u_id u) (refresh_tokens (db w1))" by blast
  with assms(4) have inv: "consistent w2 \<and> burnt (hash_token E raw) (u_id u) (refresh_tokens (db w2))"
    by (induction rule: rtranclp_induct) (use token_work_keeps in blast)+
  show ?thesis
  proof (cases "\<exists>t\<in>set (refresh_tokens (db w2)). rt_hash t = hash_token E raw")
    case True
    then obtain t where t: "t \<in> set (refresh_tokens (db w2))" "rt_hash t = hash_token E raw" by blast
    with inv have b: "rt_revoked_at t \<noteq> None" "rt_user t = u_id u" by (auto simp: burnt_def)
    note run = rotate_revoked [OF conjunct1 [OF inv] t b(1), unfolded b(2)]
    have all: "\<forall>t\<in>set (refresh_tokens (db w3)). rt_user t = u_id u \<longrightarrow> rt_revoked_at t \<noteq> None"
      using run assms(5) by (auto dest!: update_where_mem)
    have w3: "consistent w3" using keepsD_run [OF keeps_rotate _ assms(5)] inv by blast
    have "fst (rotate_refresh_token E raw' w3) = Inl (AuthenticationFailed ''token_revoked'')"
      if "t' \<in> set (refresh_tokens (db w3))" "rt_user t' = u_id u" "rt_hash t' = hash_token E raw'" for t' raw'
      using rotate_revoked [OF w3 that(1,3)] all that by simp
    with True there all run assms(5) show ?thesis by simp
  next
    case False
    then have "first_by rt_id (filter (\<lambda>t. rt_hash t = hash_token E raw) (refresh_tokens (db w2))) = None"
      by (simp add: filter_empty_conv)
    with assms(5) have "out = Inl (AuthenticationFailed ''invalid_token'') \<and> w3 = w2"
      by (simp add: rotate_refresh_token_def run_simps)
    with False there show ?thesis by simp
  qed
qed

text \<open>
  Password-reset tokens, on every branch: an unknown token is refused; a used or expired one is
  refused and nothing changes; a live one is marked used, and then gives its owner if the owner
  is active and is refused (and spent) otherwise.
\<close>

theorem reset_token_outcomes:
  assumes "consistent w"
  shows "((\<forall>t\<in>set (reset_tokens (db w)). ot_hash t \<noteq> hash_token E raw) \<longrightarrow>
      verify_password_reset_token E raw w = (Inl (AuthenticationFailed ''invalid_token''), w))
    \<and> (\<forall>t\<in>set (reset_tokens (db w)). \<forall>u\<in>set (users (db w)).
      ot_hash t = hash_token E raw \<and> u_id u = ot_user t \<longrightarrow>
      verify_password_reset_token E raw w =
       (if ot_used_at t \<noteq> None then (Inl (AuthenticationFailed ''token_used''), w)
        else if ot_expires_at t \<le> clock w then (Inl (AuthenticationFailed ''token_expired''), w)
        else (if u_is_active u then Inr u else Inl (AuthenticationFailed ''user_not_found''),
          w\<lparr>db := (db w)\<lparr>reset_tokens := update_where (\<lambda>r. ot_hash r = hash_token E raw)
             (\<lambda>r. r\<lparr>ot_used_at := Some (clock w)\<rparr>) (reset_tokens (db w))\<rparr>\<rparr>)))"
proof (intro conjI impI ballI)
  assume "\<forall>t\<in>set (reset_tokens (db w)). ot_hash t \<noteq> hash_token E raw"
  then show "verify_password_reset_token E raw w = (Inl (AuthenticationFailed ''invalid_token''), w)"
    using reset.consume_unknown [of w E raw]
    by (simp add: verify_password_reset_token_def verify_one_time_token_def run_simps)
next
  fix t u
  assume "t \<in> set (reset_tokens (db w))" "u \<in> set (users (db w))"
    "ot_hash t = hash_token E raw \<and> u_id u = ot_user t"
  with reset.consume_known [OF assms, of t E raw u]
  show "verify_password_reset_token E raw w =
       (if ot_used_at t \<noteq> None then (Inl (AuthenticationFailed ''token_used''), w)
        else if ot_expires_at t \<le> clock w then (Inl (AuthenticationFailed ''token_expired''), w)
        else (if u_is_active u then Inr u else Inl (AuthenticationFailed ''user_not_found''),
          w\<lparr>db := (db w)\<lparr>reset_tokens := update_where (\<lambda>r. ot_hash r = hash_token E raw)
             (\<lambda>r. r\<lparr>ot_used_at := Some (clock w)\<rparr>) (reset_tokens (db w))\<rparr>\<rparr>))"
    by (simp add: verify_password_reset_token_def verify_one_time_token_def run_simps reset.burn_def)
qed

text \<open>
  A one-time token is used at most once: after it was redeemed, redeeming it again is refused
  as already used at any later state in which its table is as the first redeem left it, for the
  three kinds of token.
\<close>

theorem token_single_use:
  assumes "consistent w" and "consistent w2"
  shows "(verify_email_token E raw w = (Inr u, w1)
        \<and> verification_tokens (db w2) = verification_tokens (db w1) \<longrightarrow>
      fst (verify_email_token E raw w2) = Inl (AuthenticationFailed ''token_used''))
    \<and> (verify_password_reset_token E raw w = (Inr u, w1)
        \<and> reset_tokens (db w2) = reset_tokens (db w1) \<longrightarrow>
      fst (verify_password_reset_token E raw w2) = Inl (AuthenticationFailed ''token_used''))
    \<and> (verify_social_link_token E raw w = (Inr (l, u), w1)
        \<and> link_requests (db w2) = link_requests (db w1) \<longrightarrow>
      fst (verify_social_link_token E raw w2) = Inl (AuthenticationFailed ''token_used''))"
  using verification.consume_once [OF assms(1) _ assms(2), of E raw _ u w1]
    reset.consume_once [OF assms(1) _ assms(2), of E raw _ u w1]
    link.consume_once [OF assms(1) _ assms(2), of E raw l u w1]
  by (auto simp: verify_email_token_def verify_password_reset_token_def verify_one_time_token_def
      verify_social_link_token_def run_simps split: prod.splits sum.splits)

section \<open>Clean-up\<close>

text \<open>
  C11. The clean-up tasks end, and leave in each token table exactly the rows that have not
  expired, in the order they had.
\<close>

theorem cleanup_prunes_expired:
  assumes "consistent w"
  shows "cleanup_expired_refresh_tokens w = (Inr (), w\<lparr>db := (db w)\<lparr>refresh_tokens
        := filter (\<lambda>r. clock w \<le> rt_expires_at r) (refresh_tokens (db w))\<rparr>\<rparr>)
    \<and> cleanup_expired_email_verification_tokens w = (Inr (), w\<lparr>db := (db w)\<lparr>verification_tokens
        := filter (\<lambda>r. clock w \<le> ot_expires_at r) (verification_tokens (db w))\<rparr>\<rparr>)
    \<and> cleanup_expired_password_reset_tokens w = (Inr (), w\<lparr>db := (db w)\<lparr>reset_tokens
        := filter (\<lambda>r. clock w \<le> ot_expires_at r) (reset_tokens (db w))\<rparr>\<rparr>)
    \<and> cleanup_expired_social_link_requests w = (Inr (), w\<lparr>db := (db w)\<lparr>link_requests
        := filter (\<lambda>r. clock w \<le> ot_expires_at r) (link_requests (db w))\<rparr>\<rparr>)"
proof -
  have k: "distinct (map rt_id (refresh_tokens (db w)))" "distinct (map ot_id (verification_tokens (db w)))"
    "distinct (map ot_id (reset_tokens (db w)))" "distinct (map ot_id (link_requests (db w)))"
    using assms by (simp_all add: consistent_def db_ok_def tables_ok_def refresh_tokens_ok_def
        one_time_tokens_ok_def)
  show ?thesis
    by (simp add: cleanup_expired_refresh_tokens_def cleanup_expired_email_verification_tokens_def
        cleanup_expired_password_reset_tokens_def cleanup_expired_social_link_requests_def
        delete_expired_rows_def prune_eq k expired_batch_def not_less refresh_tokens_T_def
        verification_tokens_T_def reset_tokens_T_def link_requests_T_def)
qed

section \<open>Instances\<close>

definition sample_tokens :: world where
  "sample_tokens = start_world (sample_db\<lparr>
     refresh_tokens := [\<lparr>rt_id = 50, rt_user = 1, rt_hash = ''hraw'', rt_created_at = 0,
       rt_expires_at = 1000, rt_revoked_at = None\<rparr>],
     verification_tokens := [\<lparr>ot_id = 51, ot_user = 1, ot_hash = ''hraw'', ot_created_at = 0,
       ot_expires_at = 1000, ot_used_at = None\<rparr>],
     reset_tokens := [\<lparr>ot_id = 52, ot_user = 1, ot_hash = ''hraw'', ot_created_at = 0,
       ot_expires_at = 600000000, ot_used_at = None\<rparr>],
     link_requests := [\<lparr>ot_id = 53, ot_user = 2, ot_hash = ''hraw'', ot_created_at = 0,
       ot_expires_at = 1000, ot_used_at = None, lr_provider = ''github'',
       lr_provider_user_id = ''7'', lr_full_name = ''Bob'', lr_avatar_url = None\<rparr>]\<rparr>)"

lemma sample_tokens_consistent: "consistent sample_tokens"
  by (simp add: sample_tokens_def consistent_def db_ok_def tables_ok_def table_ok_defs fk_ok_rows
      sample_simps refs_defs xor_owner_def lower_def lower_char_def)

lemma sample_rotation:
  "fst (rotate_refresh_token start_env ''raw'' sample_tokens) = Inr (sample_user, ''0'')"
  by code_simp

theorem refresh_rotation_witness:
  "\<exists>r n. r \<in> set (refresh_tokens (db sample_tokens)) \<and> rt_hash r = ''hraw'' \<and> rt_hash n = ''h0''
    \<and> refresh_tokens (db (snd (rotate_refresh_token start_env ''raw'' sample_tokens)))
      = map (\<lambda>t. if t = r then r\<lparr>rt_revoked_at := Some 0\<rparr> else t) (refresh_tokens (db sample_tokens)) @ [n]"
proof -
  have "rotate_refresh_token start_env ''raw'' sample_tokens
      = (Inr (sample_user, ''0''), snd (rotate_refresh_token start_env ''raw'' sample_tokens))"
    using sample_rotation by (simp add: prod_eq_iff)
  from refresh_rotation [OF sample_tokens_consistent this] show ?thesis
    by (fastforce simp: hash_token_def start_env_def sample_tokens_def start_world_def)
qed

text \<open>The successor is itself rotated before the stolen token is presented.\<close>

theorem refresh_theft_detection_witness:
  "let w1 = snd (rotate_refresh_token start_env ''raw'' sample_tokens);
       w2 = snd (rotate_refresh_token start_env ''0'' w1);
       w3 = snd (rotate_refresh_token start_env ''raw'' w2) in
   fst (rotate_refresh_token start_env ''raw'' w2) = Inl (AuthenticationFailed ''token_revoked'')
   \<and> map rt_hash (refresh_tokens (db w3)) = [''hraw'', ''h0'', ''h2'']
   \<and> fst (rotate_refresh_token start_env ''2'' w3) = Inl (AuthenticationFailed ''token_revoked'')"
proof -
  define w1 where "w1 = snd (rotate_refresh_token start_env ''raw'' sample_tokens)"
  define w2 where "w2 = snd (rotate_refresh_token start_env ''0'' w1)"
  define w3 where "w3 = snd (rotate_refresh_token start_env ''raw'' w2)"
  have one: "rotate_refresh_token start_env ''raw'' sample_tokens = (Inr (sample_user, ''0''), w1)"
    using sample_rotation by (simp add: prod_eq_iff w1_def)
  have two: "rotate_refresh_token start_env ''0'' w1 = (Inr (sample_user, ''2''), w2)"
  proof -
    have "fst (rotate_refresh_token start_env ''0'' (snd (rotate_refresh_token start_env ''raw'' sample_tokens)))
      = Inr (sample_user, ''2'')" by code_simp
    then show ?thesis by (simp add: prod_eq_iff w1_def w2_def)
  qed
  have "(token_work start_env ''raw'')\<^sup>*\<^sup>* w1 w2"
    by (rule r_into_rtranclp, rule rotates [OF two]) (simp add: hash_token_def start_env_def)
  note caught = refresh_theft_detection [OF sample_tokens_consistent one _ this prod.collapse [symmetric], folded w3_def]
  have rows: "map rt_hash (refresh_tokens (db w3)) = [''hraw'', ''h0'', ''h2'']"
    "map rt_user (refresh_tokens (db w3)) = [1, 1, 1]" "map rt_hash (refresh_tokens (db w2)) = [''hraw'', ''h0'', ''h2'']"
    unfolding w1_def w2_def w3_def by code_simp+
  have "\<exists>t\<in>set (refresh_tokens (db w2)). rt_hash t = hash_token start_env ''raw''"
    using rows(3) by (auto simp: hash_token_def start_env_def map_eq_Cons_conv)
  with caught have out: "fst (rotate_refresh_token start_env ''raw'' w2) = Inl (AuthenticationFailed ''token_revoked'')"
    and all: "\<forall>t\<in>set (refresh_tokens (db w3)). rt_user t = u_id sample_user \<longrightarrow> (\<forall>raw'. rt_hash t = hash_token start_env raw' \<longrightarrow>
      fst (rotate_refresh_token start_env raw' w3) = Inl (AuthenticationFailed ''token_revoked''))"
    by (simp_all add: hash_token_def start_env_def)
  have "\<exists>t\<in>set (refresh_tokens (db w3)). rt_user t = u_id sample_user \<and> rt_hash t = hash_token start_env ''2''"
    using rows(1,2) by (auto simp: hash_token_def start_env_def map_eq_Cons_conv sample_user_def)
  with all have "fst (rotate_refresh_token start_env ''2'' w3) = Inl (AuthenticationFailed ''token_revoked'')" by blast
  with out rows show ?thesis by (simp add: Let_def w1_def w2_def w3_def)
qed

theorem reset_token_outcomes_witness:
  "fst (verify_password_reset_token start_env ''raw'' sample_tokens) = Inr sample_user
   \<and> fst (verify_password_reset_token start_env ''other'' sample_tokens)
     = Inl (AuthenticationFailed ''invalid_token'')"
  using reset_token_outcomes [OF sample_tokens_consistent, of start_env "''raw''"]
    reset_token_outcomes [OF sample_tokens_consistent, of start_env "''other''"]
  by (simp add: sample_tokens_def hash_token_def start_env_def sample_simps)

theorem token_single_use_witness:
  "fst (verify_email_token start_env ''raw'' (snd (verify_email_token start_env ''raw'' sample_tokens)))
     = Inl (AuthenticationFailed ''token_used'')
   \<and> fst (verify_social_link_token start_env ''raw''
       (snd (verify_social_link_token start_env ''raw'' sample_tokens)))
     = Inl (AuthenticationFailed ''token_used'')"
proof -
  let ?w = "snd (verify_email_token start_env ''raw'' sample_tokens)"
  let ?v = "snd (verify_social_link_token start_env ''raw'' sample_tokens)"
  have "fst (verify_email_token start_env ''raw'' sample_tokens) = Inr sample_user" by code_simp
  then have e: "verify_email_token start_env ''raw'' sample_tokens = (Inr sample_user, ?w)"
    by (simp add: prod_eq_iff)
  have "case fst (verify_social_link_token start_env ''raw'' sample_tokens) of Inl x \<Rightarrow> False
      | Inr y \<Rightarrow> True" by code_simp
  then obtain l u where l: "verify_social_link_token start_env ''raw'' sample_tokens = (Inr (l, u), ?v)"
    by (cases "fst (verify_social_link_token start_env ''raw'' sample_tokens)") (auto simp: prod_eq_iff)
  have "consistent ?w" "consistent ?v"
    by (rule keepsD [where P = consistent]; (rule keeps_intros sample_tokens_consistent))+
  then show ?thesis
    using token_single_use [OF sample_tokens_consistent, of ?w start_env "''raw''" sample_user ?w]
      token_single_use [OF sample_tokens_consistent, of ?v start_env "''raw''"] e l by blast
qed

theorem cleanup_prunes_expired_witness:
  "refresh_tokens (db (snd (cleanup_expired_refresh_tokens (sample_tokens\<lparr>clock := 1001\<rparr>)))) = []"
proof -
  have "consistent (sample_tokens\<lparr>clock := 1001\<rparr>)"
    using sample_tokens_consistent by (simp add: consistent_def)
  from cleanup_prunes_expired [OF this] show ?thesis
    by (simp add: sample_tokens_def start_world_def)
qed

end
