(* ===== verification/TokenRace.thy ===== *)
theory TokenRace
  imports Auth
begin

text \<open>
  Concurrent requests on one token.  A request that reads and then writes is two database
  statements; between them any other request may run.  \<open>race\<close> is the interleaving of any number
  of requests, each a reading part followed by a writing part, with the passage of time and with
  other work that \<open>R\<close> allows.  Redeeming a one-time token is safe under it, because its write is
  conditional; rotating a refresh token is not, because its write is not.
\<close>

section \<open>Interleavings\<close>

datatype ('a, 'b) phase = Waiting | Holding 'a | Refused exn | Finished 'b

inductive race ::
  "'a io \<Rightarrow> ('a \<Rightarrow> 'b io) \<Rightarrow> (world \<Rightarrow> world \<Rightarrow> bool) \<Rightarrow>
   world \<times> (nat \<Rightarrow> ('a, 'b) phase) \<Rightarrow> world \<times> (nat \<Rightarrow> ('a, 'b) phase) \<Rightarrow> bool"
  for rd :: "'a io" and wr :: "'a \<Rightarrow> 'b io" and R :: "world \<Rightarrow> world \<Rightarrow> bool" where
  read_ok: "ph i = Waiting \<Longrightarrow> rd w = (Inr x, w') \<Longrightarrow>
     race rd wr R (w, ph) (w', ph(i := Holding x))"
| read_fail: "ph i = Waiting \<Longrightarrow> rd w = (Inl e, w') \<Longrightarrow>
     race rd wr R (w, ph) (w', ph(i := Refused e))"
| write_ok: "ph i = Holding x \<Longrightarrow> wr x w = (Inr y, w') \<Longrightarrow>
     race rd wr R (w, ph) (w', ph(i := Finished y))"
| write_fail: "ph i = Holding x \<Longrightarrow> wr x w = (Inl e, w') \<Longrightarrow>
     race rd wr R (w, ph) (w', ph(i := Refused e))"
| tick: "0 \<le> n \<Longrightarrow> race rd wr R (w, ph) (w\<lparr>clock := clock w + n\<rparr>, ph)"
| other: "R w w' \<Longrightarrow> race rd wr R (w, ph) (w', ph)"

inductive_cases raceE: "race rd wr R (w, ph) (w', ph')"

inductive_simps race_waiting: "race rd wr R (w, \<lambda>i. Waiting) (w', ph')"

abbreviation races where
  "races rd wr R \<equiv> (race rd wr R)\<^sup>*\<^sup>*"

text \<open>Without interference, one request does what the sequence of its parts does.\<close>

lemma race_alone:
  assumes "mbind rd wr w = (r, w')"
  shows "\<exists>ph. races rd wr R (w, \<lambda>i. Waiting) (w', ph)
    \<and> ph 0 = (case r of Inl e \<Rightarrow> Refused e | Inr y \<Rightarrow> Finished y)"
proof (cases "rd w")
  case (Pair a w1)
  show ?thesis
  proof (cases a)
    case (Inl e)
    with Pair assms have "r = Inl e" "w' = w1" by (simp_all add: mbind_run)
    with read_fail [of "\<lambda>i. Waiting" 0 rd w e w1 wr R] Pair Inl show ?thesis
      by (intro exI [where x = "(\<lambda>i. Waiting)(0 := Refused e)"] conjI) (rule r_into_rtranclp, simp_all)
  next
    case (Inr x)
    have rd: "race rd wr R (w, \<lambda>i. Waiting) (w1, (\<lambda>i. Waiting)(0 := Holding x))"
      by (rule read_ok) (use Pair Inr in simp_all)
    from Pair Inr assms have wr: "wr x w1 = (r, w')" by (simp add: mbind_run)
    define ph where "ph = (\<lambda>i::nat. Waiting)(0 := Holding x, 0 := (case r of Inl e \<Rightarrow> Refused e | Inr y \<Rightarrow> Finished y))"
    have "race rd wr R (w1, (\<lambda>i. Waiting)(0 := Holding x)) (w', ph)"
      using wr write_ok [of "(\<lambda>i. Waiting)(0 := Holding x)" 0 x wr w1 _ w' rd R]
        write_fail [of "(\<lambda>i. Waiting)(0 := Holding x)" 0 x wr w1 _ w' rd R]
      unfolding ph_def by (cases r) auto
    with rd have "races rd wr R (w, \<lambda>i. Waiting) (w', ph)" by auto
    then show ?thesis by (auto simp: ph_def)
  qed
qed

section \<open>Redeeming a one-time token\<close>

definition redeem_read ::
  "env \<Rightarrow> 'a one_time_token_scheme table \<Rightarrow> string \<Rightarrow> (datetime \<times> 'a one_time_token_scheme \<times> user) io" where
  "redeem_read E T raw = mbind now (\<lambda>t.
     mbind (get_row T (\<lambda>r. ot_hash r = hash_token E raw) (AuthenticationFailed ''invalid_token'')) (\<lambda>obj.
     mbind (owner_or (ot_user obj) (AuthenticationFailed ''invalid_token'')) (\<lambda>u.
     if ot_used_at obj \<noteq> None then mraise (AuthenticationFailed ''token_used'')
     else if ot_expires_at obj \<le> t then mraise (AuthenticationFailed ''token_expired'')
     else mret (t, obj, u))))"

definition redeem_write ::
  "env \<Rightarrow> 'a one_time_token_scheme table \<Rightarrow> string \<Rightarrow> datetime \<times> 'a one_time_token_scheme \<times> user \<Rightarrow>
   ('a one_time_token_scheme \<times> user) io" where
  "redeem_write E T raw = (\<lambda>(t, obj, u).
     let live = (\<lambda>r. ot_hash r = hash_token E raw \<and> ot_used_at r = None \<and> t < ot_expires_at r) in
     mbind (count_rows T live) (\<lambda>updated.
     mseq (update_rows T live (\<lambda>r. r\<lparr>ot_used_at := Some t\<rparr>))
     (if updated = 0 then mraise (AuthenticationFailed ''token_used'')
      else if \<not> u_is_active u then mraise (AuthenticationFailed ''user_not_found'')
      else mret (obj\<lparr>ot_used_at := Some t\<rparr>, u))))"

lemma mbind_if_mret:
  "mbind (if b then mraise e else if c then mraise e' else mret x) f
   = (if b then mraise e else if c then mraise e' else f x)"
  by (rule ext) (simp add: mbind_run)

lemma redeem_split:
  "mbind (redeem_read E T raw) (redeem_write E T raw) = consume_one_time_token E T raw"
  unfolding redeem_read_def redeem_write_def consume_one_time_token_def Let_def mbind_assoc
    mbind_if_mret prod.case by (rule refl)

text \<open>Other work may do anything that leaves the tokens of this kind alone.\<close>

definition tokens_kept :: "'a one_time_token_scheme table \<Rightarrow> world \<Rightarrow> world \<Rightarrow> bool" where
  "tokens_kept T w w' \<longleftrightarrow> consistent w' \<and> t_get T (db w') = t_get T (db w)"

definition spent :: "'a one_time_token_scheme table \<Rightarrow> string \<Rightarrow> world \<Rightarrow> bool" where
  "spent T h w \<longleftrightarrow> list_all (\<lambda>r. ot_hash r = h \<longrightarrow> ot_used_at r \<noteq> None) (t_get T (db w))"

definition finished :: "(nat \<Rightarrow> ('a, 'b) phase) \<Rightarrow> nat set" where
  "finished ph = {i. \<exists>y. ph i = Finished y}"

context token_table
begin

text \<open>At most one request has finished, and when one has the token is spent.\<close>

definition race_inv where
  "race_inv E raw s \<longleftrightarrow> (case s of (w, ph) \<Rightarrow> consistent w
     \<and> (finished ph \<noteq> {} \<longrightarrow> spent T (hash_token E raw) w)
     \<and> (\<forall>i j. i \<in> finished ph \<longrightarrow> j \<in> finished ph \<longrightarrow> i = j))"

lemma redeem_read_db: "redeem_read E T raw w = (r, w') \<Longrightarrow> w' = w"
  by (auto simp: redeem_read_def owner_or_def run_simps split: option.splits if_splits)

lemma update_used_reads:
  "update_rows T P (\<lambda>r. r\<lparr>ot_used_at := Some t\<rparr>) w = (r, w') \<Longrightarrow>
   t_get T (db w') = t_get T (db w)
   \<or> t_get T (db w') = update_where P (\<lambda>r. r\<lparr>ot_used_at := Some t\<rparr>) (t_get T (db w))"
  by (auto simp: update_rows_def Let_def get_set split: if_splits)

lemma redeem_write_rows:
  assumes "redeem_write E T raw x w = (r, w')"
  shows "t_get T (db w') = t_get T (db w)
    \<or> (\<exists>P t. t_get T (db w') = update_where P (\<lambda>r. r\<lparr>ot_used_at := Some t\<rparr>) (t_get T (db w)))"
proof -
  obtain t obj u where x: "x = (t, obj, u)" by (cases x)
  obtain a w1 where up: "update_rows T (\<lambda>r. ot_hash r = hash_token E raw \<and> ot_used_at r = None
      \<and> t < ot_expires_at r) (\<lambda>r. r\<lparr>ot_used_at := Some t\<rparr>) w = (a, w1)" by force
  have "w' = w1" using assms up
    by (auto simp: redeem_write_def x Let_def run_simps split: sum.splits if_splits)
  with update_used_reads [OF up] show ?thesis by blast
qed

lemma redeem_write_spent:
  assumes "redeem_write E T raw x w = (r, w')" and "spent T h w" shows "spent T h w'"
  using redeem_write_rows [OF assms(1)] assms(2)
  by (auto simp: spent_def list_all_iff dest!: update_where_mem)

text \<open>A redeem finds the token unspent, and spends it.\<close>

lemma redeem_write_Inr:
  assumes w: "consistent w" and run: "redeem_write E T raw x w = (Inr y, w')"
  shows "\<not> spent T (hash_token E raw) w \<and> spent T (hash_token E raw) w'"
proof -
  obtain t obj u where x: "x = (t, obj, u)" by (cases x)
  let ?h = "hash_token E raw"
  let ?live = "\<lambda>r. ot_hash r = ?h \<and> ot_used_at r = None \<and> t < ot_expires_at r"
  from run obtain a where a: "a \<in> set (t_get T (db w))" "?live a"
    and rows: "t_get T (db w') = update_where ?live (\<lambda>r. r\<lparr>ot_used_at := Some t\<rparr>) (t_get T (db w))"
    by (auto simp: redeem_write_def x Let_def run_simps update_rows_def get_set filter_empty_conv
        split: sum.splits if_splits)
  have "r = a" if "r \<in> set (t_get T (db w))" "ot_hash r = ?h" for r
    using that a distinct_map_eqD [OF rows_distinct [OF w]] by auto
  then have "spent T ?h w'" using a unfolding spent_def list_all_iff rows
    by (fastforce dest!: update_where_mem)
  moreover have "\<not> spent T ?h w" using a by (auto simp: spent_def list_all_iff)
  ultimately show ?thesis by blast
qed

lemma keeps_redeem_write: "keeps consistent (redeem_write E T raw x)"
  unfolding redeem_write_def Let_def
  by (intro keeps_intros update_rows_ok [THEN consistent_intro]) (simp add: key)

lemma finished_upd [simp]:
  "finished (ph(i := Holding x)) = finished ph - {i}"
  "finished (ph(i := Refused e)) = finished ph - {i}"
  "finished (ph(i := Finished y)) = insert i (finished ph)"
  by (auto simp: finished_def)

lemma race_step:
  assumes "race (redeem_read E T raw) (redeem_write E T raw) (tokens_kept T) s s'" and "race_inv E raw s"
  shows "race_inv E raw s'"
  using assms
proof (cases rule: race.cases)
  case (write_ok ph i x w y w')
  from assms(2) write_ok have w: "consistent w" by (simp add: race_inv_def)
  note r = redeem_write_Inr [OF w write_ok(4)]
  from r assms(2) write_ok have "finished ph = {}" by (auto simp: race_inv_def)
  with r write_ok keepsD_run [OF keeps_redeem_write w write_ok(4)] show ?thesis
    by (simp add: race_inv_def)
next
  case (write_fail ph i x w e w')
  from assms(2) write_fail have w: "consistent w" by (simp add: race_inv_def)
  from assms(2) write_fail keepsD_run [OF keeps_redeem_write w write_fail(4)]
    redeem_write_spent [OF write_fail(4)] show ?thesis
    by (auto simp: race_inv_def)
qed (auto simp: race_inv_def tokens_kept_def spent_def consistent_def dest!: redeem_read_db)

lemma race_safe:
  assumes "races (redeem_read E T raw) (redeem_write E T raw) (tokens_kept T) s s'" and "race_inv E raw s"
  shows "race_inv E raw s'"
  using assms by (induction rule: rtranclp_induct) (auto intro: race_step)

end

text \<open>
  C10. Any number of requests that present the same password-reset token, interleaved in any order
  with each other, with time and with work that leaves the tokens alone: at most one of them
  ever obtains the user.
\<close>

theorem one_redeemer:
  assumes "consistent w"
    and "races (redeem_read E reset_tokens_T raw) (redeem_write E reset_tokens_T raw)
      (tokens_kept reset_tokens_T) (w, \<lambda>i. Waiting) (w', ph)"
    and "ph i = Finished x" and "ph j = Finished y"
  shows "i = j"
proof -
  have "reset.race_inv E raw (w, \<lambda>i. Waiting)"
    using assms(1) by (simp add: reset.race_inv_def finished_def)
  from reset.race_safe [OF assms(2) this] assms(3,4) show ?thesis
    by (auto simp: reset.race_inv_def finished_def)
qed

section \<open>Rotating a refresh token\<close>

definition rotate_read :: "env \<Rightarrow> string \<Rightarrow> (refresh_token \<times> user) io" where
  "rotate_read E raw =
     mbind (get_row refresh_tokens_T (\<lambda>r. rt_hash r = hash_token E raw)
       (AuthenticationFailed ''invalid_token'')) (\<lambda>rt.
     mbind (owner_or (rt_user rt) (AuthenticationFailed ''invalid_token'')) (\<lambda>u. mret (rt, u)))"

definition rotate_write :: "env \<Rightarrow> refresh_token \<times> user \<Rightarrow> (user \<times> string) io" where
  "rotate_write E = (\<lambda>(rt, u).
     if rt_revoked_at rt \<noteq> None
     then mseq (revoke_where (\<lambda>r. rt_user r = rt_user rt))
            (mraise (AuthenticationFailed ''token_revoked''))
     else mbind now (\<lambda>t.
       if rt_expires_at rt \<le> t then mraise (AuthenticationFailed ''token_expired'')
       else if \<not> u_is_active u then mraise (AuthenticationFailed ''user_not_found'')
       else mseq (save_row refresh_tokens_T (rt_id rt) (\<lambda>r. r\<lparr>rt_revoked_at := Some t\<rparr>))
         (mbind (create_refresh_token E u) (\<lambda>new. mret (u, new)))))"

lemma mret_mbind [simp]: "mbind (mret x) f = f x"
  by (rule ext) (simp add: mbind_run)

lemma rotate_split: "mbind (rotate_read E raw) (rotate_write E) = rotate_refresh_token E raw"
  by (simp add: rotate_read_def rotate_write_def rotate_refresh_token_def mbind_assoc)

text \<open>
  Rotation has no such protection: two requests that both read the token before either writes
  both obtain a new refresh token, and neither is taken for a reuse.
\<close>

theorem rotation_not_exclusive:
  "\<exists>w ph u. consistent w \<and> length (refresh_tokens (db w)) = 1
     \<and> races (rotate_read start_env ''raw'') (rotate_write start_env) (\<lambda>w w'. False)
         (w, \<lambda>i. Waiting) ph
     \<and> snd ph 0 = Finished (u, ''0'') \<and> snd ph 1 = Finished (u, ''2'')
     \<and> list_all (\<lambda>t. rt_hash t = ''hraw'' \<or> rt_revoked_at t = None) (refresh_tokens (db (fst ph)))
     \<and> length (refresh_tokens (db (fst ph))) = 3"
proof -
  let ?rd = "rotate_read start_env ''raw''" and ?wr = "rotate_write start_env"
  let ?S = "race ?rd ?wr (\<lambda>w w'. False)"
  let ?t = "hd (refresh_tokens (db sample_tokens))"
  let ?w1 = "snd (?wr (?t, sample_user) sample_tokens)"
  let ?w2 = "snd (?wr (?t, sample_user) ?w1)"
  have r: "?rd sample_tokens = (Inr (?t, sample_user), sample_tokens)"
    by (simp add: rotate_read_def owner_or_def run_simps sample_tokens_def sample_simps
        start_env_def hash_token_def)
  have "fst (?wr (?t, sample_user) sample_tokens) = Inr (sample_user, ''0'')"
    "fst (?wr (?t, sample_user) ?w1) = Inr (sample_user, ''2'')" by code_simp+
  then have w: "?wr (?t, sample_user) sample_tokens = (Inr (sample_user, ''0''), ?w1)"
    "?wr (?t, sample_user) ?w1 = (Inr (sample_user, ''2''), ?w2)" by (simp_all add: prod_eq_iff)
  let ?p = "\<lambda>i::nat. Waiting"
  have "?S (sample_tokens, ?p) (sample_tokens, ?p(0 := Holding (?t, sample_user)))"
    by (rule read_ok) (use r in auto)
  moreover have "?S (sample_tokens, ?p(0 := Holding (?t, sample_user)))
      (sample_tokens, ?p(0 := Holding (?t, sample_user), 1 := Holding (?t, sample_user)))"
    by (rule read_ok) (use r in auto)
  moreover have "?S (sample_tokens, ?p(0 := Holding (?t, sample_user), 1 := Holding (?t, sample_user)))
      (?w1, ?p(0 := Holding (?t, sample_user), 1 := Holding (?t, sample_user), 0 := Finished (sample_user, ''0'')))"
    by (rule write_ok [where x = "(?t, sample_user)"], simp, rule w(1))
  moreover have "?S (?w1, ?p(0 := Holding (?t, sample_user), 1 := Holding (?t, sample_user), 0 := Finished (sample_user, ''0'')))
      (?w2, ?p(0 := Holding (?t, sample_user), 1 := Holding (?t, sample_user), 0 := Finished (sample_user, ''0''),
         1 := Finished (sample_user, ''2'')))"
    by (rule write_ok [where x = "(?t, sample_user)"], simp, rule w(2))
  ultimately have "?S\<^sup>*\<^sup>* (sample_tokens, ?p)
      (?w2, ?p(0 := Holding (?t, sample_user), 1 := Holding (?t, sample_user), 0 := Finished (sample_user, ''0''),
         1 := Finished (sample_user, ''2'')))"
    by (meson converse_rtranclp_into_rtranclp rtranclp.rtrancl_refl)
  moreover have "list_all (\<lambda>t. rt_hash t = ''hraw'' \<or> rt_revoked_at t = None) (refresh_tokens (db ?w2))"
    and "length (refresh_tokens (db ?w2)) = 3" and "length (refresh_tokens (db sample_tokens)) = 1"
    by code_simp+
  ultimately show ?thesis
    using sample_tokens_consistent by (intro exI conjI) auto
qed

theorem one_redeemer_witness:
  "\<exists>w' ph. races (redeem_read start_env reset_tokens_T ''raw'') (redeem_write start_env reset_tokens_T ''raw'')
      (tokens_kept reset_tokens_T) (sample_tokens, \<lambda>i. Waiting) (w', ph)
    \<and> (\<exists>x. ph 0 = Finished x) \<and> (\<forall>j y. ph j = Finished y \<longrightarrow> 0 = j)"
proof -
  let ?rd = "redeem_read start_env reset_tokens_T ''raw''" and ?wr = "redeem_write start_env reset_tokens_T ''raw''"
  have "case fst (consume_one_time_token start_env reset_tokens_T ''raw'' sample_tokens) of
      Inl x \<Rightarrow> False | Inr y \<Rightarrow> True" by code_simp
  then obtain y w' where "mbind ?rd ?wr sample_tokens = (Inr y, w')"
    unfolding redeem_split
    by (cases "consume_one_time_token start_env reset_tokens_T ''raw'' sample_tokens")
      (auto split: sum.splits)
  from race_alone [OF this] obtain ph where
    r: "races ?rd ?wr (tokens_kept reset_tokens_T) (sample_tokens, \<lambda>i. Waiting) (w', ph)"
    and f: "ph 0 = Finished y" by fastforce
  have "\<forall>j z. ph j = Finished z \<longrightarrow> 0 = j"
    using one_redeemer [OF sample_tokens_consistent r f] by blast
  with r f show ?thesis by blast
qed

end
