(* ===== verification/Credits.thy ===== *)
theory Credits
  imports Samples
begin

text \<open>
  The credit ledger, \<open>apps/billing/services.py\<close>.  A completed product checkout inserts a
  \<open>CreditTransaction\<close> keyed by the Stripe session and adds its amount to the owner's
  \<open>CreditBalance\<close>, in one transaction.  The abstract ledger is a balance per owner together with
  the set of sessions already paid out; granting refines its one-line specification, and the
  balance of every owner always equals the sum of its transactions.
\<close>

section \<open>Operations\<close>

text \<open>PostgreSQL's \<open>integer\<close>, the column type of \<open>IntegerField\<close>.\<close>

definition in_int4 :: "int \<Rightarrow> bool" where
  "in_int4 n \<longleftrightarrow> - (2 ^ 31) \<le> n \<and> n < 2 ^ 31"

text \<open>\<open>CreditBalance.objects.select_for_update().get_or_create(owner, defaults=0)\<close>\<close>

definition get_or_create_balance :: "uuid option \<Rightarrow> uuid option \<Rightarrow> credit_balance io" where
  "get_or_create_balance user org =
     mbind (first_row credit_balances_T
         (\<lambda>b. if user \<noteq> None then b_user b = user else b_org b = org)) (\<lambda>found.
     case found of
       Some b \<Rightarrow> mret b
     | None \<Rightarrow> mbind fresh_uuid (\<lambda>i.
         let b = \<lparr>b_id = i, b_user = user, b_org = (if user \<noteq> None then None else org),
                  b_balance = 0\<rparr> in
         mseq (create_row credit_balances_T b) (mret b)))"

definition insert_transaction ::
  "string \<Rightarrow> int \<Rightarrow> string \<Rightarrow> uuid option \<Rightarrow> uuid option \<Rightarrow> bool io" where
  "insert_transaction session amount reason user org =
     mbind fresh_uuid (\<lambda>i. mbind now (\<lambda>t.
       mtry (mseq (create_row credit_transactions_T
               \<lparr>t_id = i, t_user = user, t_org = org, t_amount = amount, t_reason = reason,
                t_session = Some session, t_created_at = t\<rparr>) (mret True))
            (\<lambda>e. if e = IntegrityError then mret False else mraise e)))"

definition add_to_balance :: "uuid option \<Rightarrow> uuid option \<Rightarrow> int \<Rightarrow> unit io" where
  "add_to_balance user org amount =
     mbind (get_or_create_balance user org) (\<lambda>b.
       mseq (mguard (in_int4 (b_balance b + amount)) DataError)
            (save_row credit_balances_T (b_id b) (\<lambda>r. r\<lparr>b_balance := b_balance b + amount\<rparr>)))"

definition grant_credits_for_session ::
  "string \<Rightarrow> int \<Rightarrow> string \<Rightarrow> uuid option \<Rightarrow> uuid option \<Rightarrow> bool io" where
  "grant_credits_for_session session amount reason user org =
     mseq (mguard ((user = None) \<noteq> (org = None)) ValueError)
    (mseq (mguard (0 < amount) ValueError)
    (atomic
      (mbind (insert_transaction session amount reason user org) (\<lambda>inserted.
       if \<not> inserted then mret False
       else mseq (add_to_balance user org amount) (mret True)))))"

definition on_product_checkout_completed ::
  "string \<Rightarrow> uuid \<Rightarrow> uuid \<Rightarrow> uuid option \<Rightarrow> unit io" where
  "on_product_checkout_completed session product_id user_id org_id =
     mbind (first_row products_T (\<lambda>p. pr_id p = product_id)) (\<lambda>found.
     case found of None \<Rightarrow> mret () | Some product \<Rightarrow>
       if pr_credits product \<le> 0 then mret ()
       else let reason = ''purchase:'' @ pr_name product in
         (case org_id of
            Some oid \<Rightarrow>
              mbind (first_row orgs_T (\<lambda>r. o_id r = oid)) (\<lambda>org.
              case org of None \<Rightarrow> mret () | Some r \<Rightarrow>
                mseq (grant_credits_for_session session (pr_credits product) reason
                        None (Some (o_id r))) (mret ()))
          | None \<Rightarrow>
              mbind (first_row users_T (\<lambda>r. u_id r = user_id)) (\<lambda>user.
              case user of None \<Rightarrow> mret () | Some r \<Rightarrow>
                mseq (grant_credits_for_session session (pr_credits product) reason
                        (Some (u_id r)) None) (mret ()))))"

section \<open>The abstract ledger\<close>

datatype owner = UserOwner uuid | OrgOwner uuid

fun owner_cols :: "owner \<Rightarrow> uuid option \<times> uuid option" where
  "owner_cols (UserOwner u) = (Some u, None)"
| "owner_cols (OrgOwner g) = (None, Some g)"

definition owner_of :: "uuid option \<Rightarrow> uuid option \<Rightarrow> owner" where
  "owner_of user org = (case user of Some u \<Rightarrow> UserOwner u | None \<Rightarrow> OrgOwner (the org))"

lemma owner_of_cols: "xor_owner user org \<Longrightarrow> owner_cols (owner_of user org) = (user, org)"
  by (auto simp: xor_owner_def owner_of_def split: option.splits)

definition b_cols :: "credit_balance \<Rightarrow> uuid option \<times> uuid option" where
  "b_cols b = (b_user b, b_org b)"

definition t_cols :: "credit_transaction \<Rightarrow> uuid option \<times> uuid option" where
  "t_cols t = (t_user t, t_org t)"

definition balance_of :: "db \<Rightarrow> owner \<Rightarrow> int" where
  "balance_of d x = sum_list (map b_balance (filter (\<lambda>b. b_cols b = owner_cols x) (credit_balances d)))"

definition granted_to :: "db \<Rightarrow> owner \<Rightarrow> int" where
  "granted_to d x = sum_list (map t_amount (filter (\<lambda>t. t_cols t = owner_cols x) (credit_transactions d)))"

definition sessions :: "db \<Rightarrow> string set" where
  "sessions d = {s. Some s \<in> set (map t_session (credit_transactions d))}"

record ledger =
  paid :: "owner \<Rightarrow> int"
  seen :: "string set"

definition abs_ledger :: "db \<Rightarrow> ledger" where
  "abs_ledger d = \<lparr>paid = balance_of d, seen = sessions d\<rparr>"

definition spec_grant :: "string \<Rightarrow> owner \<Rightarrow> int \<Rightarrow> ledger \<Rightarrow> ledger" where
  "spec_grant s x amount l =
     (if s \<in> seen l then l
      else l\<lparr>paid := (paid l)(x := paid l x + amount), seen := insert s (seen l)\<rparr>)"

text \<open>Every balance is the sum of the owner's transactions.\<close>

definition ledger_ok :: "db \<Rightarrow> bool" where
  "ledger_ok d \<longleftrightarrow> (\<forall>x. balance_of d x = granted_to d x)"

definition ledger_inv :: "db \<Rightarrow> bool" where
  "ledger_inv d \<longleftrightarrow> db_ok d \<and> ledger_ok d"

section \<open>One balance per owner\<close>

lemma cols_eq_iff:
  "xor_owner (b_user b) (b_org b) \<Longrightarrow> b_cols b = owner_cols x \<longleftrightarrow>
     (case x of UserOwner u \<Rightarrow> b_user b = Some u | OrgOwner g \<Rightarrow> b_org b = Some g)"
  by (auto simp: b_cols_def xor_owner_def split: owner.splits)

lemma owner_cols_inj [simp]: "owner_cols x = owner_cols y \<longleftrightarrow> x = y"
  by (cases x; cases y) auto

lemma one_balance:
  assumes "credit_balances_ok bs" and "b \<in> set bs" and "b' \<in> set bs"
    and "b_cols b = owner_cols x" and "b_cols b' = owner_cols x"
  shows "b = b'"
proof (cases x)
  case (UserOwner u)
  then have "b_user b = Some u" "b_user b' = Some u"
    using assms(4,5) by (simp_all add: b_cols_def)
  moreover from assms(1) have "distinct (somes (map b_user bs))"
    by (simp add: credit_balances_ok_def)
  ultimately show ?thesis using assms(2,3) by (metis distinct_somes_eqD)
next
  case (OrgOwner g)
  then have "b_org b = Some g" "b_org b' = Some g"
    using assms(4,5) by (simp_all add: b_cols_def)
  moreover from assms(1) have "distinct (somes (map b_org bs))"
    by (simp add: credit_balances_ok_def)
  ultimately show ?thesis using assms(2,3) by (metis distinct_somes_eqD)
qed

lemma sum_list_single:
  "distinct xs \<Longrightarrow> b \<in> set xs \<Longrightarrow> (\<And>y. y \<in> set xs \<Longrightarrow> P y \<Longrightarrow> y = b) \<Longrightarrow> P b \<Longrightarrow>
   sum_list (map f (filter P xs)) = (f b :: int)"
proof (induction xs)
  case (Cons a xs)
  show ?case
  proof (cases "a = b")
    case True
    have "\<not> P y" if "y \<in> set xs" for y
      using Cons.prems(1) Cons.prems(3) [of y] True that by auto
    then have "filter P xs = []" by (simp add: filter_empty_conv)
    with True Cons.prems(4) show ?thesis by simp
  next
    case False
    then have "\<not> P a" using Cons.prems(3) [of a] by auto
    moreover have "sum_list (map f (filter P xs)) = f b"
      using Cons.prems False by (intro Cons.IH) simp_all
    ultimately show ?thesis by simp
  qed
qed simp

lemma balance_row:
  assumes "credit_balances_ok (credit_balances d)" and "b \<in> set (credit_balances d)"
    and "b_cols b = owner_cols x"
  shows "balance_of d x = b_balance b"
  unfolding balance_of_def
proof (rule sum_list_single)
  show "distinct (credit_balances d)"
    using assms(1) by (auto simp: credit_balances_ok_def distinct_map)
qed (use assms one_balance in blast)+

text \<open>Writing a new amount into the one row of an owner changes that owner's balance only.\<close>

lemma balances_after_save:
  assumes ok: "credit_balances_ok bs" and b: "b \<in> set bs" and cols: "b_cols b = owner_cols x"
  shows "sum_list (map b_balance (filter (\<lambda>b. b_cols b = owner_cols y)
      (update_where (\<lambda>r. b_id r = b_id b) (\<lambda>r. r\<lparr>b_balance := v\<rparr>) bs)))
    = (if y = x then v else sum_list (map b_balance (filter (\<lambda>b. b_cols b = owner_cols y) bs)))"
proof -
  have id: "b' = b" if "b' \<in> set bs" "b_id b' = b_id b" for b'
    using ok b that by (auto simp: credit_balances_ok_def intro: distinct_map_eqD)
  have eq: "filter (\<lambda>b. b_cols b = owner_cols y)
        (update_where (\<lambda>r. b_id r = b_id b) (\<lambda>r. r\<lparr>b_balance := v\<rparr>) bs)
      = update_where (\<lambda>r. b_id r = b_id b) (\<lambda>r. r\<lparr>b_balance := v\<rparr>)
          (filter (\<lambda>b. b_cols b = owner_cols y) bs)"
    by (induction bs) (auto simp: b_cols_def)
  show ?thesis
  proof (cases "y = x")
    case True
    have "sum_list (map (\<lambda>r. if b_id r = b_id b then v else b_balance r)
        (filter (\<lambda>b. b_cols b = owner_cols x) bs)) = (if b_id b = b_id b then v else b_balance b)"
      by (rule sum_list_single)
        (use ok b cols one_balance in \<open>auto simp: credit_balances_ok_def distinct_map\<close>)
    moreover have upd: "map b_balance (update_where (\<lambda>r. b_id r = b_id b) (\<lambda>r. r\<lparr>b_balance := v\<rparr>) xs)
        = map (\<lambda>r. if b_id r = b_id b then v else b_balance r) xs" for xs
      by (induction xs) auto
    ultimately show ?thesis by (simp add: eq [unfolded True] True upd)
  next
    case False
    have "update_where (\<lambda>r. b_id r = b_id b) (\<lambda>r. r\<lparr>b_balance := v\<rparr>)
          (filter (\<lambda>b. b_cols b = owner_cols y) bs) = filter (\<lambda>b. b_cols b = owner_cols y) bs"
    proof (rule update_where_idle)
      fix r assume "r \<in> set (filter (\<lambda>b. b_cols b = owner_cols y) bs)" and "b_id r = b_id b"
      with id have "r = b" and "b_cols r = owner_cols y" by auto
      with cols False show "r\<lparr>b_balance := v\<rparr> = r" by simp
    qed
    with False show ?thesis by (simp add: eq)
  qed
qed

section \<open>What a grant does\<close>

lemma consistentD:
  "consistent w \<Longrightarrow> credit_balances_ok (credit_balances (db w))"
  "consistent w \<Longrightarrow> credit_transactions_ok (credit_transactions (db w))"
  by (simp_all add: consistent_def db_ok_def tables_ok_def)

lemma owner_pred:
  assumes "xor_owner (b_user b) (b_org b)" and "owner_cols x = (user, org)"
  shows "(if user \<noteq> None then b_user b = user else b_org b = org) \<longleftrightarrow> b_cols b = owner_cols x"
  using assms by (cases x) (auto simp: b_cols_def xor_owner_def)

lemma insert_transaction_Inr:
  assumes "insert_transaction session amount reason user org w = (Inr r, w')"
    and "consistent w" and "owner_cols x = (user, org)"
  shows "consistent w' \<and> credit_balances (db w') = credit_balances (db w) \<and>
    (if r then sessions (db w') = insert session (sessions (db w)) \<and> session \<notin> sessions (db w)
          \<and> granted_to (db w') = (granted_to (db w))(x := granted_to (db w) x + amount)
     else db w' = db w)"
proof -
  have "keeps consistent (insert_transaction session amount reason user org)"
    unfolding insert_transaction_def by (intro keeps_intros)
  from keepsD_run [OF this assms(2,1)] have "consistent w'" .
  moreover have "t_cols \<lparr>t_id = i, t_user = user, t_org = org, t_amount = amount,
      t_reason = reason, t_session = s, t_created_at = t\<rparr> = owner_cols x" for i s t
    using assms(3) by (simp add: t_cols_def)
  ultimately show ?thesis
    using assms(1)
    by (auto simp: insert_transaction_def run_simps create_row_def sessions_def granted_to_def
        credit_transactions_ok_def fun_eq_iff split: if_splits)
qed

lemma get_or_create_balance_Inr:
  assumes "get_or_create_balance user org w = (Inr b, w')"
    and "consistent w" and "owner_cols x = (user, org)"
  shows "consistent w' \<and> b \<in> set (credit_balances (db w')) \<and> b_cols b = owner_cols x
    \<and> credit_transactions (db w') = credit_transactions (db w)
    \<and> balance_of (db w') = balance_of (db w)"
proof -
  have "keeps consistent (get_or_create_balance user org)"
    unfolding get_or_create_balance_def by (intro keeps_intros)
  from keepsD_run [OF this assms(2,1)] have w': "consistent w'" .
  show ?thesis
  proof (cases "first_by b_id (filter
      (\<lambda>b. if user \<noteq> None then b_user b = user else b_org b = org) (credit_balances (db w)))")
    case None
    with assms(1,3) w' show ?thesis
      by (cases x) (auto simp: get_or_create_balance_def run_simps create_row_def b_cols_def
          balance_of_def Let_def fun_eq_iff split: if_splits)
  next
    case (Some b0)
    then have "b0 \<in> set (credit_balances (db w))"
      and p: "if user \<noteq> None then b_user b0 = user else b_org b0 = org"
      by (blast dest: first_by_filter_Some)+
    moreover from this consistentD(1) [OF assms(2)] have "xor_owner (b_user b0) (b_org b0)"
      by (auto simp: credit_balances_ok_def list_all_iff)
    ultimately show ?thesis
      using assms(1,3) Some w' owner_pred [of b0 x user org]
      by (simp add: get_or_create_balance_def run_simps)
  qed
qed

lemma add_to_balance_Inr:
  assumes "add_to_balance user org amount w = (Inr (), w')"
    and "consistent w" and "owner_cols x = (user, org)"
  shows "consistent w' \<and> credit_transactions (db w') = credit_transactions (db w)
    \<and> balance_of (db w') = (balance_of (db w))(x := balance_of (db w) x + amount)"
proof -
  have "keeps consistent (add_to_balance user org amount)"
    unfolding add_to_balance_def get_or_create_balance_def by (intro keeps_intros) simp
  from keepsD_run [OF this assms(2,1)] have w': "consistent w'" .
  from assms(1) obtain b w1 where b: "get_or_create_balance user org w = (Inr b, w1)"
    and s: "save_row credit_balances_T (b_id b) (\<lambda>r. r\<lparr>b_balance := b_balance b + amount\<rparr>) w1
      = (Inr (), w')"
    unfolding add_to_balance_def by (auto elim!: mbind_InrE mseq_InrE split: if_splits)
  note g = get_or_create_balance_Inr [OF b assms(2,3)]
  from s have rows: "credit_balances (db w') = update_where (\<lambda>r. b_id r = b_id b)
      (\<lambda>r. r\<lparr>b_balance := b_balance b + amount\<rparr>) (credit_balances (db w1))"
    and t: "credit_transactions (db w') = credit_transactions (db w1)"
    by (auto simp: save_row_def update_rows_def Let_def split: if_splits)
  have ok: "credit_balances_ok (credit_balances (db w1))" using g consistentD(1) by blast
  have "balance_of (db w1) x = b_balance b" using balance_row [OF ok] g by blast
  moreover have "balance_of (db w') y
      = (if y = x then b_balance b + amount else balance_of (db w1) y)" for y
    unfolding balance_of_def rows using balances_after_save [OF ok] g by blast
  ultimately show ?thesis using g w' t by (auto simp: fun_eq_iff)
qed

text \<open>A grant that returned either paid out once, or changed nothing.\<close>

lemma grant_Inr:
  assumes "grant_credits_for_session session amount reason user org w = (Inr r, w')"
    and "consistent w" and "owner_cols x = (user, org)"
  shows "db_ok (db w') \<and> (if r then session \<notin> sessions (db w)
      \<and> sessions (db w') = insert session (sessions (db w))
      \<and> granted_to (db w') = (granted_to (db w))(x := granted_to (db w) x + amount)
      \<and> balance_of (db w') = (balance_of (db w))(x := balance_of (db w) x + amount)
    else db w' = db w)"
proof -
  let ?body = "mbind (insert_transaction session amount reason user org) (\<lambda>inserted.
       if \<not> inserted then mret False else mseq (add_to_balance user org amount) (mret True))"
  from assms(1) have "atomic ?body w = (Inr r, w')"
    by (auto simp: grant_credits_for_session_def run_simps split: if_splits)
  then obtain w0 w1 where w0: "db w0 = db w" and run: "?body w0 = (Inr r, w1)"
    and w1: "db w' = db w1"
    by (rule atomic_InrE)
  from assms(2) w0 have c: "consistent w0" by (simp add: consistent_def)
  from run obtain i w2 where i: "insert_transaction session amount reason user org w0 = (Inr i, w2)"
    and k: "(if \<not> i then mret False else mseq (add_to_balance user org amount) (mret True)) w2
      = (Inr r, w1)"
    by (rule mbind_InrE)
  note ins = insert_transaction_Inr [OF i c assms(3)]
  show ?thesis
  proof (cases i)
    case False
    with k ins w0 w1 assms(2) show ?thesis by (simp add: consistent_def)
  next
    case True
    with k have r: "r" and add: "add_to_balance user org amount w2 = (Inr (), w1)"
      by (auto elim!: mseq_InrE)
    have c2: "consistent w2" using ins by blast
    note a = add_to_balance_Inr [OF add c2 assms(3)]
    have "sessions (db w1) = sessions (db w2)" "granted_to (db w1) = granted_to (db w2)"
      "balance_of (db w2) = balance_of (db w)"
      using a ins w0 by (simp_all add: sessions_def granted_to_def balance_of_def fun_eq_iff)
    with True r a ins w0 w1 show ?thesis by (simp add: consistent_def)
  qed
qed

section \<open>Properties\<close>

lemma owner_of_args: "(user = None) \<noteq> (org = None) \<Longrightarrow> \<exists>x. owner_cols x = (user, org)"
  using owner_of_cols [of user org] by (auto simp: xor_owner_def)

lemma grant_keeps_ledger:
  "keeps (on_db ledger_inv) (grant_credits_for_session session amount reason user org)"
proof (rule keepsI)
  fix w :: world assume "on_db ledger_inv w"
  then have inv: "ledger_inv (db w)" and c: "consistent w"
    by (simp_all add: on_db_def ledger_inv_def consistent_def)
  let ?g = "grant_credits_for_session session amount reason user org"
  obtain r w' where g: "?g w = (r, w')" by (cases "?g w")
  show "on_db ledger_inv (snd (?g w))"
  proof (cases r)
    case (Inl e)
    with g have "db w' = db w"
      by (auto simp: grant_credits_for_session_def run_simps split: if_splits
          dest: atomic_raise_db)
    with g inv show ?thesis by (simp add: on_db_def)
  next
    case (Inr b)
    from g Inr have "(user = None) \<noteq> (org = None)"
      by (auto simp: grant_credits_for_session_def run_simps split: if_splits)
    then obtain x where "owner_cols x = (user, org)" using owner_of_args by blast
    from grant_Inr [OF _ c this, of session amount reason b w'] g Inr inv show ?thesis
      by (cases b) (simp_all add: on_db_def ledger_inv_def ledger_ok_def)
  qed
qed

lemma checkout_keeps_ledger:
  "keeps (on_db ledger_inv) (on_product_checkout_completed session product user org)"
  unfolding on_product_checkout_completed_def Let_def
  by (intro keeps_intros grant_keeps_ledger)

text \<open>When the owner exists and the new identifiers are unused, an unseen session is paid out.\<close>

lemma create_row_Inr:
  "t_ok T (t_get T (db w) @ [r]) \<Longrightarrow> refs_ok (db w) (t_refs T r) \<Longrightarrow>
   create_row T r w = (Inr (), w\<lparr>db := t_set T (t_get T (db w) @ [r]) (db w)\<rparr>)"
  by (simp add: create_row_def)

definition owner_exists :: "db \<Rightarrow> owner \<Rightarrow> bool" where
  "owner_exists d x = (case x of UserOwner u \<Rightarrow> u \<in> set (map u_id (users d))
     | OrgOwner g \<Rightarrow> g \<in> set (map o_id (orgs d)))"

lemma insert_transaction_fresh:
  assumes "consistent w" and "owner_cols x = (user, org)" and "owner_exists (db w) x"
    and "uuids_fresh credit_transactions_T w" and "session \<notin> sessions (db w)" and "amount \<noteq> 0"
  shows "fst (insert_transaction session amount reason user org w) = Inr True"
proof -
  let ?t = "\<lparr>t_id = id_supply w (drawn w), t_user = user, t_org = org, t_amount = amount,
     t_reason = reason, t_session = Some session, t_created_at = clock w\<rparr>"
  have "credit_transactions_ok (credit_transactions (db w) @ [?t])"
    using consistentD(2) [OF assms(1)] assms
    by (cases x) (auto simp: credit_transactions_ok_def uuids_fresh_def sessions_def xor_owner_def)
  moreover have "refs_ok (db w) (transaction_refs ?t)"
    using assms(2,3) by (cases x) (auto simp: transaction_refs_def owner_exists_def refs_ok_def)
  ultimately show ?thesis
    by (simp add: insert_transaction_def run_simps create_row_def)
qed

lemma get_or_create_balance_fresh:
  assumes "consistent w" and "owner_cols x = (user, org)" and "owner_exists (db w) x"
    and "uuids_fresh credit_balances_T w"
  shows "\<exists>b. fst (get_or_create_balance user org w) = Inr b"
proof (cases "first_by b_id (filter
      (\<lambda>b. if user \<noteq> None then b_user b = user else b_org b = org) (credit_balances (db w)))")
  case None
  let ?b = "\<lparr>b_id = id_supply w (drawn w), b_user = user,
     b_org = (if user \<noteq> None then None else org), b_balance = 0\<rparr>"
  have "credit_balances_ok (credit_balances (db w) @ [?b])"
  proof (cases x)
    case (UserOwner u)
    with assms(2) have u: "user = Some u" "org = None" by simp_all
    with None have "\<forall>b\<in>set (credit_balances (db w)). b_user b \<noteq> Some u"
      by (simp add: filter_empty_conv)
    then have "Some u \<notin> b_user ` set (credit_balances (db w))" by (metis imageE)
    with u show ?thesis
      using consistentD(1) [OF assms(1)] assms(4)
      by (simp add: credit_balances_ok_def uuids_fresh_def xor_owner_def)
  next
    case (OrgOwner g)
    with assms(2) have g: "user = None" "org = Some g" by simp_all
    with None have "\<forall>b\<in>set (credit_balances (db w)). b_org b \<noteq> Some g"
      by (simp add: filter_empty_conv)
    then have "Some g \<notin> b_org ` set (credit_balances (db w))" by (metis imageE)
    with g show ?thesis
      using consistentD(1) [OF assms(1)] assms(4)
      by (simp add: credit_balances_ok_def uuids_fresh_def xor_owner_def)
  qed
  moreover have "refs_ok (db w) (balance_refs ?b)"
    using assms(2,3) by (cases x) (auto simp: balance_refs_def owner_exists_def refs_ok_def)
  ultimately show ?thesis
    using None by (simp add: get_or_create_balance_def run_simps create_row_def Let_def)
next
  case (Some b)
  then show ?thesis by (simp add: get_or_create_balance_def run_simps)
qed

lemma save_balance_Inr:
  assumes "consistent w" and b: "b \<in> set (credit_balances (db w))" and "0 \<le> v"
  shows "fst (save_row credit_balances_T (b_id b) (\<lambda>r. r\<lparr>b_balance := v\<rparr>) w) = Inr ()"
proof -
  let ?f = "\<lambda>r. r\<lparr>b_balance := v\<rparr>"
  have ok: "credit_balances_ok (credit_balances (db w))" by (rule consistentD(1) [OF assms(1)])
  have "credit_balances_ok (update_where (\<lambda>r. b_id r = b_id b) ?f (credit_balances (db w)))"
    using ok \<open>0 \<le> v\<close> by (auto simp: credit_balances_ok_def map_update_where list_all_iff
        dest!: update_where_mem)
  moreover have "refs_ok (db w) (balance_refs (?f r))" if "r \<in> set (credit_balances (db w))" for r
  proof -
    have "refs_ok (db w) (balance_refs r)"
      using assms(1) that by (auto simp: consistent_def db_ok_def fk_ok_rows list_all_iff)
    then show ?thesis by (simp add: balance_refs_def)
  qed
  ultimately show ?thesis by (simp add: save_row_def update_rows_def Let_def list_all_iff)
qed

lemma add_to_balance_fresh:
  assumes "consistent w" and "owner_cols x = (user, org)" and "owner_exists (db w) x"
    and "uuids_fresh credit_balances_T w" and "0 < amount"
  shows "fst (add_to_balance user org amount w)
    = (if in_int4 (balance_of (db w) x + amount) then Inr () else Inl DataError)"
proof -
  obtain b w1 where g: "get_or_create_balance user org w = (Inr b, w1)"
    using get_or_create_balance_fresh [OF assms(1-4)]
    by (cases "get_or_create_balance user org w") auto
  note r = get_or_create_balance_Inr [OF g assms(1,2)]
  then have c: "consistent w1" and b: "b \<in> set (credit_balances (db w1))" by blast+
  have ok: "credit_balances_ok (credit_balances (db w1))" by (rule consistentD(1) [OF c])
  have v: "balance_of (db w) x = b_balance b" using balance_row [OF ok b] r by metis
  have "0 \<le> b_balance b + amount"
    using ok b assms(5) by (auto simp: credit_balances_ok_def list_all_iff)
  from save_balance_Inr [OF c b this] show ?thesis
    by (simp add: add_to_balance_def g v run_simps)
qed

text \<open>
  The grant implements the abstract ledger: it pays an unseen session out once and reports
  whether it did, unless the new balance leaves the column's range, which it refuses whole.
\<close>

lemma uuids_fresh_step:
  "uuids_fresh T w \<Longrightarrow> id_supply w' = id_supply w \<Longrightarrow> drawn w \<le> drawn w' \<Longrightarrow>
   t_get T (db w') = t_get T (db w) \<Longrightarrow> uuids_fresh T w'"
  by (simp add: uuids_fresh_def)

lemma insert_transaction_supply:
  "insert_transaction session amount reason user org w = (r, w') \<Longrightarrow>
   id_supply w' = id_supply w \<and> drawn w' = drawn w + 1
   \<and> users (db w') = users (db w) \<and> orgs (db w') = orgs (db w)"
  by (auto simp: insert_transaction_def run_simps create_row_def split: if_splits)

lemma insert_transaction_seen:
  "session \<in> sessions (db w) \<Longrightarrow>
   fst (insert_transaction session amount reason user org w) = Inr False"
  by (auto simp: insert_transaction_def run_simps create_row_def sessions_def
      credit_transactions_ok_def)

lemma grant_fst:
  assumes c: "consistent w" and x: "owner_cols x = (user, org)" and ex: "owner_exists (db w) x"
    and ft: "uuids_fresh credit_transactions_T w" and fb: "uuids_fresh credit_balances_T w"
    and pos: "0 < amount"
  shows "fst (grant_credits_for_session session amount reason user org w)
    = (if session \<in> sessions (db w) then Inr False
       else if in_int4 (balance_of (db w) x + amount) then Inr True else Inl DataError)"
proof -
  let ?ins = "insert_transaction session amount reason user org"
  let ?body = "mbind ?ins (\<lambda>inserted.
       if \<not> inserted then mret False else mseq (add_to_balance user org amount) (mret True))"
  have args: "(user = None) \<noteq> (org = None)" using x by (cases x) auto
  have "fst (grant_credits_for_session session amount reason user org w) = fst (atomic ?body w)"
    using args pos by (simp add: grant_credits_for_session_def run_simps)
  also have "\<dots> = fst (?body (enter w))" by (rule atomic_enter)
  finally have run: "fst (grant_credits_for_session session amount reason user org w)
    = fst (?body (enter w))" .
  have c': "consistent (enter w)" using c by (simp add: consistent_def)
  show ?thesis
  proof (cases "session \<in> sessions (db w)")
    case True
    then obtain w1 where "?ins (enter w) = (Inr False, w1)"
      using insert_transaction_seen [of session "enter w"] by (metis enter_fields(1) prod.collapse)
    with run True show ?thesis by (simp add: run_simps)
  next
    case False
    then have "fst (?ins (enter w)) = Inr True"
      using ex ft pos by (intro insert_transaction_fresh [OF c' x]) (auto simp: uuids_fresh_def)
    then obtain w1 where i: "?ins (enter w) = (Inr True, w1)" by (metis prod.collapse)
    note ins = insert_transaction_Inr [OF i c' x] insert_transaction_supply [OF i]
    have "fst (add_to_balance user org amount w1)
      = (if in_int4 (balance_of (db w1) x + amount) then Inr () else Inl DataError)"
      by (rule add_to_balance_fresh [OF _ x _ _ pos])
        (use ins fb ex in \<open>auto simp: owner_exists_def uuids_fresh_def split: owner.splits\<close>)
    moreover have "balance_of (db w1) x = balance_of (db w) x"
      using ins by (simp add: balance_of_def)
    ultimately show ?thesis
      using run i False by (cases "add_to_balance user org amount w1") (auto simp: run_simps split: if_splits)
  qed
qed

text \<open>A second delivery of the same checkout finds the session paid out and changes nothing.\<close>

lemma grant_supplied [keeps_intros]:
  "keeps (supplied f g t n) (grant_credits_for_session session amount reason user org)"
  unfolding grant_credits_for_session_def insert_transaction_def add_to_balance_def
    get_or_create_balance_def Let_def
  by (intro keeps_intros)

lemma grant_consistent [keeps_intros]:
  "keeps consistent (grant_credits_for_session session amount reason user org)"
  unfolding grant_credits_for_session_def insert_transaction_def add_to_balance_def
    get_or_create_balance_def Let_def
  by (intro keeps_intros) simp

lemma grant_frame:
  assumes "\<And>d xs. Q d \<Longrightarrow> Q (d\<lparr>credit_balances := xs\<rparr>)"
    and "\<And>d xs. Q d \<Longrightarrow> Q (d\<lparr>credit_transactions := xs\<rparr>)"
  shows "keeps (on_db Q) (grant_credits_for_session session amount reason user org)"
  unfolding grant_credits_for_session_def insert_transaction_def add_to_balance_def
    get_or_create_balance_def Let_def
  by (intro keeps_intros on_db_writes) (simp_all add: assms)

lemma grant_Inl_db:
  "grant_credits_for_session session amount reason user org w = (Inl e, w') \<Longrightarrow> db w' = db w"
  by (auto simp: grant_credits_for_session_def run_simps split: if_splits dest: atomic_raise_db)

lemma grant_twice:
  assumes c: "consistent w" and x: "owner_cols x = (user, org)" and ex: "owner_exists (db w) x"
    and ft: "uuids_fresh credit_transactions_T w" and fb: "uuids_fresh credit_balances_T w"
    and pos: "0 < amount"
  shows "db (snd (grant_credits_for_session session amount reason user org
      (snd (grant_credits_for_session session amount reason user org w))))
    = db (snd (grant_credits_for_session session amount reason user org w))"
proof -
  let ?g = "grant_credits_for_session session amount reason user org"
  obtain r w1 where g: "?g w = (r, w1)" by (cases "?g w")
  obtain r2 w2 where g2: "?g w1 = (r2, w2)" by (cases "?g w1")
  note fst1 = grant_fst [OF assms, of session reason]
  have c1: "consistent w1"
    using keepsD_run [OF grant_consistent c g] .
  have sup: "supplied (id_supply w) (text_supply w) (clock w) (drawn w) w1"
    using keepsD_run [OF grant_supplied supplied_start g] .
  show ?thesis
  proof (cases "db w1 = db w")
    case True
    have "fst (?g w1) = (if session \<in> sessions (db w1) then Inr False
        else if in_int4 (balance_of (db w1) x + amount) then Inr True else Inl DataError)"
      by (rule grant_fst [OF c1 x _ _ _ pos])
        (use True sup ex ft fb in \<open>auto simp: uuids_fresh_def supplied_def\<close>)
    then have "r2 = r" using fst1 True g g2 by simp
    moreover have "r \<noteq> Inr True" using grant_Inr [OF _ c x, of session amount reason True w1] g True by auto
    ultimately have "r2 = Inr False \<or> (\<exists>e. r2 = Inl e)" by (cases r) auto
    then show ?thesis
      using g g2 grant_Inr [OF _ c1 x, of session amount reason False w2] grant_Inl_db by auto
  next
    case False
    then have "r = Inr True"
      using g grant_Inl_db grant_Inr [OF _ c x, of session amount reason False w1] by (cases r) auto
    with g have "session \<in> sessions (db w1)"
      using grant_Inr [OF _ c x, of session amount reason True w1] by simp
    then have "\<And>b. r2 = Inr b \<Longrightarrow> \<not> b"
      using g2 grant_Inr [OF _ c1 x, of session amount reason True w2] by auto
    then show ?thesis
      using g g2 grant_Inr [OF _ c1 x, of session amount reason False w2] grant_Inl_db
      by (cases r2) auto
  qed
qed

lemma checkout_consistent [keeps_intros]:
  "keeps consistent (on_product_checkout_completed session product user org)"
  unfolding on_product_checkout_completed_def Let_def by (intro keeps_intros)

text \<open>What the callback grants: the owner and the amount, when the product and the owner exist.\<close>

definition checkout_grant ::
  "db \<Rightarrow> uuid \<Rightarrow> uuid \<Rightarrow> uuid option \<Rightarrow> (owner \<times> int \<times> string) option" where
  "checkout_grant d product_id user_id org_id =
     (case first_by pr_id (filter (\<lambda>p. pr_id p = product_id) (products d)) of
        None \<Rightarrow> None
      | Some p \<Rightarrow>
          if pr_credits p \<le> 0 then None
          else let x = (case org_id of Some g \<Rightarrow> OrgOwner g | None \<Rightarrow> UserOwner user_id) in
            if owner_exists d x then Some (x, pr_credits p, ''purchase:'' @ pr_name p) else None)"

lemma first_by_pk_None: "first_by f (filter (\<lambda>r. f r = k) xs) = None \<longleftrightarrow> k \<notin> f ` set xs"
  by (auto simp: filter_empty_conv)

lemma checkout_is_grant:
  "on_product_checkout_completed session product_id user_id org_id w =
     (case checkout_grant (db w) product_id user_id org_id of
        None \<Rightarrow> (Inr (), w)
      | Some (x, amount, reason) \<Rightarrow>
          (case grant_credits_for_session session amount reason (fst (owner_cols x))
                  (snd (owner_cols x)) w of
             (Inl e, w') \<Rightarrow> (Inl e, w') | (Inr b, w') \<Rightarrow> (Inr (), w')))"
proof (cases "first_by pr_id (filter (\<lambda>p. pr_id p = product_id) (products (db w)))")
  case None
  then show ?thesis by (simp add: on_product_checkout_completed_def checkout_grant_def run_simps)
next
  case (Some p)
  show ?thesis
  proof (cases org_id)
    case None
    show ?thesis
    proof (cases "first_by u_id (filter (\<lambda>r. u_id r = user_id) (users (db w)))")
      case (Some u)
      then have "u_id u = user_id" "user_id \<in> u_id ` set (users (db w))"
        by (auto dest: first_by_filter_Some)
      with Some None \<open>first_by pr_id _ = Some p\<close> show ?thesis
        by (simp add: on_product_checkout_completed_def checkout_grant_def owner_exists_def
            run_simps Let_def split: prod.splits sum.splits)
    next
      case n: None
      then have "user_id \<notin> u_id ` set (users (db w))" by (simp only: first_by_pk_None simp_thms)
      with n None \<open>first_by pr_id _ = Some p\<close> show ?thesis
        by (simp add: on_product_checkout_completed_def checkout_grant_def owner_exists_def
            run_simps Let_def del: first_by_filter_None first_by_None)
    qed
  next
    case (Some oid)
    show ?thesis
    proof (cases "first_by o_id (filter (\<lambda>r. o_id r = oid) (orgs (db w)))")
      case (Some r)
      then have "o_id r = oid" "oid \<in> o_id ` set (orgs (db w))"
        by (auto dest: first_by_filter_Some)
      with Some \<open>org_id = Some oid\<close> \<open>first_by pr_id _ = Some p\<close> show ?thesis
        by (simp add: on_product_checkout_completed_def checkout_grant_def owner_exists_def
            run_simps Let_def split: prod.splits sum.splits)
    next
      case n: None
      then have "oid \<notin> o_id ` set (orgs (db w))" by (simp only: first_by_pk_None simp_thms)
      with n Some \<open>first_by pr_id _ = Some p\<close> show ?thesis
        by (simp add: on_product_checkout_completed_def checkout_grant_def owner_exists_def
            run_simps Let_def del: first_by_filter_None first_by_None)
    qed
  qed
qed

lemma checkout_grant_frame:
  "keeps (on_db (\<lambda>d. users d = us \<and> orgs d = os \<and> products d = ps))
     (grant_credits_for_session session amount reason user org)"
  by (rule grant_frame) simp_all

lemma checkout_grant_cong:
  "users d' = users d \<Longrightarrow> orgs d' = orgs d \<Longrightarrow> products d' = products d \<Longrightarrow>
   checkout_grant d' p u g = checkout_grant d p u g"
  by (simp add: checkout_grant_def owner_exists_def split: option.splits)

lemma checkout_grant_Some:
  "checkout_grant d p u g = Some (x, amount, reason) \<Longrightarrow> owner_exists d x \<and> 0 < amount"
  by (auto simp: checkout_grant_def Let_def split: option.splits if_splits)

text \<open>Deleting an owner deletes its balance together with its transactions.\<close>

lemma filter_keep_user:
  assumes "\<And>r. fst (cols r) = g r"
  shows "filter (\<lambda>r. cols r = owner_cols x) (keep (\<lambda>r. hits ids (g r)) rs)
    = (if hits ids (fst (owner_cols x)) then [] else filter (\<lambda>r. cols r = owner_cols x) rs)"
  unfolding keep_def using assms by (induction rs) (auto simp: hits_iff, (metis fst_conv)+)

lemma filter_keep_org:
  assumes "\<And>r. snd (cols r) = g r"
  shows "filter (\<lambda>r. cols r = owner_cols x) (keep (\<lambda>r. hits ids (g r)) rs)
    = (if hits ids (snd (owner_cols x)) then [] else filter (\<lambda>r. cols r = owner_cols x) rs)"
  unfolding keep_def using assms by (induction rs) (auto simp: hits_iff, (metis snd_conv)+)

lemma cols_sel:
  "fst (b_cols b) = b_user b" "snd (b_cols b) = b_org b"
  "fst (t_cols t) = t_user t" "snd (t_cols t) = t_org t"
  by (simp_all add: b_cols_def t_cols_def)

lemmas filter_keep_owner =
  filter_keep_user [of b_cols b_user, OF cols_sel(1)] filter_keep_user [of t_cols t_user, OF cols_sel(3)]
  filter_keep_org [of b_cols b_org, OF cols_sel(2)] filter_keep_org [of t_cols t_org, OF cols_sel(4)]

lemma cascade_users_ledger: "ledger_ok d \<Longrightarrow> ledger_ok (cascade_users P d)"
  by (simp add: ledger_ok_def balance_of_def granted_to_def cascade_users_def Let_def
      filter_keep_owner)

lemma cascade_orgs_ledger: "ledger_ok d \<Longrightarrow> ledger_ok (cascade_orgs P d)"
  by (simp add: ledger_ok_def balance_of_def granted_to_def cascade_orgs_def Let_def
      filter_keep_owner)

text \<open>
  C4.  Granting credits implements the abstract ledger: an unseen session is paid out to its
  owner and recorded, a session seen before changes nothing, and the result says which.
\<close>

theorem grant_refines_ledger:
  assumes "consistent w" and "owner_cols x = (user, org)" and "owner_exists (db w) x"
    and "uuids_fresh credit_transactions_T w" and "uuids_fresh credit_balances_T w"
    and "0 < amount" and "in_int4 (balance_of (db w) x + amount)"
  shows "\<exists>w'. grant_credits_for_session session amount reason user org w
           = (Inr (session \<notin> sessions (db w)), w')
      \<and> abs_ledger (db w') = spec_grant session x amount (abs_ledger (db w))"
proof -
  have "fst (grant_credits_for_session session amount reason user org w)
      = Inr (session \<notin> sessions (db w))"
    using grant_fst [OF assms(1-6), of session reason] assms(7) by simp
  then obtain w' where g: "grant_credits_for_session session amount reason user org w
      = (Inr (session \<notin> sessions (db w)), w')"
    by (metis prod.collapse)
  with grant_Inr [OF g assms(1,2)] show ?thesis
    by (cases "session \<in> sessions (db w)") (auto simp: abs_ledger_def spec_grant_def)
qed

text \<open>
   Every operation that touches the ledger, the granting of credits, the checkout callback
  and the deletion of users and organisations, keeps it balanced: each owner's balance is the
  sum of the owner's transactions, whatever the outcome of the operation.
\<close>

theorem ledger_balanced:
  "keeps (on_db ledger_inv) (grant_credits_for_session session amount reason user org)
 \<and> keeps (on_db ledger_inv) (on_product_checkout_completed session product user_id org_id)
 \<and> keeps (on_db ledger_inv) (delete_users P) \<and> keeps (on_db ledger_inv) (delete_orgs R)"
proof (intro conjI)
  show "keeps (on_db ledger_inv) (delete_users P)"
    unfolding delete_users_def
    by (rule keeps_mmodify) (simp add: on_db_def ledger_inv_def Let_def cascade_users_ok cascade_users_ledger)
  show "keeps (on_db ledger_inv) (delete_orgs R)"
    unfolding delete_orgs_def
    by (rule keeps_mmodify) (simp add: on_db_def ledger_inv_def cascade_orgs_ok cascade_orgs_ledger)
qed (rule grant_keeps_ledger checkout_keeps_ledger)+

text \<open>
   A product checkout may be delivered any number of times: the second delivery leaves the
  database exactly as the first one left it, on every outcome of the first.
\<close>

theorem checkout_redelivery:
  assumes "consistent w" and "uuids_fresh credit_transactions_T w"
    and "uuids_fresh credit_balances_T w"
    and "on_product_checkout_completed session product user_id org_id w = (r, w1)"
  shows "db (snd (on_product_checkout_completed session product user_id org_id w1)) = db w1"
proof (cases "checkout_grant (db w) product user_id org_id")
  case None
  with assms(4) show ?thesis by (simp add: checkout_is_grant)
next
  case (Some g)
  obtain x amount reason where g: "g = (x, amount, reason)" by (cases g)
  let ?g = "grant_credits_for_session session amount reason (fst (owner_cols x)) (snd (owner_cols x))"
  obtain r1 w2 where run: "?g w = (r1, w2)" by (cases "?g w")
  with assms(4) Some g have w1: "w1 = w2"
    by (simp add: checkout_is_grant split: sum.splits)
  have "on_db (\<lambda>d. users d = users (db w) \<and> orgs d = orgs (db w) \<and> products d = products (db w)) w2"
    using keepsD_run [OF checkout_grant_frame _ run] by (simp add: on_db_def)
  then have again: "checkout_grant (db w1) product user_id org_id = Some (x, amount, reason)"
    using Some g w1 checkout_grant_cong [of "db w2" "db w"] by (simp add: on_db_def)
  have "db (snd (?g w1)) = db w1"
    using grant_twice [OF assms(1) _ _ assms(2,3), of x "fst (owner_cols x)" "snd (owner_cols x)"
        amount session reason] checkout_grant_Some [OF again] checkout_grant_Some [OF Some [unfolded g]]
      run w1 by simp
  then show ?thesis
    using again by (cases "?g w1") (simp add: checkout_is_grant split: sum.splits)
qed

theorem grant_refines_ledger_witness:
  "\<exists>w'. grant_credits_for_session ''cs_1'' 100 ''r'' (Some 1) None (start_world sample_db)
       = (Inr True, w') \<and> paid (abs_ledger (db w')) (UserOwner 1) = 100"
proof -
  have "\<exists>w'. grant_credits_for_session ''cs_1'' 100 ''r'' (Some 1) None (start_world sample_db)
       = (Inr (''cs_1'' \<notin> sessions (db (start_world sample_db))), w')
     \<and> abs_ledger (db w')
       = spec_grant ''cs_1'' (UserOwner 1) 100 (abs_ledger (db (start_world sample_db)))"
    by (rule grant_refines_ledger [OF sample_consistent _ _ sample_fresh(1,2)])
      (simp_all add: owner_exists_def balance_of_def in_int4_def sample_simps)
  then obtain w' where g: "grant_credits_for_session ''cs_1'' 100 ''r'' (Some 1) None
      (start_world sample_db) = (Inr True, w')"
    and a: "abs_ledger (db w')
      = spec_grant ''cs_1'' (UserOwner 1) 100 (abs_ledger (db (start_world sample_db)))"
    by (auto simp: sessions_def sample_simps)
  from a have "paid (abs_ledger (db w')) (UserOwner 1) = 100"
    by (simp add: sessions_def abs_ledger_def spec_grant_def balance_of_def sample_simps)
  with g show ?thesis by blast
qed

theorem checkout_redelivery_witness:
  "credit_balances (db (snd (on_product_checkout_completed ''cs_1'' 7 1 None
     (snd (on_product_checkout_completed ''cs_1'' 7 1 None (start_world sample_db))))))
   = [\<lparr>b_id = 1001, b_user = Some 1, b_org = None, b_balance = 100\<rparr>]"
proof -
  let ?m = "on_product_checkout_completed ''cs_1'' 7 1 None"
  have "db (snd (?m (snd (?m (start_world sample_db))))) = db (snd (?m (start_world sample_db)))"
    by (rule checkout_redelivery [OF sample_consistent sample_fresh(1,2) surjective_pairing])
  moreover have "credit_balances (db (snd (?m (start_world sample_db))))
      = [\<lparr>b_id = 1001, b_user = Some 1, b_org = None, b_balance = 100\<rparr>]"
    by code_simp
  ultimately show ?thesis by simp
qed

end
