(* ===== verification/Accounts.thy ===== *)
theory Accounts
  imports Auth
begin

text \<open>
  Creating users and resolving an OAuth login, \<open>apps/users/managers.py\<close> and
  \<open>apps/users/services.py\<close>: \<open>create_user\<close>, the case-insensitive email lookup, and
  \<open>resolve_oauth_user\<close> with its auto-link rule.
\<close>

section \<open>Users\<close>

text \<open>A user row with the defaults of the model.\<close>

definition new_user :: "uuid \<Rightarrow> datetime \<Rightarrow> string \<Rightarrow> user" where
  "new_user i t email = \<lparr>u_id = i, u_email = email, u_full_name = [], u_avatar_url = None,
     u_locale = ''en'', u_currency = ''usd'', u_phone_prefix = None, u_phone = None,
     u_timezone = None, u_job_title = None, u_pronouns = None, u_bio = None,
     u_is_verified = False, u_registration_method = ''email'', u_is_active = True,
     u_is_staff = False, u_password_changed_at = None, u_password = None,
     u_created_at = t, u_updated_at = t\<rparr>"

text \<open>\<open>set_password\<close> when a password was given (\<open>if password\<close>), \<open>set_unusable_password\<close> otherwise.\<close>

definition stored_password :: "env \<Rightarrow> string option \<Rightarrow> string option" where
  "stored_password E p = (case p of None \<Rightarrow> None
     | Some s \<Rightarrow> if s = [] then None else Some (make_password E s))"

definition create_user :: "env \<Rightarrow> string \<Rightarrow> string option \<Rightarrow> (user \<Rightarrow> user) \<Rightarrow> user io" where
  "create_user E email password extra =
     (if email = [] then mraise ValueError
      else mbind fresh_uuid (\<lambda>i. mbind now (\<lambda>t.
        let u = (extra (new_user i t (normalize_email E email)))\<lparr>u_password := stored_password E password\<rparr>
        in mseq (insert_user u) (mret u))))"

definition same_email :: "string \<Rightarrow> user \<Rightarrow> bool" where
  "same_email email u \<longleftrightarrow> lower (u_email u) = lower email"

definition email_is_registered :: "string \<Rightarrow> bool io" where
  "email_is_registered email = exists_row users_T (same_email email)"

section \<open>OAuth logins\<close>

record oauth_info =
  oi_email :: string
  oi_full_name :: string
  oi_provider_user_id :: string
  oi_avatar_url :: "string option"
  oi_email_verified :: bool

datatype oauth_resolution = SignIn user | Collision "user option"

definition trusted_for_auto_link :: "string list" where
  "trusted_for_auto_link = [''google'', ''github'', ''microsoft'']"

definition social_match :: "string \<Rightarrow> string \<Rightarrow> social_account \<Rightarrow> bool" where
  "social_match provider pid a \<longleftrightarrow> sa_provider a = provider \<and> sa_provider_user_id a = pid"

text \<open>
  \<open>SocialAccount.objects.get_or_create\<close>: look the row up, or create it in a savepoint; when the
  database refuses the row, look again and give up only if it is still not there.
\<close>

definition get_or_create_social :: "string \<Rightarrow> string \<Rightarrow> uuid \<Rightarrow> social_account io" where
  "get_or_create_social provider pid u =
     mbind (first_row social_accounts_T (social_match provider pid)) (\<lambda>found.
     case found of Some a \<Rightarrow> mret a
     | None \<Rightarrow>
       mtry (atomic (mbind fresh_uuid (\<lambda>i. mbind now (\<lambda>t.
          let a = \<lparr>sa_id = i, sa_user = u, sa_provider = provider, sa_provider_user_id = pid,
                   sa_created_at = t\<rparr>
          in mseq (create_row social_accounts_T a) (mret a)))))
         (\<lambda>e. if e = IntegrityError
              then mbind (first_row social_accounts_T (social_match provider pid)) (\<lambda>found.
                case found of Some a \<Rightarrow> mret a | None \<Rightarrow> mraise e)
              else mraise e))"

definition link_or_request :: "string \<Rightarrow> oauth_info \<Rightarrow> user \<Rightarrow> oauth_resolution io" where
  "link_or_request provider info existing =
     (if oi_email_verified info \<and> provider \<in> set trusted_for_auto_link
      then mseq (get_or_create_social provider (oi_provider_user_id info) (u_id existing))
             (mret (SignIn existing))
      else mret (Collision (if u_is_active existing then Some existing else None)))"

definition resolve_oauth_user :: "env \<Rightarrow> string \<Rightarrow> oauth_info \<Rightarrow> oauth_resolution io" where
  "resolve_oauth_user E provider info =
     mbind (first_row social_accounts_T (social_match provider (oi_provider_user_id info))) (\<lambda>social.
     case social of Some a \<Rightarrow> mbind (owner_or (sa_user a) ObjectDoesNotExist) (\<lambda>u. mret (SignIn u))
     | None \<Rightarrow>
       mbind (first_row users_T (same_email (oi_email info))) (\<lambda>existing.
       case existing of Some u \<Rightarrow> link_or_request provider info u
       | None \<Rightarrow>
         if \<not> oi_email_verified info then mraise OAuthEmailNotVerifiedError
         else mtry (mbind (atomic (mbind (create_user E (oi_email info) None
                     (\<lambda>u. u\<lparr>u_full_name := oi_full_name info, u_avatar_url := oi_avatar_url info,
                            u_is_verified := True, u_registration_method := provider\<rparr>)) (\<lambda>u.
                  mseq (get_or_create_social provider (oi_provider_user_id info) (u_id u)) (mret u))))
                (\<lambda>u. mret (SignIn u)))
              (\<lambda>e. if e = IntegrityError
                   then mbind (get_row users_T (same_email (oi_email info)) ObjectDoesNotExist)
                     (link_or_request provider info)
                   else mraise e)))"

section \<open>Lemmas\<close>

lemma keeps_accounts [keeps_intros]:
  "keeps consistent (create_user E email password extra)"
  "keeps consistent (email_is_registered email)"
  "keeps consistent (get_or_create_social provider pid k)"
  unfolding create_user_def Let_def email_is_registered_def get_or_create_social_def
  by (intro keeps_intros)+

lemma keeps_resolve [keeps_intros]:
  "keeps consistent (link_or_request provider info u)"
  "keeps consistent (resolve_oauth_user E provider info)"
  unfolding resolve_oauth_user_def link_or_request_def by (intro keeps_intros)+

definition created_user :: "env \<Rightarrow> string \<Rightarrow> string option \<Rightarrow> (user \<Rightarrow> user) \<Rightarrow> world \<Rightarrow> user" where
  "created_user E email password extra w =
     (extra (new_user (id_supply w (drawn w)) (clock w) (normalize_email E email)))
       \<lparr>u_password := stored_password E password\<rparr>"

lemma create_user_run:
  "email \<noteq> [] \<Longrightarrow> create_user E email password extra w =
    (let u = created_user E email password extra w; w1 = w\<lparr>drawn := drawn w + 1\<rparr> in
     if users_ok (users (db w) @ [u])
     then (Inr u, w1\<lparr>db := (db w)\<lparr>users := users (db w) @ [u]\<rparr>,
                     cache := (cache w)(auth_user_key (u_id u) := None)\<rparr>)
     else (Inl IntegrityError, w1))"
  by (simp add: create_user_def created_user_def insert_user_def invalidate_auth_user_cache_def
      run_simps Let_def create_row_def user_refs_def refs_ok_def)

lemma create_user_InrE:
  assumes "create_user E email password extra w = (Inr u, w')"
  obtains "u = created_user E email password extra w" and "users_ok (users (db w) @ [u])"
    and "w' = w\<lparr>drawn := drawn w + 1, db := (db w)\<lparr>users := users (db w) @ [u]\<rparr>,
                 cache := (cache w)(auth_user_key (u_id u) := None)\<rparr>"
proof -
  have "email \<noteq> []" using assms by (auto simp: create_user_def)
  from assms [unfolded create_user_run [OF this] Let_def] that show ?thesis
    by (auto split: if_splits)
qed

lemma get_or_create_social_InrE:
  assumes "get_or_create_social provider pid k w = (Inr a, w')"
  obtains (old) "a \<in> set (social_accounts (db w))" and "social_match provider pid a" and "w' = w"
  | (new) "social_match provider pid a" and "sa_user a = k"
    and "db w' = (db w)\<lparr>social_accounts := social_accounts (db w) @ [a]\<rparr>"
proof -
  consider (found) b where "first_by sa_id (filter (social_match provider pid) (social_accounts (db w))) = Some b"
    | (none) "first_by sa_id (filter (social_match provider pid) (social_accounts (db w))) = None"
    by (cases "first_by sa_id (filter (social_match provider pid) (social_accounts (db w)))") auto
  then show ?thesis
  proof cases
    case found
    with assms have "a = b" "w' = w" by (simp_all add: get_or_create_social_def run_simps)
    with found old show ?thesis by (auto dest!: first_by_filter_Some)
  next
    case none
    let ?m = "mbind fresh_uuid (\<lambda>i. mbind now (\<lambda>t.
          let a = \<lparr>sa_id = i, sa_user = k, sa_provider = provider, sa_provider_user_id = pid,
                   sa_created_at = t\<rparr>
          in mseq (create_row social_accounts_T a) (mret a)))"
    obtain r w1 where m: "atomic ?m w = (r, w1)" by force
    show ?thesis
    proof (cases r)
      case (Inl e)
      with m have "db w1 = db w" by (auto dest: atomic_raise_db)
      with none assms m Inl have False
        by (simp add: get_or_create_social_def run_simps del: first_by_filter_None split: if_splits)
      then show ?thesis ..
    next
      case (Inr b)
      with none assms m have eq: "b = a" "w1 = w'"
        by (simp_all add: get_or_create_social_def run_simps del: first_by_filter_None)
      with m Inr have "atomic ?m w = (Inr a, w')" by simp
      then obtain w0 w2 where "db w0 = db w" "?m w0 = (Inr a, w2)" "db w' = db w2" by (rule atomic_InrE)
      then show ?thesis
        using new by (auto simp: run_simps Let_def create_row_def social_match_def split: if_splits)
    qed
  qed
qed


lemma link_or_request_InrE:
  assumes "link_or_request provider info v w = (Inr (SignIn u), w')"
    and "\<forall>a\<in>set (social_accounts (db w)). \<not> social_match provider (oi_provider_user_id info) a"
  obtains a where "u = v" and "oi_email_verified info" and "provider \<in> set trusted_for_auto_link"
    and "social_match provider (oi_provider_user_id info) a" and "sa_user a = u_id u"
    and "db w' = (db w)\<lparr>social_accounts := social_accounts (db w) @ [a]\<rparr>"
proof -
  have c: "oi_email_verified info" "provider \<in> set trusted_for_auto_link"
    using assms(1) by (auto simp: link_or_request_def split: if_splits)
  with assms(1) obtain a where g: "get_or_create_social provider (oi_provider_user_id info) (u_id v) w = (Inr a, w')"
    and u: "u = v" by (auto simp: link_or_request_def elim!: mseq_InrE)
  from g show ?thesis
  proof (cases rule: get_or_create_social_InrE)
    case old
    with assms(2) show ?thesis by blast
  next
    case new
    with that [OF u c] u show ?thesis by blast
  qed
qed

text \<open>
  Who an OAuth login signs in.  It is the owner of the provider account when one is linked;
  otherwise an existing user with that email, but only when the provider confirmed the address
  and is trusted; otherwise a new, verified user without a password.  A provider account that
  was not linked is linked to that user, and nothing else changes.
\<close>

lemma resolve_sign_in:
  assumes "consistent w" and "resolve_oauth_user E provider info w = (Inr (SignIn u), w')"
  shows "(\<exists>a\<in>set (social_accounts (db w)). social_match provider (oi_provider_user_id info) a
        \<and> sa_user a = u_id u \<and> u \<in> set (users (db w)) \<and> w' = w)
    \<or> (oi_email_verified info \<and> provider \<in> set trusted_for_auto_link
        \<and> same_email (oi_email info) u \<and> u \<in> set (users (db w))
        \<and> (\<exists>a. social_match provider (oi_provider_user_id info) a \<and> sa_user a = u_id u
            \<and> db w' = (db w)\<lparr>social_accounts := social_accounts (db w) @ [a]\<rparr>))
    \<or> (oi_email_verified info \<and> u_password u = None \<and> u_is_verified u
        \<and> (\<forall>v\<in>set (users (db w)). \<not> same_email (oi_email info) v)
        \<and> (\<exists>a. social_match provider (oi_provider_user_id info) a \<and> sa_user a = u_id u
            \<and> db w' = (db w)\<lparr>users := users (db w) @ [u],
                             social_accounts := social_accounts (db w) @ [a]\<rparr>))"
proof -
  let ?pid = "oi_provider_user_id info" and ?email = "oi_email info"
  let ?new = "\<lambda>u. u\<lparr>u_full_name := oi_full_name info, u_avatar_url := oi_avatar_url info,
      u_is_verified := True, u_registration_method := provider\<rparr>"
  let ?body = "mbind (create_user E ?email None ?new) (\<lambda>u. mseq (get_or_create_social provider ?pid (u_id u)) (mret u))"
  consider (linked) a where "first_by sa_id (filter (social_match provider ?pid) (social_accounts (db w))) = Some a"
    | (known) v where "first_by sa_id (filter (social_match provider ?pid) (social_accounts (db w))) = None"
        "first_by u_id (filter (same_email ?email) (users (db w))) = Some v"
    | (unknown) "first_by sa_id (filter (social_match provider ?pid) (social_accounts (db w))) = None"
        "first_by u_id (filter (same_email ?email) (users (db w))) = None"
    by (metis not_None_eq)
  then show ?thesis
  proof cases
    case linked
    then have "a \<in> set (social_accounts (db w))" "social_match provider ?pid a"
      by (auto dest!: first_by_filter_Some)
    with linked assms(2) show ?thesis
      by (auto simp: resolve_oauth_user_def run_simps owner_or_def split: option.splits
          dest!: first_by_filter_Some)
  next
    case known
    with assms(2) have l: "link_or_request provider info v w = (Inr (SignIn u), w')"
      by (simp add: resolve_oauth_user_def run_simps del: first_by_filter_None)
    have none: "\<forall>a\<in>set (social_accounts (db w)). \<not> social_match provider ?pid a"
      using known(1) by (simp add: filter_empty_conv)
    from known(2) have v: "v \<in> set (users (db w))" "same_email ?email v"
      by (auto dest: first_by_filter_Some)
    from l none show ?thesis by (rule link_or_request_InrE) (use v in blast)
  next
    case unknown
    have none: "\<forall>a\<in>set (social_accounts (db w)). \<not> social_match provider ?pid a"
      "\<forall>v\<in>set (users (db w)). \<not> same_email ?email v"
      using unknown by (simp_all add: filter_empty_conv)
    from unknown assms(2) have ver: "oi_email_verified info"
      by (simp add: resolve_oauth_user_def run_simps del: first_by_filter_None split: if_splits)
    obtain r w1 where m: "atomic ?body w = (r, w1)" by force
    show ?thesis
    proof (cases r)
      case (Inl e)
      with m have "db w1 = db w" by (auto dest: atomic_raise_db)
      with unknown ver assms(2) m Inl have False
        by (simp add: resolve_oauth_user_def run_simps del: first_by_filter_None split: if_splits)
      then show ?thesis ..
    next
      case (Inr b)
      with unknown ver assms(2) m have "b = u" "w1 = w'"
        by (simp_all add: resolve_oauth_user_def run_simps del: first_by_filter_None)
      with m Inr have "atomic ?body w = (Inr u, w')" by simp
      then obtain w0 w2 where w0: "db w0 = db w" and b: "?body w0 = (Inr u, w2)" and w2: "db w' = db w2"
        by (rule atomic_InrE)
      from b obtain w3 a where c: "create_user E ?email None ?new w0 = (Inr u, w3)"
        and g: "get_or_create_social provider ?pid (u_id u) w3 = (Inr a, w2)"
        by (auto elim!: mbind_InrE mseq_InrE)
      from c have u: "u_password u = None" "u_is_verified u" "db w3 = (db w)\<lparr>users := users (db w) @ [u]\<rparr>"
        using w0 by (auto simp: created_user_def stored_password_def elim: create_user_InrE)
      from g show ?thesis
      proof (cases rule: get_or_create_social_InrE)
        case old
        with none u(3) show ?thesis by simp
      next
        case new
        with u ver none w2 show ?thesis by auto
      qed
    qed
  qed
qed

text \<open>
  Without a confirmed address an OAuth login signs nobody in unless the provider account was
  linked before; it changes nothing, and answers in one way whether the account with that
  address is missing or the login is to be confirmed by email (which an inactive account never is).
\<close>

theorem oauth_unverified_changes_nothing:
  assumes "consistent w" and "\<not> oi_email_verified info"
    and "\<forall>a\<in>set (social_accounts (db w)). \<not> social_match provider (oi_provider_user_id info) a"
  shows "resolve_oauth_user E provider info w =
    ((case first_by u_id (filter (same_email (oi_email info)) (users (db w))) of
        None \<Rightarrow> Inl OAuthEmailNotVerifiedError
      | Some u \<Rightarrow> Inr (Collision (if u_is_active u then Some u else None))), w)"
proof -
  have "first_by sa_id (filter (social_match provider (oi_provider_user_id info)) (social_accounts (db w))) = None"
    using assms(3) by simp
  then show ?thesis
    using assms(2) by (simp add: resolve_oauth_user_def link_or_request_def run_simps
        del: first_by_filter_None split: option.splits)
qed

definition sample_oauth :: oauth_info where
  "sample_oauth = \<lparr>oi_email = ''Carl@example.com'', oi_full_name = ''Carl'', oi_provider_user_id = ''9'',
     oi_avatar_url = None, oi_email_verified = True\<rparr>"

lemma sample_resolution:
  "\<exists>u. fst (resolve_oauth_user start_env ''github'' sample_oauth sample_tokens) = Inr (SignIn u)"
  by (simp add: resolve_oauth_user_def run_simps atomic_def create_user_run Let_def
      created_user_def get_or_create_social_def create_row_def sample_oauth_def sample_tokens_def
      sample_simps start_env_def users_ok_def lower_def lower_char_def new_user_def
      same_email_def social_accounts_ok_def social_refs_def stored_password_def)

theorem oauth_unverified_changes_nothing_witness:
  "resolve_oauth_user start_env ''github'' (sample_oauth\<lparr>oi_email_verified := False\<rparr>) sample_tokens
   = (Inl OAuthEmailNotVerifiedError, sample_tokens)"
  by (subst oauth_unverified_changes_nothing [OF sample_tokens_consistent])
    (simp_all add: sample_tokens_def sample_simps sample_oauth_def same_email_def lower_def lower_char_def)

end
