(* ===== verification/Webhooks.thy ===== *)
theory Webhooks
  imports Repos Samples
begin

text \<open>
  Stripe webhook dispatch, \<open>saasmint_core/services/webhooks.py\<close>: the routing of a stored event,
  its handlers, and the mirroring of a Stripe subscription and of its schedule into the local
  row.  The handlers work on the repository records; what they do to the stored rows is proved
  once in the locale \<open>subscription_mirror\<close> and obtained for the Django repositories by
  interpretation.
\<close>

section \<open>Repositories and callbacks\<close>

record webhook_repos =
  w_events :: event_repo
  w_subscriptions :: subscription_repo
  w_customers :: customer_repo
  w_plans :: plan_repo
  w_on_team :: "(uuid \<Rightarrow> json \<Rightarrow> string \<Rightarrow> json \<Rightarrow> json \<Rightarrow> bool \<Rightarrow> unit io) option"
  w_on_org_canceled :: "(uuid \<Rightarrow> unit io) option"
  w_on_product :: "(string \<Rightarrow> uuid \<Rightarrow> uuid \<Rightarrow> uuid option \<Rightarrow> unit io) option"

section \<open>Checkout sessions\<close>

text \<open>\<open>session_data.get("metadata") or {}\<close>\<close>

definition get_metadata :: "json \<Rightarrow> json res" where
  "get_metadata d = rbind (dget d ''metadata'') (\<lambda>m. Inr (py_or m (JObj [])))"

text \<open>The arguments of the product callback, or nothing when the handler logs and returns.\<close>

definition product_checkout_args :: "json \<Rightarrow> (string \<times> uuid \<times> uuid \<times> uuid option) option res" where
  "product_checkout_args d =
     rbind (dget d ''id'') (\<lambda>session_id. if \<not> truthy session_id then Inr None else
     rbind (get_metadata d) (\<lambda>metadata.
     rbind (dget metadata ''product_id'') (\<lambda>product_ref. if \<not> truthy product_ref then Inr None else
     rbind (dget d ''client_reference_id'') (\<lambda>client_ref. if \<not> truthy client_ref then Inr None else
     case rbind (uuid_of_json product_ref) (\<lambda>p. rbind (uuid_of_json client_ref) (\<lambda>u. Inr (p, u))) of
       Inl e \<Rightarrow> if e = ValueError then Inr None else Inl e
     | Inr (product_id, user_id) \<Rightarrow>
         rbind (dget metadata ''org_id'') (\<lambda>org_ref.
         case (if truthy org_ref then rbind (uuid_of_json org_ref) (\<lambda>g. Inr (Some g)) else Inr None) of
           Inl e \<Rightarrow> if e = ValueError then Inr None else Inl e
         | Inr org_id \<Rightarrow> Inr (Some (py_str session_id, product_id, user_id, org_id)))))))"

definition on_product_checkout :: "json \<Rightarrow> webhook_repos \<Rightarrow> unit io" where
  "on_product_checkout d R = mbind (mlift (product_checkout_args d)) (\<lambda>args.
     case args of None \<Rightarrow> mret ()
     | Some (session_id, product_id, user_id, org_id) \<Rightarrow>
         (case w_on_product R of
            Some callback \<Rightarrow> callback session_id product_id user_id org_id
          | None \<Rightarrow> mret ()))"

definition team_checkout_args ::
  "json \<Rightarrow> (uuid \<times> json \<times> string \<times> json \<times> json \<times> bool) option res" where
  "team_checkout_args d =
     rbind (get_metadata d) (\<lambda>metadata.
     rbind (dget metadata ''org_name'') (\<lambda>org_name. if \<not> truthy org_name then Inr None else
     rbind (dget d ''client_reference_id'') (\<lambda>client_ref. if \<not> truthy client_ref then Inr None else
     rbind (uuid_of_json client_ref) (\<lambda>user_id.
     rbind (dget d ''customer'') (\<lambda>customer. if \<not> truthy customer then Inr None else
     rbind (dget d ''subscription'') (\<lambda>subscription_id.
     rbind (dget_or d ''livemode'' (JBool False)) (\<lambda>livemode.
     rbind (dget metadata ''keep_personal_subscription'') (\<lambda>flag.
     Inr (Some (user_id, org_name, py_str customer, livemode, subscription_id,
                flag = JStr ''true''))))))))))"

definition on_checkout_completed :: "json \<Rightarrow> webhook_repos \<Rightarrow> unit io" where
  "on_checkout_completed d R = mbind (mlift (dget d ''mode'')) (\<lambda>mode.
     if mode = JStr ''payment'' then on_product_checkout d R
     else mbind (mlift (team_checkout_args d)) (\<lambda>args.
       case args of None \<Rightarrow> mret ()
       | Some (user_id, org_name, customer, livemode, subscription_id, flag) \<Rightarrow>
           (case w_on_team R of
              Some callback \<Rightarrow> callback user_id org_name customer livemode subscription_id flag
            | None \<Rightarrow> mret ())))"

section \<open>Mirroring a subscription\<close>

definition extract_period_window :: "json \<Rightarrow> json \<Rightarrow> string \<Rightarrow> (int \<times> int) res" where
  "extract_period_window sub item sid =
     rbind (rbind (dget sub ''current_period_start'') (dget_or item ''current_period_start'')) (\<lambda>s.
     rbind (rbind (dget sub ''current_period_end'') (dget_or item ''current_period_end'')) (\<lambda>e.
     if s = JNull \<or> e = JNull then
       Inl (WebhookDataError (''Subscription '' @ sid @ '' missing current_period_start/end''))
     else case (as_int s, as_int e) of
       (Some i, Some j) \<Rightarrow> Inr (i, j)
     | _ \<Rightarrow> Inl (WebhookDataError
         (''Subscription '' @ sid @ '' has non-integer current_period_start/end''))))"

text \<open>\<open>str(sub.get("currency") or item["price"].get("currency") or "usd").lower()\<close>\<close>

definition mirrored_currency :: "json \<Rightarrow> json \<Rightarrow> string res" where
  "mirrored_currency sub item =
     rbind (dget sub ''currency'') (\<lambda>c.
     if truthy c then Inr (lower (py_str c))
     else rbind (dindex item ''price'') (\<lambda>price. rbind (dget price ''currency'') (\<lambda>c.
       Inr (lower (py_str (py_or c (JStr ''usd'')))))))"

definition subscription_row ::
  "json \<Rightarrow> json \<Rightarrow> string \<Rightarrow> uuid \<Rightarrow> uuid option \<Rightarrow> uuid \<Rightarrow> int \<Rightarrow> int \<Rightarrow>
   uuid \<Rightarrow> uuid option \<Rightarrow> datetime option \<Rightarrow> datetime \<Rightarrow> subscription res" where
  "subscription_row sub item sid customer_id customer_user plan_id pstart pend i splan schange created =
     rbind (rbind (dindex sub ''status'') (\<lambda>j. sub_status_of (py_str j))) (\<lambda>status.
     rbind (rbind (dget item ''quantity'') (\<lambda>q. py_int (py_or q (JInt 1)))) (\<lambda>seats.
     rbind (rbind (dget sub ''trial_end'') ts_to_dt) (\<lambda>trial.
     rbind (epoch_to_dt pstart) (\<lambda>ps.
     rbind (epoch_to_dt pend) (\<lambda>pe.
     rbind (rbind (dget sub ''canceled_at'') ts_to_dt) (\<lambda>canceled.
     rbind (rbind (dget sub ''cancel_at'') ts_to_dt) (\<lambda>cancel.
     rbind (mirrored_currency sub item) (\<lambda>cur.
     Inr \<lparr>s_id = i, s_stripe_id = Some sid, s_customer = Some customer_id,
          s_user = customer_user, s_status = status, s_plan = plan_id, s_seat_limit = seats,
          s_trial_ends_at = trial, s_period_start = ps, s_period_end = pe,
          s_canceled_at = canceled, s_cancel_at = cancel, s_scheduled_plan = splan,
          s_scheduled_change_at = schange, s_currency = cur, s_created_at = created\<rparr>))))))))"

definition build_subscription_row ::
  "json \<Rightarrow> json \<Rightarrow> string \<Rightarrow> uuid \<Rightarrow> uuid option \<Rightarrow> uuid \<Rightarrow> int \<Rightarrow> int \<Rightarrow>
   subscription option \<Rightarrow> subscription io" where
  "build_subscription_row sub item sid customer_id customer_user plan_id pstart pend existing =
     mbind (case existing of Some e \<Rightarrow> mret (s_id e) | None \<Rightarrow> fresh_uuid) (\<lambda>i.
     mbind now (\<lambda>t.
     mlift (subscription_row sub item sid customer_id customer_user plan_id pstart pend i
       (case existing of Some e \<Rightarrow> s_scheduled_plan e | None \<Rightarrow> None)
       (case existing of Some e \<Rightarrow> s_scheduled_change_at e | None \<Rightarrow> None)
       (case existing of Some e \<Rightarrow> s_created_at e | None \<Rightarrow> t))))"

text \<open>The parts of the payload that the lookups need.\<close>

definition subscription_keys :: "json \<Rightarrow> (string \<times> json \<times> string \<times> string \<times> int \<times> int) res" where
  "subscription_keys sub =
     rbind (dindex sub ''customer'') (\<lambda>cust.
     rbind (rbind (dindex sub ''items'') (\<lambda>it. dindex it ''data'')) (\<lambda>items.
     rbind (py_len items) (\<lambda>n.
     rbind (if n > 1 then rbind (dindex sub ''id'') (\<lambda>_. Inr ()) else Inr ()) (\<lambda>_.
     rbind (item0 items) (\<lambda>item.
     rbind (rbind (dindex item ''price'') (\<lambda>p. dindex p ''id'')) (\<lambda>price.
     rbind (dindex sub ''id'') (\<lambda>sid.
     rbind (extract_period_window sub item (py_str sid)) (\<lambda>(pstart, pend).
     Inr (py_str cust, item, py_str price, py_str sid, pstart, pend)))))))))"

definition sync_subscription_from_data ::
  "json \<Rightarrow> customer_repo \<Rightarrow> plan_repo \<Rightarrow> subscription_repo \<Rightarrow> unit io" where
  "sync_subscription_from_data sub C P S =
     mbind (mlift (subscription_keys sub)) (\<lambda>(cust, item, price_id, sid, pstart, pend).
     mbind (cust_by_stripe_id C cust) (\<lambda>customer.
     mbind (price_by_stripe_id P price_id) (\<lambda>plan_price.
     mbind (sub_by_stripe_id S sid) (\<lambda>existing.
     case customer of None \<Rightarrow> mraise (WebhookDataError (''Unknown customer '' @ cust))
     | Some c \<Rightarrow>
       (case plan_price of None \<Rightarrow> mraise (WebhookDataError (''Unknown price '' @ price_id))
        | Some p \<Rightarrow>
          mbind (build_subscription_row sub item sid (c_id c) (c_user c) (pp_plan p) pstart pend existing)
            (\<lambda>row. sub_save S row))))))"

definition sync_subscription :: "json \<Rightarrow> webhook_repos \<Rightarrow> unit io" where
  "sync_subscription sub R =
     sync_subscription_from_data sub (w_customers R) (w_plans R) (w_subscriptions R)"

section \<open>The other handlers\<close>

definition on_subscription_deleted :: "json \<Rightarrow> webhook_repos \<Rightarrow> unit io" where
  "on_subscription_deleted d R = mbind (mlift (dindex d ''id'')) (\<lambda>j.
     mbind (sub_by_stripe_id (w_subscriptions R) (py_str j)) (\<lambda>existing.
     case existing of None \<Rightarrow> mret ()
     | Some e \<Rightarrow>
       mbind now (\<lambda>t.
       mseq (sub_save (w_subscriptions R) (e\<lparr>s_status := CANCELED, s_canceled_at := Some t\<rparr>))
       (case (s_user e, s_customer e) of
          (None, Some k) \<Rightarrow>
            mbind (cust_by_id (w_customers R) k) (\<lambda>customer.
            (case customer of None \<Rightarrow> mret ()
             | Some c \<Rightarrow>
               (case c_org c of None \<Rightarrow> mret ()
                | Some g \<Rightarrow> (case w_on_org_canceled R of Some callback \<Rightarrow> callback g | None \<Rightarrow> mret ()))))
        | _ \<Rightarrow> mret ()))))"

definition parse_schedule_pending_change :: "json \<Rightarrow> (string \<times> datetime) option res" where
  "parse_schedule_pending_change d =
     rbind (dget d ''id'') (\<lambda>_.
     rbind (rbind (dget d ''phases'') (\<lambda>p. Inr (py_or p (JArr [])))) (\<lambda>phases.
     rbind (py_len phases) (\<lambda>n. if n < 2 then Inr None else
     case phases of
       JArr (cur # nxt # _) \<Rightarrow>
         rbind (rbind (dget nxt ''items'') (\<lambda>i. Inr (py_or i (JArr [])))) (\<lambda>items.
         if \<not> truthy items then Inr None else
         rbind (rbind (item0 items) (\<lambda>i. dget i ''price'')) (\<lambda>price.
         rbind (case price of JObj _ \<Rightarrow> dget price ''id'' | _ \<Rightarrow> Inr price) (\<lambda>price_id.
         if \<not> truthy price_id then Inr None else
         rbind (dget cur ''end_date'') (\<lambda>end_date.
         rbind (if truthy end_date then Inr end_date else dget nxt ''start_date'') (\<lambda>ts.
         rbind (ts_to_dt ts) (\<lambda>change_at.
         case change_at of None \<Rightarrow> Inr None | Some t \<Rightarrow> Inr (Some (py_str price_id, t))))))))
     | JStr _ \<Rightarrow> Inl AttributeError
     | _ \<Rightarrow> Inl KeyError)))"

definition on_subscription_schedule_upserted :: "json \<Rightarrow> webhook_repos \<Rightarrow> unit io" where
  "on_subscription_schedule_upserted d R = mbind (mlift (dget d ''subscription'')) (\<lambda>j.
     if \<not> truthy j then mret () else
     mbind (mlift (parse_schedule_pending_change d)) (\<lambda>pending.
     case pending of None \<Rightarrow> mret ()
     | Some (next_price_id, change_at) \<Rightarrow>
       mbind (price_by_stripe_id (w_plans R) next_price_id) (\<lambda>plan_price.
       case plan_price of None \<Rightarrow> mret ()
       | Some p \<Rightarrow>
         mbind (sub_by_stripe_id (w_subscriptions R) (py_str j)) (\<lambda>existing.
         case existing of None \<Rightarrow> mret ()
         | Some e \<Rightarrow>
           if s_scheduled_plan e = Some (pp_plan p) \<and> s_scheduled_change_at e = Some change_at
           then mret ()
           else sub_save (w_subscriptions R)
             (e\<lparr>s_scheduled_plan := Some (pp_plan p), s_scheduled_change_at := Some change_at\<rparr>)))))"

definition on_subscription_schedule_cleared :: "json \<Rightarrow> webhook_repos \<Rightarrow> unit io" where
  "on_subscription_schedule_cleared d R = mbind (mlift (dget d ''subscription'')) (\<lambda>j.
     if \<not> truthy j then mret () else
     mbind (sub_by_stripe_id (w_subscriptions R) (py_str j)) (\<lambda>existing.
     case existing of None \<Rightarrow> mret ()
     | Some e \<Rightarrow>
       if s_scheduled_plan e = None \<and> s_scheduled_change_at e = None then mret ()
       else sub_save (w_subscriptions R) (e\<lparr>s_scheduled_plan := None, s_scheduled_change_at := None\<rparr>)))"

definition on_invoice :: "json \<Rightarrow> unit io" where
  "on_invoice d = mbind (mlift (dget d ''id'')) (\<lambda>_. mret ())"

section \<open>Dispatch\<close>

definition dispatch :: "json \<Rightarrow> webhook_repos \<Rightarrow> unit io" where
  "dispatch event R = mbind (mlift (dindex event ''type'')) (\<lambda>type.
     let obj = mlift (rbind (dindex event ''data'') (\<lambda>d. dindex d ''object'')) in
     if type = JStr ''checkout.session.completed'' then mbind obj (\<lambda>d. on_checkout_completed d R)
     else if type = JStr ''customer.subscription.created''
           \<or> type = JStr ''customer.subscription.updated'' then mbind obj (\<lambda>d. sync_subscription d R)
     else if type = JStr ''customer.subscription.deleted''
       then mbind obj (\<lambda>d. on_subscription_deleted d R)
     else if type = JStr ''subscription_schedule.created''
           \<or> type = JStr ''subscription_schedule.updated''
       then mbind obj (\<lambda>d. on_subscription_schedule_upserted d R)
     else if type = JStr ''subscription_schedule.released''
           \<or> type = JStr ''subscription_schedule.canceled''
           \<or> type = JStr ''subscription_schedule.aborted''
       then mbind obj (\<lambda>d. on_subscription_schedule_cleared d R)
     else if type = JStr ''invoice.payment_succeeded'' \<or> type = JStr ''invoice.payment_failed''
       then mbind obj on_invoice
     else mret ())"

text \<open>
  Each \<open>except\<close> clause of \<open>process_stored_event\<close> records the failure and raises again; they
  differ only in the text stored, which the model keeps as the exception itself.
\<close>

definition process_stored_event :: "json \<Rightarrow> string \<Rightarrow> webhook_repos \<Rightarrow> unit io" where
  "process_stored_event event sid R =
     mtry (mseq (dispatch event R) (event_mark_processed (w_events R) sid))
          (\<lambda>e. mseq (event_mark_failed (w_events R) sid e) (mraise e))"

section \<open>What the handlers do to the stored subscriptions\<close>

text \<open>Both fields of a pending plan change are set, or neither is.\<close>

definition pending_ok :: "subscription \<Rightarrow> bool" where
  "pending_ok s \<longleftrightarrow> (s_scheduled_plan s = None) = (s_scheduled_change_at s = None)"

definition all_pending_ok :: "db \<Rightarrow> bool" where
  "all_pending_ok d \<longleftrightarrow> list_all pending_ok (subscriptions d)"

lemma subscription_row_fields:
  assumes "subscription_row sub item sid k u p ps pe i sp sc created = Inr s"
  shows "s_id s = i \<and> s_stripe_id s = Some sid \<and> s_customer s = Some k \<and> s_user s = u
    \<and> s_plan s = p \<and> s_scheduled_plan s = sp \<and> s_scheduled_change_at s = sc
    \<and> s_created_at s = created"
  using assms unfolding subscription_row_def by (auto elim!: rbind_InrE)

text \<open>The row only depends on \<open>id\<close> and \<open>created_at\<close> by carrying them.\<close>

lemma subscription_row_keys:
  assumes "subscription_row sub item sid k u p ps pe i sp sc created = Inr s"
  shows "subscription_row sub item sid k u p ps pe i' sp sc created'
    = Inr (s\<lparr>s_id := i', s_created_at := created'\<rparr>)"
  using assms unfolding subscription_row_def by (auto elim!: rbind_InrE)

lemma subscription_row_Inl:
  "subscription_row sub item sid k u p ps pe i sp sc created = Inl e \<Longrightarrow>
   subscription_row sub item sid k u p ps pe i' sp' sc' created' = Inl e"
  unfolding subscription_row_def rbind_def by (auto split: sum.splits)

lemma build_subscription_row_Inr:
  assumes "build_subscription_row sub item sid k u p ps pe existing w = (Inr s, w')"
  shows "db w' = db w \<and> clock w' = clock w \<and> (case existing of
      Some e \<Rightarrow> subscription_row sub item sid k u p ps pe (s_id e) (s_scheduled_plan e)
        (s_scheduled_change_at e) (s_created_at e) = Inr s
    | None \<Rightarrow> subscription_row sub item sid k u p ps pe (id_supply w (drawn w)) None None (clock w) = Inr s)"
  using assms by (cases existing) (auto simp: build_subscription_row_def run_simps)

lemma build_subscription_row_db: "db (snd (build_subscription_row sub item sid k u p ps pe existing w)) = db w"
  by (cases existing) (auto simp: build_subscription_row_def run_simps)

locale subscription_mirror =
  subscription_repository S stored good + customer_repository C customers_of
  for S stored good C customers_of +
  fixes P :: plan_repo and prices :: "db \<Rightarrow> string \<Rightarrow> plan_price option"
  assumes price_reads: "price_by_stripe_id P x w = (Inr (prices (db w) x), w)"
    and save_frame: "sub_save S s w = (Inr (), w') \<Longrightarrow>
        customers_of (db w') = customers_of (db w) \<and> prices (db w') = prices (db w)"
begin

text \<open>A synchronisation that returned saved the row the payload and the existing row determine.\<close>

definition target_row :: "json \<Rightarrow> db \<Rightarrow> uuid \<Rightarrow> datetime \<Rightarrow> subscription res" where
  "target_row sub d i t = rbind (subscription_keys sub) (\<lambda>(cust, item, price_id, sid, ps, pe).
     case first_by c_id (filter (\<lambda>c. c_stripe_id c = cust) (customers_of d)) of
       None \<Rightarrow> Inl (WebhookDataError (''Unknown customer '' @ cust))
     | Some c \<Rightarrow>
       (case prices d price_id of None \<Rightarrow> Inl (WebhookDataError (''Unknown price '' @ price_id))
        | Some p \<Rightarrow>
          (case find_stripe sid (stored d) of
             None \<Rightarrow> subscription_row sub item sid (c_id c) (c_user c) (pp_plan p) ps pe i None None t
           | Some e \<Rightarrow> subscription_row sub item sid (c_id c) (c_user c) (pp_plan p) ps pe (s_id e)
               (s_scheduled_plan e) (s_scheduled_change_at e) (s_created_at e))))"

definition save_target :: "json \<Rightarrow> world \<Rightarrow> unit io" where
  "save_target sub w = (\<lambda>w1. case target_row sub (db w) (id_supply w (drawn w)) (clock w) of
     Inl e \<Rightarrow> (Inl e, w1) | Inr s \<Rightarrow> sub_save S s w1)"

lemma sync_is_save:
  "sync_subscription_from_data sub C P S w = save_target sub w w
 \<or> sync_subscription_from_data sub C P S w = save_target sub w (w\<lparr>drawn := drawn w + 1\<rparr>)"
proof (cases "subscription_keys sub")
  case (Inl e)
  then show ?thesis
    by (simp add: sync_subscription_from_data_def save_target_def target_row_def run_simps)
next
  case (Inr k)
  obtain cust item price_id sid ps pe where k: "k = (cust, item, price_id, sid, ps, pe)"
    by (cases k)
  show ?thesis
    by (cases "first_by c_id (filter (\<lambda>c. c_stripe_id c = cust) (customers_of (db w)))";
        cases "prices (db w) price_id"; cases "find_stripe sid (stored (db w))")
      (simp_all add: sync_subscription_from_data_def save_target_def target_row_def run_simps
        by_stripe_id cust_reads_stripe price_reads build_subscription_row_def Inr k)
qed

lemma sync_Inr:
  assumes "sync_subscription_from_data sub C P S w = (Inr (), w')"
  obtains s w1 where "target_row sub (db w) (id_supply w (drawn w)) (clock w) = Inr s"
    and "db w1 = db w" and "clock w1 = clock w" and "sub_save S s w1 = (Inr (), w')"
proof -
  obtain w1 where "db w1 = db w" "clock w1 = clock w" "save_target sub w w1 = (Inr (), w')"
    using sync_is_save [of sub w] assms by (metis world.select_convs(1,2) world.simps(1,2)
        world.surjective world.update_convs(5))
  with that show thesis
    by (cases "target_row sub (db w) (id_supply w (drawn w)) (clock w)") (auto simp: save_target_def)
qed

lemma sync_Inl:
  assumes "sync_subscription_from_data sub C P S w = (Inl e, w')"
  shows "db w' = db w"
proof -
  have "db w' = db w1" if "save_target sub w w1 = (Inl e, w')" for w1
    using that by (auto simp: save_target_def split: sum.splits dest: save_refuses)
  with sync_is_save [of sub w] assms show ?thesis by fastforce
qed

lemma target_row_fields:
  assumes "target_row sub d i t = Inr s"
  obtains sid where "s_stripe_id s = Some sid"
    and "case find_stripe sid (stored d) of
        None \<Rightarrow> s_id s = i \<and> s_scheduled_plan s = None \<and> s_scheduled_change_at s = None
      | Some e \<Rightarrow> s_id s = s_id e \<and> s_scheduled_plan s = s_scheduled_plan e
          \<and> s_scheduled_change_at s = s_scheduled_change_at e \<and> s_created_at s = s_created_at e"
proof -
  from assms obtain cust item price_id sid ps pe where
    "subscription_keys sub = Inr (cust, item, price_id, sid, ps, pe)"
    by (auto simp: target_row_def elim!: rbind_InrE)
  with assms that [of sid] show ?thesis
    by (auto simp: target_row_def split: option.splits dest!: subscription_row_fields)
qed

text \<open>
  No row loses its identity, its age or its pending plan change: only the row of the mirrored
  Stripe subscription is rewritten, and it keeps these fields.
\<close>

lemma sync_keeps_fields:
  assumes "good (db w)" and "sync_subscription_from_data sub C P S w = (Inr (), w')"
    and "e \<in> set (stored (db w))" and fresh: "id_supply w (drawn w) \<notin> s_id ` set (stored (db w))"
  shows "\<exists>e'\<in>set (stored (db w')). s_id e' = s_id e \<and> s_stripe_id e' = s_stripe_id e
    \<and> s_scheduled_plan e' = s_scheduled_plan e \<and> s_scheduled_change_at e' = s_scheduled_change_at e
    \<and> s_created_at e' = s_created_at e"
proof -
  from assms(2) obtain s w1 where t: "target_row sub (db w) (id_supply w (drawn w)) (clock w) = Inr s"
    and w1: "db w1 = db w" and save: "sub_save S s w1 = (Inr (), w')"
    by (rule sync_Inr)
  note d = good_keys [OF assms(1)]
  from t obtain sid where sid: "s_stripe_id s = Some sid"
    and f: "case find_stripe sid (stored (db w)) of
        None \<Rightarrow> s_id s = id_supply w (drawn w) \<and> s_scheduled_plan s = None
            \<and> s_scheduled_change_at s = None
      | Some e \<Rightarrow> s_id s = s_id e \<and> s_scheduled_plan s = s_scheduled_plan e
          \<and> s_scheduled_change_at s = s_scheduled_change_at e \<and> s_created_at s = s_created_at e"
    by (rule target_row_fields)
  show ?thesis
  proof (cases "s_id e = s_id s")
    case False
    then have "e \<in> set (stored (db w'))"
      using assms(3) save_stores [OF save] w1 by (auto simp: upsert_subscription_def set_update_where)
    then show ?thesis by blast
  next
    case True
    have st: "stored (db w') = map (\<lambda>x. if x = e then s\<lparr>s_created_at := s_created_at e\<rparr> else x) (stored (db w))"
      using save_existing [of w1 e s w'] assms(1,3) True save w1 by simp
    have "find_stripe sid (stored (db w)) = Some e"
    proof (cases "find_stripe sid (stored (db w))")
      case None
      with f True have "s_id e = id_supply w (drawn w)" by simp
      with assms(3) fresh show ?thesis by (metis image_eqI)
    next
      case (Some e0)
      with f have "s_id e0 = s_id e" using True by simp
      moreover have "e0 \<in> set (stored (db w))" using Some find_stripe_Some by blast
      ultimately have "e0 = e" using d assms(3) by (blast intro: distinct_map_eqD)
      with Some show ?thesis by simp
    qed
    moreover from this have "s_stripe_id e = Some sid" by (simp add: find_stripe_Some)
    ultimately show ?thesis
      using st assms(3) sid f by (auto intro!: bexI [of _ "s\<lparr>s_created_at := s_created_at e\<rparr>"])
  qed
qed

text \<open>The stored row is what the payload says, and a replay of the payload changes nothing.\<close>

lemma sync_stores:
  assumes "good (db w)" and "sync_subscription_from_data sub C P S w = (Inr (), w')"
    and "subscription_keys sub = Inr (cust, item, price_id, sid, ps, pe)"
  shows "\<exists>s t. target_row sub (db w) (id_supply w (drawn w)) (clock w) = Inr s
    \<and> find_stripe sid (stored (db w')) = Some (s\<lparr>s_created_at := t\<rparr>)"
proof -
  from assms(2) obtain s w1 where t: "target_row sub (db w) (id_supply w (drawn w)) (clock w) = Inr s"
    and w1: "db w1 = db w" and save: "sub_save S s w1 = (Inr (), w')"
    by (rule sync_Inr)
  have "s_stripe_id s = Some sid"
    using t assms(3) by (auto simp: target_row_def split: option.splits dest!: subscription_row_fields)
  with save_finds [OF _ save] assms(1) w1 t show ?thesis by auto
qed

lemma sync_table:
  assumes g: "good (db w)" and "sync_subscription_from_data sub C P S w = (Inr (), w')"
    and fresh: "id_supply w (drawn w) \<notin> s_id ` set (stored (db w))"
    and k: "subscription_keys sub = Inr (cust, item, price_id, sid, ps, pe)"
  obtains s where "target_row sub (db w) (id_supply w (drawn w)) (clock w) = Inr s"
    and "stored (db w') = (case find_stripe sid (stored (db w)) of None \<Rightarrow> stored (db w) @ [s]
      | Some e \<Rightarrow> map (\<lambda>x. if x = e then s else x) (stored (db w)))"
proof -
  from assms(2) obtain s w1 where t: "target_row sub (db w) (id_supply w (drawn w)) (clock w) = Inr s"
    and w1: "db w1 = db w" "clock w1 = clock w" and save: "sub_save S s w1 = (Inr (), w')"
    by (rule sync_Inr)
  have "stored (db w') = (case find_stripe sid (stored (db w)) of None \<Rightarrow> stored (db w) @ [s]
      | Some e \<Rightarrow> map (\<lambda>x. if x = e then s else x) (stored (db w)))"
  proof (cases "find_stripe sid (stored (db w))")
    case None
    with t k have "s_id s = id_supply w (drawn w)" "s_created_at s = clock w"
      by (auto simp: target_row_def split: option.splits dest!: subscription_row_fields)
    with fresh save_stores [OF save] w1 None show ?thesis by (simp add: upsert_subscription_def)
  next
    case (Some e)
    with t k have "s_id s = s_id e" "s_created_at s = s_created_at e"
      by (auto simp: target_row_def split: option.splits dest!: subscription_row_fields)
    with save_existing [of w1 e s w'] save g w1 Some find_stripe_Some show ?thesis by simp
  qed
  with t show thesis by (rule that)
qed

lemma target_row_again:
  assumes t: "target_row sub d i t = Inr s"
    and k: "subscription_keys sub = Inr (cust, item, price_id, sid, ps, pe)"
    and fr: "customers_of d' = customers_of d" "prices d' = prices d"
    and st: "find_stripe sid (stored d') = Some (s\<lparr>s_created_at := c\<rparr>)"
  shows "target_row sub d' i' t' = Inr (s\<lparr>s_created_at := c\<rparr>)"
proof -
  have fields: "subscription_row sub item sid k u p ps pe i0 sp sc cr = Inr s \<Longrightarrow>
     subscription_row sub item sid k u p ps pe (s_id s) (s_scheduled_plan s) (s_scheduled_change_at s) c
       = Inr (s\<lparr>s_created_at := c\<rparr>)" for k u p i0 sp sc cr
  proof -
    assume r: "subscription_row sub item sid k u p ps pe i0 sp sc cr = Inr s"
    with subscription_row_fields [OF r] subscription_row_keys [OF r, of "s_id s" c] show ?thesis by simp
  qed
  from t k show ?thesis
    by (auto simp: target_row_def fr st split: option.splits intro: fields)
qed

lemma sync_replay:
  assumes g: "good (db w)" and run: "sync_subscription_from_data sub C P S w = (Inr (), w1)"
    and fresh: "id_supply w (drawn w) \<notin> s_id ` set (stored (db w))"
  shows "db (snd (sync_subscription_from_data sub C P S w1)) = db w1"
proof (cases "sync_subscription_from_data sub C P S w1")
  case (Pair r w2)
  show ?thesis
  proof (cases r)
    case (Inl e)
    with Pair show ?thesis using sync_Inl by simp
  next
    case (Inr u)
    from run obtain s w0 where t: "target_row sub (db w) (id_supply w (drawn w)) (clock w) = Inr s"
      and w0: "db w0 = db w" "clock w0 = clock w" and save: "sub_save S s w0 = (Inr (), w1)"
      by (rule sync_Inr)
    from Pair Inr obtain s' w3 where t': "target_row sub (db w1) (id_supply w1 (drawn w1)) (clock w1) = Inr s'"
      and w3: "db w3 = db w1" and save': "sub_save S s' w3 = (Inr (), w2)"
      using sync_Inr [of sub w1 w2] by (metis (full_types) old.unit.exhaust)
    have g1: "good (db w1)" using save_good [of w0 s] save g w0 by simp
    from t obtain cust item price_id sid ps pe where
      k: "subscription_keys sub = Inr (cust, item, price_id, sid, ps, pe)"
      by (auto simp: target_row_def elim!: rbind_InrE)
    obtain c where st: "find_stripe sid (stored (db w1)) = Some (s\<lparr>s_created_at := c\<rparr>)"
      using sync_stores [OF g run k] t by auto
    have "customers_of (db w1) = customers_of (db w)" "prices (db w1) = prices (db w)"
      using save_frame [OF save] w0 by simp_all
    with target_row_again [OF t k _ _ st] t' have "s' = s\<lparr>s_created_at := c\<rparr>" by simp
    then have "s' \<in> set (stored (db w1))" using st find_stripe_Some by auto
    then have "stored (db w2) = stored (db w1)"
      using save_same [of w3 s' w2] save' g1 w3 by simp
    with save_only [OF save'] w3 have "db w2 = db w1" by simp
    with Pair show ?thesis by simp
  qed
qed

text \<open>Every handler keeps the two fields of a pending change in step.\<close>

definition pending_state :: "world \<Rightarrow> bool" where
  "pending_state = on_db (\<lambda>d. list_all pending_ok (stored d))"

lemma save_pending: "pending_ok s \<Longrightarrow> keeps pending_state (sub_save S s)"
proof (rule keepsI)
  fix w assume s: "pending_ok s" and w: "pending_state w"
  obtain r w' where run: "sub_save S s w = (r, w')" by (cases "sub_save S s w")
  show "pending_state (snd (sub_save S s w))"
  proof (cases r)
    case (Inl e)
    with run w show ?thesis using save_refuses by auto
  next
    case (Inr u)
    then have "stored (db w') = upsert_subscription (clock w) s (stored (db w))"
      using run save_stores by simp
    moreover have "pending_ok (s\<lparr>s_created_at := c\<rparr>)" for c using s by (simp add: pending_ok_def)
    ultimately show ?thesis
      using w run by (auto simp: pending_state_def on_db_def upsert_subscription_def list_all_iff
          set_update_where split: if_splits)
  qed
qed

lemma find_pending:
  assumes "keeps pending_state (f None)" and "\<And>e. pending_ok e \<Longrightarrow> keeps pending_state (f (Some e))"
  shows "keeps pending_state (mbind (sub_by_stripe_id S sid) f)"
proof (rule keepsI)
  fix w assume w: "pending_state w"
  show "pending_state (snd (mbind (sub_by_stripe_id S sid) f w))"
  proof (cases "find_stripe sid (stored (db w))")
    case None
    with keepsD [OF assms(1) w] show ?thesis by (simp add: mbind_run by_stripe_id)
  next
    case (Some e)
    then have "pending_ok e"
      using w find_stripe_Some by (auto simp: pending_state_def on_db_def list_all_iff)
    from keepsD [OF assms(2) [OF this] w] Some show ?thesis by (simp add: mbind_run by_stripe_id)
  qed
qed

lemma target_row_pending:
  assumes "target_row sub d i t = Inr s" and "list_all pending_ok (stored d)"
  shows "pending_ok s"
proof -
  obtain sid where "s_stripe_id s = Some sid" and f: "case find_stripe sid (stored d) of
        None \<Rightarrow> s_id s = i \<and> s_scheduled_plan s = None \<and> s_scheduled_change_at s = None
      | Some e \<Rightarrow> s_id s = s_id e \<and> s_scheduled_plan s = s_scheduled_plan e
          \<and> s_scheduled_change_at s = s_scheduled_change_at e \<and> s_created_at s = s_created_at e"
    using assms(1) by (rule target_row_fields)
  show ?thesis
  proof (cases "find_stripe sid (stored d)")
    case None
    with f show ?thesis by (simp add: pending_ok_def)
  next
    case (Some e)
    then have "pending_ok e" using assms(2) find_stripe_Some by (auto simp: list_all_iff)
    with Some f show ?thesis by (simp add: pending_ok_def)
  qed
qed

lemma sync_pending: "keeps pending_state (sync_subscription_from_data sub C P S)"
proof (rule keepsI)
  fix w assume w: "pending_state w"
  obtain r w' where run: "sync_subscription_from_data sub C P S w = (r, w')"
    by (cases "sync_subscription_from_data sub C P S w")
  show "pending_state (snd (sync_subscription_from_data sub C P S w))"
  proof (cases r)
    case (Inl e)
    with run w show ?thesis using sync_Inl by (auto simp: pending_state_def on_db_def)
  next
    case (Inr u)
    with run obtain s w1 where t: "target_row sub (db w) (id_supply w (drawn w)) (clock w) = Inr s"
      and w1: "db w1 = db w" and save: "sub_save S s w1 = (Inr (), w')"
      using sync_Inr [of sub w w'] by (metis (full_types) old.unit.exhaust)
    have "pending_state w1" using w w1 by (simp add: pending_state_def on_db_def)
    moreover have "pending_ok s"
      using target_row_pending [OF t] w by (simp add: pending_state_def on_db_def)
    ultimately have "pending_state w'" using keepsD_run [OF save_pending _ save] by blast
    with run show ?thesis by simp
  qed
qed

lemma price_pending: "keeps pending_state (price_by_stripe_id P x)"
  by (simp add: keeps_def price_reads)

lemma cust_pending: "keeps pending_state (cust_by_id C k)"
  by (simp add: keeps_def cust_reads)

lemma now_pending: "keeps pending_state now"
  by (simp add: keeps_def)

lemmas handler_pending = find_pending save_pending price_pending cust_pending now_pending

lemma upserted_pending:
  assumes "w_subscriptions R = S" and "w_plans R = P"
  shows "keeps pending_state (on_subscription_schedule_upserted d R)"
  unfolding on_subscription_schedule_upserted_def assms
  by (rule handler_pending keeps_intros | simp add: pending_ok_def)+

lemma cleared_pending:
  assumes "w_subscriptions R = S"
  shows "keeps pending_state (on_subscription_schedule_cleared d R)"
  unfolding on_subscription_schedule_cleared_def assms
  by (rule handler_pending keeps_intros | simp add: pending_ok_def)+

lemma deleted_pending:
  assumes "w_subscriptions R = S" and "w_customers R = C"
    and "\<And>callback g. w_on_org_canceled R = Some callback \<Longrightarrow> keeps pending_state (callback g)"
  shows "keeps pending_state (on_subscription_deleted d R)"
  unfolding on_subscription_deleted_def assms(1,2)
  by (rule handler_pending keeps_intros | simp add: pending_ok_def assms(3))+

lemma checkout_pending:
  assumes "\<And>callback s p u g. w_on_product R = Some callback \<Longrightarrow> keeps pending_state (callback s p u g)"
    and "\<And>callback u n c l s k. w_on_team R = Some callback \<Longrightarrow> keeps pending_state (callback u n c l s k)"
  shows "keeps pending_state (on_checkout_completed d R)"
  unfolding on_checkout_completed_def on_product_checkout_def
  by (rule keeps_intros | simp add: assms)+

lemma dispatch_pending:
  assumes "w_subscriptions R = S" and "w_customers R = C" and "w_plans R = P"
    and "\<And>callback g. w_on_org_canceled R = Some callback \<Longrightarrow> keeps pending_state (callback g)"
    and "\<And>callback s p u g. w_on_product R = Some callback \<Longrightarrow> keeps pending_state (callback s p u g)"
    and "\<And>callback u n c l s k. w_on_team R = Some callback \<Longrightarrow> keeps pending_state (callback u n c l s k)"
  shows "keeps pending_state (dispatch event R)"
  unfolding dispatch_def Let_def
  by (intro keeps_intros checkout_pending upserted_pending cleared_pending deleted_pending;
      simp add: assms sync_subscription_def sync_pending on_invoice_def keeps_intros)

end

section \<open>The Django repositories mirror subscriptions\<close>

definition price_row :: "db \<Rightarrow> string \<Rightarrow> plan_price option" where
  "price_row d x = first_by pp_id (filter (\<lambda>p. pp_stripe_price_id p = x) (plan_prices d))"

lemma subscription_save_frame:
  "subscription_save s w = (Inr (), w') \<Longrightarrow> \<exists>xs. db w' = (db w)\<lparr>subscriptions := xs\<rparr>"
  by (auto simp: subscription_save_def run_simps save_row_def update_rows_def
      create_row_def Let_def split: if_splits)

interpretation mirror: subscription_mirror django_subscriptions subscriptions db_ok
    django_customers customers django_plans price_row
proof (unfold_locales, goal_cases)
  case (1 x w)
  show ?case by (simp add: django_plans_def price_row_def)
next
  case (2 s w w')
  then have "subscription_save s w = (Inr (), w')" by (simp add: django_subscriptions_def)
  from subscription_save_frame [OF this] show ?case by (auto simp: price_row_def)
qed

definition sync_django :: "json \<Rightarrow> unit io" where
  "sync_django sub = sync_subscription_from_data sub django_customers django_plans django_subscriptions"

lemma sync_frame:
  assumes "sync_subscription_from_data sub django_customers django_plans django_subscriptions w = (Inr (), w')"
  shows "\<exists>xs. db w' = (db w)\<lparr>subscriptions := xs\<rparr>"
proof -
  obtain s w1 where "db w1 = db w" "sub_save django_subscriptions s w1 = (Inr (), w')"
    using assms by (rule mirror.sync_Inr)
  then show ?thesis using subscription_save_frame [of s w1 w'] by (simp add: django_subscriptions_def)
qed

lemma keeps_sync [keeps_intros]: "keeps consistent (sync_django sub)"
  unfolding sync_django_def sync_subscription_from_data_def build_subscription_row_def django_sel
  by (intro keeps_intros)

section \<open>What a payload says\<close>

text \<open>
  The columns that a Stripe subscription and its first item determine, column by column over the
  keys of the payload: a Unix time is stored in microseconds, a missing one as no date; the window
  comes from the item and else from the subscription; the currency from the subscription, then
  from the price, then it is US dollars.
\<close>

definition stamp :: "json \<Rightarrow> datetime option \<Rightarrow> bool" where
  "stamp j d \<longleftrightarrow> (if j = JNull then d = None else \<exists>n. py_int j = Inr n \<and> d = Some (n * 1000000))"

definition status_text :: "sub_status \<Rightarrow> string" where
  "status_text st = (case st of ACTIVE \<Rightarrow> ''active'' | TRIALING \<Rightarrow> ''trialing'' | PAST_DUE \<Rightarrow> ''past_due''
     | CANCELED \<Rightarrow> ''canceled'' | INCOMPLETE \<Rightarrow> ''incomplete''
     | INCOMPLETE_EXPIRED \<Rightarrow> ''incomplete_expired'' | PAUSED \<Rightarrow> ''paused'' | UNPAID \<Rightarrow> ''unpaid'')"

definition mirrors :: "json \<Rightarrow> json \<Rightarrow> subscription \<Rightarrow> bool" where
  "mirrors sub item s \<longleftrightarrow>
     (\<exists>j. dindex sub ''id'' = Inr j \<and> s_stripe_id s = Some (py_str j))
   \<and> (\<exists>j. dindex sub ''status'' = Inr j \<and> py_str j = status_text (s_status s))
   \<and> (\<exists>j. dget item ''quantity'' = Inr j
        \<and> (if truthy j then py_int j = Inr (s_seat_limit s) else s_seat_limit s = 1))
   \<and> (\<exists>j. dget sub ''trial_end'' = Inr j \<and> stamp j (s_trial_ends_at s))
   \<and> (\<exists>j. dget sub ''canceled_at'' = Inr j \<and> stamp j (s_canceled_at s))
   \<and> (\<exists>j. dget sub ''cancel_at'' = Inr j \<and> stamp j (s_cancel_at s))
   \<and> (\<exists>old j n. dget sub ''current_period_start'' = Inr old \<and> dget_or item ''current_period_start'' old = Inr j
        \<and> as_int j = Some n \<and> s_period_start s = n * 1000000)
   \<and> (\<exists>old j n. dget sub ''current_period_end'' = Inr old \<and> dget_or item ''current_period_end'' old = Inr j
        \<and> as_int j = Some n \<and> s_period_end s = n * 1000000)
   \<and> (\<exists>j. dget sub ''currency'' = Inr j \<and> (if truthy j then s_currency s = lower (py_str j)
        else \<exists>price k. dindex item ''price'' = Inr price \<and> dget price ''currency'' = Inr k
          \<and> s_currency s = lower (if truthy k then py_str k else ''usd'')))"

lemma sub_status_text: "sub_status_of x = Inr st \<Longrightarrow> x = status_text st"
  by (auto simp: sub_status_of_def status_text_def split: if_splits)

lemma epoch_microseconds: "epoch_to_dt n = Inr d \<Longrightarrow> d = n * 1000000"
  by (auto simp: epoch_to_dt_def split: if_splits)

lemma ts_stamp: "ts_to_dt j = Inr d \<Longrightarrow> stamp j d"
  by (auto simp: ts_to_dt_def stamp_def dest: epoch_microseconds elim!: rbind_InrE split: if_splits)

lemma subscription_keys_Inr:
  assumes "subscription_keys sub = Inr (cust, item, price_id, sid, ps, pe)"
  obtains j k l items rest where "dindex sub ''customer'' = Inr j" "cust = py_str j"
    and "dindex sub ''items'' = Inr items" "dindex items ''data'' = Inr (JArr (item # rest))"
    and "rbind (dindex item ''price'') (\<lambda>p. dindex p ''id'') = Inr k" "price_id = py_str k"
    and "dindex sub ''id'' = Inr l" "sid = py_str l"
    and "extract_period_window sub item sid = Inr (ps, pe)"
proof -
  from assms obtain j k l items data n where d: "dindex sub ''customer'' = Inr j" "cust = py_str j"
    "dindex sub ''items'' = Inr items" "dindex items ''data'' = Inr data"
    and i: "item0 data = Inr item"
    and p: "rbind (dindex item ''price'') (\<lambda>p. dindex p ''id'') = Inr k" "price_id = py_str k"
    "dindex sub ''id'' = Inr l" "sid = py_str l" "extract_period_window sub item sid = Inr (ps, pe)"
    unfolding subscription_keys_def by (auto elim!: rbind_InrE split: prod.splits)
  from i p(1) obtain rest where "data = JArr (item # rest)"
    by (cases data rule: item0.cases) auto
  with d p that show thesis by blast
qed

lemma period_window_Inr:
  assumes "extract_period_window sub item sid = Inr (ps, pe)"
  shows "(\<exists>old j. dget sub ''current_period_start'' = Inr old
        \<and> dget_or item ''current_period_start'' old = Inr j \<and> as_int j = Some ps)
   \<and> (\<exists>old j. dget sub ''current_period_end'' = Inr old
        \<and> dget_or item ''current_period_end'' old = Inr j \<and> as_int j = Some pe)"
  using assms unfolding extract_period_window_def
  by (auto elim!: rbind_InrE split: if_splits option.splits)

lemma currency_Inr:
  assumes "mirrored_currency sub item = Inr c"
  shows "\<exists>j. dget sub ''currency'' = Inr j \<and> (if truthy j then c = lower (py_str j)
     else \<exists>price k. dindex item ''price'' = Inr price \<and> dget price ''currency'' = Inr k
       \<and> c = lower (if truthy k then py_str k else ''usd''))"
proof -
  from assms obtain j where j: "dget sub ''currency'' = Inr j"
    unfolding mirrored_currency_def by (auto elim!: rbind_InrE)
  with assms show ?thesis unfolding mirrored_currency_def py_or_def
    by (intro exI [of _ j]) (auto elim!: rbind_InrE split: if_splits)
qed

lemma subscription_row_mirrors:
  assumes row: "subscription_row sub item sid k u p ps pe i sp sc t = Inr s"
    and "dindex sub ''id'' = Inr l" "sid = py_str l"
    and "extract_period_window sub item sid = Inr (ps, pe)"
  shows "mirrors sub item s"
proof -
  from row obtain st q j1 j2 j3 where "dindex sub ''status'' = Inr st" "sub_status_of (py_str st) = Inr (s_status s)"
    and "dget item ''quantity'' = Inr q" "py_int (py_or q (JInt 1)) = Inr (s_seat_limit s)"
    and "dget sub ''trial_end'' = Inr j1" "ts_to_dt j1 = Inr (s_trial_ends_at s)"
    and "dget sub ''canceled_at'' = Inr j2" "ts_to_dt j2 = Inr (s_canceled_at s)"
    and "dget sub ''cancel_at'' = Inr j3" "ts_to_dt j3 = Inr (s_cancel_at s)"
    and "epoch_to_dt ps = Inr (s_period_start s)" "epoch_to_dt pe = Inr (s_period_end s)"
    and "mirrored_currency sub item = Inr (s_currency s)" "s_stripe_id s = Some sid"
    unfolding subscription_row_def by (auto elim!: rbind_InrE)
  moreover have "if truthy q then py_int q = Inr (s_seat_limit s) else s_seat_limit s = 1"
    using calculation(4) by (auto simp: py_or_def)
  ultimately show ?thesis
    using assms(2,3) period_window_Inr [OF assms(4)] currency_Inr unfolding mirrors_def
    by (auto dest!: sub_status_text ts_stamp epoch_microseconds)
qed

section \<open>Properties\<close>

text \<open>
  C5.  Mirroring a Stripe subscription either raises and leaves the database as it was, or rewrites
  one row and nothing else.  That row is the one stored under the Stripe id, or a new one with a
  fresh id at the end of the table; its customer, user and plan are those of the local rows with
  the Stripe ids of the payload, every other column is the value of its key in the payload, and
  the id, the pending plan change and the creation date are those of the row it replaces.
\<close>

theorem sync_stores_payload:
  assumes "consistent w" and "uuids_fresh subscriptions_T w" and "sync_django sub w = (r, w')"
  shows "case r of
      Inl e \<Rightarrow> db w' = db w
    | Inr _ \<Rightarrow> \<exists>cust items item rest price c p s.
        dindex sub ''items'' = Inr items \<and> dindex items ''data'' = Inr (JArr (item # rest))
      \<and> dindex sub ''customer'' = Inr cust
      \<and> rbind (dindex item ''price'') (\<lambda>j. dindex j ''id'') = Inr price
      \<and> c \<in> set (customers (db w)) \<and> c_stripe_id c = py_str cust
      \<and> p \<in> set (plan_prices (db w)) \<and> pp_stripe_price_id p = py_str price
      \<and> s_customer s = Some (c_id c) \<and> s_user s = c_user c \<and> s_plan s = pp_plan p
      \<and> mirrors sub item s
      \<and> ((\<forall>e\<in>set (subscriptions (db w)). s_stripe_id e \<noteq> s_stripe_id s)
           \<and> s_id s \<notin> s_id ` set (subscriptions (db w))
           \<and> s_scheduled_plan s = None \<and> s_scheduled_change_at s = None \<and> s_created_at s = clock w
           \<and> db w' = (db w)\<lparr>subscriptions := subscriptions (db w) @ [s]\<rparr>
         \<or> (\<exists>e\<in>set (subscriptions (db w)). s_stripe_id e = s_stripe_id s \<and> s_id s = s_id e
           \<and> s_scheduled_plan s = s_scheduled_plan e \<and> s_scheduled_change_at s = s_scheduled_change_at e
           \<and> s_created_at s = s_created_at e
           \<and> db w' = (db w)\<lparr>subscriptions := map (\<lambda>x. if x = e then s else x) (subscriptions (db w))\<rparr>))"
proof (cases r)
  case (Inl e)
  with assms(3) show ?thesis using mirror.sync_Inl by (simp add: sync_django_def)
next
  case (Inr u)
  let ?i = "id_supply w (drawn w)"
  have run: "sync_subscription_from_data sub django_customers django_plans django_subscriptions w = (Inr (), w')"
    using assms(3) Inr by (simp add: sync_django_def)
  have ok: "db_ok (db w)" and fresh: "?i \<notin> s_id ` set (subscriptions (db w))"
    using assms(1,2) by (simp_all add: consistent_def uuids_fresh_def)
  obtain cust item price_id sid ps pe where
    k: "subscription_keys sub = Inr (cust, item, price_id, sid, ps, pe)"
    by (rule mirror.sync_Inr [OF run]) (auto simp: mirror.target_row_def elim!: rbind_InrE)
  obtain s where t: "mirror.target_row sub (db w) ?i (clock w) = Inr s"
    and tab: "subscriptions (db w') = (case find_stripe sid (subscriptions (db w)) of
        None \<Rightarrow> subscriptions (db w) @ [s]
      | Some e \<Rightarrow> map (\<lambda>x. if x = e then s else x) (subscriptions (db w)))"
    using ok run fresh k by (rule mirror.sync_table)
  obtain c p i sp sc t0 where c: "first_by c_id (filter (\<lambda>c. c_stripe_id c = cust) (customers (db w))) = Some c"
    and p: "price_row (db w) price_id = Some p"
    and row: "subscription_row sub item sid (c_id c) (c_user c) (pp_plan p) ps pe i sp sc t0 = Inr s"
    and kept: "(case find_stripe sid (subscriptions (db w)) of
        None \<Rightarrow> i = ?i \<and> sp = None \<and> sc = None \<and> t0 = clock w
      | Some e \<Rightarrow> i = s_id e \<and> sp = s_scheduled_plan e \<and> sc = s_scheduled_change_at e \<and> t0 = s_created_at e)"
    using t k by (auto simp: mirror.target_row_def split: option.splits)
  note f = subscription_row_fields [OF row]
  from sync_frame [OF run] tab have
    d: "db w' = (db w)\<lparr>subscriptions := (case find_stripe sid (subscriptions (db w)) of
        None \<Rightarrow> subscriptions (db w) @ [s]
      | Some e \<Rightarrow> map (\<lambda>x. if x = e then s else x) (subscriptions (db w)))\<rparr>" by auto
  from k obtain j kp l items rest where
    keys: "dindex sub ''customer'' = Inr j" "cust = py_str j" "dindex sub ''items'' = Inr items"
      "dindex items ''data'' = Inr (JArr (item # rest))"
      "rbind (dindex item ''price'') (\<lambda>p. dindex p ''id'') = Inr kp" "price_id = py_str kp"
    and id: "dindex sub ''id'' = Inr l" "sid = py_str l" and win: "extract_period_window sub item sid = Inr (ps, pe)"
    by (rule subscription_keys_Inr)
  have m: "mirrors sub item s" using row id win by (rule subscription_row_mirrors)
  have tab: "(\<forall>e\<in>set (subscriptions (db w)). s_stripe_id e \<noteq> s_stripe_id s)
           \<and> s_id s \<notin> s_id ` set (subscriptions (db w))
           \<and> s_scheduled_plan s = None \<and> s_scheduled_change_at s = None \<and> s_created_at s = clock w
           \<and> db w' = (db w)\<lparr>subscriptions := subscriptions (db w) @ [s]\<rparr>
         \<or> (\<exists>e\<in>set (subscriptions (db w)). s_stripe_id e = s_stripe_id s \<and> s_id s = s_id e
           \<and> s_scheduled_plan s = s_scheduled_plan e \<and> s_scheduled_change_at s = s_scheduled_change_at e
           \<and> s_created_at s = s_created_at e
           \<and> db w' = (db w)\<lparr>subscriptions := map (\<lambda>x. if x = e then s else x) (subscriptions (db w))\<rparr>)"
  proof (cases "find_stripe sid (subscriptions (db w))")
    case None
    with kept f d fresh find_stripe_None show ?thesis by simp
  next
    case (Some e)
    with kept f d find_stripe_Some [OF Some] show ?thesis by (intro disjI2 bexI [of _ e]) simp_all
  qed
  from c p have loc: "c \<in> set (customers (db w))" "c_stripe_id c = py_str j"
    "p \<in> set (plan_prices (db w))" "pp_stripe_price_id p = py_str kp"
    using keys by (auto simp: price_row_def dest: first_by_filter_Some)
  show ?thesis unfolding Inr sum.case
    by (rule exI [of _ j], rule exI [of _ items], rule exI [of _ item], rule exI [of _ rest],
        rule exI [of _ kp], rule exI [of _ c], rule exI [of _ p], rule exI [of _ s],
        intro conjI keys loc m tab) (use f in simp_all)
qed

text \<open>
  C6.  Mirroring never loses what the payload does not carry: every stored subscription keeps its
  id, its Stripe id, its age and its pending plan change, the mirrored one included.
\<close>

theorem sync_preserves_pending_change:
  assumes "consistent w" and "uuids_fresh subscriptions_T w"
    and "sync_django sub w = (Inr (), w')" and "e \<in> set (subscriptions (db w))"
  shows "\<exists>e'\<in>set (subscriptions (db w')). s_id e' = s_id e \<and> s_stripe_id e' = s_stripe_id e
    \<and> s_scheduled_plan e' = s_scheduled_plan e \<and> s_scheduled_change_at e' = s_scheduled_change_at e
    \<and> s_created_at e' = s_created_at e"
  using assms mirror.sync_keeps_fields [of w sub w' e]
  by (simp add: sync_django_def consistent_def uuids_fresh_def)

text \<open>
   Webhooks are delivered at least once: applying the same subscription payload again leaves
  the database unchanged.
\<close>

theorem sync_idempotent:
  assumes "consistent w" and "uuids_fresh subscriptions_T w" and "sync_django sub w = (Inr (), w1)"
  shows "db (snd (sync_django sub w1)) = db w1"
  using assms mirror.sync_replay [of w sub w1]
  by (simp add: sync_django_def consistent_def uuids_fresh_def)

section \<open>Witnesses\<close>

definition sample_payload :: json where
  "sample_payload = JObj [(''id'', JStr ''sub_1''), (''customer'', JStr ''cus_1''),
     (''status'', JStr ''past_due''), (''trial_end'', JInt 5), (''canceled_at'', JInt 7), (''cancel_at'', JInt 9),
     (''items'', JObj [(''data'', JArr [JObj
       [(''price'', JObj [(''id'', JStr ''price_1''), (''currency'', JStr ''EUR'')]),
        (''quantity'', JInt 2), (''current_period_start'', JInt 10), (''current_period_end'', JInt 20)]])])]"

lemma sample_sync: "fst (sync_django sample_payload (start_world sample_db)) = Inr ()"
  by code_simp

theorem sync_stores_payload_witness:
  "\<exists>s\<in>set (subscriptions (db (snd (sync_django sample_payload (start_world sample_db))))).
     s_id s = 40 \<and> s_customer s = Some 30 \<and> s_user s = Some 1 \<and> s_status s = PAST_DUE \<and> s_seat_limit s = 2
   \<and> s_trial_ends_at s = Some 5000000 \<and> s_canceled_at s = Some 7000000 \<and> s_cancel_at s = Some 9000000
   \<and> s_period_start s = 10000000 \<and> s_period_end s = 20000000 \<and> s_scheduled_plan s = Some 22"
proof -
  let ?w' = "snd (sync_django sample_payload (start_world sample_db))"
  have run: "sync_django sample_payload (start_world sample_db) = (Inr (), ?w')"
    using sample_sync by (simp add: prod_eq_iff)
  let ?w = "start_world sample_db"
  obtain cust items item rest s and c :: customer where
    keys: "dindex sample_payload ''items'' = Inr items" "dindex items ''data'' = Inr (JArr (item # rest))"
    and c: "dindex sample_payload ''customer'' = Inr cust" "c \<in> set (customers (db ?w))" "c_stripe_id c = py_str cust"
      "s_customer s = Some (c_id c)" "s_user s = c_user c"
    and m: "mirrors sample_payload item s"
    and st: "(\<forall>e\<in>set (subscriptions (db ?w)). s_stripe_id e \<noteq> s_stripe_id s)
           \<and> s_id s \<notin> s_id ` set (subscriptions (db ?w))
           \<and> s_scheduled_plan s = None \<and> s_scheduled_change_at s = None \<and> s_created_at s = clock ?w
           \<and> db ?w' = (db ?w)\<lparr>subscriptions := subscriptions (db ?w) @ [s]\<rparr>
         \<or> (\<exists>e\<in>set (subscriptions (db ?w)). s_stripe_id e = s_stripe_id s \<and> s_id s = s_id e
           \<and> s_scheduled_plan s = s_scheduled_plan e \<and> s_scheduled_change_at s = s_scheduled_change_at e
           \<and> s_created_at s = s_created_at e
           \<and> db ?w' = (db ?w)\<lparr>subscriptions := map (\<lambda>x. if x = e then s else x) (subscriptions (db ?w))\<rparr>)"
    using sync_stores_payload [OF sample_consistent sample_fresh(3) run, unfolded sum.case]
    by (elim exE conjE) (rule that)
  from keys have item: "item = JObj [(''price'', JObj [(''id'', JStr ''price_1''), (''currency'', JStr ''EUR'')]),
        (''quantity'', JInt 2), (''current_period_start'', JInt 10), (''current_period_end'', JInt 20)]"
    by (auto simp: sample_payload_def)
  have "status_text (s_status s) = ''past_due''" and f: "s_stripe_id s = Some ''sub_1''" "s_seat_limit s = 2"
    "s_trial_ends_at s = Some 5000000" "s_canceled_at s = Some 7000000" "s_cancel_at s = Some 9000000"
    "s_period_start s = 10000000" "s_period_end s = 20000000"
    using m by (simp_all add: mirrors_def item sample_payload_def stamp_def dget_def)
  then have "s_status s = PAST_DUE" by (cases "s_status s") (simp_all add: status_text_def)
  moreover have "s_id s = 40 \<and> s_scheduled_plan s = Some 22 \<and> s \<in> set (subscriptions (db ?w'))"
    using st
  proof
    assume "(\<forall>e\<in>set (subscriptions (db ?w)). s_stripe_id e \<noteq> s_stripe_id s) \<and> s_id s \<notin> s_id ` set (subscriptions (db ?w))
       \<and> s_scheduled_plan s = None \<and> s_scheduled_change_at s = None \<and> s_created_at s = clock ?w
       \<and> db ?w' = (db ?w)\<lparr>subscriptions := subscriptions (db ?w) @ [s]\<rparr>"
    then show ?thesis using f(1) by (simp add: sample_simps)
  next
    assume "\<exists>e\<in>set (subscriptions (db ?w)). s_stripe_id e = s_stripe_id s \<and> s_id s = s_id e
       \<and> s_scheduled_plan s = s_scheduled_plan e \<and> s_scheduled_change_at s = s_scheduled_change_at e
       \<and> s_created_at s = s_created_at e
       \<and> db ?w' = (db ?w)\<lparr>subscriptions := map (\<lambda>x. if x = e then s else x) (subscriptions (db ?w))\<rparr>"
    then obtain e where e: "e \<in> set (subscriptions (db ?w))" "s_stripe_id e = s_stripe_id s" "s_id s = s_id e"
      "s_scheduled_plan s = s_scheduled_plan e"
      and d: "db ?w' = (db ?w)\<lparr>subscriptions := map (\<lambda>x. if x = e then s else x) (subscriptions (db ?w))\<rparr>" by blast
    then have "s_id e = 40" "s_scheduled_plan e = Some 22" using f(1) by (auto simp: sample_simps)
    moreover have "s \<in> set (subscriptions (db ?w'))" unfolding d using e(1) by simp
    ultimately show ?thesis using e by simp
  qed
  moreover have "s_customer s = Some 30" "s_user s = Some 1"
    using c by (auto simp: sample_simps sample_payload_def)
  ultimately show ?thesis using f by blast
qed

theorem sync_preserves_pending_change_witness:
  "\<exists>e'\<in>set (subscriptions (db (snd (sync_django sample_payload (start_world sample_db))))).
     s_id e' = 40 \<and> s_scheduled_plan e' = Some 22 \<and> s_scheduled_change_at e' = Some 1000000"
proof -
  have run: "sync_django sample_payload (start_world sample_db)
      = (Inr (), snd (sync_django sample_payload (start_world sample_db)))"
    using sample_sync by (simp add: prod_eq_iff)
  have e: "sample_sub \<in> set (subscriptions (db (start_world sample_db)))"
    by (simp add: sample_db_def start_world_def)
  from sync_preserves_pending_change [OF sample_consistent sample_fresh(3) run e] show ?thesis
    by (auto simp: sample_sub_def)
qed

theorem sync_idempotent_witness:
  "find_stripe ''sub_1'' (subscriptions (db (snd (sync_django sample_payload
     (snd (sync_django sample_payload (start_world sample_db))))))) \<noteq> None"
proof -
  let ?w = "snd (sync_django sample_payload (start_world sample_db))"
  have run: "sync_django sample_payload (start_world sample_db) = (Inr (), ?w)"
    using sample_sync by (simp add: prod_eq_iff)
  have "find_stripe ''sub_1'' (subscriptions (db ?w)) \<noteq> None"
    by code_simp
  with sync_idempotent [OF sample_consistent sample_fresh(3) run] show ?thesis by simp
qed

end
