(* ===== verification/OrgServices.thy ===== *)
theory OrgServices
  imports Accounts Webhooks Billing
begin

text \<open>
  The life of an organisation, \<open>apps/orgs/services.py\<close> and \<open>apps/orgs/tasks.py\<close>, with the role
  ranks of \<open>saasmint_core/services/orgs.py\<close>: slugs, creation after a team checkout, accepting an
  invitation, and the three ways an organisation is deleted.
\<close>

section \<open>Slugs\<close>

definition slug_char :: "char \<Rightarrow> bool" where
  "slug_char c \<longleftrightarrow> is_lower_alpha c \<or> is_digit c \<or> c = CHR ''-''"

definition slug_base :: "env \<Rightarrow> string \<Rightarrow> string" where
  "slug_base E name =
     (let b = strip_chars (\<lambda>c. c = CHR ''-'') (filter slug_char (slugify E name))
      in if length b < 2 then ''org'' else b)"

text \<open>\<open>^base(?:-\d+)?$\<close>; \<open>$\<close> also matches before a final newline.\<close>

definition suffix_match :: "string \<Rightarrow> string \<Rightarrow> bool" where
  "suffix_match base s \<longleftrightarrow>
     s = base \<or> (startswith s (base @ ''-'') \<and> drop (length base + 1) s \<noteq> []
                 \<and> list_all is_digit (drop (length base + 1) s))"

definition suffix_re :: "string \<Rightarrow> string \<Rightarrow> bool" where
  "suffix_re base s \<longleftrightarrow> suffix_match base s
     \<or> (s \<noteq> [] \<and> last s = char_of (10 :: nat) \<and> suffix_match base (butlast s))"

definition with_suffix :: "string \<Rightarrow> nat \<Rightarrow> string" where
  "with_suffix base n = base @ ''-'' @ str_nat n"

lemma inj_with_suffix: "with_suffix base m = with_suffix base n \<Longrightarrow> m = n"
  by (simp add: with_suffix_def inj_str_nat)

text \<open>
  \<open>while f"{base}-{suffix}" in existing: suffix += 1\<close>. Each turn leaves one name fewer that the loop
  can still meet, so it ends.
\<close>

function free_suffix :: "string list \<Rightarrow> string \<Rightarrow> nat \<Rightarrow> nat" where
  "free_suffix existing base n =
     (if with_suffix base n \<in> set existing then free_suffix existing base (n + 1) else n)"
  by pat_completeness auto

termination
proof (relation "measure (\<lambda>(existing, base, n). card {s \<in> set existing. \<exists>m\<ge>n. s = with_suffix base m})",
    simp, goal_cases)
  case (1 existing base n)
  let ?S = "\<lambda>n. {s \<in> set existing. \<exists>m\<ge>n. s = with_suffix base m}"
  have "?S (n + 1) \<subset> ?S n"
  proof
    show "?S (n + 1) \<subseteq> ?S n" by (auto dest: Suc_leD)
    have "with_suffix base n \<in> ?S n" using 1 by auto
    moreover have "with_suffix base n \<notin> ?S (n + 1)" by (auto dest: inj_with_suffix)
    ultimately show "?S (n + 1) \<noteq> ?S n" by blast
  qed
  then have "card (?S (n + 1)) < card (?S n)" by (intro psubset_card_mono) auto
  then show ?case by simp
qed

declare free_suffix.simps [simp del]

definition pick_slug :: "string list \<Rightarrow> string \<Rightarrow> string" where
  "pick_slug slugs base =
     (let existing = filter (\<lambda>s. startswith s base \<and> suffix_re base s) slugs in
      if base \<notin> set existing then base else with_suffix base (free_suffix existing base 2))"

definition generate_unique_slug :: "env \<Rightarrow> string \<Rightarrow> string io" where
  "generate_unique_slug E name = mgets (\<lambda>w. pick_slug (map o_slug (orgs (db w))) (slug_base E name))"

section \<open>Team checkout\<close>

text \<open>A JSON value in a \<open>BooleanField\<close>: Django converts it or refuses it.\<close>

fun bool_column :: "json \<Rightarrow> bool res" where
  "bool_column (JBool b) = Inr b"
| "bool_column (JInt i) = (if i = 1 then Inr True else if i = 0 then Inr False else Inl ValidationError)"
| "bool_column (JStr s) = (if s = ''t'' \<or> s = ''True'' \<or> s = ''1'' then Inr True
     else if s = ''f'' \<or> s = ''False'' \<or> s = ''0'' then Inr False else Inl ValidationError)"
| "bool_column JNull = Inl IntegrityError"
| "bool_column _ = Inl ValidationError"

definition new_org :: "env \<Rightarrow> uuid \<Rightarrow> string \<Rightarrow> org io" where
  "new_org E user name =
     mbind (generate_unique_slug E name) (\<lambda>slug.
     mbind fresh_uuid (\<lambda>i. mbind now (\<lambda>t.
       let g = \<lparr>o_id = i, o_name = name, o_slug = slug, o_logo_url = None, o_created_by = Some user,
                o_created_at = t\<rparr>
       in mseq (create_row orgs_T g) (mret g))))"

definition new_member :: "uuid \<Rightarrow> uuid \<Rightarrow> org_role \<Rightarrow> bool \<Rightarrow> org_member io" where
  "new_member g u role billing =
     mbind fresh_uuid (\<lambda>i. mbind now (\<lambda>t.
       let m = \<lparr>m_id = i, m_org = g, m_user = u, m_role = role, m_is_billing = billing, m_joined_at = t\<rparr>
       in mseq (create_row members_T m) (mret m)))"

definition new_org_customer :: "string \<Rightarrow> uuid \<Rightarrow> json \<Rightarrow> unit io" where
  "new_org_customer sid g livemode =
     mbind fresh_uuid (\<lambda>i. mbind now (\<lambda>t. mbind (mlift (bool_column livemode)) (\<lambda>live.
     create_row customers_T \<lparr>c_id = i, c_stripe_id = sid, c_user = None, c_org = Some g,
       c_livemode = live, c_created_at = t\<rparr>)))"

text \<open>The organisation and membership that an earlier delivery of the same event created.\<close>

definition existing_team :: "uuid \<Rightarrow> string \<Rightarrow> db \<Rightarrow> (org \<times> org_member) option" where
  "existing_team user sid d =
     (case first_by c_id (filter (\<lambda>c. c_stripe_id c = sid) (customers d)) of None \<Rightarrow> None
      | Some c \<Rightarrow>
        (case c_org c of None \<Rightarrow> None
         | Some k \<Rightarrow>
           (case first_by o_id (filter (\<lambda>g. o_id g = k) (orgs d)) of None \<Rightarrow> None
            | Some g \<Rightarrow>
              map_option (\<lambda>m. (g, m))
                (first_by m_id (filter (\<lambda>m. m_org m = o_id g \<and> m_user m = user) (members d))))))"

definition create_org_with_owner ::
  "env \<Rightarrow> uuid \<Rightarrow> string \<Rightarrow> string option \<Rightarrow> json \<Rightarrow> (org \<times> org_member) io" where
  "create_org_with_owner E user name customer livemode = atomic (
     mbind (mgets (\<lambda>w. case customer of None \<Rightarrow> None | Some sid \<Rightarrow> existing_team user sid (db w))) (\<lambda>already.
     case already of Some gm \<Rightarrow> mret gm
     | None \<Rightarrow>
       mbind (new_org E user name) (\<lambda>g.
       mbind (new_member (o_id g) user OWNER True) (\<lambda>m.
       mseq (case customer of None \<Rightarrow> mret () | Some sid \<Rightarrow> new_org_customer sid (o_id g) livemode)
       (mret (g, m))))))"

definition persist_team_subscription :: "env \<Rightarrow> json \<Rightarrow> unit io" where
  "persist_team_subscription E sid = mbind (call_stripe E (SubRetrieve (py_str sid))) sync_django"

definition schedule_personal_cancel :: "env \<Rightarrow> uuid \<Rightarrow> unit io" where
  "schedule_personal_cancel E user =
     mbind (cust_by_user_id django_customers user) (\<lambda>customer.
     case customer of None \<Rightarrow> mret ()
     | Some c \<Rightarrow>
       mtry (cancel_subscription E (c_id c) True django_subscriptions)
         (\<lambda>e. if e = SubscriptionNotFoundError then mret () else mraise e))"

definition on_team_checkout_completed ::
  "env \<Rightarrow> uuid \<Rightarrow> json \<Rightarrow> string \<Rightarrow> json \<Rightarrow> json \<Rightarrow> bool \<Rightarrow> unit io" where
  "on_team_checkout_completed E user name customer livemode sub keep_personal =
     mbind (owner_or user ObjectDoesNotExist) (\<lambda>u.
     mbind (create_org_with_owner E (u_id u) (py_str name) (Some customer) livemode) (\<lambda>gm.
     mseq (mwhen (sub \<noteq> JNull) (persist_team_subscription E sub))
     (mwhen (\<not> keep_personal) (schedule_personal_cancel E user))))"

section \<open>Roles\<close>

fun org_role_rank :: "org_role \<Rightarrow> nat" where
  "org_role_rank OWNER = 3"
| "org_role_rank ADMIN = 2"
| "org_role_rank MEMBER = 1"

definition check_can_manage_member :: "org_role \<Rightarrow> org_role \<Rightarrow> unit res" where
  "check_can_manage_member caller target =
     (if org_role_rank target \<ge> org_role_rank caller then Inl InsufficientPermissionError else Inr ())"

definition check_can_assign_role :: "org_role \<Rightarrow> org_role \<Rightarrow> unit res" where
  "check_can_assign_role caller new =
     (if org_role_rank new \<ge> org_role_rank caller then Inl InsufficientPermissionError else Inr ())"

text \<open>The roles are ordered by their rank.\<close>

instantiation org_role :: linorder
begin

definition less_eq_org_role :: "org_role \<Rightarrow> org_role \<Rightarrow> bool" where
  "less_eq_org_role a b \<longleftrightarrow> org_role_rank a \<le> org_role_rank b"

definition less_org_role :: "org_role \<Rightarrow> org_role \<Rightarrow> bool" where
  "less_org_role a b \<longleftrightarrow> org_role_rank a < org_role_rank b"

instance
proof
  fix a b c :: org_role
  show "(a < b) = (a \<le> b \<and> \<not> b \<le> a)" by (auto simp: less_eq_org_role_def less_org_role_def)
  show "a \<le> a" by (simp add: less_eq_org_role_def)
  show "a \<le> b \<Longrightarrow> b \<le> c \<Longrightarrow> a \<le> c" by (simp add: less_eq_org_role_def)
  show "a \<le> b \<Longrightarrow> b \<le> a \<Longrightarrow> a = b" by (cases a; cases b) (simp_all add: less_eq_org_role_def)
  show "a \<le> b \<or> b \<le> a" by (auto simp: less_eq_org_role_def)
qed

end

lemma check_can_manage_iff: "check_can_manage_member caller target = Inr () \<longleftrightarrow> target < caller"
  by (auto simp: check_can_manage_member_def less_org_role_def)

lemma check_can_assign_iff: "check_can_assign_role caller new = Inr () \<longleftrightarrow> new < caller"
  by (auto simp: check_can_assign_role_def less_org_role_def)

section \<open>Accepting an invitation\<close>

text \<open>The active subscriptions of an organisation's Stripe customer.\<close>

definition customer_of_org :: "db \<Rightarrow> uuid \<Rightarrow> subscription \<Rightarrow> bool" where
  "customer_of_org d g s =
     list_ex (\<lambda>c. Some (c_id c) = s_customer s \<and> c_org c = Some g) (customers d)"

definition lock_active_team_sub :: "uuid \<Rightarrow> subscription option io" where
  "lock_active_team_sub g = mgets (\<lambda>w. first_by s_id
     (filter (\<lambda>s. customer_of_org (db w) g s \<and> active_status (s_status s)) (subscriptions (db w))))"

text \<open>The seats are counted again under the row lock.\<close>

definition check_seat_cap :: "uuid \<Rightarrow> unit io" where
  "check_seat_cap g =
     mbind (lock_active_team_sub g) (\<lambda>sub.
     case sub of None \<Rightarrow> mret ()
     | Some s \<Rightarrow> mbind (count_rows members_T (\<lambda>m. m_org m = g)) (\<lambda>n.
         mguard (int n + 1 \<le> s_seat_limit s) SeatCapReachedAtAcceptError))"

definition join_org :: "env \<Rightarrow> invitation \<Rightarrow> string \<Rightarrow> org \<Rightarrow> (user \<times> org) io" where
  "join_org E invite full_name g =
     mseq (check_seat_cap (o_id g))
     (mbind (create_user E (i_email invite) None (\<lambda>u. u\<lparr>u_full_name := full_name, u_is_verified := False\<rparr>)) (\<lambda>u.
      mbind (new_member (o_id g) (u_id u) (i_role invite) False) (\<lambda>m.
      mseq (save_row invitations_T (i_id invite) (\<lambda>i. i\<lparr>i_status := ACCEPTED\<rparr>))
      (mbind (create_email_verification_token E u) (\<lambda>token.
       mseq (on_commit (SendVerificationEmail (u_email u) token)) (mret (u, g)))))))"

definition accept_invitation :: "env \<Rightarrow> invitation \<Rightarrow> string \<Rightarrow> (user \<times> org) io" where
  "accept_invitation E invite full_name =
     mbind (get_row orgs_T (\<lambda>g. o_id g = i_org invite) ObjectDoesNotExist) (\<lambda>g.
     atomic (join_org E invite full_name g))"

section \<open>Deleting organisations\<close>

definition delete_org_on_subscription_cancel :: "uuid \<Rightarrow> unit io" where
  "delete_org_on_subscription_cancel g = delay (DeleteOrgOnSubscriptionCancel g)"

text \<open>
  Who is deleted with a set of organisations: their members who belong to no other organisation
  and have no active subscription of their own.
\<close>

definition personal_sub :: "db \<Rightarrow> uuid \<Rightarrow> subscription \<Rightarrow> bool" where
  "personal_sub d u s \<longleftrightarrow> s_user s = Some u \<and> active_status (s_status s)
     \<and> list_ex (\<lambda>c. Some (c_id c) = s_customer s \<and> c_user c = Some u) (customers d)"

definition deletable :: "db \<Rightarrow> uuid list \<Rightarrow> uuid \<Rightarrow> bool" where
  "deletable d gs u \<longleftrightarrow> list_ex (\<lambda>m. m_user m = u \<and> m_org m \<in> set gs) (members d)
     \<and> \<not> list_ex (\<lambda>m. m_user m = u \<and> m_org m \<notin> set gs) (members d)
     \<and> \<not> list_ex (personal_sub d u) (subscriptions d)"

definition cancel_pending_invitations :: "uuid list \<Rightarrow> unit io" where
  "cancel_pending_invitations gs =
     update_rows invitations_T (\<lambda>i. i_org i \<in> set gs \<and> i_status i = PENDING) (\<lambda>i. i\<lparr>i_status := CANCELLED\<rparr>)"

definition delete_orgs_db :: "uuid list \<Rightarrow> unit io" where
  "delete_orgs_db gs = atomic (
     mseq (cancel_pending_invitations gs)
     (mbind (mgets db) (\<lambda>d.
     mseq (delete_users (\<lambda>u. deletable d gs (u_id u)))
     (mseq (delete_rows members_T (\<lambda>m. m_org m \<in> set gs))
     (delete_orgs (\<lambda>g. o_id g \<in> set gs))))))"

definition delete_org_db_only :: "uuid \<Rightarrow> unit io" where
  "delete_org_db_only g = delete_orgs_db [g]"

definition stripe_backed :: "db \<Rightarrow> uuid \<Rightarrow> subscription \<Rightarrow> bool" where
  "stripe_backed d g s \<longleftrightarrow> customer_of_org d g s \<and> active_status (s_status s) \<and> s_stripe_id s \<noteq> None"

definition get_active_stripe_sub :: "uuid \<Rightarrow> subscription option io" where
  "get_active_stripe_sub g = mgets (\<lambda>w. latest_by s_created_at
     (filter (stripe_backed (db w) g) (subscriptions (db w))))"

definition delete_org :: "uuid \<Rightarrow> unit io" where
  "delete_org g =
     mbind (get_active_stripe_sub g) (\<lambda>active.
     mseq (delete_org_db_only g)
     (case active of None \<Rightarrow> mret ()
      | Some s \<Rightarrow> (case s_stripe_id s of None \<Rightarrow> mret ()
                   | Some sid \<Rightarrow> on_commit (CancelStripeSubs [sid] (uuid_str g)))))"

definition delete_orgs_created_by_user :: "uuid \<Rightarrow> unit io" where
  "delete_orgs_created_by_user user =
     mbind (rows orgs_T (\<lambda>g. o_created_by g = Some user)) (\<lambda>gs.
     if gs = [] then mret ()
     else let ids = map o_id gs in
       mbind (mgets (\<lambda>w. map (\<lambda>k. latest_by s_created_at
           (filter (stripe_backed (db w) k) (subscriptions (db w)))) ids)) (\<lambda>subs.
       let pending = somes (map s_stripe_id (somes subs)) in
       mseq (delete_orgs_db ids)
       (mwhen (pending \<noteq> []) (on_commit (CancelStripeSubs pending (''user:'' @ uuid_str user))))))"

section \<open>Tasks\<close>

definition delete_org_on_subscription_cancel_task :: "uuid \<Rightarrow> unit io" where
  "delete_org_on_subscription_cancel_task k =
     mbind (first_row orgs_T (\<lambda>g. o_id g = k)) (\<lambda>g.
     case g of None \<Rightarrow> mret () | Some g \<Rightarrow> delete_org_db_only (o_id g))"

definition is_stripe_error :: "exn \<Rightarrow> bool" where
  "is_stripe_error e \<longleftrightarrow> (case e of StripeInvalidRequest _ \<Rightarrow> True | StripeError \<Rightarrow> True | _ \<Rightarrow> False)"

text \<open>Every subscription is attempted; the failures are collected and the first is raised.\<close>

fun cancel_each :: "env \<Rightarrow> string list \<Rightarrow> exn list io" where
  "cancel_each E [] = mret []"
| "cancel_each E (sid # rest) =
     mbind (mtry (mseq (call_stripe E (SubCancel sid (Some False))) (mret []))
        (\<lambda>e. if e = StripeInvalidRequest (Some ''resource_missing'') then mret []
             else if is_stripe_error e then mret [e] else mraise e)) (\<lambda>failed.
     mbind (cancel_each E rest) (\<lambda>more. mret (failed @ more)))"

definition cancel_stripe_subs_task :: "env \<Rightarrow> string list \<Rightarrow> unit io" where
  "cancel_stripe_subs_task E sids =
     mbind (cancel_each E sids) (\<lambda>failures. case failures of [] \<Rightarrow> mret () | e # _ \<Rightarrow> mraise e)"


section \<open>Invariants\<close>

lemma keeps_generate [keeps_intros]:
  "keeps consistent (generate_unique_slug E name)" "keeps consistent (new_org E user name)"
  "keeps consistent (new_member g u role billing)" "keeps consistent (new_org_customer sid g live)"
  unfolding generate_unique_slug_def new_org_def new_member_def new_org_customer_def Let_def
  by (intro keeps_intros)+

lemma keeps_team_checkout [keeps_intros]:
  "keeps consistent (create_org_with_owner E u name customer live)"
  "keeps consistent (persist_team_subscription E j)"
  "keeps consistent (schedule_personal_cancel E u)"
  "keeps consistent (on_team_checkout_completed E u jname sid live sub flag)"
  unfolding on_team_checkout_completed_def create_org_with_owner_def persist_team_subscription_def
    schedule_personal_cancel_def django_sel
  by (intro keeps_intros)+

lemma keeps_accept [keeps_intros]: "keeps consistent (accept_invitation E invite name)"
  unfolding accept_invitation_def join_org_def check_seat_cap_def lock_active_team_sub_def
  by (intro keeps_intros) simp

lemma keeps_delete_orgs_db [keeps_intros]:
  "keeps consistent (delete_orgs_db gs)" "keeps consistent (delete_org_db_only g)"
  "keeps consistent (delete_org g)" "keeps consistent (delete_orgs_created_by_user u)"
  "keeps consistent (delete_org_on_subscription_cancel g)"
  "keeps consistent (delete_org_on_subscription_cancel_task g)"
  unfolding delete_org_def delete_orgs_created_by_user_def delete_org_on_subscription_cancel_def
    delete_org_on_subscription_cancel_task_def get_active_stripe_sub_def delete_org_db_only_def
    delete_orgs_db_def cancel_pending_invitations_def Let_def
  by (intro keeps_intros; simp)+

lemma keeps_cancel_each [keeps_intros]: "keeps consistent (cancel_each E sids)"
proof (induction sids)
  case Nil
  show ?case unfolding cancel_each.simps by (rule keeps_mret)
next
  case (Cons sid sids)
  then show ?case unfolding cancel_each.simps by (intro keeps_intros)
qed

section \<open>Slugs\<close>

lemma free_suffix_free: "with_suffix base (free_suffix existing base n) \<notin> set existing"
  by (induction existing base n rule: free_suffix.induct) (subst free_suffix.simps, simp)

lemma free_suffix_le:
  "n \<le> free_suffix existing base n
   \<and> (\<forall>m. n \<le> m \<longrightarrow> m < free_suffix existing base n \<longrightarrow> with_suffix base m \<in> set existing)"
proof (induction existing base n rule: free_suffix.induct)
  case (1 existing base n)
  show ?case
  proof (cases "with_suffix base n \<in> set existing")
    case True
    then have eq: "free_suffix existing base n = free_suffix existing base (n + 1)"
      by (subst free_suffix.simps) simp
    with 1 [OF True] True show ?thesis
      by (auto simp: eq) (metis Suc_leI le_neq_implies_less)
  next
    case False
    then have "free_suffix existing base n = n" by (subst free_suffix.simps) simp
    then show ?thesis by simp
  qed
qed

lemma with_suffix_match: "suffix_re base (with_suffix base n) \<and> startswith (with_suffix base n) base"
  using str_nat_digits [of _ n] by (auto simp: suffix_re_def suffix_match_def with_suffix_def
      startswith_def list_all_iff)

lemma pick_slug_fresh: "pick_slug slugs base \<notin> set slugs"
proof -
  have b: "suffix_re base base" "startswith base base"
    by (simp_all add: suffix_re_def suffix_match_def startswith_def)
  show ?thesis
    using b with_suffix_match [of base] free_suffix_free [of base "filter (\<lambda>s. startswith s base \<and> suffix_re base s) slugs" 2]
    by (auto simp: pick_slug_def Let_def)
qed

lemma strip_chars_subset: "set (strip_chars P s) \<subseteq> set s"
  by (auto simp: strip_chars_def dest!: set_dropWhileD)

lemma strip_chars_ends:
  assumes "strip_chars P s \<noteq> []"
  shows "\<not> P (hd (strip_chars P s)) \<and> \<not> P (last (strip_chars P s))"
proof -
  let ?t = "dropWhile P s"
  have ne: "dropWhile P (rev ?t) \<noteq> []" using assms by (simp add: strip_chars_def)
  then have l: "\<not> P (last (strip_chars P s))"
    using hd_dropWhile [of P "rev ?t"] by (auto simp: strip_chars_def last_rev dropWhile_eq_Nil_conv)
  have "?t \<noteq> []" using ne by (metis dropWhile.simps(1) rev.simps(1))
  then have h: "\<not> P (hd ?t)" by (rule hd_dropWhile)
  have "\<exists>k. strip_chars P s = take k ?t"
    unfolding strip_chars_def drop_while_end.simps
    by (metis dropWhile_eq_drop rev_drop rev_rev_ident length_rev)
  then have "hd (strip_chars P s) = hd ?t" using assms by (auto simp: hd_take)
  with h l show ?thesis by simp
qed

definition well_formed_slug :: "string \<Rightarrow> bool" where
  "well_formed_slug s \<longleftrightarrow> 2 \<le> length s \<and> list_all slug_char s \<and> hd s \<noteq> CHR ''-'' \<and> last s \<noteq> CHR ''-''"

lemma slug_base_well_formed: "well_formed_slug (slug_base E name)"
proof (cases "length (strip_chars (\<lambda>c. c = CHR ''-'') (filter slug_char (slugify E name))) < 2")
  case True
  then show ?thesis
    by (simp add: slug_base_def well_formed_slug_def slug_char_def is_lower_alpha_def)
next
  case False
  let ?b = "strip_chars (\<lambda>c. c = CHR ''-'') (filter slug_char (slugify E name))"
  from False have "?b \<noteq> []" by auto
  note strip_chars_ends [OF this]
  moreover have "list_all slug_char ?b"
    using strip_chars_subset [of "\<lambda>c. c = CHR ''-''" "filter slug_char (slugify E name)"]
    by (auto simp: list_all_iff)
  ultimately show ?thesis using False by (simp add: slug_base_def well_formed_slug_def)
qed

lemma with_suffix_well_formed: "well_formed_slug base \<Longrightarrow> well_formed_slug (with_suffix base n)"
proof -
  assume b: "well_formed_slug base"
  have "list_all slug_char (str_nat n)" using str_nat_digits [of _ n] by (auto simp: list_all_iff slug_char_def)
  moreover have "last (str_nat n) \<noteq> CHR ''-''"
    using str_nat_digits [of "last (str_nat n)" n] by (auto simp: is_digit_def)
  ultimately show ?thesis
    using b by (auto simp: well_formed_slug_def with_suffix_def slug_char_def hd_append)
qed

text \<open>
  C12. Slugs: the generator ends; the slug it gives is used by no organisation, has at least two
  characters, all lower-case letters, digits or hyphens, with no hyphen at either end.  It is the
  slugified name when that is free, and otherwise carries the least free suffix from 2 on.
\<close>

theorem slug_unique:
  "\<exists>s. generate_unique_slug E name w = (Inr s, w) \<and> s \<notin> set (map o_slug (orgs (db w)))
    \<and> well_formed_slug s
    \<and> (let base = slug_base E name in
        if base \<notin> set (map o_slug (orgs (db w))) then s = base
        else (\<exists>n\<ge>2. s = with_suffix base n \<and> list_all (\<lambda>m. with_suffix base m \<in> set (map o_slug (orgs (db w)))) [2..<n]))"
proof -
  let ?slugs = "map o_slug (orgs (db w))" and ?base = "slug_base E name"
  let ?ex = "filter (\<lambda>s. startswith s ?base \<and> suffix_re ?base s) ?slugs"
  have b: "suffix_re ?base ?base" "startswith ?base ?base"
    by (simp_all add: suffix_re_def suffix_match_def startswith_def)
  then have in_ex: "?base \<in> set ?ex \<longleftrightarrow> ?base \<in> set ?slugs" by auto
  note le = free_suffix_le [of 2 ?ex ?base]
  have "pick_slug ?slugs ?base \<notin> set ?slugs" by (rule pick_slug_fresh)
  moreover have "well_formed_slug (pick_slug ?slugs ?base)"
    using slug_base_well_formed with_suffix_well_formed by (simp add: pick_slug_def Let_def)
  moreover have "if ?base \<notin> set ?slugs then pick_slug ?slugs ?base = ?base
      else (\<exists>n\<ge>2. pick_slug ?slugs ?base = with_suffix ?base n
        \<and> list_all (\<lambda>m. with_suffix ?base m \<in> set ?slugs) [2..<n])"
  proof (cases "?base \<in> set ?slugs")
    case True
    then have "pick_slug ?slugs ?base = with_suffix ?base (free_suffix ?ex ?base 2)"
      using in_ex by (simp add: pick_slug_def Let_def)
    with True le show ?thesis by (auto simp: list_all_iff)
  next
    case False
    with in_ex show ?thesis by (simp add: pick_slug_def Let_def)
  qed
  ultimately show ?thesis by (simp add: generate_unique_slug_def run_simps Let_def)
qed

section \<open>Team checkout\<close>

lemma new_org_InrE:
  assumes "new_org E u name w = (Inr g, w')"
  obtains "db w' = (db w)\<lparr>orgs := orgs (db w) @ [g]\<rparr>" and "orgs_ok (orgs (db w) @ [g])"
    and "o_name g = name" and "o_created_by g = Some u"
    and "o_slug g = pick_slug (map o_slug (orgs (db w))) (slug_base E name)"
    and "o_id g = id_supply w (drawn w)" and "o_logo_url g = None"
  using assms by (auto simp: new_org_def generate_unique_slug_def run_simps create_row_def Let_def
      split: if_splits)

lemma new_member_run:
  "new_member g u role billing w =
    (let m = \<lparr>m_id = id_supply w (drawn w), m_org = g, m_user = u, m_role = role,
              m_is_billing = billing, m_joined_at = clock w\<rparr>; w1 = w\<lparr>drawn := drawn w + 1\<rparr> in
     if members_ok (members (db w) @ [m]) \<and> refs_ok (db w) (member_refs m)
     then (Inr m, w1\<lparr>db := (db w)\<lparr>members := members (db w) @ [m]\<rparr>\<rparr>) else (Inl IntegrityError, w1))"
  by (simp add: new_member_def run_simps create_row_def Let_def)

lemma new_member_InrE:
  assumes "new_member g u role billing w = (Inr m, w')"
  obtains "db w' = (db w)\<lparr>members := members (db w) @ [m]\<rparr>" and "members_ok (members (db w) @ [m])"
    and "m_org m = g" and "m_user m = u" and "m_role m = role" and "m_is_billing m = billing"
    and "hooks w' = hooks w" and "in_atomic w' = in_atomic w"
  using assms by (auto simp: new_member_run Let_def split: if_splits)

lemma new_org_customer_InrE:
  assumes "new_org_customer sid g live w = (Inr (), w')"
  obtains c where "db w' = (db w)\<lparr>customers := customers (db w) @ [c]\<rparr>" and "c_stripe_id c = sid"
    and "c_org c = Some g" and "c_user c = None"
  using assms by (auto simp: new_org_customer_def run_simps create_row_def split: if_splits sum.splits)

lemma create_org_InrE:
  assumes "create_org_with_owner E u name (Some sid) live w = (Inr (g, m), w')"
  obtains (old) "existing_team u sid (db w) = Some (g, m)" and "db w' = db w"
  | (new) c where "existing_team u sid (db w) = None"
    and "db w' = (db w)\<lparr>orgs := orgs (db w) @ [g], members := members (db w) @ [m],
           customers := customers (db w) @ [c]\<rparr>"
    and "o_name g = name" and "o_created_by g = Some u"
    and "o_slug g = pick_slug (map o_slug (orgs (db w))) (slug_base E name)"
    and "m_org m = o_id g" and "m_user m = u" and "m_role m = OWNER" and "m_is_billing m"
    and "c_stripe_id c = sid" and "c_org c = Some (o_id g)" and "c_user c = None"
proof -
  from assms obtain w0 w1 where w0: "db w0 = db w" and w1: "db w' = db w1"
    and run: "mbind (mgets (\<lambda>w. existing_team u sid (db w))) (\<lambda>already.
     case already of Some gm \<Rightarrow> mret gm
     | None \<Rightarrow>
       mbind (new_org E u name) (\<lambda>g.
       mbind (new_member (o_id g) u OWNER True) (\<lambda>m.
       mseq (new_org_customer sid (o_id g) live) (mret (g, m))))) w0 = (Inr (g, m), w1)"
    unfolding create_org_with_owner_def by (elim atomic_InrE) simp
  show ?thesis
  proof (cases "existing_team u sid (db w)")
    case None
    with run w0 obtain w2 w3 where a: "new_org E u name w0 = (Inr g, w2)"
      and b: "new_member (o_id g) u OWNER True w2 = (Inr m, w3)"
      and c: "new_org_customer sid (o_id g) live w3 = (Inr (), w1)"
      by (auto elim!: mbind_InrE mseq_InrE)
    from a b c show ?thesis
      by (elim new_org_InrE new_member_InrE new_org_customer_InrE)
        (rule new [OF None], use w0 w1 in simp_all)
  next
    case (Some gm)
    with run w0 w1 old show ?thesis by (simp add: run_simps)
  qed
qed

text \<open>
  C13. A team checkout creates, in one transaction, the organisation with a free slug and the
  buyer as its creator, the buyer's membership as owner with the billing flag, and the Stripe
  customer of the organisation; nothing else changes.
\<close>

theorem team_checkout_creates_org:
  assumes "create_org_with_owner E u name (Some sid) live w = (Inr (g, m), w')"
    and "existing_team u sid (db w) = None"
  shows "\<exists>c. db w' = (db w)\<lparr>orgs := orgs (db w) @ [g], members := members (db w) @ [m],
           customers := customers (db w) @ [c]\<rparr>
    \<and> o_name g = name \<and> o_created_by g = Some u \<and> o_slug g \<notin> set (map o_slug (orgs (db w)))
    \<and> m_org m = o_id g \<and> m_user m = u \<and> m_role m = OWNER \<and> m_is_billing m
    \<and> c_stripe_id c = sid \<and> c_org c = Some (o_id g) \<and> c_user c = None"
  using assms(1)
proof (cases rule: create_org_InrE)
  case old
  with assms(2) show ?thesis by simp
next
  case (new c)
  then show ?thesis using pick_slug_fresh [of "map o_slug (orgs (db w))" "slug_base E name"]
    by (intro exI [of _ c]) simp
qed

text \<open>The team that a checkout created is found again.\<close>

lemma existing_team_found:
  assumes "db_ok d" and "c \<in> set (customers d)" and "g \<in> set (orgs d)" and "m \<in> set (members d)"
    and "c_stripe_id c = sid" and "c_org c = Some (o_id g)" and "m_org m = o_id g" and "m_user m = u"
  shows "existing_team u sid d = Some (g, m)"
proof -
  have k: "distinct (map c_stripe_id (customers d))" "distinct (map o_id (orgs d))"
    "distinct (map (\<lambda>m. (m_org m, m_user m)) (members d))"
    using assms(1) by (simp_all add: db_ok_def tables_ok_def customers_ok_def orgs_ok_def members_ok_def)
  have c: "first_by c_id (filter (\<lambda>c. c_stripe_id c = sid) (customers d)) = Some c"
    by (rule first_by_unique) (use assms k(1) in \<open>auto dest: distinct_map_eqD\<close>)
  have g: "first_by o_id (filter (\<lambda>r. o_id r = o_id g) (orgs d)) = Some g"
    by (rule first_by_unique) (use assms k(2) in \<open>auto dest: distinct_map_eqD\<close>)
  have m: "first_by m_id (filter (\<lambda>r. m_org r = o_id g \<and> m_user r = u) (members d)) = Some m"
    by (rule first_by_unique) (use assms in \<open>auto intro: distinct_map_eqD [OF k(3)]\<close>)
  show ?thesis by (simp add: existing_team_def c g m assms(6))
qed

lemma existing_team_Some:
  assumes "existing_team u sid d = Some (g, m)"
  shows "g \<in> set (orgs d) \<and> m \<in> set (members d) \<and> m_org m = o_id g \<and> m_user m = u
    \<and> (\<exists>c\<in>set (customers d). c_stripe_id c = sid \<and> c_org c = Some (o_id g))"
  using assms by (fastforce simp: existing_team_def split: option.splits dest!: first_by_filter_Some)

text \<open>What only touches subscriptions leaves the rest of the database alone.\<close>

lemma keeps_sub_save_frame:
  assumes "\<And>d xs. Q d \<Longrightarrow> Q (d\<lparr>subscriptions := xs\<rparr>)"
  shows "keeps (on_db Q) (subscription_save s)"
  unfolding subscription_save_def
  by (intro keeps_intros keeps_outside_on_db keeps_create_on_db keeps_save_on_db) (simp_all add: assms)

lemma keeps_sync_frame:
  assumes "\<And>d xs. Q d \<Longrightarrow> Q (d\<lparr>subscriptions := xs\<rparr>)"
  shows "keeps (on_db Q) (sync_django sub)"
  unfolding sync_django_def sync_subscription_from_data_def build_subscription_row_def django_sel
    customer_get_def subscription_by_stripe_id_def
  by (intro keeps_intros keeps_outside_on_db keeps_sub_save_frame assms)

lemma keeps_cancel_frame:
  assumes "\<And>d xs. Q d \<Longrightarrow> Q (d\<lparr>subscriptions := xs\<rparr>)"
  shows "keeps (on_db Q) (cancel_subscription E k b django_subscriptions)"
  unfolding cancel_subscription_def require_active_def mirror_cancel_state_def
    release_pending_schedule_def django_sel get_active_for_customer_def get_latest_active_def
  by (intro keeps_intros keeps_outside_on_db keeps_sub_save_frame assms)

lemma keeps_after_creation:
  assumes "\<And>d xs. Q d \<Longrightarrow> Q (d\<lparr>subscriptions := xs\<rparr>)"
  shows "keeps (on_db Q) (mseq (mwhen (sub \<noteq> JNull) (persist_team_subscription E sub))
     (mwhen (\<not> keep_personal) (schedule_personal_cancel E user)))"
  unfolding persist_team_subscription_def schedule_personal_cancel_def django_sel customer_get_def
  by (intro keeps_intros keeps_outside_on_db keeps_sync_frame keeps_cancel_frame assms)

definition team_tables :: "db \<Rightarrow> org list \<times> org_member list \<times> customer list \<times> user list" where
  "team_tables d = (orgs d, members d, customers d, users d)"

lemma team_tables_subs [simp]: "team_tables (d\<lparr>subscriptions := xs\<rparr>) = team_tables d"
  by (simp add: team_tables_def)

lemma on_team_split:
  assumes "on_team_checkout_completed E u name sid live sub flag w = (r, w')"
  obtains (missing) "r = Inl ObjectDoesNotExist" and "w' = w"
  | (refused) e where "r = Inl e" and "db w' = db w"
      and "create_org_with_owner E u (py_str name) (Some sid) live w = (Inl e, w')"
  | (created) g m w1 where "create_org_with_owner E u (py_str name) (Some sid) live w = (Inr (g, m), w1)"
      and "team_tables (db w') = team_tables (db w1)"
proof (cases "first_by u_id (filter (\<lambda>v. u_id v = u) (users (db w)))")
  case None
  with assms have "r = Inl ObjectDoesNotExist" "w' = w"
    by (simp_all add: on_team_checkout_completed_def owner_or_def run_simps del: first_by_filter_None)
  then show ?thesis by (rule missing)
next
  case (Some v)
  then have v: "u_id v = u" by (auto dest: first_by_filter_Some)
  obtain a w1 where c: "create_org_with_owner E u (py_str name) (Some sid) live w = (a, w1)" by force
  show ?thesis
  proof (cases a)
    case (Inl e)
    with c have "db w1 = db w" unfolding create_org_with_owner_def by (auto dest: atomic_raise_db)
    moreover from Some c Inl v assms have "r = Inl e" "w' = w1"
      by (simp_all add: on_team_checkout_completed_def owner_or_def run_simps)
    ultimately show ?thesis using c Inl by (intro refused) simp_all
  next
    case (Inr gm)
    with Some c v assms have rest: "mseq (mwhen (sub \<noteq> JNull) (persist_team_subscription E sub))
       (mwhen (\<not> flag) (schedule_personal_cancel E u)) w1 = (r, w')"
      by (simp add: on_team_checkout_completed_def owner_or_def mbind_run)
    have "on_db (\<lambda>d. team_tables d = team_tables (db w1)) w'"
      by (rule keepsD_run [OF keeps_after_creation _ rest]) (simp_all add: on_db_def)
    with c Inr show ?thesis by (cases gm) (auto simp: on_db_def intro: created)
  qed
qed

text \<open>
  Delivering a team checkout again creates nothing: after a first delivery that returned, a
  later one for the same user and Stripe customer, with any other content, leaves the
  organisations, members, customers and users as they are, whatever it returns.
\<close>

theorem team_checkout_redelivery:
  assumes "consistent w" and "on_team_checkout_completed E u name sid live sub flag w = (Inr (), w1)"
    and "consistent w2" and "team_tables (db w2) = team_tables (db w1)"
    and "on_team_checkout_completed E' u name' sid live' sub' flag' w2 = (r, w3)"
  shows "team_tables (db w3) = team_tables (db w2)"
proof -
  obtain g m where gm: "existing_team u sid (db w2) = Some (g, m)"
  proof -
    from assms(2) obtain g m wc where c: "create_org_with_owner E u (py_str name) (Some sid) live w = (Inr (g, m), wc)"
      and t: "team_tables (db w1) = team_tables (db wc)" by (auto elim: on_team_split)
    note same = t [symmetric, folded assms(4)]
    from c have "\<exists>c. c \<in> set (customers (db wc)) \<and> g \<in> set (orgs (db wc)) \<and> m \<in> set (members (db wc))
      \<and> c_stripe_id c = sid \<and> c_org c = Some (o_id g) \<and> m_org m = o_id g \<and> m_user m = u"
    proof (cases rule: create_org_InrE)
      case old
      with existing_team_Some [OF old(1)] show ?thesis by auto
    next
      case (new c)
      then show ?thesis by (intro exI [of _ c]) simp
    qed
    with same assms(3) have "existing_team u sid (db w2) = Some (g, m)"
      by (auto simp: team_tables_def consistent_def intro!: existing_team_found)
    then show ?thesis by (rule that)
  qed
  from assms(5) show ?thesis
  proof (cases rule: on_team_split)
    case (created g' m' w4)
    from created(1) have "db w4 = db w2" by (cases rule: create_org_InrE) (use gm in simp_all)
    with created(2) show ?thesis by simp
  qed simp_all
qed

text \<open>
  A user owns at most one organisation: a checkout for a user who already owns one, and which
  is not a redelivery, is refused by the database and leaves it unchanged.
\<close>

theorem second_owned_org_refused:
  assumes "consistent w" and "existing_team u sid (db w) = None"
    and "\<exists>m\<in>set (members (db w)). m_user m = u \<and> m_role m = OWNER"
  shows "\<exists>w'. create_org_with_owner E u name (Some sid) live w = (Inl IntegrityError, w') \<and> db w' = db w"
proof -
  obtain r w' where run: "create_org_with_owner E u name (Some sid) live w = (r, w')" by force
  have refused: "\<not> members_ok (members d @ [m])"
    if h: "members d = members (db w)" "m_user m = u" "m_role m = OWNER" for d m
  proof -
    obtain o1 where "o1 \<in> set (members d)" "m_user o1 = m_user m" "m_role o1 = OWNER"
      using h assms(3) by metis
    then have "m_user m \<in> set (map m_user (filter (\<lambda>m. m_role m = OWNER) (members d)))"
      by (force simp: image_iff)
    with h(3) show ?thesis by (simp add: members_ok_def)
  qed
  have member: "\<exists>v'. new_member g u OWNER True v = (Inl IntegrityError, v')"
    if "members (db v) = members (db w)" for g v
    using refused [OF that] by (simp add: new_member_run Let_def)
  have "fst (create_org_with_owner E u name (Some sid) live w) = Inl IntegrityError"
  proof -
    obtain a v where org: "new_org E u name (enter w) = (a, v)" by force
    have m: "members (db v) = members (db w)" and e: "\<And>e. a = Inl e \<Longrightarrow> e = IntegrityError"
      using org by (auto simp: new_org_def generate_unique_slug_def run_simps create_row_def Let_def split: if_splits)
    show ?thesis
    proof (cases a)
      case (Inl x)
      with e org assms(2) show ?thesis
        unfolding create_org_with_owner_def atomic_enter by (simp add: run_simps)
    next
      case (Inr g)
      moreover obtain v' where "new_member (o_id g) u OWNER True v = (Inl IntegrityError, v')"
        using member [OF m] by blast
      ultimately show ?thesis
        using org assms(2) unfolding create_org_with_owner_def atomic_enter by (simp add: run_simps)
    qed
  qed
  with run have "r = Inl IntegrityError" by simp
  moreover with run have "db w' = db w" unfolding create_org_with_owner_def by (auto dest: atomic_raise_db)
  ultimately show ?thesis using run by auto
qed

section \<open>Accepting an invitation\<close>

lemma save_status_InrE:
  assumes "save_row invitations_T k (\<lambda>i. i\<lparr>i_status := st\<rparr>) w = (Inr (), w')"
  obtains "w' = w\<lparr>db := (db w)\<lparr>invitations := update_where (\<lambda>i. i_id i = k) (\<lambda>i. i\<lparr>i_status := st\<rparr>)
       (invitations (db w))\<rparr>\<rparr>"
  using assms by (auto simp: save_row_def update_rows_def Let_def split: if_splits)

lemma verification_token_InrE:
  assumes "create_email_verification_token E u w = (Inr raw, w')"
  obtains t where "db w' = (db w)\<lparr>verification_tokens := verification_tokens (db w) @ [t]\<rparr>"
    and "ot_user t = u_id u" and "ot_hash t = hash_token E raw" and "ot_used_at t = None"
    and "ot_expires_at t = clock w + email_verification_lifetime"
    and "hooks w' = hooks w" and "in_atomic w' = in_atomic w"
  using assms by (auto simp: create_email_verification_token_def create_one_time_token_def run_simps
      create_row_def split: if_splits)

lemma check_seat_cap_InrE:
  assumes "check_seat_cap g w = (Inr (), w')"
  obtains "w' = w" and "\<And>s. fst (lock_active_team_sub g w) = Inr (Some s) \<Longrightarrow>
    int (length (filter (\<lambda>m. m_org m = g) (members (db w)))) + 1 \<le> s_seat_limit s"
  using assms by (auto simp: check_seat_cap_def lock_active_team_sub_def run_simps
      split: option.splits if_splits)

lemma join_org_InrE:
  assumes "join_org E invite name g w = (Inr (u, g'), w')"
  obtains m t where "g' = g"
    and "db w' = (db w)\<lparr>users := users (db w) @ [u], members := members (db w) @ [m],
           invitations := update_where (\<lambda>i. i_id i = i_id invite) (\<lambda>i. i\<lparr>i_status := ACCEPTED\<rparr>)
             (invitations (db w)),
           verification_tokens := verification_tokens (db w) @ [t]\<rparr>"
    and "u = created_user E (i_email invite) None (\<lambda>u. u\<lparr>u_full_name := name, u_is_verified := False\<rparr>) w"
    and "m_org m = o_id g" and "m_user m = u_id u" and "m_role m = i_role invite" and "\<not> m_is_billing m"
    and "ot_user t = u_id u" and "ot_used_at t = None"
    and "\<And>s. fst (lock_active_team_sub (o_id g) w) = Inr (Some s) \<Longrightarrow>
      int (length (filter (\<lambda>m. m_org m = o_id g) (members (db w)))) + 1 \<le> s_seat_limit s"
proof -
  from assms obtain v1 where cap: "check_seat_cap (o_id g) w = (Inr (), v1)"
    and rest: "mbind (create_user E (i_email invite) None (\<lambda>u. u\<lparr>u_full_name := name, u_is_verified := False\<rparr>)) (\<lambda>u.
      mbind (new_member (o_id g) (u_id u) (i_role invite) False) (\<lambda>m.
      mseq (save_row invitations_T (i_id invite) (\<lambda>i. i\<lparr>i_status := ACCEPTED\<rparr>))
      (mbind (create_email_verification_token E u) (\<lambda>token.
       mseq (on_commit (SendVerificationEmail (u_email u) token)) (mret (u, g)))))) v1 = (Inr (u, g'), w')"
    unfolding join_org_def by (elim mseq_InrE) simp
  from rest obtain x v2 where c0: "create_user E (i_email invite) None (\<lambda>u. u\<lparr>u_full_name := name, u_is_verified := False\<rparr>) v1 = (Inr x, v2)"
    and rest2: "mbind (new_member (o_id g) (u_id x) (i_role invite) False) (\<lambda>m.
      mseq (save_row invitations_T (i_id invite) (\<lambda>i. i\<lparr>i_status := ACCEPTED\<rparr>))
      (mbind (create_email_verification_token E x) (\<lambda>token.
       mseq (on_commit (SendVerificationEmail (u_email x) token)) (mret (x, g))))) v2 = (Inr (u, g'), w')"
    by (rule mbind_InrE)
  from rest2 obtain m v3 where m0: "new_member (o_id g) (u_id x) (i_role invite) False v2 = (Inr m, v3)"
    and rest3: "mseq (save_row invitations_T (i_id invite) (\<lambda>i. i\<lparr>i_status := ACCEPTED\<rparr>))
      (mbind (create_email_verification_token E x) (\<lambda>token.
       mseq (on_commit (SendVerificationEmail (u_email x) token)) (mret (x, g)))) v3 = (Inr (u, g'), w')"
    by (rule mbind_InrE)
  from rest3 obtain a1 v4 where i: "save_row invitations_T (i_id invite) (\<lambda>i. i\<lparr>i_status := ACCEPTED\<rparr>) v3 = (Inr a1, v4)"
    and rest4: "mbind (create_email_verification_token E x) (\<lambda>token.
       mseq (on_commit (SendVerificationEmail (u_email x) token)) (mret (x, g))) v4 = (Inr (u, g'), w')"
    by (rule mseq_InrE)
  from rest4 obtain tok v5 where t0: "create_email_verification_token E x v4 = (Inr tok, v5)"
    and rest5: "mseq (on_commit (SendVerificationEmail (u_email x) tok)) (mret (x, g)) v5 = (Inr (u, g'), w')"
    by (rule mbind_InrE)
  from rest5 obtain a2 v6 where f: "on_commit (SendVerificationEmail (u_email x) tok) v5 = (Inr a2, v6)"
      "(mret (x, g) :: (user \<times> org) io) v6 = (Inr (u, g'), w')"
    by (rule mseq_InrE)
  from f have e: "db w' = db v5" "g' = g" and x: "x = u" by (auto split: if_splits)
  note c = c0 [unfolded x] and m = m0 [unfolded x] and t = t0 [unfolded x]
  from cap have v1: "v1 = w" by (rule check_seat_cap_InrE)
  from c v1 obtain ok: "u = created_user E (i_email invite) None (\<lambda>u. u\<lparr>u_full_name := name, u_is_verified := False\<rparr>) w"
    and d2: "db v2 = (db w)\<lparr>users := users (db w) @ [u]\<rparr>" by (auto elim: create_user_InrE)
  from i have "save_row invitations_T (i_id invite) (\<lambda>i. i\<lparr>i_status := ACCEPTED\<rparr>) v3 = (Inr (), v4)"
    by simp
  then have d4: "db v4 = (db v3)\<lparr>invitations := update_where (\<lambda>i. i_id i = i_id invite)
      (\<lambda>i. i\<lparr>i_status := ACCEPTED\<rparr>) (invitations (db v3))\<rparr>"
    by (rule save_status_InrE) simp
  from m obtain m_facts: "m_org m = o_id g" "m_user m = u_id u" "m_role m = i_role invite" "\<not> m_is_billing m"
    and d3: "db v3 = (db v2)\<lparr>members := members (db v2) @ [m]\<rparr>" by (auto elim!: new_member_InrE)
  from t obtain tk where t_facts: "ot_user tk = u_id u" "ot_used_at tk = None"
    and d5: "db v5 = (db v4)\<lparr>verification_tokens := verification_tokens (db v4) @ [tk]\<rparr>"
    by (rule verification_token_InrE) (rule that; assumption)
  have d: "db w' = (db w)\<lparr>users := users (db w) @ [u], members := members (db w) @ [m],
           invitations := update_where (\<lambda>i. i_id i = i_id invite) (\<lambda>i. i\<lparr>i_status := ACCEPTED\<rparr>)
             (invitations (db w)),
           verification_tokens := verification_tokens (db w) @ [tk]\<rparr>"
    unfolding e(1) d5 d4 d3 d2 by simp
  have seats: "fst (lock_active_team_sub (o_id g) w) = Inr (Some s) \<Longrightarrow>
      int (length (filter (\<lambda>m. m_org m = o_id g) (members (db w)))) + 1 \<le> s_seat_limit s" for s
    using cap by (rule check_seat_cap_InrE)
  show ?thesis by (rule that [OF e(2) d ok m_facts t_facts seats])
qed

text \<open>
  Accepting an invitation creates, in one transaction, the user, who is not verified and has
  no password, and the membership with the invited role and no billing flag; it marks the
  invitation accepted and stores one verification token of that user.  With an active team
  subscription the members never outnumber its seats afterwards.
\<close>

lemma accept_effect:
  assumes "accept_invitation E invite name w = (Inr (u, g), w')"
  shows "\<exists>m t. db w' = (db w)\<lparr>users := users (db w) @ [u], members := members (db w) @ [m],
           invitations := update_where (\<lambda>i. i_id i = i_id invite) (\<lambda>i. i\<lparr>i_status := ACCEPTED\<rparr>)
             (invitations (db w)),
           verification_tokens := verification_tokens (db w) @ [t]\<rparr>
    \<and> g \<in> set (orgs (db w)) \<and> o_id g = i_org invite
    \<and> u_email u = normalize_email E (i_email invite) \<and> u_full_name u = name
    \<and> \<not> u_is_verified u \<and> u_password u = None
    \<and> m_org m = o_id g \<and> m_user m = u_id u \<and> m_role m = i_role invite \<and> \<not> m_is_billing m
    \<and> ot_user t = u_id u \<and> ot_used_at t = None
    \<and> (\<forall>s. fst (lock_active_team_sub (o_id g) w) = Inr (Some s) \<longrightarrow>
        int (length (filter (\<lambda>m. m_org m = o_id g) (members (db w')))) \<le> s_seat_limit s)"
proof -
  from assms obtain k where k: "first_by o_id (filter (\<lambda>g. o_id g = i_org invite) (orgs (db w))) = Some k"
    and a: "atomic (join_org E invite name k) w = (Inr (u, g), w')"
    unfolding accept_invitation_def by (auto simp: mbind_run split: option.splits)
  from a obtain w0 w1 where w0: "db w0 = db w" and b: "join_org E invite name k w0 = (Inr (u, g), w1)"
    and w1: "db w' = db w1" by (rule atomic_InrE)
  have lock: "fst (lock_active_team_sub x w0) = fst (lock_active_team_sub x w)" for x
    by (simp add: lock_active_team_sub_def w0)
  from b show ?thesis
  proof (cases rule: join_org_InrE)
    case (1 m t)
    then show ?thesis
      using k w0 w1 lock by (intro exI [of _ m] exI [of _ t])
        (auto simp: created_user_def new_user_def stored_password_def dest: first_by_filter_Some)
  qed
qed

section \<open>Deleting organisations\<close>

lemma cancel_pending_invitations_run:
  assumes "consistent w"
  shows "cancel_pending_invitations gs w = (Inr (), w\<lparr>db := (db w)\<lparr>invitations
    := update_where (\<lambda>i. i_org i \<in> set gs \<and> i_status i = PENDING) (\<lambda>i. i\<lparr>i_status := CANCELLED\<rparr>)
         (invitations (db w))\<rparr>\<rparr>)"
proof -
  let ?P = "\<lambda>i. i_org i \<in> set gs \<and> i_status i = PENDING"
  let ?xs = "update_where ?P (\<lambda>i. i\<lparr>i_status := CANCELLED\<rparr>) (invitations (db w))"
  have fk: "list_all (\<lambda>r. refs_ok (db w) (invitation_refs r)) (invitations (db w))"
    and ok: "invitations_ok (invitations (db w))"
    using assms by (simp_all add: consistent_def db_ok_def fk_ok_rows tables_ok_def)
  have "filter (\<lambda>i. i_status i = PENDING) ?xs = filter (\<lambda>i. i_status i = PENDING \<and> \<not> ?P i) (invitations (db w))"
    by (rule filter_update_where_neg) simp
  also have "\<dots> = filter (\<lambda>i. i_org i \<notin> set gs) (filter (\<lambda>i. i_status i = PENDING) (invitations (db w)))"
    by (auto intro: filter_cong)
  finally have "invitations_ok ?xs"
    using ok by (simp add: invitations_ok_def map_update_where distinct_filter_map del: filter_filter)
  then show ?thesis
    using fk by (auto simp: cancel_pending_invitations_def update_rows_def Let_def list_all_iff
        invitation_refs_def)
qed

definition after_delete :: "uuid list \<Rightarrow> db \<Rightarrow> db" where
  "after_delete gs d =
     (let d1 = d\<lparr>invitations := update_where (\<lambda>i. i_org i \<in> set gs \<and> i_status i = PENDING)
                   (\<lambda>i. i\<lparr>i_status := CANCELLED\<rparr>) (invitations d)\<rparr>;
          d2 = cascade_users (\<lambda>u. deletable d gs (u_id u)) d1;
          d3 = d2\<lparr>members := keep (\<lambda>m. m_org m \<in> set gs) (members d2)\<rparr>
      in cascade_orgs (\<lambda>g. o_id g \<in> set gs) d3)"

lemma personal_sub_invitations [simp]: "personal_sub (d\<lparr>invitations := xs\<rparr>) u = personal_sub d u"
  by (rule ext) (simp add: personal_sub_def)

lemma deletable_invitations [simp]: "deletable (d\<lparr>invitations := xs\<rparr>) gs = deletable d gs"
  by (rule ext) (simp add: deletable_def)

lemma world_swap: "(w :: world)\<lparr>cache := a, db := b\<rparr> = w\<lparr>db := b, cache := a\<rparr>"
  by simp

lemma delete_orgs_db_run:
  assumes "consistent w"
  shows "\<exists>c. delete_orgs_db gs w = (Inr (), w\<lparr>db := after_delete gs (db w), cache := c\<rparr>)"
proof -
  have "consistent (enter w)" using assms by (simp add: consistent_def)
  note c = cancel_pending_invitations_run [OF this, of gs]
  let ?body = "mseq (cancel_pending_invitations gs) (mbind (mgets db) (\<lambda>d.
     mseq (delete_users (\<lambda>u. deletable d gs (u_id u)))
     (mseq (delete_rows members_T (\<lambda>m. m_org m \<in> set gs)) (delete_orgs (\<lambda>g. o_id g \<in> set gs)))))"
  have "\<exists>c. ?body (enter w) = (Inr (), (enter w)\<lparr>db := after_delete gs (db w), cache := c\<rparr>)"
    by (simp add: mseq_run mbind_run c delete_users_def delete_orgs_def after_delete_def Let_def)
      (rule exI, rule world_swap)
  then obtain c where b: "?body (enter w) = (Inr (), (enter w)\<lparr>db := after_delete gs (db w), cache := c\<rparr>)" ..
  have "atomic ?body w = (Inr (), w\<lparr>db := after_delete gs (db w), cache := c\<rparr>)"
    using b unfolding atomic_def enter_def by (cases "in_atomic w") simp_all
  then show ?thesis unfolding delete_orgs_db_def by blast
qed

lemma keys_kept:
  "(\<And>x. k (f x) = k x) \<Longrightarrow>
   map k (filter (\<lambda>x. k x \<notin> S) (update_where P f xs)) = filter (\<lambda>y. y \<notin> S) (map k xs)"
  by (induction xs) auto

lemma after_delete_users: "users (after_delete gs d) = filter (\<lambda>u. \<not> deletable d gs (u_id u)) (users d)"
  by (simp add: after_delete_def cascade_users_def cascade_orgs_def Let_def keep_def)

lemma hits_deletable: "hits (map u_id (filter (\<lambda>u. Q (u_id u)) us)) (Some k) \<longleftrightarrow> k \<in> set (map u_id us) \<and> Q k"
  by (auto simp: hits_iff)

lemma after_delete_orgs: "map o_id (orgs (after_delete gs d)) = filter (\<lambda>k. k \<notin> set gs) (map o_id (orgs d))"
  by (simp add: after_delete_def cascade_users_def cascade_orgs_def Let_def keep_def keys_kept)

lemma after_delete_members:
  assumes "db_ok d" and "set gs \<subseteq> set (map o_id (orgs d))"
  shows "members (after_delete gs d) = filter (\<lambda>m. m_org m \<notin> set gs) (members d)"
proof -
  have "m_org m \<in> set gs" if "m \<in> set (members d)" "deletable d gs (m_user m)" for m
    using that by (auto simp: deletable_def list_ex_iff)
  then show ?thesis
    using assms(2)
    by (auto simp: after_delete_def cascade_users_def cascade_orgs_def Let_def keep_def keys_kept
        intro!: filter_cong)
qed

lemma deletable_iff:
  "deletable d gs u \<longleftrightarrow> (\<exists>m\<in>set (members d). m_user m = u \<and> m_org m \<in> set gs)
     \<and> (\<forall>m\<in>set (members d). m_user m = u \<longrightarrow> m_org m \<in> set gs)
     \<and> (\<forall>s\<in>set (subscriptions d). \<not> personal_sub d u s)"
  by (auto simp: deletable_def list_ex_iff)

text \<open>
  C14. Deleting an organisation removes it and its memberships, and deletes exactly those of its
  members who belong to no other organisation and have no active subscription of their own;
  every other user and every other organisation's membership stays.  Its newest active
  Stripe-backed subscription, when there is one, is cancelled by a task that is queued only after
  the deletion has been committed.
\<close>

theorem org_deletion_effect:
  assumes "consistent w" and "\<not> in_atomic w" and "g \<in> set (map o_id (orgs (db w)))"
  shows "\<exists>w'. delete_org g w = (Inr (), w')
    \<and> map o_id (orgs (db w')) = filter (\<lambda>k. k \<noteq> g) (map o_id (orgs (db w)))
    \<and> members (db w') = filter (\<lambda>m. m_org m \<noteq> g) (members (db w))
    \<and> users (db w') = filter (\<lambda>u. \<not> ((\<exists>m\<in>set (members (db w)). m_user m = u_id u \<and> m_org m = g)
         \<and> (\<forall>m\<in>set (members (db w)). m_user m = u_id u \<longrightarrow> m_org m = g)
         \<and> (\<forall>s\<in>set (subscriptions (db w)). \<not> personal_sub (db w) (u_id u) s))) (users (db w))
    \<and> queue w' = queue w @ (case latest_by s_created_at (filter (stripe_backed (db w) g) (subscriptions (db w))) of
         None \<Rightarrow> [] | Some s \<Rightarrow> [CancelStripeSubs [the (s_stripe_id s)] (uuid_str g)])"
proof -
  obtain c where r: "delete_orgs_db [g] w = (Inr (), w\<lparr>db := after_delete [g] (db w), cache := c\<rparr>)"
    using delete_orgs_db_run [OF assms(1)] by blast
  have d: "db_ok (db w)" using assms(1) by (simp add: consistent_def)
  let ?s = "latest_by s_created_at (filter (stripe_backed (db w) g) (subscriptions (db w)))"
  have "\<exists>w'. delete_org g w = (Inr (), w') \<and> db w' = after_delete [g] (db w)
      \<and> queue w' = queue w @ (case ?s of None \<Rightarrow> [] | Some s \<Rightarrow> [CancelStripeSubs [the (s_stripe_id s)] (uuid_str g)])"
  proof (cases ?s)
    case None
    then show ?thesis
      by (simp add: delete_org_def get_active_stripe_sub_def delete_org_db_only_def run_simps r)
  next
    case (Some s)
    then have "stripe_backed (db w) g s" by (auto dest: latest_by_filter_Some)
    then obtain sid where "s_stripe_id s = Some sid" by (auto simp: stripe_backed_def)
    with Some assms(2) show ?thesis
      by (simp add: delete_org_def get_active_stripe_sub_def delete_org_db_only_def run_simps r)
  qed
  then show ?thesis
    using after_delete_orgs [of "[g]" "db w"] after_delete_users [of "[g]" "db w"]
      after_delete_members [OF d, of "[g]"] assms(3)
    by (auto simp: deletable_iff)
qed

section \<open>Cancelling subscriptions off the request path\<close>

fun cancel_failures :: "env \<Rightarrow> stripe_call list \<Rightarrow> string list \<Rightarrow> exn list" where
  "cancel_failures E log [] = []"
| "cancel_failures E log (sid # rest) =
     (case stripe E log (SubCancel sid (Some False)) of
        Inl e \<Rightarrow> if e = StripeInvalidRequest (Some ''resource_missing'') then [] else [e]
      | Inr j \<Rightarrow> []) @ cancel_failures E (log @ [SubCancel sid (Some False)]) rest"

lemma cancel_each_run:
  assumes "\<And>log c e. stripe E log c = Inl e \<Longrightarrow> is_stripe_error e"
  shows "cancel_each E sids w = (Inr (cancel_failures E (calls w) sids),
    w\<lparr>calls := calls w @ map (\<lambda>sid. SubCancel sid (Some False)) sids\<rparr>)"
proof (induction sids arbitrary: w)
  case (Cons sid sids)
  show ?case
    using assms [of "calls w" "SubCancel sid (Some False)"]
    by (auto simp: run_simps Cons.IH split: sum.splits)
qed simp

text \<open>
  The cancelling task attempts every subscription once, in order, whatever fails in between;
  a subscription that Stripe no longer knows counts as cancelled, and the first other failure is
  raised at the end.  It never touches the database.
\<close>

theorem cancel_task_attempts_all:
  assumes "\<And>log c e. stripe E log c = Inl e \<Longrightarrow> is_stripe_error e"
  shows "cancel_stripe_subs_task E sids w =
    (case cancel_failures E (calls w) sids of [] \<Rightarrow> Inr () | e # _ \<Rightarrow> Inl e,
     w\<lparr>calls := calls w @ map (\<lambda>sid. SubCancel sid (Some False)) sids\<rparr>)"
  by (simp add: cancel_stripe_subs_task_def run_simps cancel_each_run [OF assms] split: list.splits)

section \<open>Instances\<close>

text \<open>A member of the sample organisation buys a team plan, and pays for seats at another rate.\<close>

definition sample_checkout :: "env" where
  "sample_checkout = start_env\<lparr>stripe := (\<lambda>log c. Inl StripeError), slugify := (\<lambda>s. ''acme'')\<rparr>"

definition sample_new_org :: org where
  "sample_new_org = \<lparr>o_id = 1000, o_name = ''Acme'', o_slug = ''acme-2'', o_logo_url = None,
     o_created_by = Some 2, o_created_at = 0\<rparr>"

definition sample_new_owner :: org_member where
  "sample_new_owner = \<lparr>m_id = 1001, m_org = 1000, m_user = 2, m_role = OWNER, m_is_billing = True,
     m_joined_at = 0\<rparr>"

lemma sample_creates:
  "fst (create_org_with_owner sample_checkout 2 ''Acme'' (Some ''cus_9'') (JBool False) (start_world sample_db))
   = Inr (sample_new_org, sample_new_owner)"
  by code_simp

theorem team_checkout_creates_org_witness:
  "\<exists>c. db (snd (create_org_with_owner sample_checkout 2 ''Acme'' (Some ''cus_9'') (JBool False) (start_world sample_db)))
    = sample_db\<lparr>orgs := orgs sample_db @ [sample_new_org], members := members sample_db @ [sample_new_owner],
        customers := customers sample_db @ [c]\<rparr> \<and> c_stripe_id c = ''cus_9''"
proof -
  let ?r = "create_org_with_owner sample_checkout 2 ''Acme'' (Some ''cus_9'') (JBool False) (start_world sample_db)"
  have "?r = (Inr (sample_new_org, sample_new_owner), snd ?r)"
    using sample_creates by (simp add: prod_eq_iff)
  moreover have "existing_team 2 ''cus_9'' (db (start_world sample_db)) = None" by code_simp
  moreover have "db (start_world sample_db) = sample_db" by (simp add: start_world_def)
  ultimately show ?thesis using team_checkout_creates_org by metis
qed

lemma sample_team_run:
  "fst (on_team_checkout_completed sample_checkout 2 (JStr ''Acme'') ''cus_9'' (JBool False) JNull True
     (start_world sample_db)) = Inr ()"
  by code_simp

theorem team_checkout_redelivery_witness:
  "let run = on_team_checkout_completed sample_checkout 2 (JStr ''Acme'') ''cus_9'' (JBool False) JNull True;
       w1 = snd (run (start_world sample_db))
   in length (orgs (db w1)) = 2 \<and> team_tables (db (snd (run w1))) = team_tables (db w1)"
proof -
  let ?run = "on_team_checkout_completed sample_checkout 2 (JStr ''Acme'') ''cus_9'' (JBool False) JNull True"
  let ?w1 = "snd (?run (start_world sample_db))"
  have a: "?run (start_world sample_db) = (Inr (), ?w1)" using sample_team_run by (simp add: prod_eq_iff)
  have c: "consistent ?w1" by (rule keepsD [where P = consistent]; (rule keeps_intros sample_consistent))
  have "length (orgs (db ?w1)) = 2" by code_simp
  then show ?thesis
    using team_checkout_redelivery [OF sample_consistent a c refl prod.collapse [symmetric]]
    by (simp only: Let_def)
qed

theorem second_owned_org_refused_witness:
  "fst (create_org_with_owner sample_checkout 1 ''More'' (Some ''cus_9'') (JBool False) (start_world sample_db))
   = Inl IntegrityError"
proof -
  have "existing_team 1 ''cus_9'' (db (start_world sample_db)) = None" by code_simp
  moreover have "\<exists>m\<in>set (members (db (start_world sample_db))). m_user m = 1 \<and> m_role m = OWNER"
    by (simp add: sample_simps)
  ultimately show ?thesis using second_owned_org_refused [OF sample_consistent] by (metis fst_conv)
qed

definition sample_invite :: invitation where
  "sample_invite = \<lparr>i_id = 70, i_org = 10, i_email = ''dan@example.com'', i_role = ADMIN, i_token = ''tk'',
     i_status = PENDING, i_invited_by = Some 1, i_created_at = 0, i_expires_at = 1000\<rparr>"

definition sample_invited :: world where
  "sample_invited = start_world (sample_db\<lparr>invitations := [sample_invite]\<rparr>)"

lemma sample_accept:
  "fst (accept_invitation start_env sample_invite ''Dan'' sample_invited) =
   Inr ((new_user 1000 0 ''dan@example.com'')\<lparr>u_full_name := ''Dan''\<rparr>, hd (orgs sample_db))"
  by (simp add: accept_invitation_def join_org_def check_seat_cap_def lock_active_team_sub_def
      run_simps atomic_def create_user_run created_user_def new_user_def stored_password_def Let_def
      create_row_def save_row_def update_rows_def new_member_run create_email_verification_token_def
      create_one_time_token_def sample_invited_def sample_invite_def sample_simps start_env_def
      customer_of_org_def active_status_def users_ok_def members_ok_def invitations_ok_def
      one_time_tokens_ok_def member_refs_def invitation_refs_def ott_refs_def lower_def lower_char_def)

theorem org_deletion_effect_witness:
  "\<exists>w'. delete_org 10 (start_world sample_db) = (Inr (), w') \<and> orgs (db w') = [] \<and> members (db w') = []
    \<and> map u_id (users (db w')) = [1] \<and> queue w' = [CancelStripeSubs [''sub_2''] (uuid_str 10)]"
proof -
  have "latest_by s_created_at (filter (stripe_backed (db (start_world sample_db)) 10)
      (subscriptions (db (start_world sample_db)))) = Some (subscriptions sample_db ! 1)"
    by (simp add: sample_simps stripe_backed_def customer_of_org_def active_status_def)
  then show ?thesis
    using org_deletion_effect [OF sample_consistent, of 10]
    by (auto simp: sample_simps personal_sub_def active_status_def)
qed

theorem cancel_task_attempts_all_witness:
  "fst (cancel_stripe_subs_task sample_checkout [''a'', ''b''] (start_world sample_db)) = Inl StripeError
   \<and> calls (snd (cancel_stripe_subs_task sample_checkout [''a'', ''b''] (start_world sample_db)))
     = [SubCancel ''a'' (Some False), SubCancel ''b'' (Some False)]"
  by (subst (1 2) cancel_task_attempts_all)
    (simp_all add: sample_checkout_def is_stripe_error_def start_world_def)

end
