(* ===== verification/Endpoint.thy ===== *)
theory Endpoint
  imports Credits OrgServices
begin

text \<open>
  The Stripe webhook endpoint and its Celery task: \<open>apps/billing/webhook.py\<close>, the task
  \<open>process_stripe_webhook\<close> of \<open>apps/billing/tasks.py\<close>, and \<open>get_webhook_repos\<close> of
  \<open>apps/billing/repositories.py\<close>, which wires the handlers of \<open>Webhooks\<close> to the Django
  repositories and to the callbacks of \<open>Credits\<close> and \<open>OrgServices\<close>.

  The signature check of the Stripe library and the decoding of the body are parameters: fields of
  \<open>gateway\<close>.
\<close>

section \<open>Wiring\<close>

definition get_webhook_repos :: "env \<Rightarrow> webhook_repos" where
  "get_webhook_repos E =
     \<lparr>w_events = django_events, w_subscriptions = django_subscriptions,
      w_customers = django_customers, w_plans = django_plans,
      w_on_team = Some (on_team_checkout_completed E),
      w_on_org_canceled = Some delete_org_on_subscription_cancel,
      w_on_product = Some on_product_checkout_completed\<rparr>"

section \<open>The endpoint\<close>

datatype signature_check = Verified | BadSignature | InvalidPayload

record gateway =
  construct_event :: "string \<Rightarrow> string \<Rightarrow> string \<Rightarrow> signature_check"
  json_loads :: "string \<Rightarrow> json option"
  stripe_webhook_secret :: string

record hook_request =
  h_method :: string
  h_content_length :: "string option"
  h_signature :: "string option"
  h_body :: string

definition max_webhook_body :: nat where "max_webhook_body = 256 * 1024"

text \<open>\<open>int(request.META.get("CONTENT_LENGTH") or 0)\<close>, zero when it is no number.\<close>

definition content_length :: "hook_request \<Rightarrow> int" where
  "content_length q = (case h_content_length q of None \<Rightarrow> 0
     | Some s \<Rightarrow> if s = [] then 0 else (case py_int (JStr s) of Inl _ \<Rightarrow> 0 | Inr n \<Rightarrow> n))"

text \<open>The three fields the view reads; a missing one, or a payload that is no object, is refused.\<close>

definition event_fields :: "json \<Rightarrow> (string \<times> string \<times> bool) res" where
  "event_fields j =
     rbind (dindex j ''id'') (\<lambda>i. rbind (dindex j ''type'') (\<lambda>t.
     rbind (dindex j ''livemode'') (\<lambda>l. Inr (py_str i, py_str t, truthy l))))"

definition key_is_live :: "env \<Rightarrow> bool" where
  "key_is_live E \<longleftrightarrow> startswith (stripe_secret_key E) ''sk_live_''
     \<or> startswith (stripe_secret_key E) ''rk_live_''"

text \<open>\<open>StripeEvent.objects.get_or_create(stripe_id=\<dots>, defaults=\<dots>)\<close> and whether it created the row.\<close>

definition get_or_create_event :: "string \<Rightarrow> string \<Rightarrow> bool \<Rightarrow> json \<Rightarrow> (stripe_event \<times> bool) io" where
  "get_or_create_event sid ty live payload =
     mbind (first_row stripe_events_T (\<lambda>e. e_stripe_id e = sid)) (\<lambda>found.
     case found of Some e \<Rightarrow> mret (e, False)
     | None \<Rightarrow>
       mtry (atomic (mbind fresh_uuid (\<lambda>i. mbind now (\<lambda>t.
          let e = \<lparr>e_id = i, e_stripe_id = sid, e_type = ty, e_livemode = live, e_payload = payload,
                   e_processed_at = None, e_error = None, e_created_at = t\<rparr>
          in mseq (create_row stripe_events_T e) (mret (e, True))))))
         (\<lambda>x. if x = IntegrityError
              then mbind (first_row stripe_events_T (\<lambda>e. e_stripe_id e = sid)) (\<lambda>found.
                case found of Some e \<Rightarrow> mret (e, False) | None \<Rightarrow> mraise x)
              else mraise x))"

definition store_and_dispatch :: "string \<Rightarrow> string \<Rightarrow> bool \<Rightarrow> json \<Rightarrow> nat io" where
  "store_and_dispatch sid ty live payload = atomic (
     mbind (get_or_create_event sid ty live payload) (\<lambda>(e, created).
     if \<not> created then mret 202
     else mseq (on_commit (ProcessStripeWebhook (e_id e))) (mret 202)))"

definition stripe_webhook :: "env \<Rightarrow> gateway \<Rightarrow> hook_request \<Rightarrow> nat io" where
  "stripe_webhook E G q =
     (if h_method q \<noteq> ''POST'' then mret 405
      else if content_length q > int max_webhook_body then mret 413
      else if length (h_body q) > max_webhook_body then mret 413
      else let sig = (case h_signature q of None \<Rightarrow> [] | Some s \<Rightarrow> s) in
        (case construct_event G (h_body q) sig (stripe_webhook_secret G) of
           BadSignature \<Rightarrow> mret 400
         | InvalidPayload \<Rightarrow> mret 400
         | Verified \<Rightarrow>
             (case json_loads G (h_body q) of None \<Rightarrow> mret 400
              | Some payload \<Rightarrow>
                  (case event_fields payload of
                     Inl e \<Rightarrow> if e = KeyError \<or> e = TypeError then mret 400 else mraise e
                   | Inr (sid, ty, live) \<Rightarrow>
                       if live \<noteq> key_is_live E then mret 202
                       else store_and_dispatch sid ty live payload))))"

section \<open>The task\<close>

text \<open>
  One attempt either ends, asks Celery to run the task again after a delay in seconds, or raises.
  \<open>Task.retry\<close> raises the given exception once \<open>max_retries\<close> retries have been made.
\<close>

datatype attempt = Processed | RetryIn nat exn

definition max_retries :: nat where "max_retries = 3"

definition is_webhook_data_error :: "exn \<Rightarrow> bool" where
  "is_webhook_data_error e \<longleftrightarrow> (case e of WebhookDataError _ \<Rightarrow> True | _ \<Rightarrow> False)"

definition celery_retry :: "nat \<Rightarrow> exn \<Rightarrow> attempt io" where
  "celery_retry retries e = (if retries < max_retries then mret (RetryIn (2 ^ retries) e) else mraise e)"

definition process_stripe_webhook :: "env \<Rightarrow> nat \<Rightarrow> uuid \<Rightarrow> attempt io" where
  "process_stripe_webhook E retries k =
     mbind (get_row stripe_events_T (\<lambda>e. e_id e = k) ObjectDoesNotExist) (\<lambda>event_row.
     mtry (mseq (process_stored_event (e_payload event_row) (e_stripe_id event_row) (get_webhook_repos E))
            (mret Processed))
       (\<lambda>e. if is_webhook_data_error e then mraise e
            else if is_stripe_error e \<or> e = ConnectionError \<or> e = OperationalError
              then celery_retry retries e
            else mraise e))"

section \<open>Invariants\<close>

lemma webhook_repos_sel [simp]:
  "w_events (get_webhook_repos E) = django_events"
  "w_subscriptions (get_webhook_repos E) = django_subscriptions"
  "w_customers (get_webhook_repos E) = django_customers"
  "w_plans (get_webhook_repos E) = django_plans"
  "w_on_team (get_webhook_repos E) = Some (on_team_checkout_completed E)"
  "w_on_org_canceled (get_webhook_repos E) = Some delete_org_on_subscription_cancel"
  "w_on_product (get_webhook_repos E) = Some on_product_checkout_completed"
  by (simp_all add: get_webhook_repos_def)

lemma keeps_signature [keeps_intros]:
  "keeps P m \<Longrightarrow> keeps P k \<Longrightarrow> keeps P l \<Longrightarrow>
   keeps P (case c of Verified \<Rightarrow> m | BadSignature \<Rightarrow> k | InvalidPayload \<Rightarrow> l)"
  by (cases c) simp_all

lemma keeps_endpoint [keeps_intros]: "keeps consistent (stripe_webhook E G q)"
  unfolding stripe_webhook_def store_and_dispatch_def get_or_create_event_def Let_def
  by (intro keeps_intros)

lemmas handler_defs = on_checkout_completed_def on_product_checkout_def on_subscription_deleted_def
  on_subscription_schedule_upserted_def on_subscription_schedule_cleared_def on_invoice_def
  sync_subscription_def webhook_repos_sel option.case sync_django_def [symmetric] django_sel

lemma keeps_dispatch [keeps_intros]: "keeps consistent (dispatch event (get_webhook_repos E))"
  unfolding dispatch_def Let_def handler_defs by (intro keeps_intros)

lemma keeps_task [keeps_intros]: "keeps consistent (process_stripe_webhook E n k)"
  unfolding process_stripe_webhook_def process_stored_event_def celery_retry_def handler_defs
  by (intro keeps_intros)

text \<open>Handling an event writes no event row.\<close>

lemma dispatch_frame:
  assumes "\<And>d xs. Q d \<Longrightarrow> Q (d\<lparr>subscriptions := xs\<rparr>)" and "\<And>d xs. Q d \<Longrightarrow> Q (d\<lparr>orgs := xs\<rparr>)"
    and "\<And>d xs. Q d \<Longrightarrow> Q (d\<lparr>members := xs\<rparr>)" and "\<And>d xs. Q d \<Longrightarrow> Q (d\<lparr>customers := xs\<rparr>)"
    and "\<And>d xs. Q d \<Longrightarrow> Q (d\<lparr>credit_balances := xs\<rparr>)"
    and "\<And>d xs. Q d \<Longrightarrow> Q (d\<lparr>credit_transactions := xs\<rparr>)"
  shows "keeps (on_db Q) (dispatch event (get_webhook_repos E))"
proof -
  have team: "keeps (on_db Q) (on_team_checkout_completed E u n c l s k)" for u n c l s k
    unfolding on_team_checkout_completed_def create_org_with_owner_def owner_or_def new_org_def
      new_member_def new_org_customer_def generate_unique_slug_def Let_def
    by (intro keeps_intros on_db_writes keeps_after_creation) (simp_all add: assms)
  have product: "keeps (on_db Q) (on_product_checkout_completed s p u g)" for s p u g
    unfolding on_product_checkout_completed_def Let_def
    by (intro keeps_intros grant_frame) (simp_all add: assms)
  show ?thesis
    unfolding dispatch_def Let_def handler_defs delete_org_on_subscription_cancel_def
      customer_get_def subscription_by_stripe_id_def
    by (intro keeps_intros keeps_sub_save_frame keeps_sync_frame team product assms)
qed

lemma dispatch_keeps_events:
  "dispatch event (get_webhook_repos E) w = (r, w') \<Longrightarrow> stripe_events (db w') = stripe_events (db w)"
  using keepsD_run [OF dispatch_frame [where Q = "\<lambda>d. stripe_events d = stripe_events (db w)"], of w event E r w']
  by (simp add: on_db_def)

lemma dispatch_supplied [keeps_intros]:
  "keeps (supplied f g t n) (dispatch event (get_webhook_repos E))"
proof -
  have save: "keeps (supplied f g t n) (subscription_save s)" for s
    unfolding subscription_save_def by (intro keeps_intros)
  have sync: "keeps (supplied f g t n) (sync_django sub)" for sub
    unfolding sync_django_def sync_subscription_from_data_def build_subscription_row_def django_sel
      customer_get_def subscription_by_stripe_id_def by (intro keeps_intros save)
  have cancel: "keeps (supplied f g t n) (cancel_subscription E k b django_subscriptions)" for k b
    unfolding cancel_subscription_def require_active_def mirror_cancel_state_def
      release_pending_schedule_def django_sel get_active_for_customer_def get_latest_active_def
    by (intro keeps_intros save)
  have team: "keeps (supplied f g t n) (on_team_checkout_completed E u a c l s k)" for u a c l s k
    unfolding on_team_checkout_completed_def create_org_with_owner_def owner_or_def new_org_def
      new_member_def new_org_customer_def generate_unique_slug_def persist_team_subscription_def
      schedule_personal_cancel_def django_sel customer_get_def Let_def
    by (intro keeps_intros sync cancel)
  show ?thesis
    unfolding dispatch_def Let_def handler_defs delete_org_on_subscription_cancel_def
      customer_get_def subscription_by_stripe_id_def on_product_checkout_completed_def
    by (intro keeps_intros save sync team)
qed

lemma dispatch_keeps_clock:
  "dispatch event (get_webhook_repos E) w = (r, w') \<Longrightarrow> clock w' = clock w"
  using keepsD_run [OF dispatch_supplied supplied_start] by (auto simp: supplied_def)

section \<open>Properties\<close>

definition transient :: "exn \<Rightarrow> bool" where
  "transient e \<longleftrightarrow> is_stripe_error e \<or> e = ConnectionError \<or> e = OperationalError"

lemma transient_not_data: "transient e \<Longrightarrow> \<not> is_webhook_data_error e"
  by (auto simp: transient_def is_stripe_error_def is_webhook_data_error_def split: exn.splits)

lemma process_outcome:
  assumes "consistent w" and "e \<in> set (stripe_events (db w))"
    and "process_stripe_webhook E retries (e_id e) w = (r, w')"
  shows "case fst (dispatch (e_payload e) (get_webhook_repos E) w) of
      Inr u \<Rightarrow> r = Inr Processed \<and> stripe_events (db w')
        = map (\<lambda>x. if x = e then e\<lparr>e_processed_at := Some (clock w), e_error := None\<rparr> else x)
            (stripe_events (db w))
    | Inl x \<Rightarrow> r = (if transient x \<and> retries < 3 then Inr (RetryIn (2 ^ retries) x) else Inl x)
        \<and> stripe_events (db w')
          = map (\<lambda>y. if y = e then e\<lparr>e_error := Some x\<rparr> else y) (stripe_events (db w))"
proof -
  have ok: "stripe_events_ok (stripe_events (db w))" using assms(1) by (rule consistent_events)
  have find: "first_by e_id (filter (\<lambda>x. e_id x = e_id e) (stripe_events (db w))) = Some e"
    using ok assms(2) by (intro first_by_unique) (auto simp: stripe_events_ok_def dest: distinct_map_eqD)
  have same: "update_where (\<lambda>x. e_stripe_id x = e_stripe_id e) f (stripe_events (db w))
      = map (\<lambda>x. if x = e then f e else x) (stripe_events (db w))" for f
    using ok assms(2)
    by (auto simp: update_where_def stripe_events_ok_def dest: distinct_map_eqD [where g = e_stripe_id])
  obtain q w1 where run: "dispatch (e_payload e) (get_webhook_repos E) w = (q, w1)" by force
  have c1: "consistent w1" using keepsD_run [OF keeps_dispatch assms(1) run] .
  note w1 = dispatch_keeps_events [OF run] dispatch_keeps_clock [OF run]
  show ?thesis
  proof (cases q)
    case (Inr u)
    obtain w2 where "mark_processed (e_stripe_id e) w1 = (Inr (), w2)"
      and "stripe_events (db w2) = update_where (\<lambda>x. e_stripe_id x = e_stripe_id e)
        (\<lambda>x. x\<lparr>e_processed_at := Some (clock w1), e_error := None\<rparr>) (stripe_events (db w1))"
      using evs.mark_processed_rows [OF c1, of "e_stripe_id e"] by auto
    with find run Inr w1 assms(3) same show ?thesis
      by (simp add: process_stripe_webhook_def process_stored_event_def run_simps)
  next
    case (Inl x)
    obtain w2 where "mark_failed (e_stripe_id e) x w1 = (Inr (), w2)"
      and "stripe_events (db w2) = update_where (\<lambda>x. e_stripe_id x = e_stripe_id e)
        (\<lambda>y. y\<lparr>e_error := Some x\<rparr>) (stripe_events (db w1))"
      using evs.mark_failed_rows [OF c1, of "e_stripe_id e" x] by auto
    with find run Inl w1 assms(3) same show ?thesis
      using transient_not_data [of x]
      by (auto simp: process_stripe_webhook_def process_stored_event_def run_simps celery_retry_def
          max_retries_def transient_def split: if_splits)
  qed
qed

text \<open>
  C15. Every run of the webhook task leaves its outcome on the event: when handling returned, the
  event is marked processed at that time with its error cleared, otherwise the exception is
  recorded and the event stays unprocessed; no other event is touched.  The task is run again
  exactly when the exception is transient, after 1, 2 and 4 seconds, and the fourth failed attempt
  raises, as does every permanent exception at once.
\<close>

theorem webhook_outcome_recorded:
  assumes "consistent w" and "e \<in> set (stripe_events (db w))"
    and "process_stripe_webhook E retries (e_id e) w = (r, w')"
  shows "case fst (dispatch (e_payload e) (get_webhook_repos E) w) of
      Inr u \<Rightarrow> r = Inr Processed \<and> stripe_events (db w')
        = map (\<lambda>x. if x = e then e\<lparr>e_processed_at := Some (clock w), e_error := None\<rparr> else x)
            (stripe_events (db w))
    | Inl x \<Rightarrow> r = (if transient x \<and> retries < 3 then Inr (RetryIn (2 ^ retries) x) else Inl x)
        \<and> stripe_events (db w')
          = map (\<lambda>y. if y = e then e\<lparr>e_error := Some x\<rparr> else y) (stripe_events (db w))"
  by (rule process_outcome [OF assms])

definition new_event :: "string \<Rightarrow> string \<Rightarrow> bool \<Rightarrow> json \<Rightarrow> world \<Rightarrow> stripe_event" where
  "new_event sid ty live payload w =
     \<lparr>e_id = id_supply w (drawn w), e_stripe_id = sid, e_type = ty, e_livemode = live,
      e_payload = payload, e_processed_at = None, e_error = None, e_created_at = clock w\<rparr>"

lemma store_known:
  assumes "\<not> in_atomic w" and "sid \<in> e_stripe_id ` set (stripe_events (db w))"
  shows "store_and_dispatch sid ty live payload w = (Inr 202, w)"
proof -
  obtain e where "first_by e_id (filter (\<lambda>e. e_stripe_id e = sid) (stripe_events (db w))) = Some e"
    using assms(2)
    by (cases "first_by e_id (filter (\<lambda>e. e_stripe_id e = sid) (stripe_events (db w)))")
      (auto simp: filter_empty_conv)
  with assms(1) show ?thesis
    by (simp add: store_and_dispatch_def get_or_create_event_def run_simps atomic_def)
qed

lemma store_new:
  assumes "\<not> in_atomic w" and "sid \<notin> e_stripe_id ` set (stripe_events (db w))"
    and "store_and_dispatch sid ty live payload w = (Inr status, w1)"
  shows "status = 202 \<and> \<not> in_atomic w1
    \<and> db w1 = (db w)\<lparr>stripe_events := stripe_events (db w) @ [new_event sid ty live payload w]\<rparr>
    \<and> queue w1 = queue w @ [ProcessStripeWebhook (e_id (new_event sid ty live payload w))]"
proof -
  have "first_by e_id (filter (\<lambda>e. e_stripe_id e = sid) (stripe_events (db w))) = None"
    using assms(2) by (auto simp: filter_empty_conv)
  with assms(1,3) show ?thesis
    by (auto simp: store_and_dispatch_def get_or_create_event_def run_simps atomic_def create_row_def
        new_event_def Let_def split: if_splits simp del: first_by_filter_None first_by_None)
qed

text \<open>
  C16. The endpoint stores each Stripe event once.  Any answer leaves the system unchanged, or it is
  a 202 that stored one new event, of the mode of the Stripe key, and queued one task for it.  The
  same request sent again gets the same answer and changes nothing.
\<close>

theorem webhook_stored_once:
  assumes "\<not> in_atomic w" and "stripe_webhook E G q w = (Inr status, w1)"
  shows "(w1 = w \<or> (status = 202 \<and> (\<exists>e. e_livemode e = key_is_live E \<and> e_processed_at e = None
        \<and> json_loads G (h_body q) = Some (e_payload e)
        \<and> construct_event G (h_body q) (case h_signature q of None \<Rightarrow> [] | Some s \<Rightarrow> s)
            (stripe_webhook_secret G) = Verified
        \<and> e_stripe_id e \<notin> e_stripe_id ` set (stripe_events (db w))
        \<and> db w1 = (db w)\<lparr>stripe_events := stripe_events (db w) @ [e]\<rparr>
        \<and> queue w1 = queue w @ [ProcessStripeWebhook (e_id e)])))
     \<and> stripe_webhook E G q w1 = (Inr status, w1)"
proof (cases "w1 = w")
  case True
  with assms(2) show ?thesis by simp
next
  case False
  with assms(2) obtain sid ty payload where
    store: "store_and_dispatch sid ty (key_is_live E) payload w = (Inr status, w1)"
    and again: "\<And>v. stripe_webhook E G q v = store_and_dispatch sid ty (key_is_live E) payload v"
    and body: "json_loads G (h_body q) = Some payload" "construct_event G (h_body q)
        (case h_signature q of None \<Rightarrow> [] | Some s \<Rightarrow> s) (stripe_webhook_secret G) = Verified"
    by (auto simp: stripe_webhook_def Let_def split: signature_check.splits option.splits sum.splits
        prod.splits if_splits)
  have new: "sid \<notin> e_stripe_id ` set (stripe_events (db w))"
    using store_known [OF assms(1), of sid] store False by auto
  note w1 = store_new [OF assms(1) new store]
  have "store_and_dispatch sid ty (key_is_live E) payload w1 = (Inr 202, w1)"
    by (rule store_known) (use w1 assms(1) in \<open>auto simp: new_event_def\<close>)
  with w1 new body again show ?thesis
    by (auto simp: new_event_def intro!: exI [where x = "new_event sid ty (key_is_live E) payload w"])
qed

section \<open>Pending plan changes stay paired\<close>

lemma pending_state_eq: "mirror.pending_state = on_db all_pending_ok"
  unfolding mirror.pending_state_def by (rule arg_cong [where f = on_db]) (simp add: fun_eq_iff all_pending_ok_def)

lemmas save_pending = mirror.save_pending [unfolded pending_state_eq django_sel]

lemma require_active_pending:
  assumes "\<And>s sid. pending_ok s \<Longrightarrow> keeps (on_db all_pending_ok) (f (s, sid))"
  shows "keeps (on_db all_pending_ok) (mbind (require_active django_subscriptions k) f)"
proof (rule keepsI)
  fix w assume w: "on_db all_pending_ok w"
  show "on_db all_pending_ok (snd (mbind (require_active django_subscriptions k) f w))"
  proof (cases "get_active_for_customer k w")
    case (Pair r w')
    then have "w' = w" by (auto simp: get_active_for_customer_run)
    show ?thesis
    proof (cases "\<exists>s sid. r = Inr (Some s) \<and> s_stripe_id s = Some sid")
      case True
      then obtain s sid where r: "r = Inr (Some s)" and sid: "s_stripe_id s = Some sid" by blast
      with Pair have "s \<in> set (subscriptions (db w))" by (auto dest: get_active_for_customer_Some)
      with w have "pending_ok s" by (auto simp: on_db_def all_pending_ok_def list_all_iff)
      from keepsD [OF assms [OF this] w] Pair r sid \<open>w' = w\<close> show ?thesis
        by (simp add: require_active_def run_simps)
    next
      case False
      with w Pair \<open>w' = w\<close> show ?thesis
        by (auto simp: require_active_def run_simps split: sum.splits option.splits)
    qed
  qed
qed

lemma mirror_pending:
  "pending_ok s \<Longrightarrow> keeps (on_db all_pending_ok) (mirror_cancel_state s j django_subscriptions)"
  unfolding mirror_cancel_state_def django_sel
proof (rule keepsI)
  fix w assume s: "pending_ok s" and w: "on_db all_pending_ok w"
  have "pending_ok s'" if "with_cancel_state s j = Inr s'" for s'
    using that s by (auto simp: with_cancel_state_def pending_ok_def elim!: rbind_InrE)
  with keepsD [OF save_pending w] w
  show "on_db all_pending_ok (snd (mbind (mlift (with_cancel_state s j)) subscription_save w))"
    by (cases "with_cancel_state s j") (auto simp: run_simps)
qed

lemma billing_pending:
  "keeps (on_db all_pending_ok) (cancel_subscription E k at_end django_subscriptions)"
  "keeps (on_db all_pending_ok) (resume_subscription E k django_subscriptions)"
  "keeps (on_db all_pending_ok) (release_pending_schedule_for_customer E k django_subscriptions)"
  unfolding cancel_subscription_def resume_subscription_def release_pending_schedule_for_customer_def
    release_pending_schedule_def
  by (intro require_active_pending keeps_intros mirror_pending; simp add: save_pending pending_ok_def)+

lemma team_pending: "keeps (on_db all_pending_ok) (on_team_checkout_completed E u a c l s k)"
  unfolding on_team_checkout_completed_def create_org_with_owner_def owner_or_def new_org_def
    new_member_def new_org_customer_def generate_unique_slug_def persist_team_subscription_def
    schedule_personal_cancel_def sync_django_def django_sel customer_get_def Let_def
  by (intro keeps_intros on_db_writes billing_pending mirror.sync_pending [unfolded pending_state_eq];
      simp add: all_pending_ok_def)

lemma product_pending: "keeps (on_db all_pending_ok) (on_product_checkout_completed s p u g)"
  unfolding on_product_checkout_completed_def Let_def
  by (intro keeps_intros grant_frame; simp add: all_pending_ok_def)

lemma dispatch_all_pending: "keeps (on_db all_pending_ok) (dispatch event (get_webhook_repos E))"
  by (rule mirror.dispatch_pending [unfolded pending_state_eq])
    (auto simp: delete_org_on_subscription_cancel_def keeps_intros intro: team_pending product_pending)

text \<open>
  A scheduled plan and its date are set together or not at all: handling any Stripe event, and
  cancelling, resuming or releasing a subscription, keeps the two columns of every row in step,
  whatever the outcome.
\<close>

theorem pending_change_paired:
  "keeps (on_db all_pending_ok) (process_stripe_webhook E retries k)
 \<and> keeps (on_db all_pending_ok) (cancel_subscription E customer at_end django_subscriptions)
 \<and> keeps (on_db all_pending_ok) (resume_subscription E customer django_subscriptions)
 \<and> keeps (on_db all_pending_ok) (release_pending_schedule_for_customer E customer django_subscriptions)"
  unfolding process_stripe_webhook_def process_stored_event_def celery_retry_def webhook_repos_sel
    django_sel mark_processed_def mark_failed_def
  by (intro conjI billing_pending keeps_intros dispatch_all_pending on_db_writes;
      simp add: all_pending_ok_def)

section \<open>The end of a team subscription\<close>

text \<open>Saving a copy that keeps the keys of a stored row is never refused.\<close>

lemma save_copy_run:
  assumes "consistent w" and "r \<in> set (subscriptions (db w))"
    and "s_id s = s_id r" "s_stripe_id s = s_stripe_id r" "s_user s = s_user r"
      "s_customer s = s_customer r" "s_plan s = s_plan r" "s_scheduled_plan s = s_scheduled_plan r"
      "s_created_at s = s_created_at r"
  shows "subscription_save s w = (Inr (), w\<lparr>db := (db w)\<lparr>subscriptions :=
    map (\<lambda>x. if x = r then s else x) (subscriptions (db w))\<rparr>\<rparr>)"
proof -
  let ?xs = "subscriptions (db w)" and ?f = "\<lambda>x. s\<lparr>s_id := s_id x, s_created_at := s_created_at x\<rparr>"
  have ok: "subscriptions_ok ?xs" using assms(1) by (rule consistent_subscriptions)
  have only: "x = r" if "x \<in> set ?xs" "s_id x = s_id r" for x
    using ok assms(2) that by (auto simp: subscriptions_ok_def dest: distinct_map_eqD)
  have s: "?f r = s" using assms(3,9) by simp
  have upd: "update_where (\<lambda>x. s_id x = s_id s) ?f ?xs = map (\<lambda>x. if x = r then s else x) ?xs"
    using only s assms(3) by (auto simp: update_where_def)
  have "map s_id (map (\<lambda>x. if x = r then s else x) ?xs) = map s_id ?xs"
    "map s_stripe_id (map (\<lambda>x. if x = r then s else x) ?xs) = map s_stripe_id ?xs"
    using assms(3,4) by simp_all
  then have "subscriptions_ok (map (\<lambda>x. if x = r then s else x) ?xs)"
    using ok assms(2,5,6) by (simp only: subscriptions_ok_def) (auto simp: list_all_iff)
  moreover have "subscription_refs s = subscription_refs r"
    using assms(5-8) by (simp add: subscription_refs_def)
  then have "refs_ok (db w) (subscription_refs s)"
    using assms(1,2) by (simp add: consistent_def db_ok_def fk_ok_rows list_all_iff)
  then have "list_all (\<lambda>x. s_id x = s_id s \<longrightarrow> refs_ok (db w) (subscription_refs (?f x))) ?xs"
    using only s assms(3) unfolding list_all_iff by metis
  moreover have "list_ex (\<lambda>x. s_id x = s_id s) ?xs" using assms(2,3) by (auto simp: list_ex_iff)
  ultimately show ?thesis
    by (simp add: subscription_save_def mbind_run save_row_def update_rows_def upd)
qed

lemma after_delete_customers: "set (customers (after_delete gs d)) \<subseteq> set (customers d)"
  by (auto simp: after_delete_def cascade_users_def cascade_orgs_def Let_def)

lemma org_task_deletes:
  assumes "consistent w" and "g \<in> set (map o_id (orgs (db w)))"
  shows "\<exists>w'. delete_org_on_subscription_cancel_task g w = (Inr (), w') \<and> db w' = after_delete [g] (db w)"
proof -
  obtain r where r: "r \<in> set (orgs (db w))" "o_id r = g" using assms(2) by auto
  have "orgs_ok (orgs (db w))" using assms(1) by (simp add: consistent_def db_ok_def tables_ok_def)
  with r have find: "first_by o_id (filter (\<lambda>r. o_id r = g) (orgs (db w))) = Some r"
    by (intro first_by_unique) (auto simp: orgs_ok_def dest: distinct_map_eqD)
  obtain c where "delete_orgs_db [g] w = (Inr (), w\<lparr>db := after_delete [g] (db w), cache := c\<rparr>)"
    using delete_orgs_db_run [OF assms(1)] by blast
  with find r show ?thesis
    by (simp add: delete_org_on_subscription_cancel_task_def delete_org_db_only_def mbind_run)
qed

lemma deleted_event_run:
  assumes "consistent w" and "s \<in> set (subscriptions (db w))" and "s_stripe_id s = Some sid"
    and "s_user s = None" and "s_customer s = Some (c_id c)" and "c \<in> set (customers (db w))"
    and "c_org c = Some g" and "dindex obj ''id'' = Inr (JStr sid)"
  shows "on_subscription_deleted obj (get_webhook_repos E) w = (Inr (), w\<lparr>queue := queue w @ [DeleteOrgOnSubscriptionCancel g],
    db := (db w)\<lparr>subscriptions := map (\<lambda>x. if x = s then s\<lparr>s_status := CANCELED, s_canceled_at := Some (clock w)\<rparr> else x)
      (subscriptions (db w))\<rparr>\<rparr>)"
proof -
  have "subscriptions_ok (subscriptions (db w))" using assms(1) by (rule consistent_subscriptions)
  then have find: "find_stripe sid (subscriptions (db w)) = Some s"
    using assms(2,3) by (auto simp: subscriptions_ok_def intro: find_stripe_mem)
  have "customers_ok (customers (db w))"
    using assms(1) by (simp add: consistent_def db_ok_def tables_ok_def)
  then have cust: "first_by c_id (filter (\<lambda>x. c_id x = c_id c) (customers (db w))) = Some c"
    using assms(6) by (intro first_by_unique) (auto simp: customers_ok_def dest: distinct_map_eqD)
  note save = save_copy_run [OF assms(1,2), of "s\<lparr>s_status := CANCELED, s_canceled_at := Some (clock w)\<rparr>"]
  show ?thesis
    using find cust assms(4,5,7,8) save
    by (simp add: on_subscription_deleted_def run_simps subscription_by_stripe_id_def find_stripe_def
        customer_get_def delete_org_on_subscription_cancel_def)
qed

text \<open>
  The end of a team subscription ends its organisation.  Handling the deletion event of an
  organisation's subscription marks the row cancelled at that time and queues one task, and running
  that task removes the organisation with its memberships, its Stripe customer and every
  subscription of that customer.
\<close>

theorem team_cancellation_deletes_org:
  assumes "consistent w" and "s \<in> set (subscriptions (db w))" and "s_stripe_id s = Some sid"
    and "s_user s = None" and "s_customer s = Some (c_id c)" and "c \<in> set (customers (db w))"
    and "c_org c = Some g"
    and "dindex event ''type'' = Inr (JStr ''customer.subscription.deleted'')"
    and "rbind (dindex event ''data'') (\<lambda>d. dindex d ''object'') = Inr obj"
    and "dindex obj ''id'' = Inr (JStr sid)"
  shows "\<exists>w1 w2. dispatch event (get_webhook_repos E) w = (Inr (), w1)
    \<and> subscriptions (db w1) = map (\<lambda>x. if x = s
          then s\<lparr>s_status := CANCELED, s_canceled_at := Some (clock w)\<rparr> else x) (subscriptions (db w))
    \<and> queue w1 = queue w @ [DeleteOrgOnSubscriptionCancel g]
    \<and> delete_org_on_subscription_cancel_task g w1 = (Inr (), w2)
    \<and> map o_id (orgs (db w2)) = filter (\<lambda>k. k \<noteq> g) (map o_id (orgs (db w)))
    \<and> members (db w2) = filter (\<lambda>m. m_org m \<noteq> g) (members (db w))
    \<and> c \<notin> set (customers (db w2)) \<and> (\<forall>x\<in>set (subscriptions (db w2)). s_customer x \<noteq> s_customer s)"
proof -
  let ?s = "\<lambda>x. if x = s then s\<lparr>s_status := CANCELED, s_canceled_at := Some (clock w)\<rparr> else x"
  let ?w1 = "w\<lparr>queue := queue w @ [DeleteOrgOnSubscriptionCancel g],
      db := (db w)\<lparr>subscriptions := map ?s (subscriptions (db w))\<rparr>\<rparr>"
  have run: "dispatch event (get_webhook_repos E) w = (Inr (), ?w1)"
    using deleted_event_run [OF assms(1-7,10), of E] assms(8,9) by (simp add: dispatch_def run_simps)
  have c1: "consistent ?w1" using keepsD_run [OF keeps_dispatch assms(1) run] .
  have g: "g \<in> set (map o_id (orgs (db ?w1)))"
    using assms(1,6,7) by (auto simp: consistent_def db_ok_def fk_ok_rows list_all_iff customer_refs_def)
  obtain w2 where task: "delete_org_on_subscription_cancel_task g ?w1 = (Inr (), w2)"
    and w2: "db w2 = after_delete [g] (db ?w1)"
    using org_task_deletes [OF c1 g] by blast
  have ok2: "db_ok (db w2)"
    using keepsD_run [OF keeps_delete_orgs_db(6) c1 task] by (simp add: consistent_def)
  have orgs2: "map o_id (orgs (db w2)) = filter (\<lambda>k. k \<noteq> g) (map o_id (orgs (db w)))"
    using after_delete_orgs [of "[g]" "db ?w1"] w2 by simp
  have mem2: "members (db w2) = filter (\<lambda>m. m_org m \<noteq> g) (members (db w))"
    using after_delete_members [of "db ?w1" "[g]"] c1 g w2 by (simp add: consistent_def)
  have gone: "g \<notin> o_id ` set (orgs (db w2))" using arg_cong [OF orgs2, where f = set] by auto
  then have cust2: "c \<notin> set (customers (db w2))"
    using ok2 assms(7) by (auto simp: db_ok_def fk_ok_rows list_all_iff customer_refs_def)
  have "s_customer x \<noteq> s_customer s" if x: "x \<in> set (subscriptions (db w2))" for x
  proof
    assume "s_customer x = s_customer s"
    then have "c_id c \<in> c_id ` set (customers (db w2))"
      using ok2 x assms(5) by (auto simp: db_ok_def fk_ok_rows list_all_iff subscription_refs_def)
    then obtain c' where "c' \<in> set (customers (db w2))" "c_id c' = c_id c" by auto
    moreover from this(1) have "c' \<in> set (customers (db w))"
      using after_delete_customers [of "[g]" "db ?w1"] w2 by auto
    ultimately have "c' = c"
      using assms(1,6) by (auto simp: consistent_def db_ok_def tables_ok_def customers_ok_def dest: distinct_map_eqD)
    with \<open>c' \<in> set (customers (db w2))\<close> cust2 show False by simp
  qed
  with run task orgs2 mem2 cust2 show ?thesis by (intro exI [where x = ?w1] exI [where x = w2]) simp
qed

section \<open>Witnesses\<close>

definition sample_deleted :: json where
  "sample_deleted = JObj [(''id'', JStr ''evt_1''), (''type'', JStr ''customer.subscription.deleted''),
     (''livemode'', JBool False),
     (''data'', JObj [(''object'', JObj [(''id'', JStr ''sub_2'')])])]"

definition sample_gateway :: gateway where
  "sample_gateway = \<lparr>construct_event = (\<lambda>body sig secret. if sig = secret then Verified else BadSignature),
     json_loads = (\<lambda>s. if s = ''body'' then Some sample_deleted else None),
     stripe_webhook_secret = ''whsec''\<rparr>"

definition sample_event :: stripe_event where
  "sample_event = \<lparr>e_id = 50, e_stripe_id = ''evt_1'', e_type = ''customer.subscription.deleted'',
     e_livemode = False, e_payload = sample_deleted, e_processed_at = None, e_error = None,
     e_created_at = 0\<rparr>"

definition sample_event_world :: world where
  "sample_event_world = start_world (sample_db\<lparr>stripe_events := [sample_event]\<rparr>)"

lemma sample_event_consistent: "consistent sample_event_world"
  by (simp add: sample_event_world_def consistent_def db_ok_def tables_ok_def table_ok_defs fk_ok_rows
      sample_simps refs_defs xor_owner_def lower_def lower_char_def)

lemma sample_dispatch:
  "fst (dispatch sample_deleted (get_webhook_repos start_env) sample_event_world) = Inr ()"
  by code_simp

theorem webhook_outcome_recorded_witness:
  "fst (process_stripe_webhook start_env 0 50 sample_event_world) = Inr Processed
   \<and> map e_processed_at (stripe_events (db (snd (process_stripe_webhook start_env 0 50 sample_event_world))))
     = [Some 0]"
proof -
  let ?run = "process_stripe_webhook start_env 0 (e_id sample_event) sample_event_world"
  have "sample_event \<in> set (stripe_events (db sample_event_world))"
    by (simp add: sample_event_world_def start_world_def)
  from webhook_outcome_recorded [OF sample_event_consistent this surjective_pairing, of start_env 0]
  show ?thesis
    using sample_dispatch by (simp add: sample_event_def sample_event_world_def start_world_def)
qed

definition sample_hook :: hook_request where
  "sample_hook = \<lparr>h_method = ''POST'', h_content_length = Some ''4'', h_signature = Some ''whsec'',
     h_body = ''body''\<rparr>"

lemma sample_number: "py_int_text 10 ''4'' = Inr 4"
  by code_simp

theorem webhook_stored_once_witness:
  "stripe_webhook start_env sample_gateway sample_hook sample_event_world = (Inr 202, sample_event_world)
   \<and> (\<exists>w1. stripe_webhook start_env sample_gateway sample_hook (start_world sample_db) = (Inr 202, w1)
       \<and> queue w1 = [ProcessStripeWebhook 1000]
       \<and> stripe_webhook start_env sample_gateway sample_hook w1 = (Inr 202, w1))"
proof -
  let ?run = "stripe_webhook start_env sample_gateway sample_hook"
  have step: "?run v = store_and_dispatch ''evt_1'' ''customer.subscription.deleted'' False sample_deleted v" for v
    by (simp add: stripe_webhook_def sample_hook_def sample_gateway_def content_length_def
        max_webhook_body_def event_fields_def sample_deleted_def key_is_live_def start_env_def
        startswith_def sample_number)
  have "?run sample_event_world = (Inr 202, sample_event_world)"
    unfolding step by (rule store_known) (simp_all add: sample_event_world_def sample_event_def start_world_def)
  moreover have a: "fst (?run (start_world sample_db)) = Inr 202"
    and q: "queue (snd (?run (start_world sample_db))) = [ProcessStripeWebhook 1000]"
    unfolding step by code_simp+
  moreover have r: "?run (start_world sample_db) = (Inr 202, snd (?run (start_world sample_db)))"
    using a by (metis prod.collapse)
  moreover have "?run (snd (?run (start_world sample_db))) = (Inr 202, snd (?run (start_world sample_db)))"
    using webhook_stored_once [OF _ r] by (simp add: start_world_def)
  ultimately show ?thesis by blast
qed

theorem team_cancellation_deletes_org_witness:
  "\<exists>w1 w2. dispatch sample_deleted (get_webhook_repos start_env) (start_world sample_db) = (Inr (), w1)
    \<and> delete_org_on_subscription_cancel_task 10 w1 = (Inr (), w2)
    \<and> orgs (db w2) = [] \<and> members (db w2) = []"
proof -
  let ?s = "sample_sub\<lparr>s_id := 41, s_stripe_id := Some ''sub_2'', s_customer := Some 31, s_user := None,
         s_plan := 24, s_seat_limit := 3, s_scheduled_plan := None, s_scheduled_change_at := None\<rparr>"
  let ?c = "\<lparr>c_id = 31, c_stripe_id = ''cus_2'', c_user = None, c_org = Some 10,
      c_livemode = False, c_created_at = 0\<rparr>"
  have "rbind (dindex sample_deleted ''data'') (\<lambda>d. dindex d ''object'')
      = Inr (JObj [(''id'', JStr ''sub_2'')])" by (simp add: sample_deleted_def)
  from team_cancellation_deletes_org [OF sample_consistent _ _ _ _ _ _ _ this, of ?s "''sub_2''" ?c 10 start_env]
  show ?thesis by (auto simp: sample_deleted_def sample_db_def empty_db_def start_world_def)
qed

end
