(* ===== verification/OAuth.thy ===== *)
theory OAuth
  imports Accounts
begin

text \<open>
  Exchanging an OAuth code for the user's identity, \<open>apps/users/oauth.py\<close>.  The HTTP endpoints of
  the providers and the verification of a Microsoft id token by the JWT library are parameters
  (\<open>provider_api\<close>); what the code makes of their JSON is defined here.  The fields of those
  responses are text or null, as the \<open>TypedDict\<close>s of the source declare; a field of another type
  raises where the model reads it.
\<close>

section \<open>Providers\<close>

datatype provider = Google | GitHub | Microsoft

definition provider_of :: "string \<Rightarrow> provider option" where
  "provider_of s = (if s = ''google'' then Some Google else if s = ''github'' then Some GitHub
     else if s = ''microsoft'' then Some Microsoft else None)"

record provider_api =
  token_endpoint :: "provider \<Rightarrow> string \<Rightarrow> string \<Rightarrow> json res"
  userinfo_endpoint :: "provider \<Rightarrow> json \<Rightarrow> json res"
  github_emails :: "json \<Rightarrow> json res"
  decode_ms_token :: "json \<Rightarrow> json option"

section \<open>Reading the responses\<close>

fun text_of :: "json \<Rightarrow> string res" where
  "text_of (JStr s) = Inr s"
| "text_of _ = Inl TypeError"

fun text_or_null :: "json \<Rightarrow> string option res" where
  "text_or_null JNull = Inr None"
| "text_or_null (JStr s) = Inr (Some s)"
| "text_or_null _ = Inl TypeError"

text \<open>\<open>email.split("@")[0]\<close>\<close>

definition local_part :: "string \<Rightarrow> string" where
  "local_part email = takeWhile (\<lambda>c. c \<noteq> CHR ''@'') email"

fun is_object :: "json \<Rightarrow> bool" where
  "is_object (JObj _) = True"
| "is_object _ = False"

definition ms_issuer_prefix :: string where
  "ms_issuer_prefix = ''https://login.microsoftonline.com/''"

definition ms_issuer_suffix :: string where "ms_issuer_suffix = ''/v2.0''"

text \<open>The claims of an id token that verifies and that Microsoft issued.\<close>

definition verify_microsoft_id_token :: "provider_api \<Rightarrow> json \<Rightarrow> json option res" where
  "verify_microsoft_id_token A token =
     (case decode_ms_token A token of None \<Rightarrow> Inr None
      | Some claims \<Rightarrow>
        rbind (dget_or claims ''iss'' (JStr [])) (\<lambda>iss.
        case iss of
          JStr s \<Rightarrow> Inr (if startswith s ms_issuer_prefix \<and> endswith s ms_issuer_suffix
                        then Some claims else None)
        | _ \<Rightarrow> Inl AttributeError))"

text \<open>The first entry that is both primary and verified.\<close>

fun primary_email :: "json list \<Rightarrow> string res" where
  "primary_email [] = Inl OAuthError"
| "primary_email (entry # rest) =
     rbind (dget entry ''primary'') (\<lambda>p.
     if \<not> truthy p then primary_email rest else
     rbind (dget entry ''verified'') (\<lambda>v.
     if \<not> truthy v then primary_email rest
     else rbind (dindex entry ''email'') (\<lambda>e. Inr (py_str e))))"

definition fetch_github_primary_email :: "provider_api \<Rightarrow> json \<Rightarrow> string res" where
  "fetch_github_primary_email A access_token =
     rbind (github_emails A access_token) (\<lambda>entries.
     case entries of JArr es \<Rightarrow> primary_email es | _ \<Rightarrow> Inl TypeError)"

section \<open>The identity a provider reports\<close>

definition google_user :: "json \<Rightarrow> oauth_info res" where
  "google_user info =
     rbind (dget info ''email'') (\<lambda>email.
     if \<not> truthy email then Inl OAuthError else
     rbind (text_of email) (\<lambda>email.
     rbind (dget info ''verified_email'') (\<lambda>v1.
     rbind (dget info ''email_verified'') (\<lambda>v2.
     rbind (dget info ''name'') (\<lambda>name.
     rbind (text_of (py_or name (JStr (local_part email)))) (\<lambda>full_name.
     rbind (dindex info ''id'') (\<lambda>i.
     rbind (rbind (dget info ''picture'') text_or_null) (\<lambda>avatar.
     Inr \<lparr>oi_email = email, oi_full_name = full_name, oi_provider_user_id = py_str i,
          oi_avatar_url = avatar, oi_email_verified = (v1 = JBool True \<or> v2 = JBool True)\<rparr>))))))))"

definition github_user :: "provider_api \<Rightarrow> json \<Rightarrow> json \<Rightarrow> oauth_info res" where
  "github_user A access_token info =
     rbind (fetch_github_primary_email A access_token) (\<lambda>email.
     rbind (dget info ''name'') (\<lambda>name.
     rbind (dget info ''login'') (\<lambda>login.
     rbind (text_of (py_or name (py_or login (JStr (local_part email))))) (\<lambda>full_name.
     rbind (dindex info ''id'') (\<lambda>i.
     rbind (rbind (dget info ''avatar_url'') text_or_null) (\<lambda>avatar.
     Inr \<lparr>oi_email = email, oi_full_name = full_name, oi_provider_user_id = py_str i,
          oi_avatar_url = avatar, oi_email_verified = True\<rparr>))))))"

text \<open>The address is trusted only with the \<open>xms_edov\<close> claim of a verified id token.\<close>

definition microsoft_verified :: "json \<Rightarrow> json \<Rightarrow> oauth_info res" where
  "microsoft_verified claims info =
     rbind (rbind (dget claims ''email'') text_of) (\<lambda>email.
     rbind (dget claims ''name'') (\<lambda>name.
     rbind (dget_or info ''displayName'' (JStr [])) (\<lambda>display.
     rbind (text_of (py_or name display)) (\<lambda>full_name.
     rbind (dget claims ''oid'') (\<lambda>oid.
     rbind (if truthy oid then Inr oid else dindex info ''id'') (\<lambda>i.
     Inr \<lparr>oi_email = email, oi_full_name = full_name, oi_provider_user_id = py_str i,
          oi_avatar_url = None, oi_email_verified = True\<rparr>))))))"

definition microsoft_unverified :: "json \<Rightarrow> oauth_info res" where
  "microsoft_unverified info =
     rbind (dget info ''mail'') (\<lambda>mail.
     rbind (dget info ''userPrincipalName'') (\<lambda>upn.
     let email = py_or mail upn in
     if \<not> truthy email then Inl OAuthError else
     rbind (text_of email) (\<lambda>email.
     rbind (rbind (dget_or info ''displayName'' (JStr [])) text_of) (\<lambda>full_name.
     rbind (dindex info ''id'') (\<lambda>i.
     Inr \<lparr>oi_email = email, oi_full_name = full_name, oi_provider_user_id = py_str i,
          oi_avatar_url = None, oi_email_verified = False\<rparr>)))))"

definition microsoft_trusted :: "json option \<Rightarrow> bool res" where
  "microsoft_trusted claims =
     (case claims of None \<Rightarrow> Inr False
      | Some c \<Rightarrow>
        rbind (dget c ''email'') (\<lambda>verified_email.
        if \<not> truthy c then Inr False else
        rbind (dget c ''xms_edov'') (\<lambda>edov. Inr (edov = JBool True \<and> truthy verified_email))))"

definition microsoft_user :: "provider_api \<Rightarrow> json \<Rightarrow> json \<Rightarrow> oauth_info res" where
  "microsoft_user A token_data info =
     rbind (dget token_data ''id_token'') (\<lambda>id_token.
     rbind (if truthy id_token then verify_microsoft_id_token A id_token else Inr None) (\<lambda>claims.
     rbind (microsoft_trusted claims) (\<lambda>trusted.
     case claims of
       Some c \<Rightarrow> if trusted then microsoft_verified c info else microsoft_unverified info
     | None \<Rightarrow> microsoft_unverified info)))"

definition exchange_code :: "provider_api \<Rightarrow> string \<Rightarrow> string \<Rightarrow> string \<Rightarrow> oauth_info res" where
  "exchange_code A provider code redirect_uri =
     (case provider_of provider of None \<Rightarrow> Inl ValueError
      | Some prov \<Rightarrow>
        rbind (token_endpoint A prov code redirect_uri) (\<lambda>token_data.
        rbind (dget token_data ''access_token'') (\<lambda>access_token.
        if \<not> truthy access_token then Inl OAuthError else
        rbind (userinfo_endpoint A prov access_token) (\<lambda>info.
        if \<not> is_object info then Inl OAuthError else
        (case prov of
           Google \<Rightarrow> google_user info
         | GitHub \<Rightarrow> github_user A access_token info
         | Microsoft \<Rightarrow> microsoft_user A token_data info)))))"

section \<open>What the verified flag means\<close>

text \<open>
  The providers' own statements that a mailbox belongs to the person who logs in: Google's flag as
  a JSON boolean, a primary and verified GitHub address, the domain-ownership claim of a genuine
  Microsoft token for the address in that same token.
\<close>

definition attested :: "provider_api \<Rightarrow> provider \<Rightarrow> json \<Rightarrow> json \<Rightarrow> string \<Rightarrow> bool" where
  "attested A prov token_data info email = (case prov of
     Google \<Rightarrow> dget info ''email'' = Inr (JStr email)
       \<and> (dget info ''verified_email'' = Inr (JBool True) \<or> dget info ''email_verified'' = Inr (JBool True))
   | GitHub \<Rightarrow> (\<exists>access es entry p v e. dget token_data ''access_token'' = Inr access
       \<and> github_emails A access = Inr (JArr es) \<and> entry \<in> set es
       \<and> dget entry ''primary'' = Inr p \<and> truthy p \<and> dget entry ''verified'' = Inr v \<and> truthy v
       \<and> dindex entry ''email'' = Inr e \<and> email = py_str e)
   | Microsoft \<Rightarrow> (\<exists>token claims issuer. dget token_data ''id_token'' = Inr token
       \<and> decode_ms_token A token = Some claims \<and> dget_or claims ''iss'' (JStr []) = Inr (JStr issuer)
       \<and> startswith issuer ms_issuer_prefix \<and> endswith issuer ms_issuer_suffix
       \<and> dget claims ''xms_edov'' = Inr (JBool True) \<and> dget claims ''email'' = Inr (JStr email)))"

lemma text_of_Inr: "text_of j = Inr s \<longleftrightarrow> j = JStr s"
  by (cases j) auto

lemma primary_email_Inr:
  "primary_email es = Inr email \<Longrightarrow> \<exists>entry\<in>set es. \<exists>p v e. dget entry ''primary'' = Inr p \<and> truthy p
     \<and> dget entry ''verified'' = Inr v \<and> truthy v \<and> dindex entry ''email'' = Inr e \<and> email = py_str e"
  by (induction es) (auto elim!: rbind_InrE split: if_splits)

lemma google_attested:
  "google_user info = Inr u \<Longrightarrow> oi_email_verified u \<Longrightarrow> attested A Google token_data info (oi_email u)"
  by (auto simp: google_user_def attested_def text_of_Inr elim!: rbind_InrE split: if_splits)

lemma github_attested:
  assumes "github_user A access info = Inr u" and "dget token_data ''access_token'' = Inr access"
  shows "attested A GitHub token_data info (oi_email u)"
proof -
  from assms(1) obtain es where "github_emails A access = Inr (JArr es)" "primary_email es = Inr (oi_email u)"
    by (auto simp: github_user_def fetch_github_primary_email_def elim!: rbind_InrE split: json.splits)
  with primary_email_Inr [of es "oi_email u"] assms(2) show ?thesis
    by (simp add: attested_def) blast
qed

lemma verify_ms_Inr:
  "verify_microsoft_id_token A token = Inr (Some claims) \<Longrightarrow> decode_ms_token A token = Some claims
     \<and> (\<exists>issuer. dget_or claims ''iss'' (JStr []) = Inr (JStr issuer)
         \<and> startswith issuer ms_issuer_prefix \<and> endswith issuer ms_issuer_suffix)"
  by (auto simp: verify_microsoft_id_token_def elim!: rbind_InrE split: option.splits json.splits if_splits)

lemma microsoft_attested:
  assumes "microsoft_user A token_data info = Inr u" and "oi_email_verified u"
  shows "attested A Microsoft token_data info (oi_email u)"
proof -
  from assms obtain token claims where token: "dget token_data ''id_token'' = Inr token"
    and v: "verify_microsoft_id_token A token = Inr (Some claims)"
    and t: "microsoft_trusted (Some claims) = Inr True" and m: "microsoft_verified claims info = Inr u"
    by (auto simp: microsoft_user_def microsoft_unverified_def Let_def elim!: rbind_InrE
        split: option.splits if_splits)
  from t have "dget claims ''xms_edov'' = Inr (JBool True)"
    by (auto simp: microsoft_trusted_def elim!: rbind_InrE split: if_splits)
  moreover from m have "dget claims ''email'' = Inr (JStr (oi_email u))"
    by (auto simp: microsoft_verified_def text_of_Inr elim!: rbind_InrE)
  ultimately show ?thesis
    using token verify_ms_Inr [OF v] by (auto simp: attested_def)
qed

definition mailbox_attested :: "provider_api \<Rightarrow> string \<Rightarrow> string \<Rightarrow> string \<Rightarrow> string \<Rightarrow> bool" where
  "mailbox_attested A provider code uri email \<longleftrightarrow>
     (\<exists>prov token_data access info. provider_of provider = Some prov
      \<and> token_endpoint A prov code uri = Inr token_data
      \<and> dget token_data ''access_token'' = Inr access \<and> userinfo_endpoint A prov access = Inr info
      \<and> attested A prov token_data info email)"

lemma exchange_attested:
  assumes "exchange_code A provider code uri = Inr u" and "oi_email_verified u"
  shows "mailbox_attested A provider code uri (oi_email u)"
proof -
  from assms(1) obtain prov token_data access info where
    "provider_of provider = Some prov" "token_endpoint A prov code uri = Inr token_data"
    "dget token_data ''access_token'' = Inr access" "userinfo_endpoint A prov access = Inr info"
    "(case prov of Google \<Rightarrow> google_user info | GitHub \<Rightarrow> github_user A access info
         | Microsoft \<Rightarrow> microsoft_user A token_data info) = Inr u"
    by (auto simp: exchange_code_def elim!: rbind_InrE split: option.splits if_splits)
  moreover from this assms(2) have "attested A prov token_data info (oi_email u)"
    by (cases prov) (auto intro: google_attested github_attested microsoft_attested)
  ultimately show ?thesis unfolding mailbox_attested_def by blast
qed

end
