(* ===== verification/AuthViews.thy ===== *)
theory AuthViews
  imports OAuth OrgServices
begin

text \<open>
  The authentication API, \<open>apps/users/auth_views.py\<close>, from the point where a serializer has
  accepted the request: registration, email verification, login, refresh, logout, password reset and
  change, the OAuth login with its one-time exchange code, and the confirmation of a link.

  An answer is a \<open>reply\<close>, a redirect is named by its page and parameter.  The default
  authentication backend of Django is a parameter: a function of the stored users, the email and
  the password.
\<close>

section \<open>Answers\<close>

record token_pair =
  access_token :: string
  refresh_token :: string
  token_type :: string
  expires_in :: int

datatype reply = Tokens nat token_pair | Detail nat string | NoContent

datatype redirect = ErrorPage string | ProviderPage string string | LinkEmailSent | CallbackCode string

definition token_payload :: "string \<Rightarrow> string \<Rightarrow> token_pair" where
  "token_payload access refresh = \<lparr>access_token = access, refresh_token = refresh,
     token_type = ''Bearer'', expires_in = access_token_lifetime div 1000000\<rparr>"

definition token_response :: "jwt \<Rightarrow> user \<Rightarrow> string \<Rightarrow> nat \<Rightarrow> reply io" where
  "token_response J u refresh http_status =
     mbind (create_access_token J u) (\<lambda>a. mret (Tokens http_status (token_payload a refresh)))"

section \<open>Registration and verification\<close>

definition register_user :: "env \<Rightarrow> jwt \<Rightarrow> string \<Rightarrow> string \<Rightarrow> string \<Rightarrow> reply io" where
  "register_user E J email password full_name =
     mbind (email_is_registered email) (\<lambda>registered.
     if registered then mraise EmailAlreadyExists else
     mbind (mtry (atomic (create_user E email (Some password)
              (\<lambda>u. u\<lparr>u_full_name := full_name, u_is_verified := False\<rparr>)))
             (\<lambda>e. if e = IntegrityError then mraise EmailAlreadyExists else mraise e)) (\<lambda>user.
     mbind (create_email_verification_token E user) (\<lambda>token.
     mseq (delay (SendVerificationEmail (u_email user) token))
     (mbind (create_refresh_token E user) (\<lambda>refresh. token_response J user refresh 201)))))"

text \<open>\<open>user.save(update_fields=\<dots>)\<close>: only the listed columns, and \<open>updated_at\<close> is now.\<close>

definition save_fields :: "user \<Rightarrow> (user \<Rightarrow> user) \<Rightarrow> unit io" where
  "save_fields u f = mbind now (\<lambda>t. save_user (u_id u) (\<lambda>r. (f r)\<lparr>u_updated_at := t\<rparr>))"

definition activate_user :: "env \<Rightarrow> jwt \<Rightarrow> string option \<Rightarrow> user \<Rightarrow> reply io" where
  "activate_user E J password user =
     (let unusable = (u_password user = None); given = (case password of None \<Rightarrow> [] | Some p \<Rightarrow> p) in
     if unusable \<and> given = [] then mret (Detail 400 ''password_required'')
     else
       let pw = (if unusable then Some (make_password E given) else u_password user);
           changed = (unusable \<or> \<not> u_is_verified user);
           user' = user\<lparr>u_password := pw, u_is_verified := True\<rparr> in
       mseq (mwhen changed (save_fields user (\<lambda>r. r\<lparr>
               u_password := (if unusable then pw else u_password r),
               u_is_verified := (if u_is_verified user then u_is_verified r else True)\<rparr>)))
       (mbind (create_refresh_token E user') (\<lambda>refresh. token_response J user' refresh 200)))"

definition verify_email_view :: "env \<Rightarrow> jwt \<Rightarrow> string \<Rightarrow> string option \<Rightarrow> reply io" where
  "verify_email_view E J token password =
     mbind (verify_email_token E token) (activate_user E J password)"

definition expire_unused :: "'a one_time_token_scheme table \<Rightarrow> uuid \<Rightarrow> unit io" where
  "expire_unused T u = mbind now (\<lambda>t. update_rows T (\<lambda>r. ot_user r = u \<and> ot_used_at r = None)
     (\<lambda>r. r\<lparr>ot_used_at := Some t\<rparr>))"

definition resend_verification_view :: "env \<Rightarrow> string \<Rightarrow> reply io" where
  "resend_verification_view E email =
     mbind (first_row users_T (\<lambda>u. same_email email u \<and> u_is_active u \<and> \<not> u_is_verified u)) (\<lambda>user.
     mseq (case user of None \<Rightarrow> mret ()
           | Some u \<Rightarrow>
             mseq (expire_unused verification_tokens_T (u_id u))
             (mbind (create_email_verification_token E u) (\<lambda>token.
              delay (SendVerificationEmail (u_email u) token))))
     (mret (Detail 200 ''verification_email_queued'')))"

section \<open>Login, refresh, logout\<close>

type_synonym auth_backend = "user list \<Rightarrow> string \<Rightarrow> string \<Rightarrow> user option"

definition login_view :: "env \<Rightarrow> jwt \<Rightarrow> auth_backend \<Rightarrow> string \<Rightarrow> string \<Rightarrow> reply io" where
  "login_view E J B email password =
     mbind (mgets (\<lambda>w. B (users (db w)) email password)) (\<lambda>user.
     case user of None \<Rightarrow> mraise InvalidCredentials
     | Some u \<Rightarrow>
       if \<not> u_is_active u then mraise AccountDeactivated
       else if \<not> u_is_verified u then mraise InvalidCredentials
       else mbind (create_refresh_token E u) (\<lambda>refresh. token_response J u refresh 200))"

definition refresh_view :: "env \<Rightarrow> jwt \<Rightarrow> string \<Rightarrow> reply io" where
  "refresh_view E J raw =
     mbind (rotate_refresh_token E raw) (\<lambda>(u, refresh). token_response J u refresh 200)"

definition logout_view :: "env \<Rightarrow> string \<Rightarrow> reply io" where
  "logout_view E raw = mseq (revoke_refresh_token E raw) (mret NoContent)"

section \<open>Passwords\<close>

definition forgot_password_view :: "env \<Rightarrow> string \<Rightarrow> reply io" where
  "forgot_password_view E email =
     mbind (first_row users_T (\<lambda>u. same_email email u \<and> u_is_active u)) (\<lambda>user.
     mseq (case user of None \<Rightarrow> mret ()
           | Some u \<Rightarrow> mbind (create_password_reset_token E u) (\<lambda>token.
               delay (SendPasswordResetEmail (u_email u) token)))
     (mret (Detail 200 ''reset_email_queued'')))"

text \<open>Setting a password stamps the time, ends every session of the user, and opens a new one.\<close>

definition replace_password :: "env \<Rightarrow> jwt \<Rightarrow> user \<Rightarrow> string \<Rightarrow> bool \<Rightarrow> reply io" where
  "replace_password E J user password verify =
     mbind now (\<lambda>t.
     let pw = Some (make_password E password);
         user' = user\<lparr>u_password := pw, u_password_changed_at := Some t,
                      u_is_verified := (verify \<or> u_is_verified user)\<rparr> in
     mseq (save_fields user (\<lambda>r. r\<lparr>u_password := pw, u_password_changed_at := Some t,
             u_is_verified := (if verify \<and> \<not> u_is_verified user then True else u_is_verified r)\<rparr>))
     (mseq (revoke_all_refresh_tokens user')
     (mbind (create_refresh_token E user') (\<lambda>refresh. token_response J user' refresh 200))))"

definition reset_password_view :: "env \<Rightarrow> jwt \<Rightarrow> string \<Rightarrow> string \<Rightarrow> reply io" where
  "reset_password_view E J token password =
     mbind (verify_password_reset_token E token) (\<lambda>user. replace_password E J user password True)"

definition user_check_password :: "env \<Rightarrow> user \<Rightarrow> string \<Rightarrow> bool" where
  "user_check_password E u raw = (case u_password u of None \<Rightarrow> False | Some p \<Rightarrow> check_password E raw p)"

definition change_password_view :: "env \<Rightarrow> jwt \<Rightarrow> user \<Rightarrow> string \<Rightarrow> string \<Rightarrow> reply io" where
  "change_password_view E J user current password =
     (if \<not> user_check_password E user current then mraise InvalidPassword
      else replace_password E J user password False)"

section \<open>OAuth\<close>

definition forwardable_oauth_errors :: "string list" where
  "forwardable_oauth_errors =
     [''access_denied'', ''server_error'', ''temporarily_unavailable'', ''invalid_request'']"

text \<open>A redirect, together with the \<open>oauth_state\<close> of the session afterwards.\<close>

definition oauth_authorize :: "string \<Rightarrow> string option \<Rightarrow> (redirect \<times> string option) io" where
  "oauth_authorize provider session =
     (if provider_of provider = None then mret (ErrorPage ''invalid_provider'', session)
      else mbind fresh_text (\<lambda>state. mret (ProviderPage provider state, Some state)))"

definition oauth_exchange_ttl :: int where "oauth_exchange_ttl = 60"

definition exchange_key :: "string \<Rightarrow> string" where "exchange_key code = ''oauth_exchange:'' @ code"

definition store_oauth_exchange :: "string \<Rightarrow> string \<Rightarrow> string io" where
  "store_oauth_exchange access refresh =
     mbind fresh_text (\<lambda>code.
     mseq (cache_set (exchange_key code) (CachedTokens access refresh) oauth_exchange_ttl) (mret code))"

definition consume_oauth_exchange :: "string \<Rightarrow> cache_value option io" where
  "consume_oauth_exchange code = (let key = exchange_key code in
     mbind (cache_add (key @ '':consumed'') CachedOne oauth_exchange_ttl) (\<lambda>won.
     if \<not> won then mret None
     else mbind (cache_get key) (\<lambda>data. mseq (cache_delete key) (mret data))))"

text \<open>A cached value that is no token pair fails at \<open>data["access_token"]\<close>.\<close>

definition exchange_reply :: "cache_value option \<Rightarrow> reply io" where
  "exchange_reply data = (case data of None \<Rightarrow> mraise InvalidOAuthCode
     | Some (CachedTokens a r) \<Rightarrow> mret (Tokens 200 (token_payload a r))
     | Some _ \<Rightarrow> mraise TypeError)"

definition oauth_exchange_view :: "string \<Rightarrow> reply io" where
  "oauth_exchange_view code = mbind (consume_oauth_exchange code) exchange_reply"

definition request_link :: "env \<Rightarrow> string \<Rightarrow> oauth_info \<Rightarrow> user option \<Rightarrow> redirect io" where
  "request_link E provider info existing =
     mseq (case existing of None \<Rightarrow> mret ()
           | Some u \<Rightarrow>
             mseq (expire_unused link_requests_T (u_id u))
             (mbind (create_social_link_token E u provider (oi_provider_user_id info)
                      (oi_full_name info) (oi_avatar_url info)) (\<lambda>token.
              delay (SendSocialLinkEmail (u_email u) token provider))))
     (mret LinkEmailSent)"

definition finish_oauth :: "env \<Rightarrow> jwt \<Rightarrow> string \<Rightarrow> oauth_info \<Rightarrow> redirect io" where
  "finish_oauth E J provider info =
     mbind (mtry (mbind (resolve_oauth_user E provider info) (\<lambda>r. mret (Inr r)))
             (\<lambda>e. if e = OAuthEmailNotVerifiedError then mret (Inl ''email_not_verified'')
                  else if e = ValueError then mret (Inl ''account_deactivated'') else mraise e)) (\<lambda>outcome.
     case outcome of Inl page \<Rightarrow> mret (ErrorPage page)
     | Inr (Collision existing) \<Rightarrow> request_link E provider info existing
     | Inr (SignIn u) \<Rightarrow>
         if \<not> u_is_active u then mret (ErrorPage ''account_deactivated'')
         else mbind (create_refresh_token E u) (\<lambda>refresh.
           mbind (create_access_token J u) (\<lambda>access.
           mbind (store_oauth_exchange access refresh) (\<lambda>code. mret (CallbackCode code)))))"

definition oauth_callback ::
  "env \<Rightarrow> jwt \<Rightarrow> provider_api \<Rightarrow> string \<Rightarrow> string \<Rightarrow> string option \<Rightarrow> string option \<Rightarrow> string option
     \<Rightarrow> string option \<Rightarrow> (redirect \<times> string option) io" where
  "oauth_callback E J A uri provider code state error session =
     (if provider_of provider = None then mret (ErrorPage ''invalid_provider'', session)
      else mbind
        (if error \<noteq> None \<and> error \<noteq> Some []
         then mret (ErrorPage (if the error \<in> set forwardable_oauth_errors then the error
                               else ''exchange_failed''))
         else if state = None \<or> state = Some [] \<or> state \<noteq> session then mret (ErrorPage ''invalid_state'')
         else if code = None \<or> code = Some [] then mret (ErrorPage ''missing_code'')
         else (case exchange_code A provider (the code) uri of
             Inl e \<Rightarrow> if e = HTTPError \<or> e = OAuthError then mret (ErrorPage ''exchange_failed'')
                     else if e = ValueError \<or> e = KeyError then mret (ErrorPage ''provider_error'')
                     else mraise e
           | Inr info \<Rightarrow> finish_oauth E J provider info))
        (\<lambda>page. mret (page, None)))"

definition link_and_sign_in :: "env \<Rightarrow> jwt \<Rightarrow> link_request \<Rightarrow> user \<Rightarrow> social_account option \<Rightarrow> reply io" where
  "link_and_sign_in E J req user existing =
     mseq (atomic (
       mseq (mwhen (existing = None)
         (mseq (get_or_create_social (lr_provider req) (lr_provider_user_id req) (u_id user)) (mret ())))
       (mwhen (\<not> u_is_verified user) (save_fields user (\<lambda>r. r\<lparr>u_is_verified := True\<rparr>)))))
     (let user' = user\<lparr>u_is_verified := True\<rparr> in
      mbind (create_refresh_token E user') (\<lambda>refresh. token_response J user' refresh 200))"

definition confirm_link_view :: "env \<Rightarrow> jwt \<Rightarrow> string \<Rightarrow> reply io" where
  "confirm_link_view E J token =
     mbind (verify_social_link_token E token) (\<lambda>(req, user).
     mbind (first_row social_accounts_T (social_match (lr_provider req) (lr_provider_user_id req))) (\<lambda>existing.
     if (case existing of None \<Rightarrow> False | Some a \<Rightarrow> sa_user a \<noteq> u_id user)
     then mret (Detail 409 ''social_account_collision'')
     else link_and_sign_in E J req user existing))"

section \<open>Invariants\<close>

lemma keeps_save_fields [keeps_intros]:
  "(\<And>r. u_id (f r) = u_id r) \<Longrightarrow> keeps consistent (save_fields u f)"
  unfolding save_fields_def by (intro keeps_intros) simp

lemma keeps_token_response [keeps_intros]: "keeps P now \<Longrightarrow> keeps P (token_response J u r n)"
  unfolding token_response_def create_access_token_def by (intro keeps_intros)

lemma keeps_expire [keeps_intros]:
  "keeps consistent (expire_unused verification_tokens_T u)" "keeps consistent (expire_unused link_requests_T u)"
  unfolding expire_unused_def by (intro keeps_intros; simp)+

lemma keeps_resolution [keeps_intros]:
  "(\<And>u. keeps P (f u)) \<Longrightarrow> (\<And>v. keeps P (g v)) \<Longrightarrow>
   keeps P (case r of SignIn u \<Rightarrow> f u | Collision v \<Rightarrow> g v)"
  by (cases r) simp_all

lemma keeps_exchange_reply [keeps_intros]: "keeps P (exchange_reply data)"
  by (auto simp: exchange_reply_def keeps_mret keeps_mraise split: option.split cache_value.split)

lemma keeps_auth_views [keeps_intros]:
  "keeps consistent (register_user E J email pw name)"
  "keeps consistent (verify_email_view E J token given)"
  "keeps consistent (resend_verification_view E email)"
  "keeps consistent (login_view E J B email pw)"
  "keeps consistent (refresh_view E J raw)" "keeps consistent (logout_view E raw)"
  "keeps consistent (forgot_password_view E email)"
  "keeps consistent (reset_password_view E J token pw)"
  "keeps consistent (change_password_view E J user current pw)"
  "keeps consistent (oauth_authorize provider session)"
  "keeps consistent (oauth_exchange_view code)"
  "keeps consistent (confirm_link_view E J token)"
  unfolding register_user_def verify_email_view_def activate_user_def resend_verification_view_def login_view_def
    refresh_view_def logout_view_def forgot_password_view_def reset_password_view_def
    change_password_view_def replace_password_def oauth_authorize_def oauth_exchange_view_def
    consume_oauth_exchange_def confirm_link_view_def link_and_sign_in_def email_is_registered_def Let_def
  by (intro keeps_intros; simp)+

lemma keeps_oauth_callback [keeps_intros]:
  "keeps consistent (oauth_callback E J A uri provider code state error session)"
  unfolding oauth_callback_def finish_oauth_def request_link_def store_oauth_exchange_def
    create_access_token_def
  by (intro keeps_intros)

section \<open>Changing a password\<close>

lemma users_ok_update:
  "users_ok us \<Longrightarrow> (\<And>r. u_id (f r) = u_id r) \<Longrightarrow> (\<And>r. u_email (f r) = u_email r) \<Longrightarrow>
   users_ok (update_where P f us)"
  by (simp add: users_ok_def map_update_where)

lemma save_fields_run:
  assumes "consistent w" and "\<And>r. u_id (f r) = u_id r" and "\<And>r. u_email (f r) = u_email r"
  shows "save_fields u f w = (Inr (), w\<lparr>db := (db w)\<lparr>users := update_where (\<lambda>r. u_id r = u_id u)
      (\<lambda>r. (f r)\<lparr>u_updated_at := clock w\<rparr>) (users (db w))\<rparr>,
    cache := (cache w)(auth_user_key (u_id u) := None)\<rparr>)"
proof -
  have "users_ok (users (db w))" using assms(1) by (simp add: consistent_def db_ok_def tables_ok_def)
  then have "users_ok (update_where (\<lambda>r. u_id r = u_id u) (\<lambda>r. (f r)\<lparr>u_updated_at := clock w\<rparr>) (users (db w)))"
    by (rule users_ok_update) (simp_all add: assms)
  then show ?thesis
    by (simp add: save_fields_def mbind_run save_user_def save_row_def update_rows_def mseq_run
        invalidate_auth_user_cache_def list_all_iff user_refs_def)
qed

lemma create_refresh_InrE:
  assumes "create_refresh_token E u w = (Inr raw, w')"
  obtains n where "rt_user n = u_id u" and "rt_hash n = hash_token E raw" and "rt_revoked_at n = None"
    and "rt_expires_at n = clock w + refresh_token_lifetime"
    and "w' = w\<lparr>drawn := drawn w + 2, db := (db w)\<lparr>refresh_tokens := refresh_tokens (db w) @ [n]\<rparr>\<rparr>"
proof -
  let ?n = "\<lparr>rt_id = id_supply w (drawn w + 1), rt_user = u_id u, rt_hash = hash_token E raw,
      rt_created_at = clock w, rt_expires_at = clock w + refresh_token_lifetime, rt_revoked_at = None\<rparr>"
  from assms have "w' = w\<lparr>drawn := drawn w + 2, db := (db w)\<lparr>refresh_tokens := refresh_tokens (db w) @ [?n]\<rparr>\<rparr>"
    by (auto simp: create_refresh_token_def run_simps create_row_def split: if_splits)
  then show ?thesis by (rule that [rotated -1]) simp_all
qed

lemma token_response_run:
  "token_response J u refresh n w
     = (Inr (Tokens n (token_payload (jwt_encode J (access_claims u (clock w))) refresh)), w)"
  by (simp add: token_response_def create_access_token_def run_simps)

text \<open>The user as \<open>replace_password\<close> stores it.\<close>

definition with_password :: "env \<Rightarrow> user \<Rightarrow> string \<Rightarrow> bool \<Rightarrow> datetime \<Rightarrow> user \<Rightarrow> user" where
  "with_password E user password verify t r = r\<lparr>u_password := Some (make_password E password),
     u_password_changed_at := Some t,
     u_is_verified := (if verify \<and> \<not> u_is_verified user then True else u_is_verified r),
     u_updated_at := t\<rparr>"

lemma replace_password_InrE:
  assumes "consistent w" and "replace_password E J user password verify w = (Inr reply, w')"
  obtains p n where "reply = Tokens 200 p" and "rt_user n = u_id user" and "rt_revoked_at n = None"
    and "rt_hash n = hash_token E (refresh_token p)"
    and "access_token p = jwt_encode J (access_claims (user\<lparr>u_password_changed_at := Some (clock w)\<rparr>) (clock w))"
    and "db w' = (db w)\<lparr>
      users := update_where (\<lambda>r. u_id r = u_id user) (with_password E user password verify (clock w)) (users (db w)),
      refresh_tokens := update_where (\<lambda>r. rt_user r = u_id user \<and> rt_revoked_at r = None)
        (\<lambda>r. r\<lparr>rt_revoked_at := Some (clock w)\<rparr>) (refresh_tokens (db w)) @ [n]\<rparr>"
    and "cache w' = (cache w)(auth_user_key (u_id user) := None)" and "clock w' = clock w"
proof -
  let ?f = "with_password E user password verify (clock w)"
  let ?us = "update_where (\<lambda>r. u_id r = u_id user) ?f (users (db w))"
  let ?w1 = "w\<lparr>db := (db w)\<lparr>users := ?us\<rparr>, cache := (cache w)(auth_user_key (u_id user) := None)\<rparr>"
  have s: "save_fields user (\<lambda>r. r\<lparr>u_password := Some (make_password E password),
      u_password_changed_at := Some (clock w),
      u_is_verified := (if verify \<and> \<not> u_is_verified user then True else u_is_verified r)\<rparr>) w = (Inr (), ?w1)"
    (is "save_fields user ?g w = _")
    using save_fields_run [OF assms(1), of ?g user] by (simp add: with_password_def [abs_def])
  have "consistent ?w1" using keepsD_run [OF keeps_save_fields assms(1) s] by simp
  note r = update_refresh_run [OF this]
  let ?u = "user\<lparr>u_password := Some (make_password E password), u_password_changed_at := Some (clock w),
      u_is_verified := (verify \<or> u_is_verified user)\<rparr>"
  let ?w2 = "?w1\<lparr>db := (db ?w1)\<lparr>refresh_tokens := update_where (\<lambda>r. rt_user r = u_id user \<and> rt_revoked_at r = None)
        (\<lambda>r. r\<lparr>rt_revoked_at := Some (clock w)\<rparr>) (refresh_tokens (db ?w1))\<rparr>\<rparr>"
  have "revoke_all_refresh_tokens ?u ?w1 = (Inr (), ?w2)"
    using r by (simp add: revoke_all_refresh_tokens_def revoke_where_def mbind_run)
  with s have "replace_password E J user password verify w
      = mbind (create_refresh_token E ?u) (\<lambda>refresh. token_response J ?u refresh 200) ?w2"
    by (simp only: replace_password_def Let_def mbind_run mseq_run now_run prod.case sum.case)
  with assms(2) obtain raw w3 where c: "create_refresh_token E ?u ?w2 = (Inr raw, w3)"
    and t: "token_response J ?u raw 200 w3 = (Inr reply, w')"
    by (auto elim: mbind_InrE)
  from c obtain n where n: "rt_user n = u_id user" "rt_hash n = hash_token E raw" "rt_revoked_at n = None"
    and w3: "w3 = ?w2\<lparr>drawn := drawn ?w2 + 2, db := (db ?w2)\<lparr>refresh_tokens := refresh_tokens (db ?w2) @ [n]\<rparr>\<rparr>"
    by (rule create_refresh_InrE) simp
  have "access_claims ?u = access_claims (user\<lparr>u_password_changed_at := Some (clock w)\<rparr>)"
    by (simp add: access_claims_def pwd_stamp_def fun_eq_iff)
  moreover from t have "reply = Tokens 200 (token_payload (jwt_encode J (access_claims ?u (clock w3))) raw)"
    and w': "w' = w3" by (auto simp: token_response_run)
  ultimately have reply: "reply = Tokens 200 (token_payload (jwt_encode J
      (access_claims (user\<lparr>u_password_changed_at := Some (clock w)\<rparr>) (clock w))) raw)"
    using w3 by simp
  show ?thesis
    by (rule that [OF reply n(1,3)]) (use n(2) in \<open>simp_all add: token_payload_def w' w3\<close>)
qed

text \<open>An access token of a user, presented when the user's row is read from the database.\<close>

lemma authenticate_claims:
  assumes "jwt_decode J (clock w) token = Inr (access_claims u0 t0)"
    and "cache w (auth_user_key (u_id u0)) = None" and "u_id u0 < 2 ^ 128"
  shows "fst (authenticate J (''Bearer '' @ token) w) =
    (case first_by u_id (filter (\<lambda>u. u_id u = u_id u0 \<and> u_is_active u) (users (db w))) of
       None \<Rightarrow> Inl (AuthenticationFailed ''user_not_found'')
     | Some u \<Rightarrow> if pwd_stamp u0 < pwd_stamp u then Inl (AuthenticationFailed ''token_revoked'')
                else Inr (Some (u, token)))"
proof -
  have "load_auth_user (uuid_str (u_id u0)) w =
    (case first_by u_id (filter (\<lambda>u. u_id u = u_id u0 \<and> u_is_active u) (users (db w))) of
       None \<Rightarrow> (Inl (AuthenticationFailed ''user_not_found''), w)
     | Some u \<Rightarrow> (Inr u, w\<lparr>cache := (cache w)(auth_user_key (u_id u0) :=
         Some (CachedUser u, clock w + auth_cache_ttl * 1000000))\<rparr>))"
    using assms(2,3) by (simp add: load_auth_user_def run_simps cache_live_def auth_user_key_def
        uuid_parse_str split: option.splits)
  then show ?thesis
    using assms(1) by (simp add: authenticate_def startswith_def run_simps Let_def access_claims_def
        pwd_iat_claim_def uuid_str_nonempty dget_def split: option.splits)
qed

text \<open>
  The state in which one session of the user is left: of the user's refresh tokens exactly the one
  of the reply is live; an access token minted under a password stamp older than \<open>s\<close> is refused at
  any later time, whatever it says about its expiry and whatever was cached before; and the
  access token of the reply is accepted as the user's.
\<close>

definition only_session :: "env \<Rightarrow> jwt \<Rightarrow> user \<Rightarrow> datetime \<Rightarrow> reply \<Rightarrow> world \<Rightarrow> bool" where
  "only_session E J user t0 reply w' \<longleftrightarrow> (\<exists>p n. reply = Tokens 200 p
    \<and> filter (\<lambda>r. rt_user r = u_id user \<and> rt_revoked_at r = None) (refresh_tokens (db w')) = [n]
    \<and> rt_hash n = hash_token E (refresh_token p)
    \<and> (\<forall>t token u0 t1. jwt_decode J t token = Inr (access_claims u0 t1) \<and> u_id u0 = u_id user
          \<and> pwd_stamp u0 < t0 div 1000000 \<longrightarrow>
        fst (authenticate J (''Bearer '' @ token) (w'\<lparr>clock := t\<rparr>)) = Inl (AuthenticationFailed ''token_revoked''))
    \<and> access_token p = jwt_encode J (access_claims (user\<lparr>u_password_changed_at := Some t0\<rparr>) t0)
    \<and> (\<forall>t. jwt_decode J t (access_token p)
          = Inr (access_claims (user\<lparr>u_password_changed_at := Some t0\<rparr>) t0) \<longrightarrow>
        (\<exists>u. fst (authenticate J (''Bearer '' @ access_token p) (w'\<lparr>clock := t\<rparr>)) = Inr (Some (u, access_token p))
          \<and> u_id u = u_id user)))"

lemma replace_only_session:
  assumes "consistent w" and "0 \<le> clock w" and "user \<in> set (users (db w))" and "u_id user < 2 ^ 128"
    and "u_is_active user" and "replace_password E J user new verify w = (Inr reply, w')"
  shows "only_session E J user (clock w) reply w'"
proof -
  from assms(1,6) obtain p n where p: "reply = Tokens 200 p" and n: "rt_user n = u_id user"
      "rt_revoked_at n = None" "rt_hash n = hash_token E (refresh_token p)"
    and access: "access_token p = jwt_encode J (access_claims (user\<lparr>u_password_changed_at := Some (clock w)\<rparr>) (clock w))"
    and db: "db w' = (db w)\<lparr>users := update_where (\<lambda>r. u_id r = u_id user)
        (with_password E user new verify (clock w)) (users (db w)),
      refresh_tokens := update_where (\<lambda>r. rt_user r = u_id user \<and> rt_revoked_at r = None)
        (\<lambda>r. r\<lparr>rt_revoked_at := Some (clock w)\<rparr>) (refresh_tokens (db w)) @ [n]\<rparr>"
    and cache: "cache w' = (cache w)(auth_user_key (u_id user) := None)"
    by (rule replace_password_InrE)
  let ?u = "with_password E user new verify (clock w) user"
  have live: "filter (\<lambda>r. rt_user r = u_id user \<and> rt_revoked_at r = None) (refresh_tokens (db w')) = [n]"
    using n by (auto simp: db filter_empty_conv dest!: update_where_mem)
  have stored: "?u \<in> set (users (db w'))"
    using assms(3) by (auto simp: db set_update_where)
  have "users_ok (users (db w'))"
    using assms(1) by (auto simp: db consistent_def db_ok_def tables_ok_def with_password_def intro: users_ok_update)
  then have found: "first_by u_id (filter (\<lambda>u. u_id u = u_id user \<and> u_is_active u) (users (db w'))) = Some ?u"
    using stored assms(5) by (intro first_by_unique)
      (auto simp: users_ok_def with_password_def dest: distinct_map_eqD [where g = u_id])
  have stamp: "pwd_stamp ?u = clock w div 1000000" using assms(2) by (simp add: pwd_stamp_def with_password_def)
  have auth: "fst (authenticate J (''Bearer '' @ token) (w'\<lparr>clock := t\<rparr>))
      = (if pwd_stamp u0 < clock w div 1000000 then Inl (AuthenticationFailed ''token_revoked'')
         else Inr (Some (?u, token)))"
    if "jwt_decode J t token = Inr (access_claims u0 t0)" "u_id u0 = u_id user" for t token u0 t0
    using authenticate_claims [of J "w'\<lparr>clock := t\<rparr>" token u0 t0] that assms(4) found stamp cache by simp
  show ?thesis unfolding only_session_def
    using p live n(3) access auth assms(2)
    by (intro exI [of _ p] exI [of _ n]) (auto simp: pwd_stamp_def with_password_def)
qed

section \<open>Who gets a session\<close>

context token_table
begin

text \<open>A token that was redeemed gives its active owner, and changes its own table only.\<close>

lemma consume_InrE:
  assumes w: "consistent w" and run: "consume_one_time_token E T raw w = (Inr (x, u), w1)"
  obtains o1 where "o1 \<in> set (t_get T (db w))" and "ot_hash o1 = hash_token E raw"
    and "u \<in> set (users (db w))" and "u_id u = ot_user o1" and "u_is_active u"
    and "x = o1\<lparr>ot_used_at := Some (clock w)\<rparr>" and "w1 = burn (hash_token E raw) w"
proof -
  obtain o1 where o1: "o1 \<in> set (t_get T (db w))" "ot_hash o1 = hash_token E raw"
    using consume_unknown [of w E raw] run by fastforce
  then obtain v where v: "v \<in> set (users (db w))" "u_id v = ot_user o1"
    using token_owner [OF w] by blast
  from run have "u = v" "u_is_active v" "x = o1\<lparr>ot_used_at := Some (clock w)\<rparr>" "w1 = burn (hash_token E raw) w"
    unfolding consume_known [OF w o1 v] by (auto split: if_splits)
  with that o1 v show ?thesis by blast
qed

lemma burn_simps: "users (db (burn h w)) = users (db w)" "clock (burn h w) = clock w"
  by (simp_all add: burn_def same_users)

end

lemma verify_InrE:
  assumes "consistent w" and "verify_email_token E raw w = (Inr u, w1)"
  obtains "u \<in> set (users (db w))" and "u_is_active u" and "users (db w1) = users (db w)" and "clock w1 = clock w"
proof -
  from assms(2) obtain x where "consume_one_time_token E verification_tokens_T raw w = (Inr (x, u), w1)"
    by (auto simp: verify_email_token_def verify_one_time_token_def elim!: mbind_InrE)
  with assms(1) that verification.burn_simps show ?thesis by (auto elim: verification.consume_InrE)
qed

lemma reset_InrE:
  assumes "consistent w" and "verify_password_reset_token E raw w = (Inr u, w1)"
  obtains "u \<in> set (users (db w))" and "u_is_active u" and "users (db w1) = users (db w)" and "clock w1 = clock w"
proof -
  from assms(2) obtain x where "consume_one_time_token E reset_tokens_T raw w = (Inr (x, u), w1)"
    by (auto simp: verify_password_reset_token_def verify_one_time_token_def elim!: mbind_InrE)
  with assms(1) that reset.burn_simps show ?thesis by (auto elim: reset.consume_InrE)
qed

lemma reset_owner:
  assumes w: "consistent w" and v: "verify_password_reset_token E raw w = (Inr u, w1)"
    and t: "t \<in> set (reset_tokens (db w))" "ot_hash t = hash_token E raw" "ot_user t = u_id user"
    and user: "user \<in> set (users (db w))"
  shows "u = user"
proof -
  from v obtain x where c: "consume_one_time_token E reset_tokens_T raw w = (Inr (x, u), w1)"
    by (auto simp: verify_password_reset_token_def verify_one_time_token_def elim!: mbind_InrE)
  show ?thesis
    using reset.consume_known [OF w, of t E raw user] t user c by (auto split: if_splits)
qed

definition session_for :: "env \<Rightarrow> jwt \<Rightarrow> user \<Rightarrow> reply \<Rightarrow> world \<Rightarrow> bool" where
  "session_for E J u reply w \<longleftrightarrow> (\<exists>n p v. reply = Tokens n p \<and> u_id v = u_id u
     \<and> access_token p = jwt_encode J (access_claims v (clock w))
     \<and> list_ex (\<lambda>r. rt_user r = u_id u \<and> rt_revoked_at r = None \<and> rt_hash r = hash_token E (refresh_token p))
         (refresh_tokens (db w)))"

lemma session_forI:
  "access_token p = jwt_encode J (access_claims v (clock w)) \<Longrightarrow> u_id v = u_id u \<Longrightarrow>
   r \<in> set (refresh_tokens (db w)) \<Longrightarrow> rt_user r = u_id u \<Longrightarrow> rt_revoked_at r = None \<Longrightarrow>
   rt_hash r = hash_token E (refresh_token p) \<Longrightarrow> session_for E J u (Tokens n p) w"
  unfolding session_for_def list_ex_iff by blast

lemma token_payload_simps [simp]:
  "access_token (token_payload a r) = a" "refresh_token (token_payload a r) = r"
  by (simp_all add: token_payload_def)

text \<open>The two calls that open a session.\<close>

lemma open_session:
  assumes "mbind (create_refresh_token E u) (\<lambda>refresh. token_response J u refresh n) w = (Inr reply, w')"
    and "u_id u = u_id v"
  shows "session_for E J v reply w'"
proof -
  from assms(1) obtain raw where c: "create_refresh_token E u w = (Inr raw, w')"
    and reply: "reply = Tokens n (token_payload (jwt_encode J (access_claims u (clock w'))) raw)"
    by (auto simp: token_response_run elim!: mbind_InrE)
  from c show ?thesis
    by (rule create_refresh_InrE) (auto simp: reply assms(2) intro!: session_forI)
qed

lemma login_session:
  assumes "login_view E J B email pw w = (Inr reply, w')"
  shows "\<exists>u. B (users (db w)) email pw = Some u \<and> u_is_active u \<and> u_is_verified u \<and> session_for E J u reply w'"
proof -
  from assms obtain u where "B (users (db w)) email pw = Some u" "u_is_active u" "u_is_verified u"
    "mbind (create_refresh_token E u) (\<lambda>refresh. token_response J u refresh 200) w = (Inr reply, w')"
    by (auto simp: login_view_def mbind_run [of "mgets f" for f] split: option.splits if_splits)
  with open_session show ?thesis by blast
qed

lemma refresh_session:
  assumes "consistent w" and "refresh_view E J raw w = (Inr reply, w')"
  shows "\<exists>u\<in>set (users (db w)). u_is_active u \<and> session_for E J u reply w'"
proof -
  from assms(2) obtain u new where r: "rotate_refresh_token E raw w = (Inr (u, new), w')"
    and reply: "reply = Tokens 200 (token_payload (jwt_encode J (access_claims u (clock w'))) new)"
    by (auto simp: refresh_view_def token_response_run elim!: mbind_InrE)
  from assms(1) r obtain n where "u \<in> set (users (db w))" "u_is_active u" and "rt_user n = u_id u"
    "rt_hash n = hash_token E new" "rt_revoked_at n = None" "n \<in> set (refresh_tokens (db w'))"
    by (rule rotate_Inr) (rule that, assumption+, simp)
  with reply show ?thesis by (auto intro!: session_forI)
qed

lemma reset_session:
  assumes "consistent w" and "reset_password_view E J token pw w = (Inr reply, w')"
  shows "\<exists>u\<in>set (users (db w)). u_is_active u \<and> session_for E J u reply w'"
proof -
  from assms(2) obtain u w1 where v: "verify_password_reset_token E token w = (Inr u, w1)"
    and r: "replace_password E J u pw True w1 = (Inr reply, w')"
    by (auto simp: reset_password_view_def elim!: mbind_InrE)
  have c1: "consistent w1" using keepsD_run [OF keeps_verify(2) assms(1) v] .
  from c1 r have "session_for E J u reply w'"
    by (rule replace_password_InrE) (auto intro!: session_forI)
  with reset_InrE [OF assms(1) v] show ?thesis by auto
qed

lemma verify_session:
  assumes "consistent w" and "verify_email_view E J token given w = (Inr (Tokens n p), w')"
  shows "\<exists>u\<in>set (users (db w)). u_is_active u \<and> session_for E J u (Tokens n p) w'"
proof -
  from assms(2) obtain u w1 where v: "verify_email_token E token w = (Inr u, w1)"
    and rest: "activate_user E J given u w1 = (Inr (Tokens n p), w')"
    unfolding verify_email_view_def by (rule mbind_InrE)
  from rest have "session_for E J u (Tokens n p) w'"
    by (auto simp: activate_user_def Let_def split: if_splits elim!: mseq_InrE intro: open_session)
  with verify_InrE [OF assms(1) v] show ?thesis by blast
qed

lemma link_session:
  assumes "consistent w" and "confirm_link_view E J token w = (Inr (Tokens n p), w')"
  shows "\<exists>u\<in>set (users (db w)). u_is_active u \<and> session_for E J u (Tokens n p) w'"
proof -
  from assms(2) obtain l u w1 where v: "verify_social_link_token E token w = (Inr (l, u), w1)"
    and rest: "(\<lambda>(l, u). mbind (first_row social_accounts_T (social_match (lr_provider l) (lr_provider_user_id l))) (\<lambda>existing.
     if (case existing of None \<Rightarrow> False | Some a \<Rightarrow> sa_user a \<noteq> u_id u)
     then mret (Detail 409 ''social_account_collision'')
     else link_and_sign_in E J l u existing)) (l, u) w1 = (Inr (Tokens n p), w')"
    unfolding confirm_link_view_def by (elim mbind_InrE [of _ _ w]) auto
  from rest have "session_for E J u (Tokens n p) w'"
    by (auto simp: link_and_sign_in_def Let_def mbind_run [of "first_row T P" for T P] split: if_splits
        elim!: mseq_InrE intro: open_session)
  moreover from v have "consume_one_time_token E link_requests_T token w = (Inr (l, u), w1)"
    by (simp add: verify_social_link_token_def)
  ultimately show ?thesis using assms(1) by (blast elim: link.consume_InrE)
qed

text \<open>
  C17. A new password ends every other session of the user, whether it is set with the current
  password or with a reset token.  All refresh tokens of the user that were live are revoked at
  that moment and the one returned is the only live one; an access token minted before, under an
  older password stamp, is refused at any later time although it has not expired, also when the
  user was cached, while the new access token is accepted.
\<close>

theorem password_change_ends_sessions:
  assumes "consistent w" and "0 \<le> clock w" and "user \<in> set (users (db w))" and "u_id user < 2 ^ 128"
    and "(u_is_active user \<and> change_password_view E J user current new w = (Inr reply, w'))
      \<or> ((\<exists>t\<in>set (reset_tokens (db w)). ot_hash t = hash_token E token \<and> ot_user t = u_id user)
          \<and> reset_password_view E J token new w = (Inr reply, w'))"
  shows "\<exists>p n. reply = Tokens 200 p
    \<and> filter (\<lambda>r. rt_user r = u_id user \<and> rt_revoked_at r = None) (refresh_tokens (db w')) = [n]
    \<and> rt_hash n = hash_token E (refresh_token p)
    \<and> (\<forall>t token u0 t0. jwt_decode J t token = Inr (access_claims u0 t0) \<and> u_id u0 = u_id user
          \<and> pwd_stamp u0 < clock w div 1000000 \<longrightarrow>
        fst (authenticate J (''Bearer '' @ token) (w'\<lparr>clock := t\<rparr>)) = Inl (AuthenticationFailed ''token_revoked''))
    \<and> access_token p = jwt_encode J (access_claims (user\<lparr>u_password_changed_at := Some (clock w)\<rparr>) (clock w))
    \<and> (\<forall>t. jwt_decode J t (access_token p)
          = Inr (access_claims (user\<lparr>u_password_changed_at := Some (clock w)\<rparr>) (clock w)) \<longrightarrow>
        (\<exists>u. fst (authenticate J (''Bearer '' @ access_token p) (w'\<lparr>clock := t\<rparr>)) = Inr (Some (u, access_token p))
          \<and> u_id u = u_id user))"
  using assms(5)
proof (elim disjE conjE bexE)
  assume "u_is_active user" and "change_password_view E J user current new w = (Inr reply, w')"
  then have "replace_password E J user new False w = (Inr reply, w')" and active: "u_is_active user"
    by (simp_all add: change_password_view_def split: if_splits)
  from replace_only_session [OF assms(1-4) active this(1)] show ?thesis unfolding only_session_def .
next
  fix t
  assume t: "t \<in> set (reset_tokens (db w))" "ot_hash t = hash_token E token" "ot_user t = u_id user"
    and "reset_password_view E J token new w = (Inr reply, w')"
  then obtain u w1 where v: "verify_password_reset_token E token w = (Inr u, w1)"
    and r: "replace_password E J u new True w1 = (Inr reply, w')"
    by (auto simp: reset_password_view_def elim!: mbind_InrE)
  have "u = user" using reset_owner [OF assms(1) v t assms(3)] .
  with assms(1) v have w1: "u_is_active user" "users (db w1) = users (db w)" "clock w1 = clock w"
    by (auto elim: reset_InrE)
  have "consistent w1" using keepsD_run [OF keeps_verify(2) assms(1) v] .
  from replace_only_session [OF this _ _ assms(4) w1(1) r [unfolded \<open>u = user\<close>]] assms(2,3) w1
  have "only_session E J user (clock w) reply w'" by simp
  then show ?thesis unfolding only_session_def .
qed

section \<open>OAuth logins\<close>

lemma finish_oauth_InrE:
  assumes "finish_oauth E J provider info w = (Inr (CallbackCode c), w')"
  obtains u w1 w2 raw where "resolve_oauth_user E provider info w = (Inr (SignIn u), w1)"
    and "u_is_active u" and "create_refresh_token E u w1 = (Inr raw, w2)"
    and "store_oauth_exchange (jwt_encode J (access_claims u (clock w2))) raw w2 = (Inr c, w')"
proof -
  let ?r = "mtry (mbind (resolve_oauth_user E provider info) (\<lambda>r. mret (Inr r)))
     (\<lambda>e. if e = OAuthEmailNotVerifiedError then mret (Inl ''email_not_verified'')
          else if e = ValueError then mret (Inl ''account_deactivated'') else mraise e)"
  from assms obtain outcome w1 where o: "?r w = (Inr outcome, w1)"
    and k: "(case outcome of Inl page \<Rightarrow> mret (ErrorPage page)
       | Inr (Collision existing) \<Rightarrow> request_link E provider info existing
       | Inr (SignIn u) \<Rightarrow>
           if \<not> u_is_active u then mret (ErrorPage ''account_deactivated'')
           else mbind (create_refresh_token E u) (\<lambda>refresh.
             mbind (create_access_token J u) (\<lambda>access.
             mbind (store_oauth_exchange access refresh) (\<lambda>code. mret (CallbackCode code))))) w1
      = (Inr (CallbackCode c), w')"
    unfolding finish_oauth_def by (rule mbind_InrE)
  from k obtain u where u: "outcome = Inr (SignIn u)" "u_is_active u"
    by (auto simp: request_link_def split: sum.splits oauth_resolution.splits if_splits elim!: mseq_InrE)
  with o have "resolve_oauth_user E provider info w = (Inr (SignIn u), w1)"
    by (auto simp: run_simps split: prod.splits sum.splits if_splits)
  with k u that show ?thesis
    by (auto simp: create_access_token_def run_simps split: prod.splits sum.splits elim!: mbind_InrE)
qed

text \<open>
  C19. An OAuth login cannot take over an account.  A callback leads to a session only for the state
  that this browser session was given, which it also uses up; and then the session is for an
  active user who owns the provider account already, or whose mailbox the provider itself
  attested in this exchange, who has that address or is new.
\<close>

theorem oauth_no_takeover:
  assumes "consistent w"
    and "oauth_callback E J A uri provider code state error session w = (Inr (CallbackCode c, session'), w')"
  shows "state \<noteq> None \<and> state = session \<and> session' = None
    \<and> (\<exists>u info. exchange_code A provider (the code) uri = Inr info \<and> u_is_active u
      \<and> ((\<exists>a\<in>set (social_accounts (db w)). social_match provider (oi_provider_user_id info) a
             \<and> sa_user a = u_id u \<and> u \<in> set (users (db w)))
         \<or> (mailbox_attested A provider (the code) uri (oi_email info)
             \<and> (u \<in> set (users (db w)) \<and> same_email (oi_email info) u
                \<or> (\<forall>v\<in>set (users (db w)). \<not> same_email (oi_email info) v))))
      \<and> (\<exists>access raw. cache w' (exchange_key c) = Some (CachedTokens access raw, clock w' + 60 * 1000000)
           \<and> list_ex (\<lambda>t. rt_user t = u_id u \<and> rt_hash t = hash_token E raw \<and> rt_revoked_at t = None)
               (refresh_tokens (db w'))))"
proof -
  from assms(2) obtain info where s: "state \<noteq> None" "state = session" "session' = None"
    and ex: "exchange_code A provider (the code) uri = Inr info"
    and fin: "finish_oauth E J provider info w = (Inr (CallbackCode c), w')"
    by (auto simp: oauth_callback_def split: if_splits sum.splits elim!: mbind_InrE)
  from fin obtain u w1 w2 raw where r: "resolve_oauth_user E provider info w = (Inr (SignIn u), w1)"
    and active: "u_is_active u" and t: "create_refresh_token E u w1 = (Inr raw, w2)"
    and st: "store_oauth_exchange (jwt_encode J (access_claims u (clock w2))) raw w2 = (Inr c, w')"
    by (rule finish_oauth_InrE)
  note owner = resolve_sign_in [OF assms(1) r]
  have "oi_email_verified info \<Longrightarrow> mailbox_attested A provider (the code) uri (oi_email info)"
    using ex by (rule exchange_attested)
  with owner have who: "(\<exists>a\<in>set (social_accounts (db w)). social_match provider (oi_provider_user_id info) a
             \<and> sa_user a = u_id u \<and> u \<in> set (users (db w)))
         \<or> (mailbox_attested A provider (the code) uri (oi_email info)
             \<and> (u \<in> set (users (db w)) \<and> same_email (oi_email info) u
                \<or> (\<forall>v\<in>set (users (db w)). \<not> same_email (oi_email info) v)))" by blast
  from st have w': "db w' = db w2" "clock w' = clock w2" and c: "cache w' (exchange_key c)
      = Some (CachedTokens (jwt_encode J (access_claims u (clock w2))) raw, clock w' + 60 * 1000000)"
    by (auto simp: store_oauth_exchange_def run_simps oauth_exchange_ttl_def)
  from t have "list_ex (\<lambda>t. rt_user t = u_id u \<and> rt_hash t = hash_token E raw \<and> rt_revoked_at t = None)
      (refresh_tokens (db w'))"
    by (rule create_refresh_InrE) (simp add: w')
  with s ex active who c show ?thesis by blast
qed

section \<open>Invited users and their password\<close>

text \<open>
  An invited user who confirms the address without sending a password is asked for one, but the
  token is spent by that answer: the same token with a password is then refused as used.
\<close>

theorem missing_password_spends_token:
  assumes "consistent w" and "t \<in> set (verification_tokens (db w))" and "ot_hash t = hash_token E raw"
    and "ot_used_at t = None" and "clock w < ot_expires_at t"
    and "u \<in> set (users (db w))" and "u_id u = ot_user t" and "u_is_active u" and "u_password u = None"
  shows "\<exists>w1. verify_email_view E J raw None w = (Inr (Detail 400 ''password_required''), w1)
    \<and> users (db w1) = users (db w)
    \<and> (\<forall>pw. fst (verify_email_view E J raw pw w1) = Inl (AuthenticationFailed ''token_used''))"
proof -
  let ?w1 = "verification.burn (hash_token E raw) w"
  have c: "consume_one_time_token E verification_tokens_T raw w = (Inr (t\<lparr>ot_used_at := Some (clock w)\<rparr>, u), ?w1)"
    using verification.consume_known [OF assms(1), of t E raw u] assms by simp
  have "verify_email_view E J raw None w = (Inr (Detail 400 ''password_required''), ?w1)"
    using c assms(9) by (simp add: verify_email_view_def verify_email_token_def verify_one_time_token_def
        activate_user_def run_simps)
  moreover have "consistent ?w1" using keepsD_run [OF verification.keeps_consume assms(1) c] .
  then have "fst (consume_one_time_token E verification_tokens_T raw ?w1) = Inl (AuthenticationFailed ''token_used'')"
    using verification.consume_once [OF assms(1) c] by blast
  then have "fst (verify_email_view E J raw pw ?w1) = Inl (AuthenticationFailed ''token_used'')" for pw
    by (cases "consume_one_time_token E verification_tokens_T raw ?w1")
      (simp add: verify_email_view_def verify_email_token_def verify_one_time_token_def mbind_run)
  ultimately show ?thesis using verification.burn_simps by blast
qed

section \<open>Registration\<close>

lemma atomic_create_user:
  assumes "atomic (create_user E email pw extra) w = (Inr u, w1)"
  shows "u = created_user E email pw extra w \<and> db w1 = (db w)\<lparr>users := users (db w) @ [u]\<rparr>
    \<and> queue w1 = queue w \<and> (consistent w \<longrightarrow> consistent w1)"
proof -
  have "email \<noteq> []" using assms by (auto simp: atomic_def create_user_def split: if_splits)
  moreover have "consistent w \<longrightarrow> consistent w1"
    using keepsD_run [OF keeps_atomic [OF keeps_accounts(1)] _ assms] by blast
  ultimately show ?thesis
    using assms by (auto simp: atomic_def create_user_run Let_def created_user_def split: if_splits)
qed

lemma create_verification_queue:
  "create_email_verification_token E u w = (r, w') \<Longrightarrow> queue w' = queue w"
  by (auto simp: create_email_verification_token_def create_one_time_token_def run_simps create_row_def
      split: if_splits)

lemma register_InrE:
  assumes "password \<noteq> []" and "\<not> list_ex (same_email email) (users (db w))"
    and "register_user E J email password name w = (Inr reply, w')"
  obtains u raw where "users (db w') = users (db w) @ [u]" and "u_is_active u"
    and "u_email u = normalize_email E email" and "u_full_name u = name" and "\<not> u_is_verified u"
    and "u_password u = Some (make_password E password)"
    and "list_ex (\<lambda>t. ot_user t = u_id u \<and> ot_hash t = hash_token E raw \<and> ot_used_at t = None)
        (verification_tokens (db w'))"
    and "queue w' = queue w @ [SendVerificationEmail (u_email u) raw]" and "session_for E J u reply w'"
proof -
  let ?new = "\<lambda>u. u\<lparr>u_full_name := name, u_is_verified := False\<rparr>"
  from assms(2,3) obtain u w1 raw w2 w3 where
    a: "atomic (create_user E email (Some password) ?new) w = (Inr u, w1)"
    and v: "create_email_verification_token E u w1 = (Inr raw, w2)"
    and q: "w3 = w2\<lparr>queue := queue w2 @ [SendVerificationEmail (u_email u) raw]\<rparr>"
    and s: "mbind (create_refresh_token E u) (\<lambda>refresh. token_response J u refresh 201) w3 = (Inr reply, w')"
    by (auto simp: register_user_def email_is_registered_def mbind_run [of "exists_row T P" for T P]
        elim!: mbind_InrE mseq_InrE) (auto simp: mtry_def split: prod.splits sum.splits if_splits)
  obtain t where t: "db w2 = (db w1)\<lparr>verification_tokens := verification_tokens (db w1) @ [t]\<rparr>"
    "ot_user t = u_id u" "ot_hash t = hash_token E raw" "ot_used_at t = None"
    using v by (rule verification_token_InrE)
  from s obtain new where "create_refresh_token E u w3 = (Inr new, w')"
    by (auto simp: token_response_run elim!: mbind_InrE)
  then obtain n where "w' = w3\<lparr>drawn := drawn w3 + 2, db := (db w3)\<lparr>refresh_tokens := refresh_tokens (db w3) @ [n]\<rparr>\<rparr>"
    by (rule create_refresh_InrE)
  with atomic_create_user [OF a] create_verification_queue [OF v] t q open_session [OF s refl] assms(1)
  show ?thesis
    by (intro that [of u raw]) (auto simp: created_user_def new_user_def stored_password_def)
qed

text \<open>
  Registration.  An address that is registered, in any case, is refused and nothing changes.
  Otherwise, when it returns, one user was added, with the normalised address, not verified, with
  the hashed password; a verification token is stored and its mail queued; and the session that is
  handed out is that user's.
\<close>

theorem registration_outcomes:
  assumes "consistent w" and "password \<noteq> []" and "register_user E J email password name w = (r, w')"
  shows "(list_ex (same_email email) (users (db w)) \<longrightarrow> r = Inl EmailAlreadyExists \<and> w' = w)
    \<and> (\<forall>reply. r \<noteq> Inr reply \<or> (\<exists>u raw. users (db w') = users (db w) @ [u]
        \<and> u_email u = normalize_email E email \<and> u_full_name u = name \<and> \<not> u_is_verified u
        \<and> u_password u = Some (make_password E password)
        \<and> list_ex (\<lambda>t. ot_user t = u_id u \<and> ot_hash t = hash_token E raw \<and> ot_used_at t = None)
            (verification_tokens (db w'))
        \<and> queue w' = queue w @ [SendVerificationEmail (u_email u) raw] \<and> session_for E J u reply w'))"
proof (cases "list_ex (same_email email) (users (db w))")
  case True
  with assms(3) show ?thesis by (auto simp: register_user_def email_is_registered_def run_simps)
next
  case False
  have "\<exists>u raw. users (db w') = users (db w) @ [u]
        \<and> u_email u = normalize_email E email \<and> u_full_name u = name \<and> \<not> u_is_verified u
        \<and> u_password u = Some (make_password E password)
        \<and> list_ex (\<lambda>t. ot_user t = u_id u \<and> ot_hash t = hash_token E raw \<and> ot_used_at t = None)
            (verification_tokens (db w'))
        \<and> queue w' = queue w @ [SendVerificationEmail (u_email u) raw] \<and> session_for E J u reply w'"
    if "r = Inr reply" for reply
    using assms(2) False assms(3) [unfolded that] by (rule register_InrE) blast
  with False show ?thesis by blast
qed

lemma register_session:
  assumes "password \<noteq> []" and "register_user E J email password name w = (Inr reply, w')"
  shows "\<exists>u. users (db w') = users (db w) @ [u] \<and> u_is_active u \<and> session_for E J u reply w'"
proof -
  have "\<not> list_ex (same_email email) (users (db w))"
    using assms(2) by (auto simp: register_user_def email_is_registered_def run_simps)
  from assms(1) this assms(2) show ?thesis by (rule register_InrE) blast
qed

lemma change_session:
  assumes "consistent w" and "change_password_view E J user current new w = (Inr reply, w')"
  shows "session_for E J user reply w'"
proof -
  from assms(2) have "replace_password E J user new False w = (Inr reply, w')"
    by (simp add: change_password_view_def split: if_splits)
  with assms(1) show ?thesis by (rule replace_password_InrE) (auto intro!: session_forI)
qed


section \<open>Instances\<close>

definition sample_jwt :: jwt where
  "sample_jwt = \<lparr>jwt_encode = (\<lambda>j. ''new''), jwt_decode = (\<lambda>t s. if s = ''old''
     then Inr (access_claims sample_user 0) else Inl InvalidToken)\<rparr>"

lemma sample_text: "str_nat 0 \<noteq> ''raw''" "str_nat (Suc 0) \<noteq> ''raw''" "str_nat 2 \<noteq> ''raw''"
  "str_nat (Suc (Suc (Suc 0))) \<noteq> ''raw''"
  by code_simp+

lemma sample_later_consistent: "consistent (sample_tokens\<lparr>clock := t\<rparr>)"
  using sample_tokens_consistent by (simp add: consistent_def)

lemma sample_change:
  "\<exists>reply. fst (change_password_view start_env sample_jwt sample_user ''secret'' ''another''
     (sample_tokens\<lparr>clock := 5000000\<rparr>)) = Inr reply"
  by (simp add: change_password_view_def user_check_password_def replace_password_def Let_def run_simps
      save_fields_def save_user_def save_row_def invalidate_auth_user_cache_def users_ok_def lower_def
      lower_char_def user_refs_def revoke_all_refresh_tokens_def revoke_where_def
      update_rows_def create_refresh_token_def create_row_def token_response_run sample_tokens_def sample_simps
      start_env_def refresh_tokens_ok_def refresh_refs_def hash_token_def list_all_iff sample_text)

lemma sample_reset:
  "\<exists>reply. fst (reset_password_view start_env sample_jwt ''raw'' ''another''
     (sample_tokens\<lparr>clock := 5000000\<rparr>)) = Inr reply"
  by (simp add: reset_password_view_def verify_password_reset_token_def verify_one_time_token_def
      consume_one_time_token_def owner_or_def replace_password_def Let_def run_simps
      save_fields_def save_user_def save_row_def invalidate_auth_user_cache_def users_ok_def lower_def
      lower_char_def user_refs_def revoke_all_refresh_tokens_def revoke_where_def one_time_tokens_ok_def
      update_rows_def create_refresh_token_def create_row_def token_response_run sample_tokens_def sample_simps
      start_env_def refresh_tokens_ok_def refresh_refs_def ott_refs_def hash_token_def list_all_iff sample_text)

theorem password_change_ends_sessions_witness:
  "\<exists>p w' q v'. change_password_view start_env sample_jwt sample_user ''secret'' ''another''
       (sample_tokens\<lparr>clock := 5000000\<rparr>) = (Inr (Tokens 200 p), w')
     \<and> fst (authenticate sample_jwt ''Bearer old'' w') = Inl (AuthenticationFailed ''token_revoked'')
     \<and> reset_password_view start_env sample_jwt ''raw'' ''another''
       (sample_tokens\<lparr>clock := 5000000\<rparr>) = (Inr (Tokens 200 q), v')
     \<and> fst (authenticate sample_jwt ''Bearer old'' v') = Inl (AuthenticationFailed ''token_revoked'')"
proof -
  let ?w = "sample_tokens\<lparr>clock := 5000000\<rparr>"
  let ?run = "change_password_view start_env sample_jwt sample_user ''secret'' ''another'' ?w"
  let ?again = "reset_password_view start_env sample_jwt ''raw'' ''another'' ?w"
  obtain reply where "fst ?run = Inr reply" using sample_change by blast
  then have r: "?run = (Inr reply, snd ?run)" by (simp add: prod_eq_iff)
  obtain reply2 where "fst ?again = Inr reply2" using sample_reset by blast
  then have r2: "?again = (Inr reply2, snd ?again)" by (simp add: prod_eq_iff)
  have *: "sample_user \<in> set (users (db ?w))" "u_id sample_user < 2 ^ 128" "u_is_active sample_user" "0 \<le> clock ?w"
    by (simp_all add: sample_tokens_def sample_simps)
  have t: "\<exists>t\<in>set (reset_tokens (db ?w)). ot_hash t = hash_token start_env ''raw'' \<and> ot_user t = u_id sample_user"
    by (simp add: sample_tokens_def sample_simps hash_token_def start_env_def)
  have old: "jwt_decode sample_jwt s ''old'' = Inr (access_claims sample_user 0)" for s
    by (simp add: sample_jwt_def)
  have stamp: "pwd_stamp sample_user < clock ?w div 1000000"
    by (simp add: pwd_stamp_def sample_user_def)
  from password_change_ends_sessions [OF sample_later_consistent *(4,1,2) disjI1 [OF conjI [OF *(3) r]]] old stamp
  obtain p where "reply = Tokens 200 p" and "fst (authenticate sample_jwt (''Bearer '' @ ''old'')
      ((snd ?run)\<lparr>clock := clock (snd ?run)\<rparr>)) = Inl (AuthenticationFailed ''token_revoked'')"
    by blast
  moreover from password_change_ends_sessions [OF sample_later_consistent *(4,1,2) disjI2 [OF conjI [OF t r2]]] old stamp
  obtain q where "reply2 = Tokens 200 q" and "fst (authenticate sample_jwt (''Bearer '' @ ''old'')
      ((snd ?again)\<lparr>clock := clock (snd ?again)\<rparr>)) = Inl (AuthenticationFailed ''token_revoked'')"
    by blast
  ultimately show ?thesis using r r2 by simp blast
qed

definition sample_backend :: auth_backend where
  "sample_backend us email pw = find (\<lambda>u. u_email u = email \<and> u_is_active u \<and> u_password u = Some (''p'' @ pw)) us"

lemma sample_login:
  "\<exists>p. fst (login_view start_env sample_jwt sample_backend ''ann@example.com'' ''secret'' sample_tokens)
     = Inr (Tokens 200 p)"
  by (simp add: login_view_def run_simps sample_backend_def create_refresh_token_def create_row_def
      token_response_run sample_tokens_def sample_simps start_env_def refresh_tokens_ok_def refresh_refs_def hash_token_def sample_text)

lemma sample_user_stored: "sample_user \<in> set (users (db sample_tokens))" "u_is_active sample_user"
  by (simp_all add: sample_tokens_def sample_simps)


definition sample_api :: provider_api where
  "sample_api = \<lparr>token_endpoint = (\<lambda>p code uri. Inr (JObj [(''access_token'', JStr ''at'')])),
     userinfo_endpoint = (\<lambda>p a. Inr (JObj [(''id'', JStr ''9''), (''email'', JStr ''ann@example.com''),
       (''verified_email'', JBool True)])),
     github_emails = (\<lambda>a. Inl HTTPError), decode_ms_token = (\<lambda>j. None)\<rparr>"

lemma sample_callback:
  "\<exists>c s. fst (oauth_callback start_env sample_jwt sample_api ''uri'' ''google'' (Some ''code'') (Some ''st'') None
      (Some ''st'') sample_tokens) = Inr (CallbackCode c, s)"
  by (simp add: oauth_callback_def provider_of_def exchange_code_def sample_api_def google_user_def
      local_part_def py_or_def finish_oauth_def resolve_oauth_user_def link_or_request_def
      get_or_create_social_def run_simps atomic_def create_row_def create_refresh_token_def
      create_access_token_def store_oauth_exchange_def trusted_for_auto_link_def sample_tokens_def
      sample_simps start_env_def same_email_def lower_def lower_char_def social_accounts_ok_def
      social_refs_def refresh_tokens_ok_def refresh_refs_def hash_token_def Let_def sample_text)

theorem oauth_no_takeover_witness:
  "\<exists>c w'. oauth_callback start_env sample_jwt sample_api ''uri'' ''google'' (Some ''code'') (Some ''st'') None
       (Some ''st'') sample_tokens = (Inr (CallbackCode c, None), w')
     \<and> (\<exists>access raw. cache w' (exchange_key c) = Some (CachedTokens access raw, clock w' + 60 * 1000000))"
proof -
  let ?m = "oauth_callback start_env sample_jwt sample_api ''uri'' ''google'' (Some ''code'') (Some ''st'') None
       (Some ''st'') sample_tokens"
  obtain c s where "fst ?m = Inr (CallbackCode c, s)" using sample_callback by blast
  then have r: "?m = (Inr (CallbackCode c, s), snd ?m)" by (simp add: prod_eq_iff)
  from oauth_no_takeover [OF sample_tokens_consistent r] r show ?thesis by blast
qed

definition sample_invitee :: world where
  "sample_invitee = sample_tokens\<lparr>db := (db sample_tokens)\<lparr>users := [sample_user\<lparr>u_password := None\<rparr>,
     sample_user\<lparr>u_id := 2, u_email := ''bob@example.com''\<rparr>]\<rparr>\<rparr>"

lemma sample_invitee_consistent: "consistent sample_invitee"
  by (simp add: sample_invitee_def sample_tokens_def consistent_def db_ok_def tables_ok_def table_ok_defs
      fk_ok_rows sample_simps refs_defs xor_owner_def lower_def lower_char_def)

theorem missing_password_spends_token_witness:
  "\<exists>w1. verify_email_view start_env sample_jwt ''raw'' None sample_invitee
       = (Inr (Detail 400 ''password_required''), w1)
     \<and> fst (verify_email_view start_env sample_jwt ''raw'' (Some ''long-password'') w1)
       = Inl (AuthenticationFailed ''token_used'')"
proof -
  let ?t = "\<lparr>ot_id = 51, ot_user = 1, ot_hash = ''hraw'', ot_created_at = 0, ot_expires_at = 1000, ot_used_at = None\<rparr>"
  from missing_password_spends_token [OF sample_invitee_consistent, of ?t start_env "''raw''"
      "sample_user\<lparr>u_password := None\<rparr>" sample_jwt]
  show ?thesis
    by (auto simp: sample_invitee_def sample_tokens_def start_world_def start_env_def hash_token_def sample_user_def)
qed

lemma sample_register:
  "\<exists>reply. fst (register_user start_env sample_jwt ''carl@example.com'' ''long-password'' ''Carl'' sample_tokens)
     = Inr reply"
  by (simp add: register_user_def email_is_registered_def same_email_def run_simps atomic_def create_user_run
      Let_def created_user_def new_user_def stored_password_def create_email_verification_token_def
      create_one_time_token_def one_time_tokens_ok_def ott_refs_def create_row_def create_refresh_token_def
      token_response_run sample_tokens_def sample_simps start_env_def users_ok_def lower_def lower_char_def
      refresh_tokens_ok_def refresh_refs_def hash_token_def sample_text)

theorem registration_outcomes_witness:
  "(\<exists>u raw. users (db (snd (register_user start_env sample_jwt ''carl@example.com'' ''long-password'' ''Carl'' sample_tokens)))
      = users (db sample_tokens) @ [u] \<and> u_email u = ''carl@example.com'' \<and> \<not> u_is_verified u)
   \<and> register_user start_env sample_jwt ''Ann@Example.com'' ''long-password'' ''Ann'' sample_tokens
     = (Inl EmailAlreadyExists, sample_tokens)"
proof -
  let ?r = "register_user start_env sample_jwt ''carl@example.com'' ''long-password'' ''Carl'' sample_tokens"
  let ?q = "register_user start_env sample_jwt ''Ann@Example.com'' ''long-password'' ''Ann'' sample_tokens"
  obtain reply where "fst ?r = Inr reply" using sample_register by blast
  then have r: "?r = (Inr reply, snd ?r)" by (simp add: prod_eq_iff)
  have "normalize_email start_env s = s" for s by (simp add: start_env_def)
  with registration_outcomes [OF sample_tokens_consistent _ r]
  have "\<exists>u raw. users (db (snd ?r)) = users (db sample_tokens) @ [u] \<and> u_email u = ''carl@example.com'' \<and> \<not> u_is_verified u"
    by auto
  moreover have "list_ex (same_email ''Ann@Example.com'') (users (db sample_tokens))"
    by code_simp
  with registration_outcomes [OF sample_tokens_consistent, where w' = "snd ?q" and r = "fst ?q"
      and password = "''long-password''" and E = start_env and J = sample_jwt
      and email = "''Ann@Example.com''" and name = "''Ann''"]
  have "?q = (Inl EmailAlreadyExists, sample_tokens)" by (simp add: prod_eq_iff)
  ultimately show ?thesis by blast
qed

end
