(* ===== verification/ExchangeRace.thy ===== *)
theory ExchangeRace
  imports AuthViews
begin

text \<open>
  Concurrent exchanges of one OAuth code.  An exchange makes three calls to the cache: it sets the
  sentinel \<open>oauth_exchange:<code>:consumed\<close> with the atomic \<open>cache.add\<close>, it reads the stored pair,
  and it deletes it and answers.  Any other request may run between two of them.  Both entries
  expire after 60 seconds, so exclusion rests on the order of the expiry dates: the sentinel, set
  later, outlives the code.
\<close>

section \<open>The stages of an exchange\<close>

definition claim_code :: "string \<Rightarrow> unit io" where
  "claim_code code =
     mbind (cache_add (exchange_key code @ '':consumed'') CachedOne oauth_exchange_ttl) (\<lambda>won.
     if \<not> won then mraise InvalidOAuthCode else mret ())"

definition read_code :: "string \<Rightarrow> cache_value option io" where
  "read_code code = cache_get (exchange_key code)"

definition drop_code :: "string \<Rightarrow> cache_value option \<Rightarrow> reply io" where
  "drop_code code data = mseq (cache_delete (exchange_key code)) (exchange_reply data)"

lemma exchange_split:
  "mseq (claim_code code) (mbind (read_code code) (drop_code code)) = oauth_exchange_view code"
proof (rule ext)
  fix w
  show "mseq (claim_code code) (mbind (read_code code) (drop_code code)) w = oauth_exchange_view code w"
    by (simp add: claim_code_def read_code_def drop_code_def oauth_exchange_view_def
        consume_oauth_exchange_def exchange_reply_def Let_def mbind_run mseq_run)
qed

datatype redeemer = Arrived | Claimed | HasRead "cache_value option" | Answered reply | Failed exn

text \<open>Other work leaves the two cache entries of this code alone and lets time pass.\<close>

definition entries_kept :: "string \<Rightarrow> world \<Rightarrow> world \<Rightarrow> bool" where
  "entries_kept code w w' \<longleftrightarrow> clock w \<le> clock w'
     \<and> cache w' (exchange_key code) = cache w (exchange_key code)
     \<and> cache w' (exchange_key code @ '':consumed'') = cache w (exchange_key code @ '':consumed'')"

inductive exchange ::
  "string \<Rightarrow> world \<times> (nat \<Rightarrow> redeemer) \<Rightarrow> world \<times> (nat \<Rightarrow> redeemer) \<Rightarrow> bool" for code :: string where
  claims: "ph i = Arrived \<Longrightarrow> claim_code code w = (Inr (), w') \<Longrightarrow>
     exchange code (w, ph) (w', ph(i := Claimed))"
| loses: "ph i = Arrived \<Longrightarrow> claim_code code w = (Inl e, w') \<Longrightarrow>
     exchange code (w, ph) (w', ph(i := Failed e))"
| reads: "ph i = Claimed \<Longrightarrow> read_code code w = (Inr data, w') \<Longrightarrow>
     exchange code (w, ph) (w', ph(i := HasRead data))"
| answers: "ph i = HasRead data \<Longrightarrow> drop_code code data w = (Inr y, w') \<Longrightarrow>
     exchange code (w, ph) (w', ph(i := Answered y))"
| fails: "ph i = HasRead data \<Longrightarrow> drop_code code data w = (Inl e, w') \<Longrightarrow>
     exchange code (w, ph) (w', ph(i := Failed e))"
| waits: "0 \<le> n \<Longrightarrow> exchange code (w, ph) (w\<lparr>clock := clock w + n\<rparr>, ph)"
| others: "entries_kept code w w' \<Longrightarrow> exchange code (w, ph) (w', ph)"

inductive_simps exchange_arrived: "exchange code (w, \<lambda>i. Arrived) (w', ph')"

abbreviation exchanges where
  "exchanges code \<equiv> (exchange code)\<^sup>*\<^sup>*"

section \<open>At most one winner\<close>

text \<open>The requests that won the sentinel, and those that got a cached value or answered with it.\<close>

definition claimants :: "(nat \<Rightarrow> redeemer) \<Rightarrow> nat set" where
  "claimants ph = {i. ph i = Claimed \<or> (\<exists>d. ph i = HasRead d) \<or> (\<exists>y. ph i = Answered y)}"

definition holders :: "(nat \<Rightarrow> redeemer) \<Rightarrow> nat set" where
  "holders ph = {i. (\<exists>v. ph i = HasRead (Some v)) \<or> (\<exists>y. ph i = Answered y)}"

lemma claimants_upd [simp]:
  "claimants (ph(i := Claimed)) = insert i (claimants ph)"
  "claimants (ph(i := HasRead d)) = insert i (claimants ph)"
  "claimants (ph(i := Answered y)) = insert i (claimants ph)"
  "claimants (ph(i := Failed e)) = claimants ph - {i}"
  by (auto simp: claimants_def)

lemma holders_upd [simp]:
  "holders (ph(i := Claimed)) = holders ph - {i}"
  "holders (ph(i := HasRead None)) = holders ph - {i}"
  "holders (ph(i := HasRead (Some v))) = insert i (holders ph)"
  "holders (ph(i := Answered y)) = insert i (holders ph)"
  "holders (ph(i := Failed e)) = holders ph - {i}"
  by (auto simp: holders_def)

lemma holders_claimants: "holders ph \<subseteq> claimants ph"
  by (auto simp: holders_def claimants_def)

definition at_most_one :: "nat set \<Rightarrow> bool" where
  "at_most_one A \<longleftrightarrow> (\<forall>i\<in>A. \<forall>j\<in>A. i = j)"

lemma at_most_one [simp]: "at_most_one {}" "at_most_one {i}"
  by (simp_all add: at_most_one_def)

lemma at_most_one_mono: "at_most_one B \<Longrightarrow> A \<subseteq> B \<Longrightarrow> at_most_one A"
  unfolding at_most_one_def by blast

lemma at_most_one_minus [simp]: "at_most_one A \<Longrightarrow> at_most_one (A - {i})"
  by (rule at_most_one_mono) auto

lemma at_most_one_in: "at_most_one A \<Longrightarrow> i \<in> A \<Longrightarrow> A = {i}"
  unfolding at_most_one_def by blast

text \<open>
  The code, when it is still stored, expires at \<open>X\<close>.  Once anyone has claimed it a sentinel stands
  that does not expire before \<open>X\<close>; until \<open>X\<close> at most one request has claimed it; and at most one
  ever obtained the pair.
\<close>

definition exchange_inv :: "string \<Rightarrow> int \<Rightarrow> world \<times> (nat \<Rightarrow> redeemer) \<Rightarrow> bool" where
  "exchange_inv code X = (\<lambda>(w, ph).
     X \<le> clock w + oauth_exchange_ttl * 1000000
     \<and> (case cache w (exchange_key code) of None \<Rightarrow> True | Some (v, t) \<Rightarrow> t = X)
     \<and> (claimants ph \<noteq> {} \<longrightarrow> (case cache w (exchange_key code @ '':consumed'') of
          None \<Rightarrow> False | Some (v, t) \<Rightarrow> X \<le> t))
     \<and> (clock w < X \<longrightarrow> at_most_one (claimants ph)) \<and> at_most_one (holders ph))"

lemma sentinel_key: "exchange_key code @ '':consumed'' \<noteq> exchange_key code"
  by simp

lemma claim_InrE:
  assumes "claim_code code w = (Inr u, w')"
  obtains "cache_live w (exchange_key code @ '':consumed'') = None"
    and "w' = w\<lparr>cache := (cache w)(exchange_key code @ '':consumed'' := Some (CachedOne, clock w + oauth_exchange_ttl * 1000000))\<rparr>"
  using assms by (auto simp: claim_code_def mbind_run split: if_splits)

lemma claim_InlD: "claim_code code w = (Inl e, w') \<Longrightarrow> w' = w"
  by (auto simp: claim_code_def mbind_run split: if_splits)

lemma read_codeD: "read_code code w = (Inr data, w') \<Longrightarrow> w' = w \<and> data = cache_live w (exchange_key code)"
  by (auto simp: read_code_def)

lemma drop_state:
  "drop_code code data w = (r, w') \<Longrightarrow> w' = w\<lparr>cache := (cache w)(exchange_key code := None)\<rparr>"
  by (auto simp: drop_code_def exchange_reply_def mseq_run split: option.splits cache_value.splits)

lemma drop_InrD: "drop_code code data w = (Inr y, w') \<Longrightarrow> \<exists>v. data = Some v"
  by (cases data) (auto simp: drop_code_def exchange_reply_def mseq_run)

lemma claims_inv:
  assumes "claim_code code w = (Inr (), w')" and inv: "exchange_inv code X (w, ph)"
  shows "exchange_inv code X (w', ph(i := Claimed))"
  using assms(1)
proof (rule claim_InrE)
  assume free: "cache_live w (exchange_key code @ '':consumed'') = None"
    and w': "w' = w\<lparr>cache := (cache w)(exchange_key code @ '':consumed'' := Some (CachedOne, clock w + oauth_exchange_ttl * 1000000))\<rparr>"
  have "claimants ph = {}" if "clock w < X"
    using inv free that by (auto simp: exchange_inv_def cache_live_def split: option.splits if_splits)
  moreover have "at_most_one (holders ph - {i})" using inv by (simp add: exchange_inv_def)
  ultimately show ?thesis using inv w' sentinel_key [of code] by (auto simp: exchange_inv_def)
qed

lemma inv_phase:
  assumes "exchange_inv code X (w, ph)" and "claimants ph' \<subseteq> claimants ph" and "at_most_one (holders ph')"
  shows "exchange_inv code X (w, ph')"
  using assms at_most_one_mono [OF _ assms(2)] by (auto simp: exchange_inv_def split: option.splits)

lemma inv_drop:
  "exchange_inv code X (w, ph) \<Longrightarrow> exchange_inv code X (w\<lparr>cache := (cache w)(exchange_key code := None)\<rparr>, ph)"
  using sentinel_key [of code] by (simp add: exchange_inv_def)

lemma holders_one: "exchange_inv code X (w, ph) \<Longrightarrow> at_most_one (holders ph)"
  by (simp add: exchange_inv_def)

lemma loses_inv:
  assumes "claim_code code w = (Inl e, w')" and inv: "exchange_inv code X (w, ph)"
  shows "exchange_inv code X (w', ph(i := Failed e))"
  using holders_one [OF inv] unfolding claim_InlD [OF assms(1)] by (intro inv_phase [OF inv]) auto

lemma reads_inv:
  assumes "read_code code w = (Inr data, w')" and i: "ph i = Claimed" and inv: "exchange_inv code X (w, ph)"
  shows "exchange_inv code X (w', ph(i := HasRead data))"
proof -
  from read_codeD [OF assms(1)] have w': "w' = w" and d: "data = cache_live w (exchange_key code)" by simp_all
  have m: "i \<in> claimants ph" using i by (auto simp: claimants_def)
  have "at_most_one (holders (ph(i := HasRead data)))"
  proof (cases data)
    case None
    with holders_one [OF inv] show ?thesis by simp
  next
    case (Some v)
    with d inv have "clock w < X"
      by (auto simp: exchange_inv_def cache_live_def split: option.splits if_splits)
    with inv have "at_most_one (claimants ph)" by (simp add: exchange_inv_def)
    then have "claimants ph = {i}" using m by (rule at_most_one_in)
    then have "insert i (holders ph) \<subseteq> {i}" using holders_claimants [of ph] by simp
    with Some show ?thesis by (simp add: at_most_one_mono [OF at_most_one(2) [of i]])
  qed
  with m show ?thesis unfolding w' by (intro inv_phase [OF inv]) (simp_all add: insert_absorb)
qed

lemma answers_inv:
  assumes "drop_code code data w = (Inr y, w')" and i: "ph i = HasRead data" and inv: "exchange_inv code X (w, ph)"
  shows "exchange_inv code X (w', ph(i := Answered y))"
proof -
  from drop_InrD [OF assms(1)] i have h: "i \<in> holders ph" by (auto simp: holders_def)
  then have "i \<in> claimants ph" using holders_claimants [of ph] by (rule rev_subsetD)
  with h holders_one [OF inv] show ?thesis unfolding drop_state [OF assms(1)]
    by (intro inv_phase [OF inv_drop [OF inv]]) (simp_all add: insert_absorb)
qed

lemma fails_inv:
  assumes "drop_code code data w = (Inl e, w')" and inv: "exchange_inv code X (w, ph)"
  shows "exchange_inv code X (w', ph(i := Failed e))"
  using holders_one [OF inv] unfolding drop_state [OF assms(1)]
  by (intro inv_phase [OF inv_drop [OF inv]]) auto

lemma exchange_step:
  assumes "exchange code s s'" and "exchange_inv code X s"
  shows "exchange_inv code X s'"
  using assms
proof (cases rule: exchange.cases)
  case (claims ph i w w')
  with assms(2) claims_inv show ?thesis by simp
next
  case (loses ph i w e w')
  with assms(2) loses_inv show ?thesis by simp
next
  case (reads ph i w data w')
  with assms(2) reads_inv show ?thesis by simp
next
  case (answers ph i data w y w')
  with assms(2) answers_inv show ?thesis by simp
next
  case (fails ph i data w e w')
  with assms(2) fails_inv show ?thesis by simp
next
  case (waits n w ph)
  with assms(2) show ?thesis by (auto simp: exchange_inv_def)
next
  case (others w w' ph)
  with assms(2) show ?thesis by (auto simp: exchange_inv_def entries_kept_def)
qed

text \<open>
  C20. A one-time OAuth code gives at most one session.  Any number of requests present the code; the
  claim, the reading and the deletion of each are interleaved in any order with those of the
  others, with time and with work on other cache entries: at most one request answers with the
  token pair, although reading and deleting are two steps and the entry that excludes the others
  expires.
\<close>

theorem exchange_code_one_winner:
  assumes "cache w (exchange_key code) = Some (v, X)" and "X \<le> clock w + 60 * 1000000"
    and "exchanges code (w, \<lambda>i. Arrived) (w', ph)"
    and "ph i = Answered x" and "ph j = Answered y"
  shows "i = j"
proof -
  have start: "exchange_inv code X (w, \<lambda>i. Arrived)"
    using assms(1,2) by (simp add: exchange_inv_def claimants_def holders_def oauth_exchange_ttl_def)
  from assms(3) have "exchange_inv code X (w', ph)"
    by (induction rule: rtranclp_induct) (use start exchange_step in blast)+
  then have "at_most_one (holders ph)" by (simp add: exchange_inv_def)
  with assms(4,5) show ?thesis unfolding at_most_one_def holders_def by blast
qed

text \<open>Two requests arrive; the first claims the code, the second loses, the first reads and answers.\<close>

definition sample_code_world :: world where
  "sample_code_world = (start_world sample_db)\<lparr>cache := (\<lambda>k. if k = exchange_key ''c''
     then Some (CachedTokens ''a'' ''r'', 60 * 1000000) else None)\<rparr>"

lemmas exchange_run = claim_code_def read_code_def drop_code_def exchange_reply_def run_simps
  sample_code_world_def start_world_def cache_live_def exchange_key_def oauth_exchange_ttl_def

lemma sample_exchange:
  defines "R \<equiv> Some (CachedTokens ''a'' ''r'')" and "p \<equiv> (\<lambda>i::nat. Arrived)(0 := Claimed, 1 := Failed InvalidOAuthCode)"
  obtains w' where "exchanges ''c'' (sample_code_world, \<lambda>i. Arrived)
    (w', p(0 := HasRead R, 0 := Answered (Tokens 200 (token_payload ''a'' ''r''))))"
proof -
  obtain w1 where w1: "claim_code ''c'' sample_code_world = (Inr (), w1)"
    and lost: "claim_code ''c'' w1 = (Inl InvalidOAuthCode, w1)"
    and got: "read_code ''c'' w1 = (Inr R, w1)"
    by (simp add: exchange_run R_def)
  obtain w2 where w2: "drop_code ''c'' R w1 = (Inr (Tokens 200 (token_payload ''a'' ''r'')), w2)"
    by (simp add: exchange_run R_def)
  have "exchange ''c'' (sample_code_world, \<lambda>i. Arrived) (w1, (\<lambda>i. Arrived)(0 := Claimed))"
    by (rule claims [OF _ w1]) simp
  moreover have "exchange ''c'' (w1, (\<lambda>i. Arrived)(0 := Claimed)) (w1, p)"
    unfolding p_def by (rule loses [OF _ lost]) simp
  moreover have "exchange ''c'' (w1, p) (w1, p(0 := HasRead R))"
    by (rule reads [OF _ got]) (simp add: p_def)
  moreover have "exchange ''c'' (w1, p(0 := HasRead R))
      (w2, p(0 := HasRead R, 0 := Answered (Tokens 200 (token_payload ''a'' ''r''))))"
    by (rule answers [OF _ w2]) simp
  ultimately have "exchanges ''c'' (sample_code_world, \<lambda>i. Arrived)
      (w2, p(0 := HasRead R, 0 := Answered (Tokens 200 (token_payload ''a'' ''r''))))"
    by (intro rtranclp.rtrancl_into_rtrancl [OF rtranclp.rtrancl_into_rtrancl [OF
          rtranclp.rtrancl_into_rtrancl [OF r_into_rtranclp]]])
  then show ?thesis by (rule that)
qed

theorem exchange_code_one_winner_witness:
  "\<exists>w' ph. exchanges ''c'' (sample_code_world, \<lambda>i. Arrived) (w', ph)
    \<and> ph 0 = Answered (Tokens 200 (token_payload ''a'' ''r'')) \<and> ph 1 = Failed InvalidOAuthCode
    \<and> (\<forall>j y. ph j = Answered y \<longrightarrow> 0 = j)"
proof (rule sample_exchange)
  fix w'
  let ?ph = "((\<lambda>i::nat. Arrived)(0 := Claimed, 1 := Failed InvalidOAuthCode))(0 := HasRead (Some (CachedTokens ''a'' ''r'')),
    0 := Answered (Tokens 200 (token_payload ''a'' ''r'')))"
  assume r: "exchanges ''c'' (sample_code_world, \<lambda>i. Arrived) (w', ?ph)"
  have start: "cache sample_code_world (exchange_key ''c'') = Some (CachedTokens ''a'' ''r'', 60 * 1000000)"
    "60 * 1000000 \<le> clock sample_code_world + 60 * 1000000"
    by (simp_all add: sample_code_world_def start_world_def)
  have "\<forall>j y. ?ph j = Answered y \<longrightarrow> 0 = j"
  proof (intro allI impI)
    fix j y assume j: "?ph j = Answered y"
    have "?ph 0 = Answered (Tokens 200 (token_payload ''a'' ''r''))" by simp
    then show "0 = j" using j by (rule exchange_code_one_winner [OF start r])
  qed
  moreover have "?ph 0 = Answered (Tokens 200 (token_payload ''a'' ''r''))" "?ph 1 = Failed InvalidOAuthCode"
    by simp_all
  ultimately show ?thesis using r by blast
qed

end
