(* ===== verification/Erasure.thy ===== *)
theory Erasure
  imports OrgServices
begin

text \<open>
  The account API and the rights of erasure and access: \<open>saasmint_core/services/gdpr.py\<close>,
  \<open>apps/users/repositories.py\<close>, and the account views of \<open>apps/users/views.py\<close> with the write side
  of \<open>apps/users/serializers.py\<close>.
\<close>

section \<open>Users repository\<close>

text \<open>
  The domain's view of a user.  Its \<open>EmailStr\<close> is checked and normalised by the
  \<open>email-validator\<close> library: a parameter, \<open>None\<close> for an address it refuses.
\<close>

type_synonym email_validator = "string \<Rightarrow> string option"

record domain_user =
  du_id :: uuid
  du_email :: string
  du_full_name :: string
  du_avatar_url :: "string option"
  du_locale :: string
  du_currency :: string
  du_pronouns :: "string option"
  du_is_verified :: bool
  du_created_at :: datetime
  du_updated_at :: "datetime option"

definition user_to_domain :: "email_validator \<Rightarrow> user \<Rightarrow> domain_user res" where
  "user_to_domain N u = (case N (u_email u) of None \<Rightarrow> Inl ValueError
     | Some e \<Rightarrow> Inr \<lparr>du_id = u_id u, du_email = e, du_full_name = u_full_name u,
         du_avatar_url = u_avatar_url u, du_locale = u_locale u, du_currency = u_currency u,
         du_pronouns = u_pronouns u, du_is_verified = u_is_verified u,
         du_created_at = u_created_at u, du_updated_at = Some (u_updated_at u)\<rparr>)"

record user_repo =
  usr_get :: "uuid \<Rightarrow> domain_user option io"
  usr_save :: "domain_user \<Rightarrow> domain_user io"
  usr_hard_delete :: "uuid \<Rightarrow> unit io"

definition user_get_by_id :: "email_validator \<Rightarrow> uuid \<Rightarrow> domain_user option io" where
  "user_get_by_id N k = mbind (first_row users_T (\<lambda>u. u_id u = k)) (\<lambda>found.
     case found of None \<Rightarrow> mret None
     | Some u \<Rightarrow> mbind (mlift (user_to_domain N u)) (\<lambda>d. mret (Some d)))"

definition user_defaults :: "domain_user \<Rightarrow> user \<Rightarrow> user" where
  "user_defaults d r = r\<lparr>u_email := du_email d, u_full_name := du_full_name d,
     u_avatar_url := du_avatar_url d, u_locale := du_locale d, u_currency := du_currency d,
     u_pronouns := du_pronouns d, u_is_verified := du_is_verified d\<rparr>"

definition user_save :: "domain_user \<Rightarrow> domain_user io" where
  "user_save d = mbind (exists_row users_T (\<lambda>u. u_id u = du_id d)) (\<lambda>found. mbind now (\<lambda>t.
     mseq (if found then save_user (du_id d) (\<lambda>r. (user_defaults d r)\<lparr>u_updated_at := t\<rparr>)
           else insert_user ((user_defaults d (new_user (du_id d) t (du_email d)))\<lparr>u_password := Some []\<rparr>))
     (mret d)))"

definition user_hard_delete :: "uuid \<Rightarrow> unit io" where
  "user_hard_delete k = delete_users (\<lambda>u. u_id u = k)"

definition django_users :: "email_validator \<Rightarrow> user_repo" where
  "django_users N = \<lparr>usr_get = user_get_by_id N, usr_save = user_save, usr_hard_delete = user_hard_delete\<rparr>"

lemma django_users_sel [simp]: "usr_get (django_users N) = user_get_by_id N"
  "usr_save (django_users N) = user_save" "usr_hard_delete (django_users N) = user_hard_delete"
  by (simp_all add: django_users_def)

section \<open>Erasure and access\<close>

text \<open>A Stripe call whose \<open>resource_missing\<close> error does not count.\<close>

definition stripe_request :: "env \<Rightarrow> stripe_call \<Rightarrow> unit io" where
  "stripe_request E c = mtry (mseq (call_stripe E c) (mret ()))
     (\<lambda>e. if e = StripeInvalidRequest (Some ''resource_missing'') then mret () else mraise e)"

definition load_user_and_customer :: "uuid \<Rightarrow> user_repo \<Rightarrow> customer_repo \<Rightarrow> (domain_user \<times> customer option) io" where
  "load_user_and_customer k U C =
     mbind (usr_get U k) (\<lambda>user. mbind (cust_by_user_id C k) (\<lambda>customer.
     case user of None \<Rightarrow> mraise UserNotFoundError | Some u \<Rightarrow> mret (u, customer)))"

definition delete_account ::
  "env \<Rightarrow> uuid \<Rightarrow> user_repo \<Rightarrow> customer_repo \<Rightarrow> subscription_repo \<Rightarrow> (uuid \<Rightarrow> unit io) option \<Rightarrow> unit io" where
  "delete_account E k U C S pre_delete_hook =
     mbind (load_user_and_customer k U C) (\<lambda>(user, customer).
     mbind (sub_active_for_user S k) (\<lambda>active_sub.
     mseq (case active_sub of None \<Rightarrow> mret ()
           | Some s \<Rightarrow> (case s_stripe_id s of None \<Rightarrow> mret ()
                        | Some sid \<Rightarrow> stripe_request E (SubCancel sid (Some False))))
     (mseq (case customer of None \<Rightarrow> mret ()
            | Some c \<Rightarrow> mseq (stripe_request E (CustomerDelete (c_stripe_id c))) (cust_delete C (c_id c)))
     (mseq (case pre_delete_hook of None \<Rightarrow> mret () | Some hook \<Rightarrow> hook k)
     (usr_hard_delete U k)))))"

record account_export =
  ex_user :: domain_user
  ex_customer :: "(string \<times> bool \<times> datetime) option"
  ex_subscription :: "subscription option"

definition export_user_data :: "uuid \<Rightarrow> user_repo \<Rightarrow> customer_repo \<Rightarrow> subscription_repo \<Rightarrow> account_export io" where
  "export_user_data k U C S =
     mbind (load_user_and_customer k U C) (\<lambda>(user, customer).
     case customer of
       None \<Rightarrow> mret \<lparr>ex_user = user, ex_customer = None, ex_subscription = None\<rparr>
     | Some c \<Rightarrow>
         mbind (sub_active_for_customer S (c_id c)) (\<lambda>active_sub.
         mret \<lparr>ex_user = user, ex_customer = Some (c_stripe_id c, c_livemode c, c_created_at c),
               ex_subscription = active_sub\<rparr>))"

section \<open>Account views\<close>

definition pre_delete :: "uuid \<Rightarrow> unit io" where
  "pre_delete k = mseq (delete_orgs_created_by_user k)
     (mseq (delete_rows members_T (\<lambda>m. m_user m = k)) (mret ()))"

definition account_delete_view :: "env \<Rightarrow> email_validator \<Rightarrow> user \<Rightarrow> nat io" where
  "account_delete_view E N u =
     mseq (delete_account E (u_id u) (django_users N) django_customers django_subscriptions (Some pre_delete)) (mret 204)"

definition account_export_view :: "email_validator \<Rightarrow> user \<Rightarrow> account_export io" where
  "account_export_view N u = export_user_data (u_id u) (django_users N) django_customers django_subscriptions"

text \<open>The fields of a validated update: those that were sent.  A phone of \<open>None\<close> inside is \<open>null\<close>.\<close>

record account_update =
  au_full_name :: "string option"
  au_locale :: "string option"
  au_currency :: "string option"
  au_phone :: "(string \<times> string) option option"
  au_timezone :: "string option option"
  au_job_title :: "string option option"
  au_pronouns :: "string option option"
  au_bio :: "string option option"

definition sent :: "'a option \<Rightarrow> 'a \<Rightarrow> 'a" where
  "sent v old = (case v of None \<Rightarrow> old | Some x \<Rightarrow> x)"

definition apply_update :: "account_update \<Rightarrow> user \<Rightarrow> user" where
  "apply_update a u = u\<lparr>u_full_name := sent (au_full_name a) (u_full_name u),
     u_locale := sent (au_locale a) (u_locale u), u_currency := sent (au_currency a) (u_currency u),
     u_phone_prefix := sent (map_option (map_option fst) (au_phone a)) (u_phone_prefix u),
     u_phone := sent (map_option (map_option snd) (au_phone a)) (u_phone u),
     u_timezone := sent (au_timezone a) (u_timezone u),
     u_job_title := sent (au_job_title a) (u_job_title u),
     u_pronouns := sent (au_pronouns a) (u_pronouns u), u_bio := sent (au_bio a) (u_bio u)\<rparr>"

definition nothing_sent :: "account_update \<Rightarrow> bool" where
  "nothing_sent a \<longleftrightarrow> au_full_name a = None \<and> au_locale a = None \<and> au_currency a = None
     \<and> au_phone a = None \<and> au_timezone a = None \<and> au_job_title a = None \<and> au_pronouns a = None
     \<and> au_bio a = None"

definition account_patch_view :: "user \<Rightarrow> account_update \<Rightarrow> user io" where
  "account_patch_view u a =
     mbind (get_row users_T (\<lambda>r. u_id r = u_id u) ObjectDoesNotExist) (\<lambda>user.
     if nothing_sent a then mret user
     else mbind now (\<lambda>t.
       mseq (save_user (u_id user) (\<lambda>r. (apply_update a r)\<lparr>u_updated_at := t\<rparr>))
       (mret ((apply_update a user)\<lparr>u_updated_at := t\<rparr>))))"

section \<open>Invariants\<close>

lemma keeps_stripe_request [keeps_intros]: "keeps consistent (stripe_request E c)"
  unfolding stripe_request_def by (intro keeps_intros)

lemma keeps_user_save [keeps_intros]: "keeps consistent (user_save d)"
  unfolding user_save_def user_defaults_def by (intro keeps_intros) simp

lemma keeps_erasure [keeps_intros]:
  "keeps consistent (account_delete_view E N u)" "keeps consistent (account_export_view N u)"
  unfolding account_delete_view_def delete_account_def account_export_view_def export_user_data_def
    load_user_and_customer_def user_get_by_id_def user_hard_delete_def pre_delete_def django_sel
    django_users_sel option.case
  by (intro keeps_intros; simp)+

lemma keeps_account_patch [keeps_intros]: "keeps consistent (account_patch_view u a)"
  unfolding account_patch_view_def by (intro keeps_intros) (simp add: apply_update_def)

section \<open>What erasure leaves\<close>

definition created_orgs :: "uuid \<Rightarrow> db \<Rightarrow> uuid list" where
  "created_orgs k d = map o_id (filter (\<lambda>g. o_created_by g = Some k) (orgs d))"

lemma delete_created_run:
  assumes "consistent w"
  shows "\<exists>w1. delete_orgs_created_by_user k w = (Inr (), w1) \<and> calls w1 = calls w
    \<and> db w1 = (if created_orgs k (db w) = [] then db w else after_delete (created_orgs k (db w)) (db w))"
proof (cases "created_orgs k (db w) = []")
  case True
  then show ?thesis
    by (simp add: created_orgs_def delete_orgs_created_by_user_def mbind_run)
next
  case False
  let ?ids = "created_orgs k (db w)"
  obtain c where r: "delete_orgs_db ?ids w = (Inr (), w\<lparr>db := after_delete ?ids (db w), cache := c\<rparr>)"
    using delete_orgs_db_run [OF assms] by blast
  from False have "filter (\<lambda>g. o_created_by g = Some k) (orgs (db w)) \<noteq> []" by (simp add: created_orgs_def)
  then show ?thesis
    using r False by (simp add: delete_orgs_created_by_user_def created_orgs_def mbind_run mseq_run Let_def)
qed

lemma pre_delete_run:
  assumes "consistent w"
  shows "\<exists>w1 d. pre_delete k w = (Inr (), w1) \<and> calls w1 = calls w
    \<and> d = (if created_orgs k (db w) = [] then db w else after_delete (created_orgs k (db w)) (db w))
    \<and> users (db w1) = users d \<and> orgs (db w1) = orgs d"
  using delete_created_run [OF assms, of k] by (auto simp: pre_delete_def mseq_run)

lemma stripe_request_db: "db (snd (stripe_request E c w)) = db w"
  by (auto simp: stripe_request_def run_simps split: sum.splits)

lemma stripe_request_Inr: "stripe_request E c w = (Inr (), w') \<Longrightarrow> w' = w\<lparr>calls := calls w @ [c]\<rparr>"
  by (auto simp: stripe_request_def run_simps split: sum.splits if_splits)

text \<open>The calls that an erasure makes when Stripe accepts them.\<close>

definition erasure_calls :: "uuid \<Rightarrow> world \<Rightarrow> stripe_call list" where
  "erasure_calls k w =
     (case fst (get_active_for_user k w) of
        Inr (Some s) \<Rightarrow> (case s_stripe_id s of None \<Rightarrow> [] | Some sid \<Rightarrow> [SubCancel sid (Some False)])
      | _ \<Rightarrow> [])
     @ (case first_by c_id (filter (\<lambda>c. c_user c = Some k) (customers (db w))) of
          None \<Rightarrow> [] | Some c \<Rightarrow> [CustomerDelete (c_stripe_id c)])"

lemma active_for_user_state: "\<exists>v. get_active_for_user k w = (Inr v, w)"
  by (simp add: get_active_for_user_def get_latest_active_def run_simps)

lemma load_run:
  assumes c: "consistent w" and u: "u \<in> set (users (db w))"
  shows "load_user_and_customer (u_id u) (django_users N) django_customers w
    = (case user_to_domain N u of Inl e \<Rightarrow> (Inl e, w) | Inr d \<Rightarrow>
       (Inr (d, first_by c_id (filter (\<lambda>c. c_user c = Some (u_id u)) (customers (db w)))), w))"
  using find_user [OF c u refl]
  by (auto simp: load_user_and_customer_def user_get_by_id_def run_simps django_sel customer_get_def split: sum.splits)

text \<open>The local deletions: the organisations the user created, their orphaned members, the user.\<close>

lemma local_erasure:
  assumes c: "consistent w"
  shows "\<exists>w'. mseq (pre_delete k) (user_hard_delete k) w = (Inr (), w') \<and> calls w' = calls w
    \<and> k \<notin> u_id ` set (users (db w'))
    \<and> (\<forall>g\<in>set (orgs (db w)). o_created_by g = Some k \<longrightarrow> o_id g \<notin> o_id ` set (orgs (db w')))
    \<and> (\<forall>v\<in>set (users (db w)). u_id v \<noteq> k
         \<and> (\<forall>m\<in>set (members (db w)). m_user m = u_id v \<longrightarrow> m_org m \<notin> set (created_orgs k (db w)))
         \<longrightarrow> v \<in> set (users (db w')))"
proof -
  let ?ids = "created_orgs k (db w)"
  obtain w1 where p: "pre_delete k w = (Inr (), w1)" "calls w1 = calls w"
    and us: "users (db w1) = (if ?ids = [] then users (db w) else users (after_delete ?ids (db w)))"
    and os: "orgs (db w1) = (if ?ids = [] then orgs (db w) else orgs (after_delete ?ids (db w)))"
    using pre_delete_run [OF c, of k] by (metis (full_types))
  let ?w2 = "snd (user_hard_delete k w1)"
  have h: "user_hard_delete k w1 = (Inr (), ?w2)" "calls ?w2 = calls w1"
    "users (db ?w2) = filter (\<lambda>v. u_id v \<noteq> k) (users (db w1))"
    "map o_id (orgs (db ?w2)) = map o_id (orgs (db w1))"
    by (simp_all add: user_hard_delete_def delete_users_def cascade_users_def Let_def keep_def map_update_where)
  have o: "o_id g \<notin> set (map o_id (orgs (db w1)))" if "g \<in> set (orgs (db w))" "o_created_by g = Some k" for g
  proof -
    from that have g: "o_id g \<in> set ?ids" by (auto simp: created_orgs_def)
    then have "?ids \<noteq> []" by (metis empty_iff empty_set)
    with os have "map o_id (orgs (db w1)) = filter (\<lambda>k. k \<notin> set ?ids) (map o_id (orgs (db w)))"
      by (simp only: if_False after_delete_orgs)
    with g show ?thesis by (simp only: set_filter mem_Collect_eq simp_thms not_True_eq_False)
  qed
  have v: "v \<in> set (users (db w1))" if "v \<in> set (users (db w))"
    "\<forall>m\<in>set (members (db w)). m_user m = u_id v \<longrightarrow> m_org m \<notin> set ?ids" for v
    using that us by (auto simp: after_delete_users deletable_def list_ex_iff)
  show ?thesis
    using p h o v by (intro exI [of _ ?w2]) (auto simp: mseq_run simp flip: set_map)
qed

text \<open>An erasure is three steps: the Stripe cancellation, the customer, the local deletions.\<close>

definition cancel_part :: "env \<Rightarrow> uuid \<Rightarrow> world \<Rightarrow> unit io" where
  "cancel_part E k w = (case fst (get_active_for_user k w) of
      Inr (Some s) \<Rightarrow> (case s_stripe_id s of None \<Rightarrow> mret ()
        | Some sid \<Rightarrow> stripe_request E (SubCancel sid (Some False)))
    | _ \<Rightarrow> mret ())"

definition customer_part :: "env \<Rightarrow> uuid \<Rightarrow> world \<Rightarrow> unit io" where
  "customer_part E k w = (case first_by c_id (filter (\<lambda>c. c_user c = Some k) (customers (db w))) of
      None \<Rightarrow> mret ()
    | Some c \<Rightarrow> mseq (stripe_request E (CustomerDelete (c_stripe_id c))) (customer_delete (c_id c)))"

lemma account_delete_steps:
  assumes c: "consistent w" and u: "u \<in> set (users (db w))" and d: "user_to_domain N u = Inr d"
  shows "account_delete_view E N u w = mseq (mseq (cancel_part E (u_id u) w) (mseq (customer_part E (u_id u) w)
      (mseq (pre_delete (u_id u)) (user_hard_delete (u_id u))))) (mret 204) w"
proof -
  obtain v where a: "get_active_for_user (u_id u) w = (Inr v, w)" using active_for_user_state by blast
  show ?thesis
    unfolding account_delete_view_def delete_account_def django_sel option.case cancel_part_def customer_part_def
    by (cases v) (simp_all add: mseq_run mbind_run load_run [OF c u] d a)
qed

lemma keeps_parts:
  "keeps consistent (cancel_part E k w)" "keeps consistent (customer_part E k w)"
  "keeps consistent (mseq (pre_delete k) (user_hard_delete k))"
  unfolding cancel_part_def customer_part_def pre_delete_def user_hard_delete_def by (intro keeps_intros)+

lemma cancel_step:
  assumes "cancel_part E k w w = (r, w')"
  shows "db w' = db w \<and> (r = Inr () \<longrightarrow> calls w' = calls w @ (case fst (get_active_for_user k w) of
      Inr (Some s) \<Rightarrow> (case s_stripe_id s of None \<Rightarrow> [] | Some sid \<Rightarrow> [SubCancel sid (Some False)]) | _ \<Rightarrow> []))"
proof -
  obtain v where a: "get_active_for_user k w = (Inr v, w)" using active_for_user_state by blast
  show ?thesis
  proof (cases "v = None \<or> s_stripe_id (the v) = None")
    case True
    with assms a show ?thesis by (cases v) (auto simp: cancel_part_def)
  next
    case False
    then obtain s sid where "v = Some s" "s_stripe_id s = Some sid" by auto
    with assms a stripe_request_db [of E "SubCancel sid (Some False)" w]
      stripe_request_Inr [of E "SubCancel sid (Some False)" w w'] show ?thesis
      by (simp add: cancel_part_def)
  qed
qed

lemma customer_step:
  assumes "customer_part E k w w1 = (r, w')"
  shows "(r = Inr () \<and> calls w' = calls w1 @ (case first_by c_id (filter (\<lambda>c. c_user c = Some k) (customers (db w))) of
          None \<Rightarrow> [] | Some c \<Rightarrow> [CustomerDelete (c_stripe_id c)])
      \<and> users (db w') = users (db w1) \<and> orgs (db w') = orgs (db w1) \<and> members (db w') = members (db w1))
    \<or> (\<exists>e. r = Inl e \<and> db w' = db w1)"
proof (cases "first_by c_id (filter (\<lambda>c. c_user c = Some k) (customers (db w)))")
  case None
  with assms show ?thesis by (auto simp: customer_part_def)
next
  case (Some c)
  obtain a w2 where q: "stripe_request E (CustomerDelete (c_stripe_id c)) w1 = (a, w2)" by force
  with stripe_request_db [of E "CustomerDelete (c_stripe_id c)" w1] have "db w2 = db w1" by simp
  with assms Some q stripe_request_Inr [of E "CustomerDelete (c_stripe_id c)" w1 w2] show ?thesis
    by (cases a) (auto simp: customer_part_def mseq_run customer_delete_def)
qed

lemma no_dangling_user:
  assumes "consistent w" and "k \<notin> u_id ` set (users (db w))"
  shows "(KUser, k) \<notin> set (all_refs (db w))"
  using assms by (auto simp: consistent_def db_ok_def fk_ok_def refs_ok_def list_all_iff)

lemma account_erasure_run:
  assumes c: "consistent w" and u: "u \<in> set (users (db w))" and d: "user_to_domain N u = Inr d"
    and run: "account_delete_view E N u w = (r, w')"
  shows "(r = Inr 204 \<and> u_id u \<notin> u_id ` set (users (db w')) \<and> (KUser, u_id u) \<notin> set (all_refs (db w'))
      \<and> (\<forall>g\<in>set (orgs (db w)). o_created_by g = Some (u_id u) \<longrightarrow> o_id g \<notin> o_id ` set (orgs (db w')))
      \<and> (\<forall>v\<in>set (users (db w)). u_id v \<noteq> u_id u
           \<and> (\<forall>m\<in>set (members (db w)). m_user m = u_id v \<longrightarrow> m_org m \<notin> set (created_orgs (u_id u) (db w)))
           \<longrightarrow> v \<in> set (users (db w')))
      \<and> calls w' = calls w @ erasure_calls (u_id u) w)
    \<or> (\<exists>e. r = Inl e \<and> db w' = db w)"
proof -
  note steps = run [unfolded account_delete_steps [OF c u d]]
  obtain r1 w1 where x1: "cancel_part E (u_id u) w w = (r1, w1)" by force
  note s1 = cancel_step [OF x1]
  obtain r2 w2 where x2: "customer_part E (u_id u) w w1 = (r2, w2)" by force
  note s2 = customer_step [OF x2]
  show ?thesis
  proof (cases "\<exists>e. r1 = Inl e \<or> r2 = Inl e")
    case True
    from s1 have d: "db w1 = db w" by (rule conjunct1)
    show ?thesis
    proof (cases r1)
      case (Inl e)
      then have "r = Inl e" "w' = w1" using steps x1 by (simp_all add: mseq_run)
      with d show ?thesis by blast
    next
      case (Inr x)
      with True obtain e where e: "r2 = Inl e" by auto
      with s2 have "db w2 = db w1" by simp
      moreover from e Inr have "r = Inl e" "w' = w2" using steps x1 x2 by (simp_all add: mseq_run)
      ultimately show ?thesis using d by simp
    qed
  next
    case False
    then obtain a b where "r1 = Inr a" "r2 = Inr b" by (metis sum.exhaust)
    then have ok: "r1 = Inr ()" "r2 = Inr ()" by simp_all
    have k: "consistent w2"
      by (rule keepsD_run [OF keeps_parts(2) keepsD_run [OF keeps_parts(1) c x1] x2])
    obtain w3 where l: "mseq (pre_delete (u_id u)) (user_hard_delete (u_id u)) w2 = (Inr (), w3)"
      and m: "calls w3 = calls w2" and gone: "u_id u \<notin> u_id ` set (users (db w3))"
      and os: "\<forall>g\<in>set (orgs (db w2)). o_created_by g = Some (u_id u) \<longrightarrow> o_id g \<notin> o_id ` set (orgs (db w3))"
      and us: "\<forall>v\<in>set (users (db w2)). u_id v \<noteq> u_id u
        \<and> (\<forall>m\<in>set (members (db w2)). m_user m = u_id v \<longrightarrow> m_org m \<notin> set (created_orgs (u_id u) (db w2)))
        \<longrightarrow> v \<in> set (users (db w3))"
      using local_erasure [OF k, of "u_id u"] by (elim exE conjE) (rule that)
    from steps x1 x2 ok l have r: "r = Inr 204" "w' = w3" by (simp_all add: mseq_run)
    have "consistent w3" by (rule keepsD_run [OF keeps_parts(3) k l])
    then have refs: "(KUser, u_id u) \<notin> set (all_refs (db w3))" using gone by (rule no_dangling_user)
    from s1 s2 ok have same: "users (db w2) = users (db w)" "orgs (db w2) = orgs (db w)"
      "members (db w2) = members (db w)" and "calls w2 = calls w @ erasure_calls (u_id u) w" by (auto simp: erasure_calls_def)
    then have "calls w3 = calls w @ erasure_calls (u_id u) w" by (simp only: m)
    with gone refs os us r(1) show ?thesis unfolding same created_orgs_def r(2) by blast
  qed
qed

text \<open>
  C21. Account erasure (\<open>DELETE /account/\<close>): either every step ran, and then no user row, no reference to
  the user and no organisation the user created is left, other users that belong to none of these
  organisations are still there, and Stripe was asked, in this order, to cancel the active subscription
  without proration and to delete the customer; or a step failed, and the database is as it was.
\<close>

theorem account_erasure:
  assumes c: "consistent w" and u: "u \<in> set (users (db w))"
    and run: "account_delete_view E N u w = (r, w')"
  shows "(r = Inr 204 \<and> u_id u \<notin> u_id ` set (users (db w')) \<and> (KUser, u_id u) \<notin> set (all_refs (db w'))
      \<and> (\<forall>g\<in>set (orgs (db w)). o_created_by g = Some (u_id u) \<longrightarrow> o_id g \<notin> o_id ` set (orgs (db w')))
      \<and> (\<forall>v\<in>set (users (db w)). u_id v \<noteq> u_id u
           \<and> (\<forall>m\<in>set (members (db w)). m_user m = u_id v \<longrightarrow> m_org m \<notin> set (created_orgs (u_id u) (db w)))
           \<longrightarrow> v \<in> set (users (db w')))
      \<and> calls w' = calls w @ erasure_calls (u_id u) w)
    \<or> (\<exists>e. r = Inl e \<and> db w' = db w)"
proof -
  consider e where "user_to_domain N u = Inl e" | d where "user_to_domain N u = Inr d"
    by (cases "user_to_domain N u")
  then show ?thesis
  proof cases
    case 1
    with run load_run [OF c u, of N] show ?thesis
      by (intro disjI2) (auto simp: account_delete_view_def delete_account_def mbind_run mseq_run)
  next
    case 2
    from account_erasure_run [OF c u 2 run] show ?thesis .
  qed
qed

lemma sample_parts:
  "fst (cancel_part sample_env 1 (start_world sample_db) (start_world sample_db)) = Inr ()"
  "fst (customer_part sample_env 1 (start_world sample_db)
     (snd (cancel_part sample_env 1 (start_world sample_db) (start_world sample_db)))) = Inr ()"
  "erasure_calls 1 (start_world sample_db) = [SubCancel ''sub_1'' (Some False), CustomerDelete ''cus_1'']"
  by code_simp+

theorem account_erasure_witness:
  "\<exists>w'. account_delete_view sample_env Some sample_user (start_world sample_db) = (Inr 204, w')
    \<and> (KUser, 1) \<notin> set (all_refs (db w')) \<and> 10 \<notin> o_id ` set (orgs (db w'))
    \<and> calls w' = [SubCancel ''sub_1'' (Some False), CustomerDelete ''cus_1'']"
proof -
  let ?w = "start_world sample_db"
  have u: "sample_user \<in> set (users (db ?w))" by (simp add: sample_db_def start_world_def)
  obtain w1 where x1: "cancel_part sample_env 1 ?w ?w = (Inr (), w1)" using sample_parts(1) by (metis prod.collapse)
  obtain w2 where x2: "customer_part sample_env 1 ?w w1 = (Inr (), w2)"
    using sample_parts(2) unfolding x1 snd_conv by (metis prod.collapse)
  have k: "consistent w2"
    by (rule keepsD_run [OF keeps_parts(2) keepsD_run [OF keeps_parts(1) sample_consistent x1] x2])
  obtain w3 where "mseq (pre_delete 1) (user_hard_delete 1) w2 = (Inr (), w3)"
    using local_erasure [OF k, of 1] by blast
  then have r: "account_delete_view sample_env Some sample_user ?w = (Inr 204, w3)"
    using account_delete_steps [OF sample_consistent u, of Some] x1 x2
    by (simp add: user_to_domain_def sample_user_def mseq_run)
  from account_erasure [OF sample_consistent u r] r sample_parts(3) show ?thesis
    by (simp add: sample_user_def) (simp add: sample_simps)
qed

end
