(* ===== verification/OrgViews.thy ===== *)
theory OrgViews
  imports OrgServices
begin

text \<open>
  The organisation API: \<open>apps/orgs/views.py\<close> with the parts of \<open>apps/orgs/serializers.py\<close> that decide
  which roles a request may name.

  A view takes the authenticated user (where the endpoint has one) and the fields of its body.  The
  role guards, the seat limit and every early return are branches of the definitions; the shape of
  the body (lengths, address and URL syntax) is checked by the REST framework before.
\<close>

section \<open>Constants and pages\<close>

definition admin_or_above :: "org_role list" where "admin_or_above = [OWNER, ADMIN]"

definition owner_only :: "org_role list" where "owner_only = [OWNER]"

definition invitation_expiry_days :: int where "invitation_expiry_days = 7"

definition default_page_size :: nat where "default_page_size = 50"

definition max_page_size :: nat where "max_page_size = 100"

text \<open>\<open>LimitOffsetPagination\<close> with these bounds; \<open>None\<close> is an absent or invalid parameter.\<close>

definition page_of :: "nat option \<Rightarrow> nat option \<Rightarrow> 'a list \<Rightarrow> 'a list" where
  "page_of limit offset xs =
     take (case limit of None \<Rightarrow> default_page_size
           | Some n \<Rightarrow> if n = 0 then default_page_size else min n max_page_size)
       (drop (case offset of None \<Rightarrow> 0 | Some n \<Rightarrow> n) xs)"

section \<open>Membership and roles\<close>

definition get_org_and_member :: "uuid \<Rightarrow> uuid \<Rightarrow> org_role list option \<Rightarrow> (org \<times> org_member) io" where
  "get_org_and_member user org allowed_roles =
     mbind (first_row members_T (\<lambda>m. m_org m = org \<and> m_user m = user)) (\<lambda>found.
     case found of
       None \<Rightarrow> mbind (exists_row orgs_T (\<lambda>g. o_id g = org)) (\<lambda>there.
         mraise (if there then InsufficientPermissionError else OrgNotFoundError))
     | Some m \<Rightarrow>
         if (case allowed_roles of None \<Rightarrow> False | Some rs \<Rightarrow> m_role m \<notin> set rs)
         then mraise InsufficientPermissionError
         else mbind (get_row orgs_T (\<lambda>g. o_id g = m_org m) ObjectDoesNotExist) (\<lambda>g. mret (g, m)))"

definition assignable_roles :: "org_role list" where "assignable_roles = [ADMIN, MEMBER]"

definition valid_role :: "org_role option \<Rightarrow> unit io" where
  "valid_role r = mguard (case r of None \<Rightarrow> True | Some x \<Rightarrow> x \<in> set assignable_roles) ValidationError"

section \<open>Organisations\<close>

text \<open>The collation of the database orders the names.\<close>

definition org_list_view :: "(string \<Rightarrow> nat) \<Rightarrow> user \<Rightarrow> nat option \<Rightarrow> nat option \<Rightarrow> org list io" where
  "org_list_view collate u limit offset = mgets (\<lambda>w. page_of limit offset (sort_key (\<lambda>g. collate (o_name g))
     (filter (\<lambda>g. list_ex (\<lambda>m. m_org m = o_id g \<and> m_user m = u_id u) (members (db w))) (orgs (db w)))))"

definition org_detail_view :: "user \<Rightarrow> uuid \<Rightarrow> org io" where
  "org_detail_view u org = mbind (get_org_and_member (u_id u) org None) (\<lambda>(g, m). mret g)"

text \<open>The fields of the body that were sent; a logo of \<open>None\<close> inside is \<open>null\<close>.\<close>

definition apply_org_update :: "string option \<Rightarrow> string option option \<Rightarrow> org \<Rightarrow> org" where
  "apply_org_update name logo g = g\<lparr>
     o_name := (case name of None \<Rightarrow> o_name g | Some x \<Rightarrow> x),
     o_logo_url := (case logo of None \<Rightarrow> o_logo_url g | Some x \<Rightarrow> x)\<rparr>"

definition org_patch_view :: "user \<Rightarrow> uuid \<Rightarrow> string option \<Rightarrow> string option option \<Rightarrow> org io" where
  "org_patch_view u org name logo =
     mbind (get_org_and_member (u_id u) org (Some admin_or_above)) (\<lambda>(g, m).
     if name = None \<and> logo = None then mret g
     else mseq (save_row orgs_T (o_id g) (apply_org_update name logo)) (mret (apply_org_update name logo g)))"

definition org_delete_view :: "user \<Rightarrow> uuid \<Rightarrow> nat io" where
  "org_delete_view u org =
     mbind (get_org_and_member (u_id u) org (Some owner_only)) (\<lambda>(g, m).
     mseq (delete_org (o_id g)) (mret 204))"

section \<open>Members\<close>

definition org_member_list_view :: "user \<Rightarrow> uuid \<Rightarrow> nat option \<Rightarrow> nat option \<Rightarrow> org_member list io" where
  "org_member_list_view u org limit offset =
     mbind (get_org_and_member (u_id u) org None) (\<lambda>(g, m).
     mgets (\<lambda>w. page_of limit offset (sort_key m_joined_at
       (filter (\<lambda>r. m_org r = o_id g) (members (db w))))))"

definition apply_member_update :: "org_role option \<Rightarrow> bool option \<Rightarrow> org_member \<Rightarrow> org_member" where
  "apply_member_update role billing m = m\<lparr>
     m_role := (case role of None \<Rightarrow> m_role m | Some x \<Rightarrow> x),
     m_is_billing := (case billing of None \<Rightarrow> m_is_billing m | Some x \<Rightarrow> x)\<rparr>"

definition member_of :: "uuid \<Rightarrow> uuid \<Rightarrow> org_member io" where
  "member_of org user = get_row members_T (\<lambda>m. m_org m = org \<and> m_user m = user) Http404"

definition patch_member :: "org_member \<Rightarrow> org_member \<Rightarrow> org_role option \<Rightarrow> bool option \<Rightarrow> org_member io" where
  "patch_member caller target role billing =
     mseq (mlift (check_can_manage_member (m_role caller) (m_role target)))
     (mseq (valid_role role)
     (if role = None \<and> billing = None then mret target
      else mseq (case role of None \<Rightarrow> mret ()
                 | Some r \<Rightarrow> mlift (check_can_assign_role (m_role caller) r))
        (mseq (save_row members_T (m_id target) (apply_member_update role billing))
        (mret (apply_member_update role billing target)))))"

definition member_patch_view ::
  "user \<Rightarrow> uuid \<Rightarrow> uuid \<Rightarrow> org_role option \<Rightarrow> bool option \<Rightarrow> org_member io" where
  "member_patch_view u org member_user role billing =
     mbind (get_org_and_member (u_id u) org (Some admin_or_above)) (\<lambda>(g, caller).
     mbind (member_of org member_user) (\<lambda>target. patch_member caller target role billing))"

definition member_delete_view :: "user \<Rightarrow> uuid \<Rightarrow> uuid \<Rightarrow> nat io" where
  "member_delete_view u org member_user =
     mbind (get_org_and_member (u_id u) org (Some admin_or_above)) (\<lambda>(g, caller).
     mbind (member_of org member_user) (\<lambda>target.
     mseq (mguard (m_role target \<noteq> OWNER) InsufficientPermissionError)
     (mseq (mlift (check_can_manage_member (m_role caller) (m_role target)))
     (mseq (delete_users (\<lambda>v. u_id v = m_user target)) (mret 204)))))"

section \<open>Transfer of ownership\<close>

definition swap_owner :: "org_member \<Rightarrow> org_member \<Rightarrow> unit io" where
  "swap_owner target caller = atomic (
     mseq (save_row members_T (m_id target) (\<lambda>m. m\<lparr>m_role := OWNER, m_is_billing := True\<rparr>))
     (save_row members_T (m_id caller) (\<lambda>m. m\<lparr>m_role := ADMIN, m_is_billing := False\<rparr>)))"

definition owner_transfer_view :: "user \<Rightarrow> uuid \<Rightarrow> uuid \<Rightarrow> org_member io" where
  "owner_transfer_view u org target_user =
     mbind (get_org_and_member (u_id u) org (Some owner_only)) (\<lambda>(g, caller).
     mbind (member_of org target_user) (\<lambda>target.
     mseq (mguard (m_role target = ADMIN) InsufficientPermissionError)
     (mseq (swap_owner target caller)
     (mret (target\<lparr>m_role := OWNER, m_is_billing := True\<rparr>)))))"

section \<open>Invitations\<close>

definition invitation_list_view :: "user \<Rightarrow> uuid \<Rightarrow> nat option \<Rightarrow> nat option \<Rightarrow> invitation list io" where
  "invitation_list_view u org limit offset =
     mbind (get_org_and_member (u_id u) org (Some admin_or_above)) (\<lambda>(g, m).
     mgets (\<lambda>w. page_of limit offset (sort_key (\<lambda>i. - i_created_at i)
       (filter (\<lambda>i. i_org i = org \<and> i_status i = PENDING) (invitations (db w))))))"

definition validate_seat_limit :: "uuid \<Rightarrow> unit io" where
  "validate_seat_limit org =
     mbind (lock_active_team_sub org) (\<lambda>sub.
     case sub of None \<Rightarrow> mret ()
     | Some s \<Rightarrow>
         mbind (count_rows members_T (\<lambda>m. m_org m = org)) (\<lambda>member_count.
         mbind (count_rows invitations_T (\<lambda>i. i_org i = org \<and> i_status i = PENDING)) (\<lambda>pending_count.
         mguard (int (member_count + pending_count) < s_seat_limit s) SeatLimitReached)))"

definition create_invitation :: "user \<Rightarrow> org \<Rightarrow> string \<Rightarrow> org_role \<Rightarrow> string \<Rightarrow> invitation io" where
  "create_invitation u g email role token = atomic (
     mseq (validate_seat_limit (o_id g))
     (mbind fresh_uuid (\<lambda>k. mbind now (\<lambda>t.
      let i = \<lparr>i_id = k, i_org = o_id g, i_email = email, i_role = role, i_token = token,
               i_status = PENDING, i_invited_by = Some (u_id u), i_created_at = t,
               i_expires_at = t + invitation_expiry_days * 86400 * 1000000\<rparr> in
      mseq (create_row invitations_T i)
      (mseq (on_commit (SendInvitationEmail email token (o_name g) (u_full_name u))) (mret i))))))"

definition invitation_create_view :: "user \<Rightarrow> uuid \<Rightarrow> string \<Rightarrow> org_role option \<Rightarrow> invitation io" where
  "invitation_create_view u org email role =
     mbind (get_org_and_member (u_id u) org (Some admin_or_above)) (\<lambda>(g, m).
     mseq (valid_role role)
     (mbind (email_is_registered email) (\<lambda>registered.
     if registered then mraise InvitationEmailExists else
     mbind (exists_row invitations_T (\<lambda>i. i_org i = o_id g \<and> i_email i = email \<and> i_status i = PENDING)) (\<lambda>pending.
     if pending then mraise InvitationPendingExists else
     mbind fresh_text (\<lambda>token.
     create_invitation u g email (case role of None \<Rightarrow> MEMBER | Some r \<Rightarrow> r) token)))))"

definition set_status :: "invitation \<Rightarrow> invitation_status \<Rightarrow> unit io" where
  "set_status i st = save_row invitations_T (i_id i) (\<lambda>r. r\<lparr>i_status := st\<rparr>)"

definition invitation_cancel_view :: "user \<Rightarrow> uuid \<Rightarrow> uuid \<Rightarrow> nat io" where
  "invitation_cancel_view u org invite =
     mbind (get_org_and_member (u_id u) org (Some admin_or_above)) (\<lambda>_.
     mbind (get_row invitations_T (\<lambda>i. i_id i = invite \<and> i_org i = org \<and> i_status i = PENDING) Http404) (\<lambda>i.
     mseq (set_status i CANCELLED) (mret 204)))"

definition pending_invitation :: "string \<Rightarrow> invitation io" where
  "pending_invitation token = get_row invitations_T (\<lambda>i. i_token i = token \<and> i_status i = PENDING) Http404"

definition invitation_detail_view :: "string \<Rightarrow> invitation io" where
  "invitation_detail_view token = pending_invitation token"

definition invitation_accept_view :: "env \<Rightarrow> string \<Rightarrow> string \<Rightarrow> org io" where
  "invitation_accept_view E token full_name =
     mbind (pending_invitation token) (\<lambda>i.
     mbind now (\<lambda>t.
     if i_expires_at i < t then mseq (set_status i EXPIRED) (mraise InvitationExpired) else
     mbind (email_is_registered (i_email i)) (\<lambda>registered.
     if registered then mraise InvitationEmailExists else
     mbind (mtry (accept_invitation E i full_name)
        (\<lambda>e. mraise (if e = SeatCapReachedAtAcceptError then SeatLimitReached else e))) (\<lambda>(u, g). mret g))))"

definition invitation_decline_view :: "user \<Rightarrow> string \<Rightarrow> nat io" where
  "invitation_decline_view u token =
     mbind (pending_invitation token) (\<lambda>i.
     if lower (u_email u) \<noteq> lower (i_email i) then mraise InvitationAddressedToOther
     else mseq (set_status i DECLINED) (mret 204))"

section \<open>Invariants\<close>

lemma keeps_org_guards [keeps_intros]:
  "keeps consistent (get_org_and_member u g rs)" "keeps consistent (valid_role r)"
  "keeps consistent (member_of g u)" "keeps consistent (pending_invitation tok)"
  "keeps consistent (set_status i st)" "keeps consistent (validate_seat_limit g)"
  "keeps consistent (lock_active_team_sub g)"
  unfolding get_org_and_member_def valid_role_def member_of_def pending_invitation_def set_status_def
    validate_seat_limit_def lock_active_team_sub_def
  by (intro keeps_intros; simp)+

lemma keeps_org_views [keeps_intros]:
  "keeps consistent (org_patch_view u g name logo)" "keeps consistent (org_delete_view u g)"
  "keeps consistent (member_patch_view u g k role billing)" "keeps consistent (member_delete_view u g k)"
  "keeps consistent (owner_transfer_view u g k)" "keeps consistent (invitation_create_view u g email role)"
  "keeps consistent (invitation_cancel_view u g k)" "keeps consistent (invitation_accept_view E tok full)"
  "keeps consistent (invitation_decline_view u tok)"
  unfolding org_patch_view_def org_delete_view_def member_patch_view_def patch_member_def member_delete_view_def
    owner_transfer_view_def swap_owner_def invitation_create_view_def create_invitation_def
    invitation_cancel_view_def invitation_accept_view_def invitation_decline_view_def Let_def
  by (intro keeps_intros; simp add: apply_org_update_def apply_member_update_def)+

section \<open>Who may change an organisation\<close>

datatype org_request =
    PatchOrg "string option" "string option option"
  | DeleteOrg
  | PatchMember uuid "org_role option" "bool option"
  | DeleteMember uuid
  | TransferOwner uuid
  | CreateInvitation string "org_role option"
  | CancelInvitation uuid

text \<open>The requests under \<open>/orgs/{org_id}/\<close> that can change something, with their answer dropped.\<close>

fun run_org_request :: "user \<Rightarrow> uuid \<Rightarrow> org_request \<Rightarrow> unit io" where
  "run_org_request u g (PatchOrg name logo) = mseq (org_patch_view u g name logo) (mret ())"
| "run_org_request u g DeleteOrg = mseq (org_delete_view u g) (mret ())"
| "run_org_request u g (PatchMember k role billing) = mseq (member_patch_view u g k role billing) (mret ())"
| "run_org_request u g (DeleteMember k) = mseq (member_delete_view u g k) (mret ())"
| "run_org_request u g (TransferOwner k) = mseq (owner_transfer_view u g k) (mret ())"
| "run_org_request u g (CreateInvitation email role) = mseq (invitation_create_view u g email role) (mret ())"
| "run_org_request u g (CancelInvitation k) = mseq (invitation_cancel_view u g k) (mret ())"

lemma keeps_org_request [keeps_intros]: "keeps consistent (run_org_request u g q)"
  by (cases q) (simp_all add: keeps_intros)

fun roles_for :: "org_request \<Rightarrow> org_role list" where
  "roles_for DeleteOrg = owner_only"
| "roles_for (TransferOwner _) = owner_only"
| "roles_for _ = admin_or_above"

lemma guard_state: "snd (get_org_and_member u g rs w) = w"
  by (auto simp: get_org_and_member_def get_row_def run_simps split: option.splits)

lemma guard_InrE:
  assumes "get_org_and_member u g (Some rs) w = (Inr x, w1)"
  obtains o1 m where "x = (o1, m)" "w1 = w" "m \<in> set (members (db w))" "m_org m = g" "m_user m = u"
    "m_role m \<in> set rs" "o1 \<in> set (orgs (db w))" "o_id o1 = g"
  using assms by (auto simp: get_org_and_member_def get_row_def run_simps split: option.splits if_splits
      dest!: first_by_filter_Some)

text \<open>Every such request begins with the guard.\<close>

lemma org_request_guarded:
  "\<exists>k. run_org_request u g q = mbind (get_org_and_member (u_id u) g (Some (roles_for q))) k"
  by (cases q) (auto simp: org_patch_view_def org_delete_view_def member_patch_view_def member_delete_view_def
      owner_transfer_view_def invitation_create_view_def invitation_cancel_view_def mseq_def mbind_assoc)

text \<open>
  C22. A request under \<open>/orgs/{org_id}/\<close> changes the database only when its user is a member of that
  organisation, as owner or administrator, and for deleting the organisation and for handing it over
  as its owner.  Everybody else's request leaves the database, the Stripe calls and the queue as
  they were.
\<close>

theorem org_changes_need_role:
  assumes "\<not> (\<exists>m\<in>set (members (db w)). m_org m = g \<and> m_user m = u_id u \<and> m_role m \<in> set (roles_for q))"
  shows "\<exists>e. run_org_request u g q w = (Inl e, w)"
proof -
  obtain k where k: "run_org_request u g q = mbind (get_org_and_member (u_id u) g (Some (roles_for q))) k"
    using org_request_guarded by blast
  obtain r where r: "get_org_and_member (u_id u) g (Some (roles_for q)) w = (r, w)"
    using guard_state [of "u_id u" g "Some (roles_for q)" w] by (metis prod.collapse)
  have "\<exists>e. r = Inl e"
  proof (cases r)
    case (Inr x)
    with r assms show ?thesis by (auto elim!: guard_InrE)
  qed simp
  with k r show ?thesis by auto
qed

section \<open>Members\<close>

lemma member_of_InrE:
  assumes "member_of g k w = (Inr m, w1)"
  obtains "w1 = w" "m \<in> set (members (db w))" "m_org m = g" "m_user m = k"
  using assms by (auto simp: member_of_def get_row_def run_simps split: option.splits dest!: first_by_filter_Some)

lemma apply_nothing [simp]: "apply_member_update None None = (\<lambda>m. m)"
  by (rule ext) (simp add: apply_member_update_def)

lemma owner_top: "\<not> OWNER < (r :: org_role)"
  by (cases r) (simp_all add: less_org_role_def)

lemma patch_member_InrE:
  assumes "patch_member caller target role billing w = (Inr m', w')"
  shows "m_role target < m_role caller \<and> m_role m' < m_role caller \<and> m' = apply_member_update role billing target
    \<and> w' = w\<lparr>db := db w\<lparr>members := update_where (\<lambda>m. m_id m = m_id target)
               (apply_member_update role billing) (members (db w))\<rparr>\<rparr>"
proof -
  from assms have lt: "m_role target < m_role caller"
    by (auto simp: patch_member_def mseq_run simp flip: check_can_manage_iff split: sum.splits)
  moreover from assms have "role = Some r \<Longrightarrow> r < m_role caller" for r
    by (auto simp: patch_member_def mseq_run valid_role_def simp flip: check_can_assign_iff split: sum.splits if_splits)
  then have "m_role (apply_member_update role billing target) < m_role caller"
    using lt by (cases role) (simp_all add: apply_member_update_def)
  moreover have "m' = apply_member_update role billing target
    \<and> w' = w\<lparr>db := db w\<lparr>members := update_where (\<lambda>m. m_id m = m_id target)
               (apply_member_update role billing) (members (db w))\<rparr>\<rparr>"
  proof (cases "role = None \<and> billing = None")
    case True
    with assms show ?thesis
      by (auto simp: patch_member_def mseq_run valid_role_def update_where_idle split: sum.splits if_splits)
  next
    case False
    with assms have "mseq (save_row members_T (m_id target) (apply_member_update role billing))
        (mret (apply_member_update role billing target)) w = (Inr m', w')"
      by (cases role) (auto simp: patch_member_def mseq_run valid_role_def split: sum.splits if_splits)
    then show ?thesis by (auto simp: mseq_run save_row_def update_rows_def Let_def split: if_splits)
  qed
  ultimately show ?thesis by simp
qed

text \<open>
  C23. A change of a member succeeds only from above: the caller is owner or administrator of the
  same organisation, outranks the member before and after, and so can neither touch an owner nor
  make one.  It writes the named fields of that row and nothing else.
\<close>

theorem member_patch_from_above:
  assumes "member_patch_view u g k role billing w = (Inr m', w')"
  shows "\<exists>caller\<in>set (members (db w)). \<exists>target\<in>set (members (db w)).
      m_org caller = g \<and> m_user caller = u_id u \<and> m_org target = g \<and> m_user target = k
    \<and> m_role target < m_role caller \<and> m_role m' < m_role caller \<and> m_role target \<noteq> OWNER \<and> m_role m' \<noteq> OWNER
    \<and> m' = apply_member_update role billing target
    \<and> w' = w\<lparr>db := db w\<lparr>members := update_where (\<lambda>m. m_id m = m_id target)
               (apply_member_update role billing) (members (db w))\<rparr>\<rparr>"
proof -
  from assms obtain caller target where c: "caller \<in> set (members (db w))" "m_org caller = g" "m_user caller = u_id u"
    and t: "target \<in> set (members (db w))" "m_org target = g" "m_user target = k"
    and run: "patch_member caller target role billing w = (Inr m', w')"
    unfolding member_patch_view_def by (auto elim!: mbind_InrE guard_InrE member_of_InrE)
  from patch_member_InrE [OF run] have lt: "m_role target < m_role caller" "m_role m' < m_role caller"
    and eqs: "m' = apply_member_update role billing target"
    "w' = w\<lparr>db := db w\<lparr>members := update_where (\<lambda>m. m_id m = m_id target)
               (apply_member_update role billing) (members (db w))\<rparr>\<rparr>" by blast+
  from lt have "m_role target \<noteq> OWNER" "m_role m' \<noteq> OWNER" by (auto simp: owner_top)
  with c t lt eqs show ?thesis by blast
qed


section \<open>Transfer of ownership\<close>

lemma swap_owner_InrE:
  assumes "swap_owner target caller w = (Inr (), w')"
  obtains "db w' = (db w)\<lparr>members :=
      update_where (\<lambda>m. m_id m = m_id caller) (\<lambda>m. m\<lparr>m_role := ADMIN, m_is_billing := False\<rparr>)
     (update_where (\<lambda>m. m_id m = m_id target) (\<lambda>m. m\<lparr>m_role := OWNER, m_is_billing := True\<rparr>) (members (db w)))\<rparr>"
proof -
  from assms obtain w0 w1 where "db w0 = db w" "db w' = db w1"
    and "mseq (save_row members_T (m_id target) (\<lambda>m. m\<lparr>m_role := OWNER, m_is_billing := True\<rparr>))
     (save_row members_T (m_id caller) (\<lambda>m. m\<lparr>m_role := ADMIN, m_is_billing := False\<rparr>)) w0 = (Inr (), w1)"
    unfolding swap_owner_def by (elim atomic_InrE) simp
  then show ?thesis
    by (intro that) (auto simp: mseq_run save_row_def update_rows_def Let_def split: if_splits)
qed

text \<open>
  C24. Ownership is handed over in one step: the new owner was an administrator of the organisation
  and becomes owner with the billing flag, the old one becomes administrator without it, and every
  other row of the database stays.  A transfer that is refused, for instance because the target
  already owns another organisation, changes nothing.
\<close>

theorem ownership_transfer:
  assumes c: "consistent w" and run: "owner_transfer_view u g k w = (r, w')"
  shows "(\<exists>caller\<in>set (members (db w)). \<exists>target\<in>set (members (db w)).
      m_org caller = g \<and> m_user caller = u_id u \<and> m_role caller = OWNER
    \<and> m_org target = g \<and> m_user target = k \<and> m_role target = ADMIN
    \<and> r = Inr (target\<lparr>m_role := OWNER, m_is_billing := True\<rparr>)
    \<and> db w' = (db w)\<lparr>members := map (\<lambda>m. if m = caller then m\<lparr>m_role := ADMIN, m_is_billing := False\<rparr>
        else if m = target then m\<lparr>m_role := OWNER, m_is_billing := True\<rparr> else m) (members (db w))\<rparr>)
    \<or> (\<exists>e. r = Inl e \<and> db w' = db w)"
proof (cases r)
  case (Inl e)
  obtain a w1 where a: "get_org_and_member (u_id u) g (Some owner_only) w = (a, w)"
    using guard_state by (metis prod.collapse)
  have "db w' = db w"
    using run Inl a unfolding owner_transfer_view_def member_of_def get_row_def
    by (cases a) (auto simp: mbind_run [of "get_org_and_member k1 k2 k3" for k1 k2 k3] mbind_run mseq_run
        swap_owner_def dest: atomic_raise_db split: option.splits sum.splits prod.splits if_splits)
  with Inl show ?thesis by simp
next
  case (Inr m')
  with run obtain caller target where caller: "caller \<in> set (members (db w))" "m_org caller = g"
      "m_user caller = u_id u" "m_role caller = OWNER"
    and target: "target \<in> set (members (db w))" "m_org target = g" "m_user target = k" "m_role target = ADMIN"
    and m': "m' = target\<lparr>m_role := OWNER, m_is_billing := True\<rparr>" and s: "swap_owner target caller w = (Inr (), w')"
    unfolding owner_transfer_view_def
    by (auto elim!: mbind_InrE guard_InrE member_of_InrE mseq_InrE simp: owner_only_def split: if_splits)
  have d: "distinct (map m_id (members (db w)))"
    using c by (simp add: consistent_def db_ok_def tables_ok_def members_ok_def)
  have id: "m_id m = m_id x \<longleftrightarrow> m = x" if "m \<in> set (members (db w))" "x \<in> set (members (db w))" for m x
    using distinct_map_eqD [OF d that] by blast
  from caller target have ne: "caller \<noteq> target" by auto
  have "update_where (\<lambda>m. m_id m = m_id caller) (\<lambda>m. m\<lparr>m_role := ADMIN, m_is_billing := False\<rparr>)
     (update_where (\<lambda>m. m_id m = m_id target) (\<lambda>m. m\<lparr>m_role := OWNER, m_is_billing := True\<rparr>) (members (db w)))
    = map (\<lambda>m. if m = caller then m\<lparr>m_role := ADMIN, m_is_billing := False\<rparr>
        else if m = target then m\<lparr>m_role := OWNER, m_is_billing := True\<rparr> else m) (members (db w))"
    using id [OF _ caller(1)] id [OF _ target(1)] ne id [OF target(1) caller(1)]
    by (auto simp: update_where_def)
  with s Inr caller target m' show ?thesis by (elim swap_owner_InrE) auto
qed


section \<open>Removing members\<close>

lemma member_user_exists:
  assumes "consistent w" and "m \<in> set (members (db w))"
  shows "m_user m \<in> u_id ` set (users (db w))"
proof -
  have "set (member_refs m) \<subseteq> set (all_refs (db w))"
    using members_tab.refs_get assms(2) by simp
  then have "(KUser, m_user m) \<in> set (all_refs (db w))" by (auto simp: member_refs_def)
  then have "m_user m \<in> set (pk (db w) KUser)"
    using assms(1) unfolding consistent_def db_ok_def fk_ok_def refs_ok_iff by blast
  then show ?thesis by simp
qed

text \<open>
  Removing a member deletes the user's account, and with it everything the account owns: when the member
  owns another organisation, that organisation is left without an owner.
\<close>

theorem removal_can_orphan_org:
  assumes "consistent w" and "member_delete_view u g k w = (Inr 204, w')"
    and "o1 \<in> set (orgs (db w))" and "o_id o1 = g2"
    and "m0 \<in> set (members (db w))" and "m_org m0 = g2" and "m_role m0 = OWNER" and "m_user m0 = k"
    and "\<And>m. m \<in> set (members (db w)) \<Longrightarrow> m_org m = g2 \<Longrightarrow> m_role m = OWNER \<Longrightarrow> m_user m = k"
  shows "g2 \<in> o_id ` set (orgs (db w'))
    \<and> \<not> (\<exists>m\<in>set (members (db w')). m_org m = g2 \<and> m_role m = OWNER)
    \<and> k \<notin> u_id ` set (users (db w'))"
proof -
  from assms(2) have d: "db w' = cascade_users (\<lambda>v. u_id v = k) (db w)"
    unfolding member_delete_view_def
    by (auto elim!: mbind_InrE guard_InrE member_of_InrE mseq_InrE simp: delete_users_def Let_def split: if_splits)
  have "k \<in> u_id ` set (users (db w))"
    using member_user_exists [OF assms(1) assms(5)] assms by simp
  then have k: "k \<in> set (map u_id (filter (\<lambda>v. u_id v = k) (users (db w))))" by auto
  have "map o_id (orgs (db w')) = map o_id (orgs (db w))"
    by (simp add: d cascade_users_def Let_def map_update_where)
  then have "g2 \<in> o_id ` set (orgs (db w'))" using assms(3,4) by (metis image_eqI set_map)
  moreover have "members (db w') = keep (\<lambda>m. m_user m \<in> set (map u_id (filter (\<lambda>v. u_id v = k) (users (db w)))))
      (members (db w))" by (simp add: d cascade_users_def Let_def)
  then have "\<not> (\<exists>m\<in>set (members (db w')). m_org m = g2 \<and> m_role m = OWNER)"
    using k assms(9) by (simp del: set_map set_filter) blast
  ultimately show ?thesis by (auto simp: d cascade_users_def Let_def)
qed

section \<open>Invitations and seats\<close>

lemma validate_seat_limit_InrE:
  assumes "validate_seat_limit g w = (Inr (), w')"
  obtains "w' = w" and "\<And>s. fst (lock_active_team_sub g w) = Inr (Some s) \<Longrightarrow>
    int (length (filter (\<lambda>m. m_org m = g) (members (db w)))
       + length (filter (\<lambda>i. i_org i = g \<and> i_status i = PENDING) (invitations (db w)))) < s_seat_limit s"
  using assms by (auto simp: validate_seat_limit_def lock_active_team_sub_def run_simps
      split: option.splits if_splits)

lemma create_invitation_InrE:
  assumes "create_invitation u g email role token w = (Inr i, w')"
  obtains "db w' = (db w)\<lparr>invitations := invitations (db w) @ [i]\<rparr>"
    and "i_org i = o_id g" and "i_email i = email" and "i_status i = PENDING" and "i_role i = role"
    and "i_invited_by i = Some (u_id u)" and "i_expires_at i = clock w + 7 * 24 * 60 * 60 * 1000000"
    and "\<And>s. fst (lock_active_team_sub (o_id g) w) = Inr (Some s) \<Longrightarrow>
      int (length (filter (\<lambda>m. m_org m = o_id g) (members (db w)))
         + length (filter (\<lambda>i. i_org i = o_id g \<and> i_status i = PENDING) (invitations (db w)))) < s_seat_limit s"
proof -
  from assms obtain w0 w1 w2 where w0: "db w0 = db w" "clock w0 = clock w" and d: "db w' = db w1"
    and seats: "validate_seat_limit (o_id g) w0 = (Inr (), w2)"
    and rest: "mbind fresh_uuid (\<lambda>k. mbind now (\<lambda>t.
      let i = \<lparr>i_id = k, i_org = o_id g, i_email = email, i_role = role, i_token = token,
               i_status = PENDING, i_invited_by = Some (u_id u), i_created_at = t,
               i_expires_at = t + invitation_expiry_days * 86400 * 1000000\<rparr> in
      mseq (create_row invitations_T i)
      (mseq (on_commit (SendInvitationEmail email token (o_name g) (u_full_name u))) (mret i)))) w2 = (Inr i, w1)"
    unfolding create_invitation_def by (auto elim!: atomic_InrE mseq_InrE [of "validate_seat_limit x" for x])
  have w2: "w2 = w0" using seats by (rule validate_seat_limit_InrE)
  have lock: "fst (lock_active_team_sub k w0) = fst (lock_active_team_sub k w)" for k
    by (simp add: lock_active_team_sub_def w0)
  have cap: "fst (lock_active_team_sub (o_id g) w) = Inr (Some s) \<Longrightarrow>
      int (length (filter (\<lambda>m. m_org m = o_id g) (members (db w)))
         + length (filter (\<lambda>i. i_org i = o_id g \<and> i_status i = PENDING) (invitations (db w)))) < s_seat_limit s" for s
    using seats by (rule validate_seat_limit_InrE) (simp add: w0 lock)
  from rest show ?thesis
    by (intro that cap) (auto simp: run_simps create_row_def Let_def w2 w0 d invitation_expiry_days_def split: if_splits)
qed

text \<open>
  C25. An invitation is written only by an administrator or the owner, for the role administrator or
  member, to an address that no user and no pending invitation of the organisation has; it expires
  after seven days, and when the organisation has an active team subscription its members and
  pending invitations together, the new one included, do not outnumber the seats.
\<close>

theorem invitation_within_seats:
  assumes "invitation_create_view u g email role w = (Inr i, w')"
  shows "db w' = (db w)\<lparr>invitations := invitations (db w) @ [i]\<rparr>
    \<and> i_org i = g \<and> i_email i = email \<and> i_status i = PENDING \<and> i_role i \<in> {ADMIN, MEMBER}
    \<and> i_invited_by i = Some (u_id u) \<and> i_expires_at i = clock w + 7 * 24 * 60 * 60 * 1000000
    \<and> \<not> list_ex (same_email email) (users (db w))
    \<and> \<not> list_ex (\<lambda>j. i_org j = g \<and> i_email j = email \<and> i_status j = PENDING) (invitations (db w))
    \<and> (\<forall>s. fst (lock_active_team_sub g w) = Inr (Some s) \<longrightarrow>
        int (length (filter (\<lambda>m. m_org m = g) (members (db w')))
           + length (filter (\<lambda>j. i_org j = g \<and> i_status j = PENDING) (invitations (db w')))) \<le> s_seat_limit s)"
proof -
  let ?role = "case role of None \<Rightarrow> MEMBER | Some r \<Rightarrow> r"
  from assms obtain o1 token where o1: "o_id o1 = g" and role: "case role of None \<Rightarrow> True | Some x \<Rightarrow> x \<in> set assignable_roles"
    and new: "\<not> list_ex (same_email email) (users (db w))"
      "\<not> list_ex (\<lambda>j. i_org j = g \<and> i_email j = email \<and> i_status j = PENDING) (invitations (db w))"
    and run: "create_invitation u o1 email ?role token (w\<lparr>drawn := drawn w + 1\<rparr>) = (Inr i, w')"
    unfolding invitation_create_view_def
    by (auto elim!: mbind_InrE guard_InrE mseq_InrE simp: valid_role_def email_is_registered_def fresh_text_def
        split: if_splits)
  have lock: "fst (lock_active_team_sub k (w\<lparr>drawn := n\<rparr>)) = fst (lock_active_team_sub k w)" for k n
    by (simp add: lock_active_team_sub_def)
  from role have "?role \<in> {ADMIN, MEMBER}" by (auto simp: assignable_roles_def split: option.splits)
  with run new o1 show ?thesis
    by (elim create_invitation_InrE) (simp add: lock add1_zle_eq [symmetric] add_ac)
qed


section \<open>Accepting and declining\<close>

lemma pending_InrE:
  assumes "pending_invitation token w = (Inr i, w1)"
  obtains "w1 = w" "i \<in> set (invitations (db w))" "i_token i = token" "i_status i = PENDING"
  using assms by (auto simp: pending_invitation_def get_row_def run_simps split: option.splits
      dest!: first_by_filter_Some)

lemma pending_found:
  assumes "consistent w" and "i \<in> set (invitations (db w))" and "i_status i = PENDING"
  shows "pending_invitation (i_token i) w = (Inr i, w)"
proof -
  have d: "distinct (map i_token (invitations (db w)))"
    using assms(1) by (simp add: consistent_def db_ok_def tables_ok_def invitations_ok_def)
  have "first_by i_id (filter (\<lambda>j. i_token j = i_token i \<and> i_status j = PENDING) (invitations (db w))) = Some i"
    by (rule first_by_unique) (use assms(2,3) in \<open>auto intro: distinct_map_eqD [OF d]\<close>)
  then show ?thesis by (simp add: pending_invitation_def get_row_def run_simps)
qed

lemma set_status_run:
  assumes c: "consistent w" and "i \<in> set (invitations (db w))" and "st \<noteq> PENDING"
  shows "set_status i st w = (Inr (), w\<lparr>db := (db w)\<lparr>invitations :=
     update_where (\<lambda>j. i_id j = i_id i) (\<lambda>j. j\<lparr>i_status := st\<rparr>) (invitations (db w))\<rparr>\<rparr>)"
proof -
  let ?xs = "update_where (\<lambda>j. i_id j = i_id i) (\<lambda>j. j\<lparr>i_status := st\<rparr>) (invitations (db w))"
  have fk: "list_all (\<lambda>r. refs_ok (db w) (invitation_refs r)) (invitations (db w))"
    and ok: "invitations_ok (invitations (db w))"
    using c by (simp_all add: consistent_def db_ok_def fk_ok_rows tables_ok_def)
  have "filter (\<lambda>j. i_status j = PENDING) ?xs
      = filter (\<lambda>j. i_id j \<noteq> i_id i) (filter (\<lambda>j. i_status j = PENDING) (invitations (db w)))"
    using assms(3) by (subst filter_update_where_neg) (auto intro: filter_cong)
  then have "invitations_ok ?xs"
    using ok by (simp add: invitations_ok_def map_update_where distinct_filter_map del: filter_filter)
  then show ?thesis
    using fk by (auto simp: set_status_def save_row_def update_rows_def Let_def list_all_iff invitation_refs_def)
qed

text \<open>
  C26. Accepting a pending invitation, on every branch: past its expiry it is marked expired and
  refused; otherwise either the request is refused and the database stays, or in one transaction the invited user is
  created, unverified and without password, becomes a member with the invited role and no billing
  flag, and the invitation is marked accepted.  With an active team subscription the members never
  outnumber its seats afterwards.
\<close>

theorem invitation_accept_outcomes:
  assumes c: "consistent w" and i: "i \<in> set (invitations (db w))" "i_status i = PENDING"
    and run: "invitation_accept_view E (i_token i) name w = (r, w')"
  shows "(i_expires_at i < clock w \<and> r = Inl InvitationExpired
      \<and> db w' = (db w)\<lparr>invitations := update_where (\<lambda>j. i_id j = i_id i) (\<lambda>j. j\<lparr>i_status := EXPIRED\<rparr>)
           (invitations (db w))\<rparr>)
    \<or> (clock w \<le> i_expires_at i \<and> (\<exists>e. r = Inl e) \<and> db w' = db w)
    \<or> (clock w \<le> i_expires_at i \<and> (\<exists>g u m t. r = Inr g \<and> g \<in> set (orgs (db w)) \<and> o_id g = i_org i
      \<and> db w' = (db w)\<lparr>users := users (db w) @ [u], members := members (db w) @ [m],
           invitations := update_where (\<lambda>j. i_id j = i_id i) (\<lambda>j. j\<lparr>i_status := ACCEPTED\<rparr>)
             (invitations (db w)),
           verification_tokens := verification_tokens (db w) @ [t]\<rparr>
      \<and> u_email u = normalize_email E (i_email i) \<and> u_full_name u = name
      \<and> \<not> u_is_verified u \<and> u_password u = None
      \<and> m_org m = i_org i \<and> m_user m = u_id u \<and> m_role m = i_role i \<and> \<not> m_is_billing m
      \<and> (\<forall>s. fst (lock_active_team_sub (i_org i) w) = Inr (Some s) \<longrightarrow>
          int (length (filter (\<lambda>m. m_org m = i_org i) (members (db w')))) \<le> s_seat_limit s)))"
proof (cases "i_expires_at i < clock w")
  case True
  with run set_status_run [OF c i(1), of EXPIRED] show ?thesis
    by (auto simp: invitation_accept_view_def pending_found [OF c i] mbind_run mseq_run)
next
  case False
  show ?thesis
  proof (cases "list_ex (same_email (i_email i)) (users (db w))")
    case True
    with False run show ?thesis
      by (simp add: invitation_accept_view_def pending_found [OF c i] mbind_run email_is_registered_def) auto
  next
    case reg: False
    obtain a w1 where a: "accept_invitation E i name w = (a, w1)" by force
    show ?thesis
    proof (cases a)
      case (Inl e)
      with a have "db w1 = db w"
        by (auto simp: accept_invitation_def mbind_run get_row_def run_simps dest: atomic_raise_db split: option.splits)
      with False reg run a Inl show ?thesis
        by (simp add: invitation_accept_view_def pending_found [OF c i] mbind_run email_is_registered_def mtry_run) auto
    next
      case (Inr ug)
      obtain u g where ug: "ug = (u, g)" by (cases ug)
      from False reg run a Inr ug have r: "r = Inr g" "w' = w1"
        by (simp_all add: invitation_accept_view_def pending_found [OF c i] mbind_run email_is_registered_def mtry_run)
      have live: "clock w \<le> i_expires_at i" using False by simp
      show ?thesis
        by (intro disjI2) (rule conjI [OF live], use accept_effect [OF a [unfolded Inr ug]] r in \<open>elim exE conjE\<close>,
          intro exI conjI; simp)
    qed
  qed
qed

section \<open>Witnesses\<close>

theorem org_changes_need_role_witness:
  "\<exists>e. run_org_request (sample_user\<lparr>u_id := 2\<rparr>) 10 DeleteOrg (start_world sample_db)
     = (Inl e, start_world sample_db)"
  by (rule org_changes_need_role) (simp add: sample_simps owner_only_def)

lemma sample_promotion:
  "fst (member_patch_view sample_user 10 2 (Some ADMIN) None (start_world sample_db))
   = Inr \<lparr>m_id = 12, m_org = 10, m_user = 2, m_role = ADMIN, m_is_billing = False, m_joined_at = 0\<rparr>"
  by code_simp

theorem member_patch_from_above_witness:
  "\<exists>caller\<in>set (members sample_db). \<exists>target\<in>set (members sample_db).
     m_user caller = 1 \<and> m_user target = 2 \<and> m_role target < m_role caller"
proof -
  let ?r = "member_patch_view sample_user 10 2 (Some ADMIN) None (start_world sample_db)"
  have "?r = (Inr \<lparr>m_id = 12, m_org = 10, m_user = 2, m_role = ADMIN, m_is_billing = False, m_joined_at = 0\<rparr>, snd ?r)"
    using sample_promotion by (simp add: prod_eq_iff)
  from member_patch_from_above [OF this] show ?thesis
    by (auto simp: start_world_def sample_user_def)
qed

definition sample_two_orgs :: world where
  "sample_two_orgs = start_world (sample_db\<lparr>
     orgs := orgs sample_db @ [\<lparr>o_id = 15, o_name = ''Beta'', o_slug = ''beta'', o_logo_url = None,
       o_created_by = Some 1, o_created_at = 0\<rparr>],
     members := [\<lparr>m_id = 11, m_org = 10, m_user = 1, m_role = OWNER, m_is_billing = True, m_joined_at = 0\<rparr>,
       \<lparr>m_id = 12, m_org = 10, m_user = 2, m_role = ADMIN, m_is_billing = False, m_joined_at = 0\<rparr>,
       \<lparr>m_id = 13, m_org = 15, m_user = 2, m_role = OWNER, m_is_billing = True, m_joined_at = 0\<rparr>]\<rparr>)"

lemma sample_two_orgs_consistent: "consistent sample_two_orgs"
  by (simp add: consistent_def db_ok_def tables_ok_def table_ok_defs fk_ok_rows sample_two_orgs_def sample_simps
      refs_defs xor_owner_def lower_def lower_char_def)

theorem removal_can_orphan_org_witness:
  "15 \<in> o_id ` set (orgs (db (snd (member_delete_view sample_user 10 2 sample_two_orgs))))
   \<and> \<not> (\<exists>m\<in>set (members (db (snd (member_delete_view sample_user 10 2 sample_two_orgs)))).
         m_org m = 15 \<and> m_role m = OWNER)"
proof -
  let ?r = "member_delete_view sample_user 10 2 sample_two_orgs"
  have "fst ?r = Inr 204" by code_simp
  then have "?r = (Inr 204, snd ?r)" by (simp add: prod_eq_iff)
  note run = this
  have g: "orgs (db sample_two_orgs) ! 1 \<in> set (orgs (db sample_two_orgs))" "o_id (orgs (db sample_two_orgs) ! 1) = 15"
    and m: "members (db sample_two_orgs) ! 2 \<in> set (members (db sample_two_orgs))"
      "m_org (members (db sample_two_orgs) ! 2) = 15" "m_role (members (db sample_two_orgs) ! 2) = OWNER"
      "m_user (members (db sample_two_orgs) ! 2) = 2"
    and own: "\<And>m. m \<in> set (members (db sample_two_orgs)) \<Longrightarrow> m_org m = 15 \<Longrightarrow> m_role m = OWNER \<Longrightarrow> m_user m = 2"
    by (auto simp: sample_two_orgs_def sample_simps)
  from removal_can_orphan_org [OF sample_two_orgs_consistent run g m own] show ?thesis by blast
qed

text \<open>The administrator of the first organisation owns the second, so he cannot take over the first.\<close>

definition sample_admin :: world where
  "sample_admin = sample_two_orgs\<lparr>db := (db sample_two_orgs)\<lparr>members := butlast (members (db sample_two_orgs))\<rparr>\<rparr>"

lemma sample_admin_consistent: "consistent sample_admin"
  by (simp add: consistent_def db_ok_def tables_ok_def table_ok_defs fk_ok_rows sample_admin_def
      sample_two_orgs_def sample_simps refs_defs xor_owner_def lower_def lower_char_def)

theorem ownership_transfer_witness:
  "(fst (owner_transfer_view sample_user 10 2 sample_two_orgs) = Inl IntegrityError
    \<and> db (snd (owner_transfer_view sample_user 10 2 sample_two_orgs)) = db sample_two_orgs)
   \<and> map m_role (members (db (snd (owner_transfer_view sample_user 10 2 sample_admin)))) = [ADMIN, OWNER]"
proof -
  let ?a = "owner_transfer_view sample_user 10 2 sample_two_orgs"
  let ?b = "owner_transfer_view sample_user 10 2 sample_admin"
  have a: "fst ?a = Inl IntegrityError" and b: "isl (fst ?b) = False" by code_simp+
  have "?a = (fst ?a, snd ?a)" "?b = (fst ?b, snd ?b)" by simp_all
  from ownership_transfer [OF sample_two_orgs_consistent this(1)]
    ownership_transfer [OF sample_admin_consistent this(2)] a b
  show ?thesis by (auto simp: sample_admin_def sample_two_orgs_def sample_simps)
qed

lemma sample_invitation:
  "\<exists>i. fst (invitation_create_view sample_user 10 ''eve@example.com'' None (start_world sample_db)) = Inr i"
  by (simp add: invitation_create_view_def get_org_and_member_def get_row_def create_invitation_def
      validate_seat_limit_def lock_active_team_sub_def valid_role_def email_is_registered_def run_simps atomic_def
      create_row_def invitations_ok_def invitation_refs_def Let_def sample_simps admin_or_above_def
      customer_of_org_def active_status_def same_email_def lower_def lower_char_def)

theorem invitation_within_seats_witness:
  "map i_email (invitations (db (snd (invitation_create_view sample_user 10 ''eve@example.com'' None
     (start_world sample_db))))) = [''eve@example.com'']"
proof -
  let ?r = "invitation_create_view sample_user 10 ''eve@example.com'' None (start_world sample_db)"
  obtain i where "fst ?r = Inr i" using sample_invitation by blast
  then have "?r = (Inr i, snd ?r)" by (simp add: prod_eq_iff)
  from invitation_within_seats [OF this] show ?thesis by (simp add: sample_db_def empty_db_def start_world_def)
qed

lemma sample_invited_consistent: "consistent sample_invited"
  by (simp add: consistent_def db_ok_def tables_ok_def table_ok_defs fk_ok_rows sample_invited_def sample_invite_def
      sample_simps refs_defs xor_owner_def lower_def lower_char_def)

theorem invitation_accept_outcomes_witness:
  "(\<exists>u m. users (db (snd (invitation_accept_view start_env ''tk'' ''Dan'' sample_invited))) = users sample_db @ [u]
      \<and> members (db (snd (invitation_accept_view start_env ''tk'' ''Dan'' sample_invited))) = members sample_db @ [m]
      \<and> m_user m = u_id u \<and> m_role m = ADMIN)
   \<and> fst (invitation_accept_view start_env ''tk'' ''Dan'' (sample_invited\<lparr>clock := 2000\<rparr>)) = Inl InvitationExpired"
proof -
  let ?a = "invitation_accept_view start_env ''tk'' ''Dan'' sample_invited"
  let ?b = "invitation_accept_view start_env ''tk'' ''Dan'' (sample_invited\<lparr>clock := 2000\<rparr>)"
  have i: "sample_invite \<in> set (invitations (db sample_invited))" "i_status sample_invite = PENDING"
    "sample_invite \<in> set (invitations (db (sample_invited\<lparr>clock := 2000\<rparr>)))"
    by (simp_all add: sample_invited_def start_world_def sample_invite_def)
  have c: "consistent (sample_invited\<lparr>clock := 2000\<rparr>)" using sample_invited_consistent by (simp add: consistent_def)
  have t: "i_token sample_invite = ''tk''" "i_expires_at sample_invite = 1000"
    "\<not> list_ex (same_email (i_email sample_invite)) (users (db sample_invited))"
    "clock sample_invited = 0"
    by (simp_all add: sample_invite_def sample_invited_def sample_simps same_email_def lower_def lower_char_def)
  note p = pending_found [OF sample_invited_consistent i(1,2), unfolded t]
  have a: "fst ?a = Inr (hd (orgs sample_db))"
    using sample_accept by (cases "accept_invitation start_env sample_invite ''Dan'' sample_invited")
      (simp add: invitation_accept_view_def mbind_run mtry_run p t email_is_registered_def)
  have b: "fst ?b = Inl InvitationExpired"
    using set_status_run [OF c i(3), of EXPIRED]
    by (simp add: invitation_accept_view_def mbind_run mseq_run pending_found [OF c i(3,2), unfolded t] t)
  have "?a = (fst ?a, snd ?a)" by simp
  from invitation_accept_outcomes [OF sample_invited_consistent i(1,2), unfolded t, OF this] a
  have "\<exists>u m. users (db (snd ?a)) = users (db sample_invited) @ [u]
    \<and> members (db (snd ?a)) = members (db sample_invited) @ [m] \<and> m_user m = u_id u \<and> m_role m = i_role sample_invite"
    by (elim disjE exE conjE) auto
  with b show ?thesis by (simp add: sample_invited_def start_world_def sample_invite_def)
qed

end
