(* ===== verification/Pricing.thy ===== *)
theory Pricing
  imports OrgServices Complex_Main "HOL-Library.List_Lexorder" "HOL-Library.Char_ord"
begin

text \<open>
  Currencies, countries, tax and the choice of the price a customer sees and pays:
  \<open>saasmint_core/services/currency.py\<close>, \<open>apps/billing/vat.py\<close>, \<open>CountryPrice.recompute_base\<close>
  (\<open>apps/billing/models.py\<close>), the resolvers of \<open>apps/billing/views.py\<close> and the display tuples of
  \<open>apps/billing/serializers.py\<close>.

  Amounts are integers in minor units and display amounts exact rationals.  A VAT rate, which the source
  writes as a decimal with at most three places, is its number of thousandths; the division of two
  decimals rounds to 28 digits in the source, which for a column of 32 bits cannot cross a half unit.
\<close>

section \<open>Currencies\<close>

definition supported_currencies :: "string list" where
  "supported_currencies = [''usd'', ''eur'', ''gbp'', ''jpy'', ''brl'', ''krw'', ''sek'', ''nok'', ''dkk'',
     ''pln'', ''try'', ''idr'', ''rub'', ''cny'', ''twd'', ''sar'', ''aed'', ''chf'', ''cad'', ''aud'']"

definition zero_decimal_currencies :: "string list" where
  "zero_decimal_currencies = [''jpy'', ''krw'', ''idr'', ''twd'']"

definition format_amount :: "int \<Rightarrow> string \<Rightarrow> rat" where
  "format_amount amount currency =
     (if lower currency \<in> set zero_decimal_currencies then of_int amount else of_int amount / 100)"

section \<open>VAT\<close>

definition standard_vat_rates :: "(string \<times> int) list" where
  "standard_vat_rates = [(''AT'', 200), (''BE'', 210), (''BG'', 200), (''HR'', 250), (''CY'', 190),
     (''CZ'', 210), (''DK'', 250), (''EE'', 220), (''FI'', 255), (''FR'', 200), (''DE'', 190),
     (''GR'', 240), (''HU'', 270), (''IE'', 230), (''IT'', 220), (''LV'', 210), (''LT'', 210),
     (''LU'', 170), (''MT'', 180), (''NL'', 210), (''PL'', 230), (''PT'', 230), (''RO'', 190),
     (''SK'', 230), (''SI'', 220), (''ES'', 210), (''SE'', 250), (''GB'', 200), (''US'', 0), (''CN'', 0)]"

definition standard_vat_rate :: "string \<Rightarrow> int" where
  "standard_vat_rate country = (case map_of standard_vat_rates (upper country) of None \<Rightarrow> 0 | Some r \<Rightarrow> r)"

text \<open>\<open>(a / b).quantize(Decimal("1"), rounding=ROUND_HALF_UP)\<close> of a non-negative quotient.\<close>

definition half_up :: "int \<Rightarrow> int \<Rightarrow> int" where
  "half_up a b = (2 * a + b) div (2 * b)"

definition derive_base :: "int \<Rightarrow> int \<Rightarrow> int res" where
  "derive_base sticker rate =
     (if sticker < 0 then Inl ValueError
      else if rate < 0 then Inl ValueError
      else if rate = 0 then Inr sticker
      else Inr (half_up (sticker * 1000) (1000 + rate)))"

definition recompute_base :: "country_price \<Rightarrow> country_price res" where
  "recompute_base cp = rbind (derive_base (cp_sticker_minor cp) (standard_vat_rate (cp_country cp)))
     (\<lambda>b. Inr (cp\<lparr>cp_base_minor := b\<rparr>))"

section \<open>The pricing country\<close>

record price_query =
  q_currency :: "string option"
  q_country :: "string option"
  q_context :: "string option"
  q_accept_language :: "string option"
  q_cf_country :: "string option"

definition lang_default_country :: "(string \<times> string) list" where
  "lang_default_country = [(''es'', ''ES''), (''fr'', ''FR''), (''de'', ''DE''), (''it'', ''IT''),
     (''nl'', ''NL''), (''pt'', ''PT''), (''pl'', ''PL''), (''sv'', ''SE''), (''da'', ''DK''), (''zh'', ''CN'')]"

text \<open>\<open>re.split(r"[-_]", s)\<close> and \<open>s.split(",")[0]\<close>\<close>

fun split_on :: "(char \<Rightarrow> bool) \<Rightarrow> string \<Rightarrow> string list" where
  "split_on P [] = [[]]"
| "split_on P (c # cs) = (if P c then [] # split_on P cs
     else (case split_on P cs of x # xs \<Rightarrow> (c # x) # xs | [] \<Rightarrow> [[c]]))"

definition two_letters :: "string \<Rightarrow> bool" where
  "two_letters s \<longleftrightarrow> length s = 2 \<and> list_all is_alpha s"

definition country_from_locale :: "string option \<Rightarrow> string option" where
  "country_from_locale locale =
     (case locale of None \<Rightarrow> None
      | Some l \<Rightarrow>
        if l = [] then None
        else
          let primary = strip_chars is_space (takeWhile (\<lambda>c. c \<noteq> CHR '','') l);
              parts = split_on (\<lambda>c. c = CHR ''-'' \<or> c = CHR ''_'') primary
          in if length parts \<ge> 2 \<and> two_letters (parts ! 1) then Some (upper (parts ! 1))
             else map_of lang_default_country (lower (hd parts)))"

definition given :: "string option \<Rightarrow> string option" where
  "given s = (case s of None \<Rightarrow> None | Some t \<Rightarrow> if t = [] then None else Some t)"

definition edge_country :: "string option \<Rightarrow> string option" where
  "edge_country h = (case given h of None \<Rightarrow> None
     | Some c \<Rightarrow> if two_letters c \<and> upper c \<noteq> ''XX'' then Some (upper c) else None)"

definition resolve_pricing_country :: "price_query \<Rightarrow> user option \<Rightarrow> string option res" where
  "resolve_pricing_country q user =
     (case given (q_country q) of
        Some c \<Rightarrow>
          let candidate = upper (strip_chars is_space c) in
          if two_letters candidate then Inr (Some candidate) else Inl ValidationError
      | None \<Rightarrow>
          let user_locale = (case user of None \<Rightarrow> None | Some u \<Rightarrow> given (Some (u_locale u)));
              locale = (case user_locale of Some l \<Rightarrow> Some l | None \<Rightarrow> q_accept_language q) in
          (case country_from_locale locale of
             Some c \<Rightarrow> Inr (Some c)
           | None \<Rightarrow> Inr (edge_country (q_cf_country q))))"

section \<open>The billing currency\<close>

definition resolve_billing_currency :: "env \<Rightarrow> string option \<Rightarrow> user option \<Rightarrow> (string \<times> string option) res" where
  "resolve_billing_currency E query user =
     (let requested = map_option lower (given query) in
      if (case requested of None \<Rightarrow> False | Some c \<Rightarrow> c \<notin> set supported_currencies) then Inl ValidationError
      else
        let user_pref = (case user of None \<Rightarrow> None
              | Some u \<Rightarrow> if lower (u_currency u) \<in> set supported_currencies then Some (lower (u_currency u)) else None);
            target = (case requested of Some c \<Rightarrow> c
              | None \<Rightarrow> (case user_pref of Some c \<Rightarrow> c | None \<Rightarrow> ''usd''));
            billing = (if target \<in> set (billing_currencies E) then target else ''usd'');
            dual_pref = (case user_pref of None \<Rightarrow> None | Some c \<Rightarrow> if c \<noteq> billing then Some c else None)
        in Inr (billing, dual_pref))"

section \<open>Prices of the catalogue\<close>

datatype catalog_price = OfPlan plan_price | OfProduct product_price

fun price_id :: "catalog_price \<Rightarrow> string" where
  "price_id (OfPlan p) = pp_stripe_price_id p"
| "price_id (OfProduct p) = xp_stripe_price_id p"

fun price_amount :: "catalog_price \<Rightarrow> int" where
  "price_amount (OfPlan p) = pp_amount p"
| "price_amount (OfProduct p) = xp_amount p"

fun owns_localized :: "catalog_price \<Rightarrow> localized_price \<Rightarrow> bool" where
  "owns_localized (OfPlan p) r = (lp_plan_price r = Some (pp_id p))"
| "owns_localized (OfProduct p) r = (lp_product_price r = Some (xp_id p))"

fun owns_country :: "catalog_price \<Rightarrow> country_price \<Rightarrow> bool" where
  "owns_country (OfPlan p) r = (cp_plan_price r = Some (pp_id p))"
| "owns_country (OfProduct p) r = (cp_product_price r = Some (xp_id p))"

text \<open>The rows that already have a Stripe price.\<close>

definition get_country_stripe_price :: "catalog_price \<Rightarrow> string option \<Rightarrow> country_price option io" where
  "get_country_stripe_price price country = (case given country of None \<Rightarrow> mret None
     | Some c \<Rightarrow> first_row country_prices_T
         (\<lambda>r. owns_country price r \<and> cp_country r = c \<and> cp_stripe_price_id r \<noteq> None))"

definition localized_for_currency :: "catalog_price \<Rightarrow> string \<Rightarrow> localized_price option io" where
  "localized_for_currency price currency = first_row localized_prices_T
     (\<lambda>r. owns_localized price r \<and> lp_currency r = currency \<and> lp_stripe_price_id r \<noteq> None)"

definition resolve_stripe_price_id :: "catalog_price \<Rightarrow> string \<Rightarrow> string io" where
  "resolve_stripe_price_id price currency =
     (if currency = ''usd'' then mret (price_id price)
      else mbind (localized_for_currency price currency) (\<lambda>row.
        mret (case row of None \<Rightarrow> price_id price
              | Some r \<Rightarrow> (case given (lp_stripe_price_id r) of None \<Rightarrow> price_id price | Some k \<Rightarrow> k))))"

definition resolve_checkout_price ::
  "env \<Rightarrow> catalog_price \<Rightarrow> price_query \<Rightarrow> user option \<Rightarrow> (string \<times> string) io" where
  "resolve_checkout_price E price q user =
     mbind (mlift (resolve_pricing_country q user)) (\<lambda>country.
     mbind (get_country_stripe_price price country) (\<lambda>country_price.
     case (case country_price of None \<Rightarrow> None
           | Some r \<Rightarrow> map_option (\<lambda>k. (k, cp_currency r)) (given (cp_stripe_price_id r))) of
       Some found \<Rightarrow> mret found
     | None \<Rightarrow>
         mbind (mlift (resolve_billing_currency E (q_currency q) user)) (\<lambda>(billing_currency, _).
         mbind (resolve_stripe_price_id price billing_currency) (\<lambda>k. mret (k, billing_currency)))))"

definition resolve_plan_change_price :: "plan_price \<Rightarrow> string \<Rightarrow> (string \<times> int) io" where
  "resolve_plan_change_price price currency =
     (if currency = ''usd'' then mret (pp_stripe_price_id price, pp_amount price)
      else mbind (localized_for_currency (OfPlan price) currency) (\<lambda>row.
        case row of None \<Rightarrow> mraise ValidationError
        | Some r \<Rightarrow> (case given (lp_stripe_price_id r) of None \<Rightarrow> mraise ValidationError
                     | Some k \<Rightarrow> mret (k, lp_amount_minor r))))"

section \<open>The catalogue\<close>

record display_context =
  k_currency :: string
  k_preferred :: "string option"
  k_country :: "string option"

definition currency_context :: "env \<Rightarrow> price_query \<Rightarrow> user option \<Rightarrow> display_context res" where
  "currency_context E q user = rbind (resolve_billing_currency E (q_currency q) user) (\<lambda>(billing, dual_pref).
     Inr \<lparr>k_currency = billing, k_preferred = dual_pref, k_country = None\<rparr>)"

definition catalog_context :: "env \<Rightarrow> price_query \<Rightarrow> user option \<Rightarrow> display_context res" where
  "catalog_context E q user = rbind (currency_context E q user) (\<lambda>ctx.
     rbind (resolve_pricing_country q user) (\<lambda>country. Inr (ctx\<lparr>k_country := country\<rparr>)))"

text \<open>The rows that the list views prefetch: of the wanted currencies, and the minted ones of the country.\<close>

definition wanted_currency :: "display_context \<Rightarrow> string \<Rightarrow> bool" where
  "wanted_currency ctx c \<longleftrightarrow> c \<noteq> [] \<and> c \<noteq> ''usd'' \<and> (c = k_currency ctx \<or> k_preferred ctx = Some c)"

definition localized_rows :: "display_context \<Rightarrow> catalog_price \<Rightarrow> db \<Rightarrow> localized_price list" where
  "localized_rows ctx price d =
     filter (\<lambda>r. owns_localized price r \<and> wanted_currency ctx (lp_currency r)) (localized_prices d)"

definition country_rows :: "display_context \<Rightarrow> catalog_price \<Rightarrow> db \<Rightarrow> country_price list" where
  "country_rows ctx price d = (case given (k_country ctx) of None \<Rightarrow> []
     | Some country \<Rightarrow> filter (\<lambda>r. owns_country price r \<and> cp_country r = country \<and> cp_stripe_price_id r \<noteq> None)
         (country_prices d))"

definition localized_display :: "int \<Rightarrow> localized_price list \<Rightarrow> string \<Rightarrow> rat \<times> string" where
  "localized_display amount rs currency =
     (if currency = ''usd'' then (format_amount amount ''usd'', ''usd'')
      else (case find (\<lambda>r. lp_currency r = currency) rs of
          Some r \<Rightarrow> (format_amount (lp_amount_minor r) currency, currency)
        | None \<Rightarrow> (format_amount amount ''usd'', ''usd'')))"

definition country_display :: "country_price list \<Rightarrow> string option \<Rightarrow> (rat \<times> string) option" where
  "country_display rs country = (case given country of None \<Rightarrow> None
     | Some c \<Rightarrow> map_option (\<lambda>r. (format_amount (cp_sticker_minor r) (cp_currency r), cp_currency r))
         (find (\<lambda>r. cp_country r = c) rs))"

definition local_display :: "localized_price list \<Rightarrow> string option \<Rightarrow> (rat \<times> string) option" where
  "local_display rs preferred = (case preferred of None \<Rightarrow> None
     | Some c \<Rightarrow> map_option (\<lambda>r. (format_amount (lp_amount_minor r) c, c))
         (find (\<lambda>r. lp_currency r = c) rs))"

record price_view =
  v_id :: uuid
  v_amount :: int
  v_display_amount :: rat
  v_currency :: string
  v_local_display_amount :: "rat option"
  v_local_currency :: "string option"
  v_tax_inclusive :: bool

fun price_pk :: "catalog_price \<Rightarrow> uuid" where
  "price_pk (OfPlan p) = pp_id p"
| "price_pk (OfProduct p) = xp_id p"

definition present_price :: "display_context \<Rightarrow> db \<Rightarrow> catalog_price \<Rightarrow> price_view" where
  "present_price ctx d price =
     (let rs = localized_rows ctx price d;
          sticker = country_display (country_rows ctx price d) (k_country ctx);
          (amount, currency) = (case sticker of Some s \<Rightarrow> s
            | None \<Rightarrow> localized_display (price_amount price) rs (k_currency ctx));
          local = local_display rs (k_preferred ctx)
      in \<lparr>v_id = price_pk price, v_amount = price_amount price, v_display_amount = amount,
          v_currency = currency, v_local_display_amount = map_option fst local,
          v_local_currency = map_option snd local, v_tax_inclusive = (sticker \<noteq> None)\<rparr>)"

text \<open>A plan or product without a price is listed without one.\<close>

definition context_order :: "plan_context \<Rightarrow> nat" where
  "context_order c = (case c of PERSONAL \<Rightarrow> 0 | TEAM \<Rightarrow> 1)"

definition tier_order :: "plan_tier \<Rightarrow> nat" where
  "tier_order t = (case t of FREE \<Rightarrow> 1 | BASIC \<Rightarrow> 2 | PRO \<Rightarrow> 3)"

definition interval_order :: "plan_interval \<Rightarrow> nat" where
  "interval_order i = (case i of MONTH \<Rightarrow> 0 | YEAR \<Rightarrow> 1)"

definition plan_order :: "plan \<Rightarrow> nat" where
  "plan_order p = (context_order (p_context p) * 4 + tier_order (p_tier p)) * 2 + interval_order (p_interval p)"

definition price_of_plan :: "db \<Rightarrow> uuid \<Rightarrow> plan_price option" where
  "price_of_plan d k = find (\<lambda>r. pp_plan r = k) (plan_prices d)"

definition price_of_product :: "db \<Rightarrow> uuid \<Rightarrow> product_price option" where
  "price_of_product d k = find (\<lambda>r. xp_product r = k) (product_prices d)"

definition present_plan :: "display_context \<Rightarrow> db \<Rightarrow> plan \<Rightarrow> plan \<times> price_view option" where
  "present_plan ctx d p = (p, map_option (\<lambda>r. present_price ctx d (OfPlan r)) (price_of_plan d (p_id p)))"

definition plan_list_view :: "env \<Rightarrow> price_query \<Rightarrow> user option \<Rightarrow> (plan \<times> price_view option) list io" where
  "plan_list_view E q user = mbind (mlift (catalog_context E q user)) (\<lambda>ctx.
     mgets (\<lambda>w. map (present_plan ctx (db w)) (sort_key plan_order (filter p_is_active (plans (db w))))))"

definition product_list_view :: "env \<Rightarrow> price_query \<Rightarrow> user option \<Rightarrow> (product \<times> price_view option) list io" where
  "product_list_view E q user = mbind (mlift (catalog_context E q user)) (\<lambda>ctx.
     mgets (\<lambda>w. map (\<lambda>p. (p, map_option (\<lambda>r. present_price ctx (db w) (OfProduct r)) (price_of_product (db w) (pr_id p))))
       (filter pr_is_active (products (db w)))))"

definition billing_currencies_view :: "env \<Rightarrow> (string list \<times> string list) res" where
  "billing_currencies_view E = Inr (sort (billing_currencies E),
     sort (filter (\<lambda>c. c \<notin> set (billing_currencies E)) supported_currencies))"

section \<open>Taking the tax out and putting it back\<close>

text \<open>\<open>half_up a b\<close> is the integer nearest to \<open>a / b\<close>.\<close>

lemma half_up_bounds:
  assumes "0 < b" shows "2 * (half_up a b * b) \<le> 2 * a + b" and "2 * a < 2 * (half_up a b * b) + b"
proof -
  have d: "2 * a + b = 2 * b * half_up a b + (2 * a + b) mod (2 * b)" by (simp add: half_up_def)
  have "0 \<le> (2 * a + b) mod (2 * b)" "(2 * a + b) mod (2 * b) < 2 * b" using assms by simp_all
  with d show "2 * (half_up a b * b) \<le> 2 * a + b" "2 * a < 2 * (half_up a b * b) + b" by (simp_all add: algebra_simps)
qed

lemma half_up_unique:
  assumes "0 < b" "2 * (n * b) \<le> 2 * a + b" "2 * a < 2 * (n * b) + b" shows "half_up a b = n"
proof -
  have "2 * b * half_up a b < 2 * b * (n + 1)" "2 * b * n < 2 * b * (half_up a b + 1)"
    using half_up_bounds [OF assms(1), of a] assms(2,3) by (simp_all add: algebra_simps)
  then show ?thesis using assms(1) by simp
qed

lemma standard_vat_range: "0 \<le> standard_vat_rate country" "standard_vat_rate country \<le> 270"
  by (auto simp: standard_vat_rate_def standard_vat_rates_def split: option.splits if_splits)

text \<open>The price a standard-rated customer pays: the base with the tax on top, rounded.\<close>

definition with_tax :: "int \<Rightarrow> int \<Rightarrow> int" where
  "with_tax base rate = half_up (base * (1000 + rate)) 1000"

text \<open>
  C29. The tax-exclusive base that is sent to Stripe brings the customer back to the sticker: for every
  sticker price and country of the table the base is non-negative and not above the sticker, and the base
  with the country's tax on top, rounded to minor units, differs from the sticker by at most one minor unit.
\<close>

theorem sticker_round_trip:
  assumes "0 \<le> sticker"
  shows "\<exists>b. derive_base sticker (standard_vat_rate country) = Inr b \<and> 0 \<le> b \<and> b \<le> sticker
    \<and> \<bar>with_tax b (standard_vat_rate country) - sticker\<bar> \<le> 1"
proof -
  let ?r = "standard_vat_rate country"
  note r = standard_vat_range [of country]
  show ?thesis
  proof (cases "?r = 0")
    case True
    have "half_up (sticker * 1000) 1000 = sticker" by (rule half_up_unique) simp_all
    with True assms show ?thesis by (simp add: derive_base_def with_tax_def)
  next
    case False
    let ?b = "half_up (sticker * 1000) (1000 + ?r)"
    have b: "2 * (?b * (1000 + ?r)) \<le> 2 * (sticker * 1000) + (1000 + ?r)"
      "2 * (sticker * 1000) < 2 * (?b * (1000 + ?r)) + (1000 + ?r)"
      using half_up_bounds [of "1000 + ?r" "sticker * 1000"] r by simp_all
    let ?p = "with_tax ?b ?r"
    have p: "2 * (?p * 1000) \<le> 2 * (?b * (1000 + ?r)) + 1000" "2 * (?b * (1000 + ?r)) < 2 * (?p * 1000) + 1000"
      using half_up_bounds [of 1000 "?b * (1000 + ?r)"] by (simp_all add: with_tax_def)
    from b p r have "?p - sticker \<le> 1" "sticker - ?p \<le> 1" by linarith+
    moreover have "0 \<le> ?b" using assms r by (simp add: half_up_def pos_imp_zdiv_nonneg_iff)
    moreover have "?b \<le> sticker"
    proof (rule ccontr)
      assume "\<not> ?b \<le> sticker"
      then have "(sticker + 1) * (1000 + ?r) \<le> ?b * (1000 + ?r)" using r by (intro mult_right_mono) simp_all
      moreover have "sticker * 1000 \<le> sticker * (1000 + ?r)" using assms r by (intro mult_left_mono) simp_all
      ultimately show False using b(1) r by (simp add: algebra_simps)
    qed
    ultimately show ?thesis using False assms r by (simp add: derive_base_def)
  qed
qed

theorem sticker_round_trip_witness:
  "\<exists>b. derive_base 1999 (standard_vat_rate ''es'') = Inr b \<and> \<bar>with_tax b (standard_vat_rate ''es'') - 1999\<bar> \<le> 1"
  using sticker_round_trip [of 1999 "''es''"] by auto

section \<open>The price that is charged\<close>

text \<open>
  The price a checkout uses is a Stripe price of the requested catalogue price: that of its row for
  the resolved country, in that row's currency; else that of its row for the billing currency; else its
  own, in dollars.  In the last case the currency reported with it is still the billing currency, so a
  price in dollars can be reported as one in another currency.
\<close>

theorem checkout_price_choice:
  assumes "resolve_checkout_price E p q user w = (Inr (k, c), w')"
  shows "w' = w \<and>
    ((\<exists>r\<in>set (country_prices (db w)). owns_country p r \<and> cp_stripe_price_id r = Some k \<and> cp_currency r = c
        \<and> resolve_pricing_country q user = Inr (Some (cp_country r)))
     \<or> (\<exists>dual. resolve_billing_currency E (q_currency q) user = Inr (c, dual) \<and>
        ((\<exists>r\<in>set (localized_prices (db w)). owns_localized p r \<and> lp_currency r = c \<and> lp_stripe_price_id r = Some k)
         \<or> k = price_id p)))"
  using assms
  by (auto simp: resolve_checkout_price_def get_country_stripe_price_def resolve_stripe_price_id_def
      localized_for_currency_def given_def run_simps
      split: option.splits if_splits prod.splits sum.splits dest!: first_by_filter_Some)

text \<open>A customer in euros, and a price that has no row in euros yet: the price in dollars is reported as euros.\<close>

lemma fallback_reports_other_currency:
  assumes "resolve_pricing_country q user = Inr None"
    and "resolve_billing_currency E (q_currency q) user = Inr (c, dual)"
    and "\<not> list_ex (\<lambda>r. owns_localized p r \<and> lp_currency r = c) (localized_prices (db w))"
  shows "resolve_checkout_price E p q user w = (Inr (price_id p, c), w)"
proof -
  have "filter (\<lambda>r. owns_localized p r \<and> lp_currency r = c \<and> lp_stripe_price_id r \<noteq> None) (localized_prices (db w)) = []"
    using assms(3) by (auto simp: filter_empty_conv list_ex_iff)
  then show ?thesis
    using assms(1,2) by (simp add: resolve_checkout_price_def get_country_stripe_price_def resolve_stripe_price_id_def
        localized_for_currency_def given_def run_simps)
qed

definition sample_price :: plan_price where "sample_price = hd (plan_prices sample_db)"

definition sample_query :: price_query where
  "sample_query = \<lparr>q_currency = Some ''EUR'', q_country = None, q_context = None,
     q_accept_language = Some ''en'', q_cf_country = None\<rparr>"

theorem checkout_price_choice_witness:
  "\<exists>k c. resolve_checkout_price (start_env\<lparr>billing_currencies := [''usd'', ''eur'']\<rparr>) (OfPlan sample_price)
      sample_query (Some sample_user) (start_world sample_db) = (Inr (k, c), start_world sample_db)
    \<and> k = ''price_1'' \<and> c = ''eur''"
proof -
  let ?r = "resolve_checkout_price (start_env\<lparr>billing_currencies := [''usd'', ''eur'']\<rparr>) (OfPlan sample_price)
      sample_query (Some sample_user) (start_world sample_db)"
  have a: "fst ?r = Inr (''price_1'', ''eur'')" by code_simp
  then have r: "?r = (Inr (''price_1'', ''eur''), snd ?r)" by (simp add: prod_eq_iff)
  from checkout_price_choice [OF r] have "snd ?r = start_world sample_db" by (rule conjunct1)
  with r show ?thesis by (metis (no_types))
qed

section \<open>What is shown is what is charged\<close>

lemma unique_country_row:
  assumes "country_prices_ok xs" and "a \<in> set xs" and "b \<in> set xs"
    and "owns_country p a" and "owns_country p b" and "cp_country a = cp_country b"
  shows "a = b"
  using assms by (cases p) (auto simp: country_prices_ok_def dest: distinct_somes_eqD)

lemma find_filter: "find P (filter Q xs) = find (\<lambda>x. Q x \<and> P x) xs"
  by (induction xs) auto

lemma find_minted:
  assumes "country_prices_ok (country_prices (db w))" and "given (k_country ctx) = Some c"
  shows "find (\<lambda>r. cp_country r = c) (country_rows ctx p (db w))
    = first_by cp_id (filter (\<lambda>r. owns_country p r \<and> cp_country r = c \<and> cp_stripe_price_id r \<noteq> None)
        (country_prices (db w)))"
proof (cases "find (\<lambda>r. cp_country r = c) (country_rows ctx p (db w))")
  case None
  then show ?thesis using assms(2)
    by (auto simp: country_rows_def find_None_iff filter_empty_conv)
next
  case (Some r)
  then have r: "r \<in> set (country_prices (db w))" "owns_country p r" "cp_country r = c" "cp_stripe_price_id r \<noteq> None"
    using assms(2) by (auto simp: country_rows_def find_Some_iff dest!: nth_mem)
  have "first_by cp_id (filter (\<lambda>r. owns_country p r \<and> cp_country r = c \<and> cp_stripe_price_id r \<noteq> None)
        (country_prices (db w))) = Some r"
    by (rule first_by_unique) (use r unique_country_row [OF assms(1)] in auto)
  with Some show ?thesis by simp
qed

lemma catalog_contextE:
  assumes "catalog_context E q user = Inr ctx"
  obtains dual where "resolve_pricing_country q user = Inr (k_country ctx)"
    and "resolve_billing_currency E (q_currency q) user = Inr (k_currency ctx, dual)"
    and "k_preferred ctx = dual"
  using assms by (auto simp: catalog_context_def currency_context_def elim!: rbind_InrE)

text \<open>
  C28. The catalogue and the checkout agree.  When the price list shows a tax-inclusive price, it is the
  sticker of a row of that price for the caller's country, and a checkout with the same query charges the
  Stripe price of that very row in that currency; when it does not, the checkout is resolved by currency
  alone, in the currency of the list.  (Stripe price ids are not empty.)
\<close>

theorem sticker_is_charged:
  assumes "catalog_context E q user = Inr ctx" and "db_ok (db w)"
    and "\<forall>r\<in>set (country_prices (db w)). cp_stripe_price_id r \<noteq> Some []"
  shows "if v_tax_inclusive (present_price ctx (db w) p)
    then \<exists>r\<in>set (country_prices (db w)). owns_country p r \<and> k_country ctx = Some (cp_country r)
      \<and> v_display_amount (present_price ctx (db w) p) = format_amount (cp_sticker_minor r) (cp_currency r)
      \<and> v_currency (present_price ctx (db w) p) = cp_currency r
      \<and> (\<exists>k. cp_stripe_price_id r = Some k \<and> resolve_checkout_price E p q user w = (Inr (k, cp_currency r), w))
    else resolve_checkout_price E p q user w
      = mbind (resolve_stripe_price_id p (k_currency ctx)) (\<lambda>k. mret (k, k_currency ctx)) w"
proof -
  obtain dual where country: "resolve_pricing_country q user = Inr (k_country ctx)"
    and cur: "resolve_billing_currency E (q_currency q) user = Inr (k_currency ctx, dual)"
    using assms(1) by (rule catalog_contextE)
  have ok: "country_prices_ok (country_prices (db w))" using assms(2) by (simp add: db_ok_def tables_ok_def)
  let ?found = "case given (k_country ctx) of None \<Rightarrow> None | Some c \<Rightarrow> find (\<lambda>r. cp_country r = c) (country_rows ctx p (db w))"
  have get: "get_country_stripe_price p (k_country ctx) w = (Inr ?found, w)"
    by (simp add: get_country_stripe_price_def find_minted [OF ok] split: option.split)
  have shown: "country_display (country_rows ctx p (db w)) (k_country ctx)
      = map_option (\<lambda>r. (format_amount (cp_sticker_minor r) (cp_currency r), cp_currency r)) ?found"
    by (simp add: country_display_def split: option.split)
  show ?thesis
  proof (cases ?found)
    case None
    with get shown country cur show ?thesis
      by (simp add: present_price_def Let_def resolve_checkout_price_def split: prod.split)
  next
    case (Some r)
    then obtain c where c: "given (k_country ctx) = Some c" and f: "find (\<lambda>r. cp_country r = c) (country_rows ctx p (db w)) = Some r"
      by (cases "given (k_country ctx)") auto
    then have r: "r \<in> set (country_prices (db w))" "owns_country p r" "cp_country r = c" "cp_stripe_price_id r \<noteq> None"
      by (auto simp: country_rows_def find_Some_iff dest!: nth_mem)
    then obtain k where k: "cp_stripe_price_id r = Some k" "k \<noteq> []" using assms(3) by auto
    have "k_country ctx = Some c" using c by (auto simp: given_def split: option.splits if_splits)
    with Some get shown country r k show ?thesis
      by (auto simp: present_price_def Let_def resolve_checkout_price_def given_def split: prod.split)
  qed
qed

definition sample_shop :: world where
  "sample_shop = start_world (sample_db\<lparr>country_prices := [\<lparr>cp_id = 60, cp_plan_price = Some 21,
     cp_product_price = None, cp_country = ''ES'', cp_currency = ''eur'', cp_sticker_minor = 1999,
     cp_base_minor = 1652, cp_is_curated = True, cp_stripe_price_id = Some ''price_es'', cp_updated_at = 0\<rparr>]\<rparr>)"

theorem sticker_is_charged_witness:
  "\<exists>ctx. catalog_context (start_env\<lparr>billing_currencies := [''usd'', ''eur'']\<rparr>) (sample_query\<lparr>q_country := Some ''es''\<rparr>) None = Inr ctx
    \<and> v_tax_inclusive (present_price ctx (db sample_shop) (OfPlan sample_price))
    \<and> resolve_checkout_price (start_env\<lparr>billing_currencies := [''usd'', ''eur'']\<rparr>) (OfPlan sample_price)
        (sample_query\<lparr>q_country := Some ''es''\<rparr>) None sample_shop = (Inr (''price_es'', ''eur''), sample_shop)"
proof -
  let ?E = "start_env\<lparr>billing_currencies := [''usd'', ''eur'']\<rparr>" and ?q = "sample_query\<lparr>q_country := Some ''es''\<rparr>"
  let ?ctx = "\<lparr>k_currency = ''eur'', k_preferred = None, k_country = Some ''ES''\<rparr>"
  have c: "catalog_context ?E ?q None = Inr ?ctx" by code_simp
  have t: "v_tax_inclusive (present_price ?ctx (db sample_shop) (OfPlan sample_price))" by code_simp
  have ok: "db_ok (db sample_shop)"
    by (simp add: sample_shop_def db_ok_def tables_ok_def table_ok_defs fk_ok_rows sample_simps
      refs_defs xor_owner_def lower_def lower_char_def)
  have "\<forall>r\<in>set (country_prices (db sample_shop)). cp_stripe_price_id r \<noteq> Some []"
    by (simp add: sample_shop_def sample_simps)
  from sticker_is_charged [OF c ok this, of "OfPlan sample_price"] t have
    "\<exists>r\<in>set (country_prices (db sample_shop)). \<exists>k. cp_stripe_price_id r = Some k
      \<and> resolve_checkout_price ?E (OfPlan sample_price) ?q None sample_shop = (Inr (k, cp_currency r), sample_shop)"
    by auto
  then have "resolve_checkout_price ?E (OfPlan sample_price) ?q None sample_shop = (Inr (''price_es'', ''eur''), sample_shop)"
    by (simp add: sample_shop_def sample_simps)
  with c t show ?thesis by blast
qed

end
