(* ===== verification/BillingViews.thy ===== *)
theory BillingViews
  imports Pricing Plans Webhooks
begin

text \<open>
  The billing API, \<open>apps/billing/views.py\<close>, with the request bodies of \<open>apps/billing/serializers.py\<close>:
  checkout and portal sessions, buying credits, reading the credit balances, and reading, changing,
  cancelling and resuming a subscription.  The caller is the row of the authenticated user, a
  \<open>price_query\<close> carries the query parameters and headers of the request.
\<close>

section \<open>Request bodies\<close>

text \<open>Redirect URLs arrive checked; a missing field takes the serializer's default.\<close>

record checkout_body =
  kb_plan_price_id :: uuid
  kb_seat_limit :: "int option"
  kb_success_url :: string
  kb_cancel_url :: string
  kb_trial_period_days :: "int option"
  kb_org_name :: "string option"
  kb_keep_personal :: "bool option"

record checkout_data =
  kd_plan_price_id :: uuid
  kd_seat_limit :: int
  kd_success_url :: string
  kd_cancel_url :: string
  kd_trial_period_days :: "int option"
  kd_org_name :: "string option"
  kd_keep_personal :: bool

definition in_bounds :: "int \<Rightarrow> int \<Rightarrow> int option \<Rightarrow> bool" where
  "in_bounds lo hi n = (case n of None \<Rightarrow> True | Some k \<Rightarrow> lo \<le> k \<and> k \<le> hi)"

definition checkout_request_valid :: "checkout_body \<Rightarrow> checkout_data res" where
  "checkout_request_valid b =
     (if in_bounds 1 10000 (kb_seat_limit b) \<and> in_bounds 1 90 (kb_trial_period_days b)
         \<and> (case kb_org_name b of None \<Rightarrow> True
            | Some s \<Rightarrow> strip_chars is_space s \<noteq> [] \<and> length (strip_chars is_space s) \<le> 255)
      then Inr \<lparr>kd_plan_price_id = kb_plan_price_id b,
        kd_seat_limit = (case kb_seat_limit b of None \<Rightarrow> 1 | Some n \<Rightarrow> n),
        kd_success_url = kb_success_url b, kd_cancel_url = kb_cancel_url b,
        kd_trial_period_days = kb_trial_period_days b,
        kd_org_name = map_option (strip_chars is_space) (kb_org_name b),
        kd_keep_personal = (case kb_keep_personal b of None \<Rightarrow> False | Some k \<Rightarrow> k)\<rparr>
      else Inl ValidationError)"

record update_body =
  ub_plan_price_id :: "uuid option"
  ub_prorate :: "bool option"
  ub_seat_limit :: "int option"
  ub_cancel :: "bool option"

definition update_subscription_valid :: "update_body \<Rightarrow> unit res" where
  "update_subscription_valid b =
     (let has_plan_change = ub_plan_price_id b \<noteq> None \<or> ub_seat_limit b \<noteq> None;
          has_cancel_toggle = ub_cancel b \<noteq> None in
      if \<not> in_bounds 1 10000 (ub_seat_limit b) then Inl ValidationError
      else if \<not> has_plan_change \<and> \<not> has_cancel_toggle then Inl ValidationError
      else if has_cancel_toggle \<and> has_plan_change then Inl ValidationError
      else Inr ())"

definition ub_prorates :: "update_body \<Rightarrow> bool" where
  "ub_prorates b = (case ub_prorate b of None \<Rightarrow> True | Some p \<Rightarrow> p)"

section \<open>Seats and contexts\<close>

definition min_team_seats :: int where "min_team_seats = 1"

definition validate_quantity_for_context :: "plan_context \<Rightarrow> int \<Rightarrow> int res" where
  "validate_quantity_for_context context quantity =
     (case context of
        PERSONAL \<Rightarrow> if quantity \<noteq> 1 then Inl ValidationError else Inr 1
      | TEAM \<Rightarrow> if quantity < min_team_seats then Inl ValidationError else Inr quantity)"

definition validate_quantity_for_plan :: "plan \<Rightarrow> int \<Rightarrow> int res" where
  "validate_quantity_for_plan p quantity = validate_quantity_for_context (p_context p) quantity"

definition reject_seat_limit_below_member_count :: "uuid \<Rightarrow> int \<Rightarrow> unit io" where
  "reject_seat_limit_below_member_count org seat_limit =
     mbind (count_rows members_T (\<lambda>m. m_org m = org)) (\<lambda>n.
     mguard (\<not> seat_limit < int n) SeatsBelowMemberCountError)"

definition validate_subscription_context :: "string option \<Rightarrow> plan_context option res" where
  "validate_subscription_context v = (case given v of None \<Rightarrow> Inr None
     | Some s \<Rightarrow> if s = ''team'' then Inr (Some TEAM) else if s = ''personal'' then Inr (Some PERSONAL)
                 else Inl ValidationError)"

definition default_subscription_context :: "user \<Rightarrow> plan_context io" where
  "default_subscription_context user =
     mbind (exists_row members_T (\<lambda>m. m_user m = u_id user)) (\<lambda>is_member.
     mret (if is_member then TEAM else PERSONAL))"

definition effective_context :: "user \<Rightarrow> plan_context option \<Rightarrow> plan_context io" where
  "effective_context user context =
     (case context of Some c \<Rightarrow> mret c | None \<Rightarrow> default_subscription_context user)"

section \<open>The customer and the subscription of a caller\<close>

definition first_membership :: "user \<Rightarrow> org_member option io" where
  "first_membership user = first_row members_T (\<lambda>m. m_user m = u_id user)"

definition resolve_billing_customer ::
  "user \<Rightarrow> plan_context option \<Rightarrow> uuid option \<Rightarrow> customer option io" where
  "resolve_billing_customer user context org =
     mbind (effective_context user context) (\<lambda>effective.
     case effective of
       TEAM \<Rightarrow>
         (case org of Some g \<Rightarrow> cust_by_org_id django_customers g
          | None \<Rightarrow> mbind (first_membership user) (\<lambda>m.
              case m of None \<Rightarrow> mret None | Some m \<Rightarrow> cust_by_org_id django_customers (m_org m)))
     | PERSONAL \<Rightarrow> cust_by_user_id django_customers (u_id user))"

definition get_customer_and_paid_subscription ::
  "user \<Rightarrow> plan_context option \<Rightarrow> uuid option \<Rightarrow> (customer \<times> subscription \<times> string) io" where
  "get_customer_and_paid_subscription user context org =
     mbind (resolve_billing_customer user context org) (\<lambda>customer.
     case customer of None \<Rightarrow> mraise NotFound
     | Some c \<Rightarrow>
       mbind (sub_active_for_customer django_subscriptions (c_id c)) (\<lambda>sub.
       case sub of None \<Rightarrow> mraise NotFound
       | Some s \<Rightarrow> (case s_stripe_id s of None \<Rightarrow> mraise NotFound
                    | Some sid \<Rightarrow> mret (c, s, sid))))"

definition get_active_plan_price :: "uuid \<Rightarrow> (plan_price \<times> plan) io" where
  "get_active_plan_price k =
     mbind (mgets (\<lambda>w. first_by (\<lambda>(r, _). pp_id r) (filter (\<lambda>(r, p). pp_id r = k \<and> pp_plan r = p_id p \<and> p_is_active p)
       (List.product (plan_prices (db w)) (plans (db w)))))) (\<lambda>found.
     case found of None \<Rightarrow> mraise NotFound | Some x \<Rightarrow> mret x)"

definition get_active_product_price :: "uuid \<Rightarrow> product_price io" where
  "get_active_product_price k =
     mbind (mgets (\<lambda>w. first_by xp_id (filter (\<lambda>r. xp_id r = k
       \<and> list_ex (\<lambda>p. pr_id p = xp_product r \<and> pr_is_active p) (products (db w))) (product_prices (db w))))) (\<lambda>found.
     case found of None \<Rightarrow> mraise NotFound | Some x \<Rightarrow> mret x)"

section \<open>Checkout\<close>

definition validate_team_checkout :: "user \<Rightarrow> string option \<Rightarrow> unit io" where
  "validate_team_checkout user org_name =
     mbind (exists_row members_T (\<lambda>m. m_user m = u_id user \<and> m_role m = OWNER)) (\<lambda>already_owns_org.
     mseq (mguard (\<not> already_owns_org) OrgAlreadyOwned)
     (mguard (org_name \<noteq> None) ValidationError))"

definition build_checkout_metadata :: "bool \<Rightarrow> checkout_data \<Rightarrow> (string \<times> string) list option res" where
  "build_checkout_metadata is_team data =
     (if \<not> is_team then Inr None
      else (case kd_org_name data of None \<Rightarrow> Inl KeyError
        | Some name \<Rightarrow> Inr (Some [(''org_name'', name),
            (''keep_personal_subscription'', if kd_keep_personal data then ''true'' else ''false'')])))"

text \<open>\<open>_do\<close> of the view: the customer that pays, then the session.\<close>

definition user_customer :: "env \<Rightarrow> user \<Rightarrow> customer io" where
  "user_customer E user = get_or_create_customer E (Some (u_id user)) None (u_email user)
     (Some (u_full_name user)) (u_locale user) django_customers"

definition checkout_customer :: "env \<Rightarrow> user \<Rightarrow> bool \<Rightarrow> string io" where
  "checkout_customer E user is_team =
     (if is_team
      then mbind (create_team_stripe_customer E (u_id user) (u_email user) (Some (u_full_name user)) (u_locale user))
          (\<lambda>j. mret (py_str j))
      else mbind (user_customer E user) (\<lambda>c. mret (c_stripe_id c)))"

definition open_checkout ::
  "env \<Rightarrow> user \<Rightarrow> checkout_data \<Rightarrow> bool \<Rightarrow> int \<Rightarrow> string \<Rightarrow> string \<Rightarrow> json io" where
  "open_checkout E user data is_team quantity price currency =
     mseq (mwhen is_team (validate_team_checkout user (kd_org_name data)))
     (mbind (mlift (build_checkout_metadata is_team data)) (\<lambda>metadata.
     mbind (checkout_customer E user is_team) (\<lambda>customer.
     create_checkout_session E customer price (uuid_str (u_id user)) currency quantity (u_locale user)
       (kd_success_url data) (kd_cancel_url data) (if is_team then None else kd_trial_period_days data) metadata)))"

definition checkout_session_view :: "env \<Rightarrow> user \<Rightarrow> checkout_body \<Rightarrow> price_query \<Rightarrow> json io" where
  "checkout_session_view E user body q =
     mbind (mlift (checkout_request_valid body)) (\<lambda>data.
     mbind (mlift (resolve_billing_currency E (q_currency q) (Some user))) (\<lambda>_.
     mbind (get_active_plan_price (kd_plan_price_id data)) (\<lambda>(price, plan).
     mbind (mlift (validate_quantity_for_plan plan (kd_seat_limit data))) (\<lambda>quantity.
     mbind (resolve_checkout_price E (OfPlan price) q (Some user)) (\<lambda>(stripe_price_id, currency).
     open_checkout E user data (p_context plan = TEAM) quantity stripe_price_id currency)))))"

section \<open>Authority\<close>

definition require_billing_authority :: "user \<Rightarrow> plan_context \<Rightarrow> uuid option io" where
  "require_billing_authority user context =
     (case context of PERSONAL \<Rightarrow> mret None
      | TEAM \<Rightarrow> mbind (first_row members_T (\<lambda>m. m_user m = u_id user \<and> m_is_billing m)) (\<lambda>billing_member.
          case billing_member of None \<Rightarrow> mraise PermissionDenied | Some m \<Rightarrow> mret (Some (m_org m))))"

definition resolve_mutation_context :: "string option \<Rightarrow> user \<Rightarrow> (plan_context \<times> uuid option) io" where
  "resolve_mutation_context param user =
     mbind (mlift (validate_subscription_context param)) (\<lambda>explicit.
     case explicit of
       Some c \<Rightarrow> mbind (require_billing_authority user c) (\<lambda>g. mret (c, g))
     | None \<Rightarrow> mbind (first_membership user) (\<lambda>membership.
         case membership of None \<Rightarrow> mret (PERSONAL, None)
         | Some m \<Rightarrow> mseq (mguard (m_is_billing m) PermissionDenied) (mret (TEAM, Some (m_org m)))))"

definition portal_session_view :: "env \<Rightarrow> user \<Rightarrow> string option \<Rightarrow> string \<Rightarrow> json io" where
  "portal_session_view E user param return_url =
     mbind (mlift (validate_subscription_context param)) (\<lambda>context.
     mbind (effective_context user context) (\<lambda>effective.
     mbind (case effective of
         TEAM \<Rightarrow> mbind (require_billing_authority user TEAM) (\<lambda>org.
           mbind (resolve_billing_customer user (Some TEAM) org) (\<lambda>customer.
           case customer of None \<Rightarrow> mraise NotFound | Some c \<Rightarrow> mret c))
       | PERSONAL \<Rightarrow> user_customer E user) (\<lambda>c.
     create_billing_portal_session E (c_stripe_id c) (u_locale user) return_url None)))"

section \<open>Credits\<close>

definition resolve_product_purchase_context :: "user \<Rightarrow> plan_context option \<Rightarrow> uuid option io" where
  "resolve_product_purchase_context user context =
     mbind (first_membership user) (\<lambda>membership.
     case (case context of Some c \<Rightarrow> c | None \<Rightarrow> if membership \<noteq> None then TEAM else PERSONAL) of
       PERSONAL \<Rightarrow> mret None
     | TEAM \<Rightarrow> (case membership of None \<Rightarrow> mraise ValidationError
         | Some m \<Rightarrow> mseq (mguard (m_role m = OWNER) PermissionDenied) (mret (Some (m_org m)))))"

definition product_metadata :: "uuid \<Rightarrow> uuid option \<Rightarrow> (string \<times> string) list" where
  "product_metadata product org = [(''product_id'', uuid_str product)]
     @ (case org of None \<Rightarrow> [] | Some g \<Rightarrow> [(''org_id'', uuid_str g)])"

definition buyer_customer :: "env \<Rightarrow> user \<Rightarrow> uuid option \<Rightarrow> customer io" where
  "buyer_customer E user org = (case org of
       Some g \<Rightarrow> get_or_create_customer E None (Some g) (u_email user) (Some (u_full_name user)) (u_locale user) django_customers
     | None \<Rightarrow> user_customer E user)"

definition product_checkout_session_view ::
  "env \<Rightarrow> user \<Rightarrow> uuid \<Rightarrow> string \<Rightarrow> string \<Rightarrow> price_query \<Rightarrow> json io" where
  "product_checkout_session_view E user product_price_id success_url cancel_url q =
     mbind (mlift (validate_subscription_context (q_context q))) (\<lambda>context.
     mbind (resolve_product_purchase_context user context) (\<lambda>org.
     mbind (mlift (resolve_billing_currency E (q_currency q) (Some user))) (\<lambda>_.
     mbind (get_active_product_price product_price_id) (\<lambda>price.
     mbind (resolve_checkout_price E (OfProduct price) q (Some user)) (\<lambda>(stripe_price_id, currency).
     mbind (buyer_customer E user org) (\<lambda>customer.
     create_product_checkout_session E (c_stripe_id customer) stripe_price_id (uuid_str (u_id user)) currency
       (u_locale user) success_url cancel_url (Some (product_metadata (xp_product price) org))))))))"

datatype balance_scope = UserScope | OrgScope

definition user_balance :: "db \<Rightarrow> user \<Rightarrow> int" where
  "user_balance d user = (case find (\<lambda>r. b_user r = Some (u_id user)) (credit_balances d) of
     None \<Rightarrow> 0 | Some r \<Rightarrow> b_balance r)"

definition org_balance :: "db \<Rightarrow> uuid \<Rightarrow> int" where
  "org_balance d g = (case find (\<lambda>r. b_org r = Some g) (credit_balances d) of
     None \<Rightarrow> 0 | Some r \<Rightarrow> b_balance r)"

definition credit_balance_view :: "user \<Rightarrow> string option \<Rightarrow> (int \<times> balance_scope) list io" where
  "credit_balance_view user param =
     mbind (mlift (validate_subscription_context param)) (\<lambda>context.
     mbind (first_membership user) (\<lambda>m.
     mbind (mgets db) (\<lambda>d.
     case (context, m) of
       (Some PERSONAL, _) \<Rightarrow> mret [(user_balance d user, UserScope)]
     | (Some TEAM, None) \<Rightarrow> mraise NotFound
     | (Some TEAM, Some m) \<Rightarrow> mret [(org_balance d (m_org m), OrgScope)]
     | (None, Some m) \<Rightarrow> mret ((org_balance d (m_org m), OrgScope)
           # (if user_balance d user > 0 then [(user_balance d user, UserScope)] else []))
     | (None, None) \<Rightarrow> mret [(user_balance d user, UserScope)])))"

section \<open>Reading subscriptions\<close>

definition sub_customer :: "db \<Rightarrow> subscription \<Rightarrow> customer option" where
  "sub_customer d s = (case s_customer s of None \<Rightarrow> None
     | Some k \<Rightarrow> find (\<lambda>c. c_id c = k) (customers d))"

definition sub_org :: "db \<Rightarrow> subscription \<Rightarrow> uuid option" where
  "sub_org d s = (case sub_customer d s of None \<Rightarrow> None | Some c \<Rightarrow> c_org c)"

definition visible_personal :: "db \<Rightarrow> uuid \<Rightarrow> subscription \<Rightarrow> bool" where
  "visible_personal d u s \<longleftrightarrow> s_user s = Some u
     \<or> (case sub_customer d s of None \<Rightarrow> False | Some c \<Rightarrow> c_user c = Some u)"

definition get_active_subscriptions_for_user :: "user \<Rightarrow> subscription list io" where
  "get_active_subscriptions_for_user user =
     mbind (first_membership user) (\<lambda>membership.
     mbind (mgets db) (\<lambda>d.
     let base = filter (\<lambda>s. active_status (s_status s)) (subscriptions d);
         team = (case membership of None \<Rightarrow> None
           | Some m \<Rightarrow> latest_by s_created_at (filter (\<lambda>s. sub_org d s = Some (m_org m)) base));
         personal = latest_by s_created_at (filter (visible_personal d (u_id user)) base)
     in mret (case team of
          None \<Rightarrow> (case personal of None \<Rightarrow> [] | Some p \<Rightarrow> [p])
        | Some t \<Rightarrow> t # (case personal of None \<Rightarrow> [] | Some p \<Rightarrow> if s_id p = s_id t then [] else [p]))))"

definition get_seats_used :: "db \<Rightarrow> subscription \<Rightarrow> nat res" where
  "get_seats_used d s = (case sub_org d s of None \<Rightarrow> Inr 1
     | Some g \<Rightarrow> (let n = length (filter (\<lambda>m. m_org m = g) (members d)) in
                  if n = 0 then Inl RuntimeError else Inr n))"

record subscription_view =
  sv_subscription :: subscription
  sv_plan :: "(plan \<times> price_view option) option"
  sv_seats_used :: nat
  sv_scheduled_plan :: "(plan \<times> price_view option) option"

definition present_plan_id :: "display_context \<Rightarrow> db \<Rightarrow> uuid \<Rightarrow> (plan \<times> price_view option) option" where
  "present_plan_id ctx d k = map_option (present_plan ctx d) (find (\<lambda>p. p_id p = k) (plans d))"

definition present_subscription :: "display_context \<Rightarrow> db \<Rightarrow> subscription \<Rightarrow> subscription_view res" where
  "present_subscription ctx d s = rbind (get_seats_used d s) (\<lambda>n.
     Inr \<lparr>sv_subscription = s, sv_plan = present_plan_id ctx d (s_plan s), sv_seats_used = n,
          sv_scheduled_plan = (case s_scheduled_plan s of None \<Rightarrow> None | Some k \<Rightarrow> present_plan_id ctx d k)\<rparr>)"

fun present_all :: "display_context \<Rightarrow> db \<Rightarrow> subscription list \<Rightarrow> subscription_view list res" where
  "present_all ctx d [] = Inr []"
| "present_all ctx d (s # ss) = rbind (present_subscription ctx d s) (\<lambda>v.
     rbind (present_all ctx d ss) (\<lambda>vs. Inr (v # vs)))"

definition subscription_list_view :: "env \<Rightarrow> user \<Rightarrow> price_query \<Rightarrow> subscription_view list io" where
  "subscription_list_view E user q =
     mbind (mlift (currency_context E q (Some user))) (\<lambda>ctx.
     mbind (get_active_subscriptions_for_user user) (\<lambda>subs.
     mbind (mgets db) (\<lambda>d. mlift (present_all ctx d subs))))"

definition refetch_subscription_after_mutation :: "user \<Rightarrow> plan_context \<Rightarrow> subscription io" where
  "refetch_subscription_after_mutation user context =
     mbind (get_active_subscriptions_for_user user) (\<lambda>subs.
     mbind (mgets db) (\<lambda>d.
     case find (\<lambda>s. (sub_org d s \<noteq> None) = (context = TEAM)) subs of
       None \<Rightarrow> mraise NotFound | Some s \<Rightarrow> mret s))"

section \<open>Changing a subscription\<close>

definition billing_notice_recipients :: "user \<Rightarrow> uuid option \<Rightarrow> string list io" where
  "billing_notice_recipients user org =
     (case org of None \<Rightarrow> mret [u_email user]
      | Some g \<Rightarrow> mgets (\<lambda>w. concat (map (\<lambda>m. map u_email (filter (\<lambda>u. u_id u = m_user m) (users (db w))))
          (filter (\<lambda>m. m_org m = g \<and> m_is_billing m) (members (db w))))))"

definition apply_cancel_toggle :: "env \<Rightarrow> customer \<Rightarrow> bool \<Rightarrow> unit io" where
  "apply_cancel_toggle E customer cancel_at_period_end =
     (if cancel_at_period_end then cancel_subscription E (c_id customer) True django_subscriptions
      else resume_subscription E (c_id customer) django_subscriptions)"

definition apply_plan_change ::
  "env \<Rightarrow> subscription \<Rightarrow> string \<Rightarrow> plan_price \<Rightarrow> int option \<Rightarrow> bool \<Rightarrow> uuid option \<Rightarrow> unit io" where
  "apply_plan_change E sub stripe_sub_id price seat_limit prorate org =
     mbind (resolve_plan_change_price price (s_currency sub)) (\<lambda>(new_price_id, new_price_amount).
     mseq (case (seat_limit, org) of
         (Some n, Some g) \<Rightarrow> reject_seat_limit_below_member_count g n
       | _ \<Rightarrow> mret ())
     (change_plan E stripe_sub_id new_price_id (Some new_price_amount) prorate seat_limit))"

definition apply_seat_only :: "env \<Rightarrow> subscription \<Rightarrow> int \<Rightarrow> uuid option \<Rightarrow> unit io" where
  "apply_seat_only E sub seat_limit org =
     mbind (get_row plans_T (\<lambda>p. p_id p = s_plan sub) ObjectDoesNotExist) (\<lambda>current_plan.
     mseq (mlift (validate_quantity_for_context (p_context current_plan) seat_limit))
     (mseq (case org of Some g \<Rightarrow> reject_seat_limit_below_member_count g seat_limit | None \<Rightarrow> mret ())
     (update_seat_count E sub seat_limit django_subscriptions)))"

text \<open>\<open>_do\<close> of \<open>PATCH\<close>, with the plan price that was looked up before it.\<close>

definition change_subscription ::
  "env \<Rightarrow> user \<Rightarrow> plan_context \<Rightarrow> uuid option \<Rightarrow> update_body \<Rightarrow> plan_price option \<Rightarrow> unit io" where
  "change_subscription E user context org body price =
     mbind (get_customer_and_paid_subscription user (Some context) org) (\<lambda>(customer, sub, stripe_sub_id).
     case ub_cancel body of
       Some c \<Rightarrow> apply_cancel_toggle E customer c
     | None \<Rightarrow> (case price of
         Some p \<Rightarrow> apply_plan_change E sub stripe_sub_id p (ub_seat_limit body) (ub_prorates body) org
       | None \<Rightarrow> (case ub_seat_limit body of
           Some n \<Rightarrow> apply_seat_only E sub n org
         | None \<Rightarrow> mret ())))"

definition plan_name :: "db \<Rightarrow> subscription \<Rightarrow> string" where
  "plan_name d s = (case find (\<lambda>p. p_id p = s_plan s) (plans d) of None \<Rightarrow> [] | Some p \<Rightarrow> p_name p)"

definition notify_cancel :: "string list \<Rightarrow> subscription \<Rightarrow> string \<Rightarrow> unit io" where
  "notify_cancel recipients s action = mbind (mgets db) (\<lambda>d.
     on_commit (SendSubscriptionCancelNotice recipients (plan_name d s) action))"

definition requested_price :: "update_body \<Rightarrow> (plan_price \<times> plan) option io" where
  "requested_price body = (case ub_plan_price_id body of None \<Rightarrow> mret None
     | Some k \<Rightarrow> mbind (get_active_plan_price k) (\<lambda>x. mret (Some x)))"

definition check_requested_seats :: "(plan_price \<times> plan) option \<Rightarrow> int option \<Rightarrow> unit io" where
  "check_requested_seats found seats = (case (found, seats) of
       (Some (_, plan), Some n) \<Rightarrow> mseq (mlift (validate_quantity_for_plan plan n)) (mret ())
     | _ \<Rightarrow> mret ())"

text \<open>The end of \<open>PATCH\<close> and of \<open>DELETE\<close>: the row is read again, the billing contacts are told.\<close>

definition answer_update ::
  "env \<Rightarrow> user \<Rightarrow> price_query \<Rightarrow> plan_context \<Rightarrow> uuid option \<Rightarrow> bool option \<Rightarrow> subscription_view io" where
  "answer_update E user q context org cancel =
     mbind (mlift (currency_context E q (Some user))) (\<lambda>ctx.
     mbind (refetch_subscription_after_mutation user context) (\<lambda>sub.
     mseq (case cancel of None \<Rightarrow> mret ()
         | Some c \<Rightarrow> mbind (billing_notice_recipients user org) (\<lambda>recipients.
             mwhen (recipients \<noteq> []) (notify_cancel recipients sub (if c then ''scheduled'' else ''resumed''))))
     (mbind (mgets db) (\<lambda>d. mlift (present_subscription ctx d sub)))))"

definition announce_cancel :: "env \<Rightarrow> user \<Rightarrow> price_query \<Rightarrow> plan_context \<Rightarrow> uuid option \<Rightarrow> unit io" where
  "announce_cancel E user q context org =
     mbind (billing_notice_recipients user org) (\<lambda>recipients.
     mwhen (recipients \<noteq> [])
       (mbind (mlift (currency_context E q (Some user))) (\<lambda>_.
        mbind (refetch_subscription_after_mutation user context) (\<lambda>sub.
        notify_cancel recipients sub ''scheduled''))))"

definition subscription_patch_view ::
  "env \<Rightarrow> user \<Rightarrow> update_body \<Rightarrow> price_query \<Rightarrow> subscription_view io" where
  "subscription_patch_view E user body q =
     mbind (mlift (update_subscription_valid body)) (\<lambda>_.
     mbind (resolve_mutation_context (q_context q) user) (\<lambda>(context, org).
     mbind (requested_price body) (\<lambda>found.
     mbind (check_requested_seats found (ub_seat_limit body)) (\<lambda>_.
     mseq (change_subscription E user context org body (map_option fst found))
     (answer_update E user q context org (ub_cancel body))))))"

definition subscription_delete_view :: "env \<Rightarrow> user \<Rightarrow> price_query \<Rightarrow> nat io" where
  "subscription_delete_view E user q =
     mbind (resolve_mutation_context (q_context q) user) (\<lambda>(context, org).
     mseq (mbind (get_customer_and_paid_subscription user (Some context) org) (\<lambda>(customer, _, _).
       cancel_subscription E (c_id customer) True django_subscriptions))
     (mseq (announce_cancel E user q context org) (mret 204)))"

definition scheduled_change_delete_view :: "env \<Rightarrow> user \<Rightarrow> price_query \<Rightarrow> nat io" where
  "scheduled_change_delete_view E user q =
     mbind (resolve_mutation_context (q_context q) user) (\<lambda>(context, org).
     mseq (mbind (get_customer_and_paid_subscription user (Some context) org) (\<lambda>(customer, _, _).
       release_pending_schedule_for_customer E (c_id customer) django_subscriptions))
     (mret 204))"

section \<open>Only the caller's subscription changes\<close>

lemma keeps_mbind_from:
  assumes "keeps P m" and "\<And>x w w1. P w \<Longrightarrow> m w = (Inr x, w1) \<Longrightarrow> keeps P (f x)"
  shows "keeps P (mbind m f)"
proof (rule keepsI)
  fix w assume w: "P w"
  obtain r w1 where m: "m w = (r, w1)" by (cases "m w")
  have w1: "P w1" using assms(1) w m by (rule keepsD_run)
  show "P (snd (mbind m f w))"
  proof (cases r)
    case (Inl e)
    with m w1 show ?thesis by simp
  next
    case (Inr x)
    with m assms(2) [OF w] w1 show ?thesis by (auto simp: keeps_def)
  qed
qed

text \<open>The columns of a subscription that billing requests never write.\<close>

definition same_subscription :: "subscription \<Rightarrow> subscription \<Rightarrow> bool" where
  "same_subscription a b \<longleftrightarrow> s_id a = s_id b \<and> s_stripe_id a = s_stripe_id b \<and> s_customer a = s_customer b
     \<and> s_user a = s_user b \<and> s_plan a = s_plan b \<and> s_currency a = s_currency b \<and> s_created_at a = s_created_at b"

text \<open>The subscription a call to Stripe is about.\<close>

fun call_target :: "stripe_call \<Rightarrow> string option" where
  "call_target (SubRetrieve sid) = Some sid"
| "call_target (SubModifyCancelAt sid _) = Some sid"
| "call_target (SubModifyItem sid _ _ _ _) = Some sid"
| "call_target (SubCancel sid _) = Some sid"
| "call_target _ = None"

text \<open>
  A call about \<open>sid\<close> names \<open>sid\<close>; a schedule is created from the id that Stripe itself gave when it was
  asked for \<open>sid\<close>.
\<close>

definition targets :: "env \<Rightarrow> string \<Rightarrow> stripe_call \<Rightarrow> bool" where
  "targets E sid c \<longleftrightarrow> (case c of
      SchedCreate x \<Rightarrow> \<exists>cl sub i. stripe E cl (SubRetrieve sid) = Inr sub \<and> dindex sub ''id'' = Inr i \<and> x = py_str i
    | _ \<Rightarrow> call_target c = None \<or> call_target c = Some sid)"

text \<open>
  From \<open>w\<close> to \<open>w'\<close> only subscriptions of the customer \<open>k\<close> changed, in columns that mirror Stripe,
  and the calls to Stripe in between that name a subscription name one of that customer.
\<close>

definition billed_only :: "env \<Rightarrow> uuid \<Rightarrow> world \<Rightarrow> world \<Rightarrow> bool" where
  "billed_only E k w w' \<longleftrightarrow> db w' = (db w)\<lparr>subscriptions := subscriptions (db w')\<rparr>
     \<and> list_all2 (\<lambda>a b. same_subscription a b \<and> (a = b \<or> s_customer a = Some k))
         (subscriptions (db w)) (subscriptions (db w'))
     \<and> (\<exists>cs. calls w' = calls w @ cs \<and> list_all (\<lambda>c. \<exists>s\<in>set (subscriptions (db w)).
          s_customer s = Some k \<and> (\<exists>sid. s_stripe_id s = Some sid \<and> targets E sid c)) cs)"

lemma billed_only_refl: "billed_only E k w w"
  by (simp add: billed_only_def same_subscription_def list_all2_same)

lemma list_all2_memR: "list_all2 R xs ys \<Longrightarrow> y \<in> set ys \<Longrightarrow> \<exists>x\<in>set xs. R x y"
  by (induction rule: list_all2_induct) auto

lemma list_all2_memL: "list_all2 R xs ys \<Longrightarrow> x \<in> set xs \<Longrightarrow> \<exists>y\<in>set ys. R x y"
  by (induction rule: list_all2_induct) auto

lemma billed_call:
  assumes "s \<in> set (subscriptions (db w))" and "s_customer s = Some k" and "s_stripe_id s = Some sid" and "targets E sid c"
  shows "keeps (billed_only E k w) (call_stripe E c)"
  using assms by (auto simp: keeps_def billed_only_def) blast

lemma billed_save:
  assumes ok: "distinct (map s_id (subscriptions (db w)))"
    and s: "s \<in> set (subscriptions (db w))" "s_customer s = Some k" "same_subscription s s'"
  shows "keeps (billed_only E k w) (subscription_save s')"
proof (rule keepsI)
  fix w1 assume b: "billed_only E k w w1"
  let ?xs = "subscriptions (db w)" and ?ys = "subscriptions (db w1)"
  let ?f = "\<lambda>r. s'\<lparr>s_id := s_id r, s_created_at := s_created_at r\<rparr>"
  from b have all: "list_all2 (\<lambda>a b. same_subscription a b \<and> (a = b \<or> s_customer a = Some k)) ?xs ?ys"
    by (simp add: billed_only_def)
  then obtain b0 where "b0 \<in> set ?ys" "same_subscription s b0"
    using list_all2_memL [OF _ s(1)] by blast
  then have found: "list_ex (\<lambda>r. s_id r = s_id s') ?ys"
    using s(3) by (auto simp: list_ex_iff same_subscription_def)
  have new: "list_all2 (\<lambda>a b. same_subscription a b \<and> (a = b \<or> s_customer a = Some k)) ?xs
      (update_where (\<lambda>r. s_id r = s_id s') ?f ?ys)"
  proof (unfold list_all2_conv_all_nth, intro conjI allI impI)
    show "length ?xs = length (update_where (\<lambda>r. s_id r = s_id s') ?f ?ys)"
      using all by (simp add: list_all2_lengthD)
    fix i assume i: "i < length ?xs"
    let ?a = "?xs ! i" and ?b = "?ys ! i"
    have ab: "same_subscription ?a ?b" "?a = ?b \<or> s_customer ?a = Some k" and i': "i < length ?ys"
      using all i by (auto simp: list_all2_conv_all_nth)
    have u: "update_where (\<lambda>r. s_id r = s_id s') ?f ?ys ! i = (if s_id ?b = s_id s' then ?f ?b else ?b)"
      using i' by (simp add: update_where_def)
    have "?a = s" if "s_id ?b = s_id s'"
      using distinct_map_eqD [OF ok] i s ab that by (auto simp: same_subscription_def)
    with u ab s show "same_subscription ?a (update_where (\<lambda>r. s_id r = s_id s') ?f ?ys ! i)"
      and "?a = update_where (\<lambda>r. s_id r = s_id s') ?f ?ys ! i \<or> s_customer ?a = Some k"
      by (auto simp: same_subscription_def)
  qed
  show "billed_only E k w (snd (subscription_save s' w1))"
  proof (cases "snd (subscription_save s' w1) = w1")
    case True
    with b show ?thesis by simp
  next
    case False
    then have "snd (subscription_save s' w1)
        = w1\<lparr>db := (db w1)\<lparr>subscriptions := update_where (\<lambda>r. s_id r = s_id s') ?f ?ys\<rparr>\<rparr>"
      using found by (auto simp: subscription_save_def save_row_def update_rows_def run_simps Let_def split: if_splits)
    moreover obtain zs where "db w1 = (db w)\<lparr>subscriptions := zs\<rparr>"
      using b by (auto simp: billed_only_def)
    ultimately show ?thesis using b new by (auto simp: billed_only_def)
  qed
qed


lemma billed_source:
  assumes "billed_only E k w w1" and "s \<in> set (subscriptions (db w1))" and "s_customer s = Some k"
  obtains s0 where "s0 \<in> set (subscriptions (db w))" and "same_subscription s0 s" and "s_customer s0 = Some k"
  using list_all2_memR [of _ "subscriptions (db w)" "subscriptions (db w1)" s] assms
  by (fastforce simp: billed_only_def same_subscription_def)

lemma billed_require:
  assumes "billed_only E k w w1" and "require_active django_subscriptions k w1 = (Inr (s, sid), w2)"
  obtains s0 where "s0 \<in> set (subscriptions (db w))" and "same_subscription s0 s" and "s_customer s0 = Some k"
    and "s_stripe_id s0 = Some sid"
proof -
  have s: "s \<in> set (subscriptions (db w1))" "s_customer s = Some k" "s_stripe_id s = Some sid"
    using bill.require_active_Inr [OF assms(2)] by auto
  from billed_source [OF assms(1) s(1,2)] s(3) that show thesis by (metis same_subscription_def)
qed

lemma with_cancel_same: "with_cancel_state s j = Inr s' \<Longrightarrow> same_subscription a s \<Longrightarrow> same_subscription a s'"
  by (auto simp: with_cancel_state_def same_subscription_def elim!: rbind_InrE)


lemma targets_simps [simp]:
  "targets E sid (SubRetrieve sid)" "targets E sid (SubModifyCancelAt sid a)" "targets E sid (SubModifyItem sid i p q b)"
  "targets E sid (SubCancel sid o')" "targets E sid (SchedRetrieve x)" "targets E sid (SchedRelease x)"
  "targets E sid (SchedModify x y ph)" "targets E sid (PriceRetrieve x)"
  by (simp_all add: targets_def)

lemma dj_save [simp]: "sub_save django_subscriptions = subscription_save"
  by (simp add: django_subscriptions_def)

text \<open>One subscription of the customer, and what the operations on it keep.\<close>

definition owned_subscription :: "world \<Rightarrow> uuid \<Rightarrow> subscription \<Rightarrow> string \<Rightarrow> bool" where
  "owned_subscription w k s sid \<longleftrightarrow> distinct (map s_id (subscriptions (db w)))
     \<and> s \<in> set (subscriptions (db w)) \<and> s_customer s = Some k \<and> s_stripe_id s = Some sid"

lemma owned_call: "owned_subscription w k s0 sid \<Longrightarrow> targets E sid c \<Longrightarrow> keeps (billed_only E k w) (call_stripe E c)"
  by (auto simp: owned_subscription_def intro: billed_call)

lemma owned_save:
  "owned_subscription w k s0 sid \<Longrightarrow> same_subscription s0 s \<Longrightarrow> keeps (billed_only E k w) (subscription_save s)"
  by (auto simp: owned_subscription_def intro: billed_save)

lemma owned_release:
  assumes "owned_subscription w k s0 sid"
  shows "keeps (billed_only E k w) (release_pending_schedule E sid)"
  unfolding release_pending_schedule_def by (intro keeps_intros owned_call [OF assms] targets_simps)

lemma owned_mirror:
  assumes "owned_subscription w k s0 sid" and "same_subscription s0 s"
  shows "keeps (billed_only E k w) (mirror_cancel_state s j django_subscriptions)"
  unfolding mirror_cancel_state_def dj_save
  by (rule keeps_mbind_from [OF keeps_mlift], rule owned_save [OF assms(1)], erule mlift_InrE,
      erule with_cancel_same, rule assms)

lemma owned_create:
  assumes "owned_subscription w k s0 sid" and "stripe E cl (SubRetrieve sid) = Inr sub"
  shows "keeps (billed_only E k w) (mbind (mlift (dindex sub ''id'')) (\<lambda>i. mbind (call_stripe E (SchedCreate (py_str i))) (\<lambda>s. mlift (g s))))"
proof (rule keeps_mbind_from [OF keeps_mlift])
  fix i w1 w2 assume "mlift (dindex sub ''id'') w1 = (Inr i, w2)"
  then have "targets E sid (SchedCreate (py_str i))" using assms(2) by (auto simp: targets_def elim!: mlift_InrE)
  then show "keeps (billed_only E k w) (mbind (call_stripe E (SchedCreate (py_str i))) (\<lambda>s. mlift (g s)))"
    by (intro keeps_intros owned_call [OF assms(1)])
qed

lemma owned_schedule:
  assumes "owned_subscription w k s0 sid" and "stripe E cl (SubRetrieve sid) = Inr sub"
  shows "keeps (billed_only E k w) (schedule_downgrade_at_period_end E sub price n)"
  unfolding schedule_downgrade_at_period_end_def
  by (rule owned_create [OF assms] keeps_intros owned_call [OF assms(1)] targets_simps allI)+

lemma owned_change_plan:
  assumes "owned_subscription w k s0 sid"
  shows "keeps (billed_only E k w) (change_plan E sid price amount prorate quantity)"
  unfolding change_plan_def
proof (rule keeps_mbind_from [OF owned_call [OF assms targets_simps(1)]])
  fix sub w1 w2 assume "call_stripe E (SubRetrieve sid) w1 = (Inr sub, w2)"
  then have "stripe E (calls w1) (SubRetrieve sid) = Inr sub" by (auto simp: call_stripe_def)
  note owned_schedule [OF assms this]
  then show "keeps (billed_only E k w) (mbind (mlift (first_item sub)) (\<lambda>item. mbind (mlift (item_id item)) (\<lambda>iid.
     mbind (mlift (current_quantity item)) (\<lambda>cur. mbind (mlift (is_downgrade amount item)) (\<lambda>down.
     let n = (case quantity of Some q \<Rightarrow> q | None \<Rightarrow> cur) in
     if down then schedule_downgrade_at_period_end E sub price n
     else apply_immediate_plan_change E sub sid iid price prorate n)))))"
    unfolding apply_immediate_plan_change_def Let_def
    by (intro keeps_intros owned_call [OF assms] targets_simps)
qed

lemma owned_seats:
  assumes "owned_subscription w k s0 sid" and "same_subscription s0 s"
  shows "keeps (billed_only E k w) (update_seat_count E s n django_subscriptions)"
proof -
  have s: "s_stripe_id s = Some sid" "same_subscription s0 (s\<lparr>s_seat_limit := n\<rparr>)"
    using assms by (auto simp: owned_subscription_def same_subscription_def)
  show ?thesis unfolding update_seat_count_def s(1) option.case dj_save
    by (intro keeps_intros owned_call [OF assms(1)] owned_save [OF assms(1)] targets_simps s(2))
qed

lemma active_reads: "read_only (require_active django_subscriptions k)"
proof (unfold read_only_def, rule allI)
  fix w
  obtain r where "sub_active_for_customer django_subscriptions k w = (Inr r, w)" using subs.active_returns by blast
  then show "snd (require_active django_subscriptions k w) = w"
    by (simp add: require_active_def split: option.split)
qed

lemma billed_active:
  assumes "distinct (map s_id (subscriptions (db w)))"
    and "\<And>s0 s sid. owned_subscription w k s0 sid \<Longrightarrow> same_subscription s0 s \<Longrightarrow> keeps (billed_only E k w) (f (s, sid))"
  shows "keeps (billed_only E k w) (mbind (require_active django_subscriptions k) f)"
proof (rule keeps_mbind_from)
  fix x w1 w2
  assume b: "billed_only E k w w1" and r: "require_active django_subscriptions k w1 = (Inr x, w2)"
  obtain s sid where x: "x = (s, sid)" by (cases x)
  obtain s0 where "s0 \<in> set (subscriptions (db w))" "same_subscription s0 s" "s_customer s0 = Some k" "s_stripe_id s0 = Some sid"
    using billed_require [OF b r [unfolded x]] by blast
  with assms x show "keeps (billed_only E k w) (f x)" by (auto simp: owned_subscription_def)
qed (use read_only_keeps [OF active_reads] in blast)


lemma same_plain:
  "same_subscription a s \<Longrightarrow> same_subscription a (s\<lparr>s_scheduled_plan := None, s_scheduled_change_at := None\<rparr>)"
  by (simp add: same_subscription_def)

lemma billed_cancel:
  assumes "distinct (map s_id (subscriptions (db w)))"
  shows "keeps (billed_only E k w) (cancel_subscription E k True django_subscriptions)"
  unfolding cancel_subscription_def if_True
proof (rule billed_active [OF assms], unfold prod.case)
  fix s0 s sid assume o: "owned_subscription w k s0 sid" and s: "same_subscription s0 s"
  show "keeps (billed_only E k w) (mseq (mwhen (s_scheduled_plan s \<noteq> None) (release_pending_schedule E sid))
      (mbind (call_stripe E (SubModifyCancelAt sid ''min_period_end'')) (\<lambda>j. mirror_cancel_state s j django_subscriptions)))"
    by (intro keeps_intros owned_release [OF o] owned_call [OF o] owned_mirror [OF o s] targets_simps)
qed

lemma billed_resume:
  assumes "distinct (map s_id (subscriptions (db w)))"
  shows "keeps (billed_only E k w) (resume_subscription E k django_subscriptions)"
  unfolding resume_subscription_def
proof (rule billed_active [OF assms], unfold prod.case)
  fix s0 s sid assume o: "owned_subscription w k s0 sid" and s: "same_subscription s0 s"
  show "keeps (billed_only E k w) (mbind (call_stripe E (SubModifyCancelAt sid []))
      (\<lambda>j. mirror_cancel_state s j django_subscriptions))"
    by (intro keeps_intros owned_call [OF o] owned_mirror [OF o s] targets_simps)
qed

lemma billed_release:
  assumes "distinct (map s_id (subscriptions (db w)))"
  shows "keeps (billed_only E k w) (release_pending_schedule_for_customer E k django_subscriptions)"
  unfolding release_pending_schedule_for_customer_def dj_save
proof (rule billed_active [OF assms], unfold prod.case)
  fix s0 s sid assume o: "owned_subscription w k s0 sid" and s: "same_subscription s0 s"
  show "keeps (billed_only E k w) (mseq (release_pending_schedule E sid)
     (mwhen (s_scheduled_plan s \<noteq> None \<or> s_scheduled_change_at s \<noteq> None)
       (subscription_save (s\<lparr>s_scheduled_plan := None, s_scheduled_change_at := None\<rparr>))))"
    by (intro keeps_intros owned_release [OF o] owned_save [OF o] same_plain s)
qed

section \<open>The views\<close>

text \<open>Who may be billed: the user's own customer, or that of an organisation where they hold the billing flag.\<close>

definition may_bill :: "db \<Rightarrow> uuid \<Rightarrow> customer \<Rightarrow> bool" where
  "may_bill d u c \<longleftrightarrow> c \<in> set (customers d) \<and> (c_user c = Some u
     \<or> (\<exists>m\<in>set (members d). m_user m = u \<and> m_is_billing m \<and> c_org c = Some (m_org m)))"

lemma authority_Inr:
  assumes "resolve_mutation_context param user w = (Inr (context, org), w')"
  shows "w' = w" and "context = PERSONAL \<and> org = None
    \<or> context = TEAM \<and> (\<exists>m\<in>set (members (db w)). m_user m = u_id user \<and> m_is_billing m \<and> org = Some (m_org m))"
  using assms
  by (auto simp: resolve_mutation_context_def require_billing_authority_def first_membership_def run_simps
      split: option.splits plan_context.splits sum.splits if_splits dest!: first_by_filter_Some)

lemma mutation_reads: "read_only (resolve_mutation_context param user)"
  by (auto simp: read_only_def resolve_mutation_context_def require_billing_authority_def first_membership_def run_simps
      split: option.splits plan_context.splits sum.splits)

lemma billing_customer_Inr:
  assumes "resolve_billing_customer user (Some context) org w = (Inr (Some c), w')"
    and "context = PERSONAL \<and> org = None
      \<or> context = TEAM \<and> (\<exists>m\<in>set (members (db w)). m_user m = u_id user \<and> m_is_billing m \<and> org = Some (m_org m))"
  shows "may_bill (db w) (u_id user) c"
  using assms
  by (auto simp: resolve_billing_customer_def effective_context_def django_customers_def customer_get_def may_bill_def run_simps
      dest!: first_by_filter_Some)

lemma billing_customer_reads: "resolve_billing_customer user context org w = (r, w') \<Longrightarrow> w' = w \<and> (\<exists>x. r = Inr x)"
  by (cases "context"; cases org)
    (auto simp: resolve_billing_customer_def effective_context_def default_subscription_context_def first_membership_def
      django_customers_def customer_get_def run_simps split: plan_context.splits option.splits)

lemma customer_Inr:
  assumes "get_customer_and_paid_subscription user (Some context) org w = (Inr (c, s, sid), w')"
    and "context = PERSONAL \<and> org = None
      \<or> context = TEAM \<and> (\<exists>m\<in>set (members (db w)). m_user m = u_id user \<and> m_is_billing m \<and> org = Some (m_org m))"
  shows "w' = w \<and> may_bill (db w) (u_id user) c \<and> s \<in> set (subscriptions (db w))
    \<and> s_customer s = Some (c_id c) \<and> s_stripe_id s = Some sid"
proof -
  obtain x where x: "resolve_billing_customer user (Some context) org w = (Inr x, w)"
    using billing_customer_reads by (metis surj_pair)
  with assms(1) have "x \<noteq> None" by (cases x) (auto simp: get_customer_and_paid_subscription_def)
  then obtain c' where c': "x = Some c'" by blast
  obtain r where r: "sub_active_for_customer django_subscriptions (c_id c') w = (Inr r, w)"
    using subs.active_returns by blast
  from assms(1) x c' r have "r = Some s \<and> c = c' \<and> s_stripe_id s = Some sid \<and> w' = w"
    by (cases r) (auto simp: get_customer_and_paid_subscription_def run_simps split: option.splits)
  with r subs.active_for_customer [of "c_id c'" w s w] billing_customer_Inr [OF x [unfolded c'] assms(2)] show ?thesis
    by simp
qed

lemma customer_reads: "read_only (get_customer_and_paid_subscription user context org)"
proof (unfold read_only_def, rule allI)
  fix w
  obtain x where x: "resolve_billing_customer user context org w = (Inr x, w)"
    using billing_customer_reads by (metis surj_pair)
  show "snd (get_customer_and_paid_subscription user context org w) = w"
  proof (cases x)
    case (Some c)
    obtain r where "sub_active_for_customer django_subscriptions (c_id c) w = (Inr r, w)"
      using subs.active_returns by blast
    with x Some show ?thesis
      by (simp add: get_customer_and_paid_subscription_def split: option.split)
  qed (use x in \<open>simp add: get_customer_and_paid_subscription_def\<close>)
qed


section \<open>Requests that change a subscription\<close>

datatype billing_request = ChangeSubscription update_body | CancelSubscription | DropScheduledChange

fun run_billing :: "env \<Rightarrow> user \<Rightarrow> price_query \<Rightarrow> billing_request \<Rightarrow> unit io" where
  "run_billing E user q (ChangeSubscription b) = mseq (subscription_patch_view E user b q) (mret ())"
| "run_billing E user q CancelSubscription = mseq (subscription_delete_view E user q) (mret ())"
| "run_billing E user q DropScheduledChange = mseq (scheduled_change_delete_view E user q) (mret ())"

definition billed :: "env \<Rightarrow> uuid \<Rightarrow> world \<Rightarrow> world \<Rightarrow> bool" where
  "billed E u w w' \<longleftrightarrow> db w' = db w \<and> calls w' = calls w
     \<or> (\<exists>c. may_bill (db w) u c \<and> billed_only E (c_id c) w w')"

lemma billed_refl: "billed E u w w"
  by (simp add: billed_def)

lemma billed_after_read:
  assumes "read_only m" and "\<And>x. m w = (Inr x, w) \<Longrightarrow> billed E u w (snd (f x w))"
  shows "billed E u w (snd (mbind m f w))"
  using assms billed_refl [of E u w] by (cases "m w") (auto simp: mbind_def read_only_def split: sum.splits dest: spec [of _ w])

lemma billed_after_seq: "billed E u w (snd (m w)) \<Longrightarrow> keeps (billed E u w) k \<Longrightarrow> billed E u w (snd (mseq m k w))"
  by (cases "m w") (auto simp: mseq_run keeps_def split: sum.splits)

lemma read_only_intros:
  "read_only (mret x)" "read_only (mraise e)" "read_only (mgets g)" "read_only (mlift r)" "read_only (mguard b e)"
  "read_only (first_row T P)" "read_only (count_rows T P)" "read_only (rows T P)" "read_only (exists_row T P)"
  by (auto simp: read_only_def)

lemma read_only_mbind: "read_only m \<Longrightarrow> (\<And>x. read_only (f x)) \<Longrightarrow> read_only (mbind m f)"
  by (auto simp: read_only_def mbind_run split: prod.splits sum.splits) (metis snd_conv)+

lemma keeps_billed:
  "keeps (billed E u w) (on_commit t)" "keeps (billed_only E k w) (on_commit t)"
  by (auto simp: keeps_def billed_def billed_only_def)

lemma resolve_price_reads: "read_only (resolve_plan_change_price p cur)"
  by (auto simp: read_only_def resolve_plan_change_price_def localized_for_currency_def run_simps split: option.splits)

lemma requested_reads: "read_only (requested_price b)"
  by (auto simp: read_only_def requested_price_def get_active_plan_price_def run_simps split: option.splits)

lemma apply_scope:
  assumes "consistent w" and "context = PERSONAL \<and> org = None
      \<or> context = TEAM \<and> (\<exists>m\<in>set (members (db w)). m_user m = u_id user \<and> m_is_billing m \<and> org = Some (m_org m))"
    and "\<And>c s sid. may_bill (db w) (u_id user) c \<Longrightarrow> owned_subscription w (c_id c) s sid
      \<Longrightarrow> keeps (billed_only E (c_id c) w) (f (c, s, sid))"
  shows "billed E (u_id user) w (snd (mbind (get_customer_and_paid_subscription user (Some context) org) f w))"
proof (rule billed_after_read [OF customer_reads])
  fix x assume g: "get_customer_and_paid_subscription user (Some context) org w = (Inr x, w)"
  obtain c s sid where x: "x = (c, s, sid)" by (cases x)
  from customer_Inr [OF g [unfolded x] assms(2)] have c: "may_bill (db w) (u_id user) c"
    and o: "owned_subscription w (c_id c) s sid"
    using assms(1) by (auto simp: owned_subscription_def consistent_def db_ok_def tables_ok_def subscriptions_ok_def)
  from keepsD [OF assms(3) [OF c o] billed_only_refl] c show "billed E (u_id user) w (snd (f x w))"
    unfolding x billed_def by blast
qed

lemma keeps_change:
  assumes o: "owned_subscription w (c_id c) s sid"
  shows "keeps (billed_only E (c_id c) w) (case ub_cancel b of
       Some x \<Rightarrow> apply_cancel_toggle E c x
     | None \<Rightarrow> (case price of
         Some p \<Rightarrow> apply_plan_change E s sid p (ub_seat_limit b) (ub_prorates b) org
       | None \<Rightarrow> (case ub_seat_limit b of Some n \<Rightarrow> apply_seat_only E s n org | None \<Rightarrow> mret ())))"
proof -
  have d: "distinct (map s_id (subscriptions (db w)))" using o by (simp add: owned_subscription_def)
  have s: "same_subscription s s" by (simp add: same_subscription_def)
  show ?thesis
    unfolding apply_cancel_toggle_def apply_plan_change_def apply_seat_only_def reject_seat_limit_below_member_count_def
    by (intro keeps_intros billed_cancel [OF d] billed_resume [OF d] owned_change_plan [OF o] owned_seats [OF o s]
        read_only_keeps [OF resolve_price_reads])
qed


lemma refetch_reads: "read_only (refetch_subscription_after_mutation user context)"
  unfolding refetch_subscription_after_mutation_def get_active_subscriptions_for_user_def first_membership_def Let_def
  by (intro read_only_mbind read_only_intros) (simp_all add: read_only_def split: option.split)

lemma recipients_reads: "read_only (billing_notice_recipients user org)"
  by (simp add: read_only_def billing_notice_recipients_def split: option.split)

lemma keeps_notify: "keeps (billed E u w) (notify_cancel rs s a)"
  unfolding notify_cancel_def by (intro keeps_intros keeps_billed)

lemmas keeps_view_tail = keeps_intros keeps_notify read_only_keeps [OF refetch_reads] read_only_keeps [OF recipients_reads]

lemma keeps_answer:
  "keeps (billed E u w) (answer_update E user q context org cancel)"
  "keeps (billed E u w) (announce_cancel E user q context org)"
  unfolding answer_update_def announce_cancel_def by (intro keeps_view_tail)+

lemma check_seats_reads: "read_only (check_requested_seats found n)"
  by (auto simp: read_only_def check_requested_seats_def mseq_run split: option.split sum.split prod.split)

lemma patch_scope:
  assumes "consistent w"
  shows "billed E (u_id user) w (snd (subscription_patch_view E user b q w))"
  unfolding subscription_patch_view_def
proof (rule billed_after_read [OF read_only_intros(4)], rule billed_after_read [OF mutation_reads], clarify,
    rule billed_after_read [OF requested_reads], rule billed_after_read [OF check_seats_reads],
    rule billed_after_seq [OF _ keeps_answer(1)])
  fix ctx org found
  assume a: "resolve_mutation_context (q_context q) user w = (Inr (ctx, org), w)"
  show "billed E (u_id user) w (snd (change_subscription E user ctx org b (map_option fst found) w))"
    unfolding change_subscription_def
    by (rule apply_scope [OF assms authority_Inr(2) [OF a]], unfold prod.case, rule keeps_change)
qed

lemma delete_scope:
  assumes "consistent w"
  shows "billed E (u_id user) w (snd (subscription_delete_view E user q w))"
  unfolding subscription_delete_view_def
proof (rule billed_after_read [OF mutation_reads], clarify, rule billed_after_seq)
  fix ctx org
  assume a: "resolve_mutation_context (q_context q) user w = (Inr (ctx, org), w)"
  show "billed E (u_id user) w (snd (mbind (get_customer_and_paid_subscription user (Some ctx) org) (\<lambda>(customer, _, _).
      cancel_subscription E (c_id customer) True django_subscriptions) w))"
    by (rule apply_scope [OF assms authority_Inr(2) [OF a]]) (simp add: billed_cancel owned_subscription_def)
qed (intro keeps_intros keeps_answer)

lemma release_scope:
  assumes "consistent w"
  shows "billed E (u_id user) w (snd (scheduled_change_delete_view E user q w))"
  unfolding scheduled_change_delete_view_def
proof (rule billed_after_read [OF mutation_reads], clarify, rule billed_after_seq)
  fix ctx org
  assume a: "resolve_mutation_context (q_context q) user w = (Inr (ctx, org), w)"
  show "billed E (u_id user) w (snd (mbind (get_customer_and_paid_subscription user (Some ctx) org) (\<lambda>(customer, _, _).
      release_pending_schedule_for_customer E (c_id customer) django_subscriptions) w))"
    by (rule apply_scope [OF assms authority_Inr(2) [OF a]]) (simp add: billed_release owned_subscription_def)
qed (intro keeps_intros)

text \<open>
  C27. A request that changes a subscription, whatever its outcome, touches only subscriptions the caller may
  bill: those of the caller's own customer, or of an organisation in which the caller holds the billing
  flag.  Nothing but subscription rows changes, a changed row keeps its identity, owner, plan and
  currency, and every call to Stripe that names a subscription names one of that customer; a schedule is
  created only from the id Stripe gave for such a subscription.
\<close>

theorem billing_change_scope:
  assumes "consistent w" and "run_billing E user q req w = (r, w')"
  shows "billed E (u_id user) w w'"
proof -
  have "billed E (u_id user) w (snd (run_billing E user q req w))"
    using assms(1) by (cases req) (auto intro!: billed_after_seq patch_scope delete_scope release_scope keeps_mret)
  with assms(2) show ?thesis by simp
qed

theorem billing_change_scope_witness:
  "\<exists>w'. run_billing sample_env sample_user (sample_query\<lparr>q_context := Some ''personal''\<rparr>) CancelSubscription
      (start_world sample_db) = (Inr (), w')
    \<and> billed sample_env 1 (start_world sample_db) w'
    \<and> SubModifyCancelAt ''sub_1'' ''min_period_end'' \<in> set (calls w')"
proof -
  let ?run = "run_billing sample_env sample_user (sample_query\<lparr>q_context := Some ''personal''\<rparr>) CancelSubscription
      (start_world sample_db)"
  have f: "fst ?run = Inr ()" "SubModifyCancelAt ''sub_1'' ''min_period_end'' \<in> set (calls (snd ?run))"
    by code_simp+
  then have r: "?run = (Inr (), snd ?run)" by (simp add: prod_eq_iff)
  have "u_id sample_user = 1" by (simp add: sample_user_def)
  with billing_change_scope [OF sample_consistent r] f r show ?thesis by (intro exI [of _ "snd ?run"]) simp
qed

section \<open>Seats\<close>

lemma seats_rejected:
  assumes "n < int (length (filter (\<lambda>m. m_org m = g) (members (db w))))"
  shows "reject_seat_limit_below_member_count g n w = (Inl SeatsBelowMemberCountError, w)"
  using assms by (simp add: reject_seat_limit_below_member_count_def run_simps)

lemma seat_change_rejected:
  assumes "n < int (length (filter (\<lambda>m. m_org m = g) (members (db w))))"
  shows "\<exists>e. (case price of
         Some p \<Rightarrow> apply_plan_change E s sid p (Some n) prorate (Some g)
       | None \<Rightarrow> apply_seat_only E s n (Some g)) w = (Inl e, w)"
proof (cases price)
  case (Some p)
  obtain r where r: "resolve_plan_change_price p (s_currency s) w = (r, w)"
    using read_onlyD [OF resolve_price_reads] by (metis surj_pair)
  then show ?thesis using Some seats_rejected [OF assms]
    by (cases r) (auto simp: apply_plan_change_def)
next
  case None
  then show ?thesis using seats_rejected [OF assms]
    by (auto simp: apply_seat_only_def mbind_run mseq_run split: sum.splits option.splits)
qed

text \<open>
  C39. The seats of an organisation cover its members.  When a change of an organisation's subscription asks
  for a seat count outside 1 to 10000, or below the number of members the organisation has, it is refused,
  with a plan or alone: no row is written, Stripe is not called and no mail is queued.
\<close>

theorem seats_cover_members:
  assumes "ub_seat_limit b = Some n"
    and "resolve_mutation_context (q_context q) user w = (Inr (TEAM, Some g), w)"
    and "n < 1 \<or> 10000 < n \<or> n < int (length (filter (\<lambda>m. m_org m = g) (members (db w))))"
  shows "\<exists>e. subscription_patch_view E user b q w = (Inl e, w)"
proof -
  have "\<exists>e. change_subscription E user TEAM (Some g) b price w = (Inl e, w)"
    if "ub_cancel b = None" "n < int (length (filter (\<lambda>m. m_org m = g) (members (db w))))" for price
  proof (cases "get_customer_and_paid_subscription user (Some TEAM) (Some g) w")
    case (Pair r w1)
    then have w1: "w1 = w" by (rule read_onlyD [OF customer_reads])
    show ?thesis
    proof (cases r)
      case (Inl e)
      with Pair w1 show ?thesis by (simp add: change_subscription_def)
    next
      case (Inr x)
      obtain c s sid where "x = (c, s, sid)" by (cases x)
      with Pair w1 Inr seat_change_rejected [OF that(2), where price = price and E = E and s = s and sid = sid and prorate = "ub_prorates b"] that(1) assms(1) show ?thesis
        by (cases price) (simp_all add: change_subscription_def)
    qed
  qed
  note change = this
  show ?thesis
  proof (cases "update_subscription_valid b")
    case (Inl e)
    then show ?thesis by (simp add: subscription_patch_view_def)
  next
    case (Inr u)
    then have v: "1 \<le> n" "n \<le> 10000" "ub_cancel b = None"
      using assms(1) by (auto simp: update_subscription_valid_def in_bounds_def Let_def split: if_splits)
    then have few: "n < int (length (filter (\<lambda>m. m_org m = g) (members (db w))))" using assms(3) by auto
    obtain r where r: "requested_price b w = (r, w)"
      using read_onlyD [OF requested_reads] by (metis surj_pair)
    show ?thesis
    proof (cases r)
      case (Inl e)
      with r Inr assms(2) show ?thesis by (simp add: subscription_patch_view_def)
    next
      fix found assume found: "r = Inr found"
      obtain r' where r': "check_requested_seats found (ub_seat_limit b) w = (r', w)"
        using read_onlyD [OF check_seats_reads] by (metis surj_pair)
      show ?thesis
      proof (cases r')
        case (Inl e)
        with r r' found Inr assms(2) show ?thesis by (simp add: subscription_patch_view_def)
      next
        fix y assume y: "r' = Inr y"
        obtain e where "change_subscription E user TEAM (Some g) b (map_option fst found) w = (Inl e, w)"
          using change [OF v(3) few] by blast
        with r r' found y Inr assms(2) show ?thesis by (simp add: subscription_patch_view_def)
      qed
    qed
  qed
qed

text \<open>The sample organisation has two members: one seat is refused, two are accepted.\<close>

definition seats_body :: "int \<Rightarrow> update_body" where
  "seats_body n = \<lparr>ub_plan_price_id = None, ub_prorate = None, ub_seat_limit = Some n, ub_cancel = None\<rparr>"

theorem seats_cover_members_witness:
  "length (filter (\<lambda>m. m_org m = 10) (members sample_db)) = 2
   \<and> (\<exists>e. subscription_patch_view sample_env sample_user (seats_body 1) sample_query (start_world sample_db)
        = (Inl e, start_world sample_db))
   \<and> (case fst (subscription_patch_view sample_env sample_user (seats_body 2) sample_query (start_world sample_db)) of
        Inr v \<Rightarrow> True | Inl e \<Rightarrow> False)"
proof -
  have "fst (resolve_mutation_context (q_context sample_query) sample_user (start_world sample_db)) = Inr (TEAM, Some 10)"
    by code_simp
  then have r: "resolve_mutation_context (q_context sample_query) sample_user (start_world sample_db)
      = (Inr (TEAM, Some 10), start_world sample_db)"
    using read_onlyD [OF mutation_reads] by (metis prod.collapse)
  have two: "length (filter (\<lambda>m. m_org m = 10) (members sample_db)) = 2" by code_simp
  have "\<exists>e. subscription_patch_view sample_env sample_user (seats_body 1) sample_query (start_world sample_db)
      = (Inl e, start_world sample_db)"
    by (rule seats_cover_members [where n = 1, OF _ r]) (simp_all add: seats_body_def two start_world_def)
  moreover have "case fst (subscription_patch_view sample_env sample_user (seats_body 2) sample_query
      (start_world sample_db)) of Inr v \<Rightarrow> True | Inl e \<Rightarrow> False" by code_simp
  ultimately show ?thesis using two by blast
qed

text \<open>
  The context of the new plan is not compared with that of the subscription: a personal subscription is
  switched to a team plan with five seats, although no organisation exists to use them.
\<close>

lemma plan_change_crosses_contexts:
  "let (r, w') = subscription_patch_view sample_env sample_user
      \<lparr>ub_plan_price_id = Some 25, ub_prorate = None, ub_seat_limit = Some 5, ub_cancel = None\<rparr>
      (sample_query\<lparr>q_context := Some ''personal''\<rparr>) (start_world sample_db)
   in (case r of Inr v \<Rightarrow> True | Inl _ \<Rightarrow> False)
     \<and> last (calls w') = SubModifyItem ''sub_1'' ''si_1'' (Some ''price_3'') 5 ''create_prorations''"
  by code_simp

text \<open>
  A user whose first membership is in one organisation and whose billing flag is in another: the change
  reaches the right subscription, the answer is looked up in the wrong organisation.
\<close>

definition two_team_world :: world where
  "two_team_world = start_world (sample_db\<lparr>
     orgs := orgs sample_db @ [\<lparr>o_id = 9, o_name = ''Other'', o_slug = ''other'', o_logo_url = None, o_created_by = None, o_created_at = 0\<rparr>],
     members := members sample_db @ [\<lparr>m_id = 1, m_org = 9, m_user = 1, m_role = MEMBER, m_is_billing = False, m_joined_at = 0\<rparr>]\<rparr>)"

lemma refetch_in_other_organisation:
  "let (r, w') = subscription_patch_view sample_env sample_user
      \<lparr>ub_plan_price_id = None, ub_prorate = None, ub_seat_limit = None, ub_cancel = Some True\<rparr>
      (sample_query\<lparr>q_context := Some ''team''\<rparr>) two_team_world
   in (case r of Inl NotFound \<Rightarrow> True | _ \<Rightarrow> False)
     \<and> SubModifyCancelAt ''sub_2'' ''min_period_end'' \<in> set (calls w') \<and> queue w' = []"
  by code_simp

end
