(* ===== verification/Checkout.thy ===== *)
theory Checkout
  imports BillingViews
begin

text \<open>
  The composition of the billing API with the webhook through Stripe: what a checkout session was opened
  for is what the handler of \<open>checkout.session.completed\<close> reads when the session comes back.  What
  Stripe does in between is the definition \<open>completed_session\<close>.
\<close>

section \<open>What Stripe hands back\<close>

text \<open>
  The completed session that Stripe delivers: it repeats the mode, the reference, the customer and the
  metadata of the session that was opened.
\<close>

definition completed_session :: "checkout_params \<Rightarrow> string \<Rightarrow> json \<Rightarrow> bool \<Rightarrow> json" where
  "completed_session p session subscription livemode = JObj [(''id'', JStr session), (''mode'', JStr (k_mode p)),
     (''client_reference_id'', JStr (k_client_reference_id p)), (''customer'', JStr (k_customer p)),
     (''subscription'', subscription), (''livemode'', JBool livemode),
     (''metadata'', case k_metadata p of None \<Rightarrow> JNull | Some md \<Rightarrow> JObj (map (\<lambda>(k, v). (k, JStr v)) md))]"

lemma call_stripe_InrE:
  assumes "call_stripe E c w = (Inr j, w')"
  obtains "calls w' = calls w @ [c]"
  using assms by (auto simp: call_stripe_def)

lemma checkout_Inr:
  assumes "open_checkout E user data is_team quantity price currency w = (Inr url, w')"
  obtains md p where "build_checkout_metadata is_team data = Inr md" and "last (calls w') = CheckoutCreate p"
    and "k_metadata p = md" and "k_client_reference_id p = uuid_str (u_id user)" and "k_mode p = ''subscription''"
proof -
  from assms obtain md customer w1 where md: "build_checkout_metadata is_team data = Inr md"
    and run: "create_checkout_session E customer price (uuid_str (u_id user)) currency quantity (u_locale user)
       (kd_success_url data) (kd_cancel_url data) (if is_team then None else kd_trial_period_days data) md w1 = (Inr url, w')"
    unfolding open_checkout_def by (elim mseq_InrE mbind_InrE mlift_InrE) blast
  from run have "last (calls w') = CheckoutCreate (checkout_request ''subscription'' customer price (uuid_str (u_id user))
      currency quantity (u_locale user) (kd_success_url data) (kd_cancel_url data) md
      (if is_team then None else kd_trial_period_days data))"
    unfolding create_checkout_session_def by (elim mbind_InrE mlift_InrE call_stripe_InrE) simp
  with md show thesis by (rule that) (simp_all add: checkout_request_def)
qed

text \<open>
  C30. What a team checkout asks for survives the round trip through Stripe: when the session that the view
  opened for a team plan comes back completed, the webhook reads from it the user who opened it, the
  organisation's name, the customer that was minted, and the choice about the personal subscription.
\<close>

theorem team_checkout_round_trip:
  assumes "checkout_session_view E user body q w = (Inr url, w')"
    and "u_id user < 2 ^ 128" and "get_active_plan_price (kb_plan_price_id body) w = (Inr (price, plan), w)"
    and "p_context plan = TEAM"
  shows "\<exists>p name. last (calls w') = CheckoutCreate p \<and> kb_org_name body = Some name \<and> (k_customer p \<noteq> [] \<longrightarrow>
    team_checkout_args (completed_session p session sub livemode)
      = Inr (Some (u_id user, JStr (strip_chars is_space name), k_customer p, JBool livemode, sub,
          kb_keep_personal body = Some True)))"
proof -
  from assms(1) obtain data where data: "checkout_request_valid body = Inr data"
    unfolding checkout_session_view_def by (elim mbind_InrE mlift_InrE)
  have k: "kd_plan_price_id data = kb_plan_price_id body" "kd_org_name data = map_option (strip_chars is_space) (kb_org_name body)"
    "kd_keep_personal data \<longleftrightarrow> kb_keep_personal body = Some True"
    "\<And>s. kb_org_name body = Some s \<Longrightarrow> strip_chars is_space s \<noteq> []"
    using data by (auto simp: checkout_request_valid_def split: if_splits option.splits)
  from assms(1,3,4) k data obtain qty pid cur w1 where "open_checkout E user data True qty pid cur w1 = (Inr url, w')"
    unfolding checkout_session_view_def
    by (elim mbind_InrE mlift_InrE) (auto split: prod.splits elim!: mbind_InrE)
  then obtain customer md p where md: "build_checkout_metadata True data = Inr md"
    and p: "k_metadata p = md" "k_client_reference_id p = uuid_str (u_id user)"
    and log: "last (calls w') = CheckoutCreate p"
    by (rule checkout_Inr) blast
  from md obtain name where name: "kb_org_name body = Some name"
    using k by (auto simp: build_checkout_metadata_def split: option.splits)
  have "strip_chars is_space name \<noteq> []" using k(4) name by blast
  with md p name k log uuid_parse_str [OF assms(2)] show ?thesis
    by (auto simp: build_checkout_metadata_def team_checkout_args_def completed_session_def get_metadata_def
        py_or_def dget_def uuid_str_nonempty)
qed


definition sample_team_body :: checkout_body where
  "sample_team_body = \<lparr>kb_plan_price_id = 25, kb_seat_limit = Some 3, kb_success_url = ''https://a/ok'',
     kb_cancel_url = ''https://a/no'', kb_trial_period_days = Some 14, kb_org_name = Some ''Bobs'', kb_keep_personal = Some True\<rparr>"

definition sample_bob :: user where
  "sample_bob = sample_user\<lparr>u_id := 2, u_email := ''bob@example.com'', u_full_name := ''Bob''\<rparr>"

definition sample_session_env :: env where
  "sample_session_env = start_env\<lparr>stripe := (\<lambda>log c. Inr (JObj [(''id'', JStr ''cus_team''), (''url'', JStr ''https://stripe'')]))\<rparr>"

theorem team_checkout_round_trip_witness:
  "\<exists>p. last (calls (snd (checkout_session_view sample_session_env sample_bob sample_team_body sample_query (start_world sample_db))))
        = CheckoutCreate p
    \<and> team_checkout_args (completed_session p ''cs_1'' (JStr ''sub_9'') False)
      = Inr (Some (2, JStr ''Bobs'', ''cus_team'', JBool False, JStr ''sub_9'', True))"
proof -
  let ?run = "checkout_session_view sample_session_env sample_bob sample_team_body sample_query (start_world sample_db)"
  let ?price = "plan_prices sample_db ! 2" and ?plan = "plans sample_db ! 2"
  have b: "u_id sample_bob = 2" "kb_org_name sample_team_body = Some ''Bobs''" "kb_keep_personal sample_team_body = Some True"
    by (simp_all add: sample_bob_def sample_team_body_def)
  have f: "fst ?run = Inr (JStr ''https://stripe'')" by code_simp
  then have r: "?run = (Inr (JStr ''https://stripe''), snd ?run)" by (simp add: prod_eq_iff)
  have u: "u_id sample_bob < 2 ^ 128" by (simp add: b)
  have p: "get_active_plan_price (kb_plan_price_id sample_team_body) (start_world sample_db)
      = (Inr (?price, ?plan), start_world sample_db)" "p_context ?plan = TEAM"
    by (simp_all add: get_active_plan_price_def sample_team_body_def sample_simps run_simps)
  from team_checkout_round_trip [OF r u p, of "''cs_1''" "JStr ''sub_9''" False] b obtain p where
    l: "last (calls (snd ?run)) = CheckoutCreate p"
    and args: "k_customer p \<noteq> [] \<longrightarrow> team_checkout_args (completed_session p ''cs_1'' (JStr ''sub_9'') False)
      = Inr (Some (2, JStr (strip_chars is_space ''Bobs''), k_customer p, JBool False, JStr ''sub_9'', True))"
    by auto
  have "(case last (calls (snd ?run)) of CheckoutCreate p \<Rightarrow> k_customer p | _ \<Rightarrow> []) = ''cus_team''" by code_simp
  then have "k_customer p = ''cus_team''" using l by simp
  moreover have "strip_chars is_space ''Bobs'' = ''Bobs''" by code_simp
  ultimately show ?thesis using l args by auto
qed


lemma resolve_checkout_reads: "read_only (resolve_checkout_price E p q user)"
  unfolding resolve_checkout_price_def get_country_stripe_price_def resolve_stripe_price_id_def localized_for_currency_def
  by (auto simp: read_only_def run_simps split: option.split sum.split)

text \<open>A customer that was looked up or created is stored, as the owner's it was asked for.\<close>

lemma customer_stored:
  assumes run: "get_or_create_customer E user org email name locale django_customers w = (Inr c, w')"
  shows "\<exists>r\<in>set (customers (db w')). c_stripe_id r = c_stripe_id c
    \<and> (case user of Some u \<Rightarrow> c_user r = Some u | None \<Rightarrow> org \<noteq> None \<and> c_org r = org)"
proof -
  define P where "P r \<longleftrightarrow> (case user of Some u \<Rightarrow> c_user r = Some u | None \<Rightarrow> org \<noteq> None \<and> c_org r = org)" for r :: customer
  from run have owner: "user \<noteq> None \<or> org \<noteq> None"
    by (auto simp: get_or_create_customer_def run_simps split: option.splits)
  have look: "(case user of Some u \<Rightarrow> cust_by_user_id django_customers u
      | None \<Rightarrow> (case org of Some g \<Rightarrow> cust_by_org_id django_customers g | None \<Rightarrow> mraise ValueError)) w
      = (Inr (first_by c_id (filter P (customers (db w)))), w)"
    using owner by (auto simp: P_def [abs_def] customer_get_def run_simps split: option.splits)
  show ?thesis
  proof (cases "first_by c_id (filter P (customers (db w)))")
    case (Some r)
    with run look have "c = r" "w' = w" by (simp_all add: get_or_create_customer_def mbind_run)
    with Some first_by_filter_Some [OF Some] show ?thesis by (auto simp: P_def)
  next
    case None
    with run look obtain i j t w2 c2 where c2: "new_customer i j user org t = Inr c2"
      and save: "customer_save c2 w2 = (Inr c, w')" and w2: "db w2 = db w"
      by (auto simp: get_or_create_customer_def run_simps split: sum.splits)
    have k: "c_user c2 = user" "c_org c2 = org"
      using c2 by (auto simp: new_customer_def elim!: rbind_InrE split: if_splits)
    have "filter (\<lambda>r. if c_user c2 \<noteq> None then c_user r = c_user c2
        else if c_org c2 \<noteq> None then c_org r = c_org c2 else c_id r = c_id c2) (customers (db w2)) = filter P (customers (db w))"
      using owner by (auto simp: k w2 P_def split: option.splits intro!: filter_cong)
    with None save owner have "c2\<lparr>c_id := id_supply w2 (drawn w2), c_created_at := clock w2\<rparr> \<in> set (customers (db w')) \<and> c = c2"
      by (auto simp: customer_save_def run_simps create_row_def k split: if_splits)
    then show ?thesis using owner k
      by (intro bexI [of _ "c2\<lparr>c_id := id_supply w2 (drawn w2), c_created_at := clock w2\<rparr>"])
        (auto split: option.splits)
  qed
qed

lemma product_checkout_Inr:
  assumes "product_checkout_session_view E user k success cancel q w = (Inr url, w')"
    and "get_active_product_price k w = (Inr price, w)"
  obtains ctx org c pid cur w3 w2 where "validate_subscription_context (q_context q) = Inr ctx"
    and "resolve_product_purchase_context user ctx w = (Inr org, w)"
    and "buyer_customer E user org w3 = (Inr c, w2)"
    and "create_product_checkout_session E (c_stripe_id c) pid (uuid_str (u_id user)) cur (u_locale user) success cancel
      (Some (product_metadata (xp_product price) org)) w2 = (Inr url, w')"
proof -
  from assms(1) obtain ctx org w1 where v: "validate_subscription_context (q_context q) = Inr ctx"
    and o: "resolve_product_purchase_context user ctx w = (Inr org, w1)"
    and rest: "mbind (mlift (resolve_billing_currency E (q_currency q) (Some user))) (\<lambda>_.
     mbind (get_active_product_price k) (\<lambda>price.
     mbind (resolve_checkout_price E (OfProduct price) q (Some user)) (\<lambda>(stripe_price_id, currency).
     mbind (buyer_customer E user org) (\<lambda>customer.
     create_product_checkout_session E (c_stripe_id customer) stripe_price_id (uuid_str (u_id user)) currency
       (u_locale user) success cancel (Some (product_metadata (xp_product price) org)))))) w1 = (Inr url, w')"
    unfolding product_checkout_session_view_def by (elim mbind_InrE mlift_InrE) simp
  have w1: "w1 = w" using o by (auto simp: resolve_product_purchase_context_def first_membership_def run_simps
        split: option.splits plan_context.splits if_splits)
  from rest have "mbind (resolve_checkout_price E (OfProduct price) q (Some user)) (\<lambda>(stripe_price_id, currency).
     mbind (buyer_customer E user org) (\<lambda>customer.
     create_product_checkout_session E (c_stripe_id customer) stripe_price_id (uuid_str (u_id user)) currency
       (u_locale user) success cancel (Some (product_metadata (xp_product price) org)))) w = (Inr url, w')"
    unfolding w1 by (elim mbind_InrE mlift_InrE) (simp add: assms(2))
  then obtain pc w3 where "(\<lambda>(stripe_price_id, currency). mbind (buyer_customer E user org) (\<lambda>customer.
     create_product_checkout_session E (c_stripe_id customer) stripe_price_id (uuid_str (u_id user)) currency
       (u_locale user) success cancel (Some (product_metadata (xp_product price) org)))) pc w3 = (Inr url, w')"
    by (rule mbind_InrE)
  then show thesis using v o [unfolded w1] by (cases pc) (auto elim!: mbind_InrE intro: that)
qed

text \<open>Who pays: nobody but the user in the personal context, else the organisation that the user owns.\<close>

lemma purchase_org:
  assumes "validate_subscription_context param = Inr ctx" and "resolve_product_purchase_context user ctx w = (Inr org, w)"
  shows "if given param = Some ''personal'' \<or> given param = None \<and> (\<forall>m\<in>set (members (db w)). m_user m \<noteq> u_id user)
    then org = None
    else \<exists>m\<in>set (members (db w)). m_user m = u_id user \<and> m_role m = OWNER \<and> org = Some (m_org m)"
  using assms
  by (auto simp: validate_subscription_context_def resolve_product_purchase_context_def first_membership_def run_simps
      filter_empty_conv split: option.splits plan_context.splits if_splits dest!: first_by_filter_Some)

text \<open>
  C31. Buying credits.  In the personal context, or without one when the user is in no organisation, the
  user pays; else the organisation pays that the user belongs to, and only when the user is its owner.
  The session charges the stored Stripe customer of the one who pays, and when it comes back
  completed, the webhook credits the product whose price was charged, for the user who bought it, to
  the very one who paid.
\<close>

theorem credit_purchase_round_trip:
  assumes "product_checkout_session_view E user k success cancel q w = (Inr url, w')"
    and "get_active_product_price k w = (Inr price, w)"
    and "u_id user < 2 ^ 128" and "xp_product price < 2 ^ 128" and "\<forall>m\<in>set (members (db w)). m_org m < 2 ^ 128"
    and "session \<noteq> []"
  shows "\<exists>p payer. last (calls w') = CheckoutCreate p \<and> k_mode p = ''payment''
    \<and> (if given (q_context q) = Some ''personal''
          \<or> given (q_context q) = None \<and> (\<forall>m\<in>set (members (db w)). m_user m \<noteq> u_id user)
       then payer = None
       else \<exists>m\<in>set (members (db w)). m_user m = u_id user \<and> m_role m = OWNER \<and> payer = Some (m_org m))
    \<and> (\<exists>c\<in>set (customers (db w')). c_stripe_id c = k_customer p
         \<and> (case payer of None \<Rightarrow> c_user c = Some (u_id user) | Some g \<Rightarrow> c_org c = Some g))
    \<and> product_checkout_args (completed_session p session sub livemode)
        = Inr (Some (session, xp_product price, u_id user, payer))"
proof -
  from assms(1,2) obtain ctx org c pid cur w3 w2 where v: "validate_subscription_context (q_context q) = Inr ctx"
    and o: "resolve_product_purchase_context user ctx w = (Inr org, w)"
    and buyer: "buyer_customer E user org w3 = (Inr c, w2)"
    and run: "create_product_checkout_session E (c_stripe_id c) pid (uuid_str (u_id user)) cur (u_locale user) success cancel
      (Some (product_metadata (xp_product price) org)) w2 = (Inr url, w')" by (rule product_checkout_Inr)
  let ?p = "checkout_request ''payment'' (c_stripe_id c) pid (uuid_str (u_id user)) cur 1 (u_locale user) success cancel
      (Some (product_metadata (xp_product price) org)) None"
  note org = purchase_org [OF v o]
  have l: "last (calls w') = CheckoutCreate ?p" and d: "db w' = db w2"
    using run unfolding create_product_checkout_session_def
    by (auto simp: call_stripe_def elim!: mbind_InrE mlift_InrE)
  have paid: "\<exists>c\<in>set (customers (db w')). c_stripe_id c = k_customer ?p
         \<and> (case org of None \<Rightarrow> c_user c = Some (u_id user) | Some g \<Rightarrow> c_org c = Some g)"
    using buyer customer_stored unfolding d buyer_customer_def user_customer_def
    by (cases org) (fastforce simp: checkout_request_def)+
  have "\<forall>g. org = Some g \<longrightarrow> g < 2 ^ 128" using org assms(5) by (auto split: if_splits)
  then have "product_checkout_args (completed_session ?p session sub livemode)
      = Inr (Some (session, xp_product price, u_id user, org))"
    using assms(6) uuid_parse_str [OF assms(3)] uuid_parse_str [OF assms(4)]
    by (cases org) (auto simp: product_checkout_args_def completed_session_def checkout_request_def product_metadata_def
        get_metadata_def py_or_def dget_def uuid_str_nonempty uuid_parse_str)
  moreover have "k_mode ?p = ''payment''" by (simp add: checkout_request_def)
  ultimately show ?thesis using org l paid by (intro exI [of _ ?p] exI [of _ org] conjI)
qed

definition sample_product_world :: world where
  "sample_product_world = start_world (sample_db\<lparr>product_prices :=
     [\<lparr>xp_id = 8, xp_product = 7, xp_stripe_price_id = ''price_pack'', xp_amount = 500\<rparr>]\<rparr>)"

theorem credit_purchase_round_trip_witness:
  "\<exists>p. last (calls (snd (product_checkout_session_view sample_session_env sample_user 8 ''https://a/ok'' ''https://a/no''
        sample_query sample_product_world))) = CheckoutCreate p
    \<and> product_checkout_args (completed_session p ''cs_1'' JNull False) = Inr (Some (''cs_1'', 7, 1, Some 10))"
proof -
  let ?run = "product_checkout_session_view sample_session_env sample_user 8 ''https://a/ok'' ''https://a/no''
        sample_query sample_product_world"
  let ?price = "hd (product_prices (db sample_product_world))"
  have p: "get_active_product_price 8 sample_product_world = (Inr ?price, sample_product_world)"
    by (simp add: get_active_product_price_def sample_product_world_def sample_simps run_simps)
  have c: "validate_subscription_context (q_context sample_query) = Inr None"
    "resolve_billing_currency sample_session_env (q_currency sample_query) (Some sample_user) = Inr (''eur'', Some ''usd'')"
    by code_simp+
  have "fst (resolve_checkout_price sample_session_env (OfProduct ?price) sample_query (Some sample_user) sample_product_world)
      = Inr (''price_pack'', ''eur'')" by code_simp
  then have rc: "resolve_checkout_price sample_session_env (OfProduct ?price) sample_query (Some sample_user) sample_product_world
      = (Inr (''price_pack'', ''eur''), sample_product_world)"
    using read_onlyD [OF resolve_checkout_reads] by (metis prod.collapse)
  have ctx: "resolve_product_purchase_context sample_user None sample_product_world = (Inr (Some 10), sample_product_world)"
    by (simp add: resolve_product_purchase_context_def first_membership_def sample_product_world_def sample_simps run_simps)
  have f: "fst ?run = Inr (JStr ''https://stripe'')"
    by (simp add: product_checkout_session_view_def c p rc ctx)
      (simp add: buyer_customer_def get_or_create_customer_def django_customers_def customer_get_def
        create_product_checkout_session_def sample_product_world_def sample_simps sample_session_env_def run_simps)
  then have r: "?run = (Inr (JStr ''https://stripe''), snd ?run)" by (simp add: prod_eq_iff)
  have b: "u_id sample_user = 1" "xp_product ?price = 7" "\<forall>m\<in>set (members (db sample_product_world)). m_org m < 2 ^ 128"
    by (simp_all add: sample_product_world_def sample_simps)
  have small: "u_id sample_user < 2 ^ 128" "xp_product ?price < 2 ^ 128" "''cs_1'' \<noteq> []" by (simp_all add: b)
  have g: "given (q_context sample_query) = None" by code_simp
  have m: "m \<in> set (members (db sample_product_world)) \<Longrightarrow> m_org m = 10" for m
    by (auto simp: sample_product_world_def sample_simps)
  have team: "\<not> (given (q_context sample_query) = Some ''personal'' \<or> given (q_context sample_query) = None
      \<and> (\<forall>m\<in>set (members (db sample_product_world)). m_user m \<noteq> u_id sample_user))"
    using g by (auto simp: sample_product_world_def sample_simps)
  obtain p payer where l: "last (calls (snd ?run)) = CheckoutCreate p"
    and payer: "\<exists>m\<in>set (members (db sample_product_world)). payer = Some (m_org m)"
    and args: "product_checkout_args (completed_session p ''cs_1'' JNull False) = Inr (Some (''cs_1'', 7, 1, payer))"
    using credit_purchase_round_trip [OF r p small(1,2) b(3) small(3), of JNull False, unfolded if_not_P [OF team], unfolded b(1,2)]
    by blast
  from payer m have "payer = Some 10" by auto
  with l args show ?thesis by blast
qed

end
