(* ===== verification/Requests.thy ===== *)
theory Requests
  imports OrgServices Complex_Main "HOL-Library.AList"
begin

text \<open>
  What stands around the views: the answer an exception becomes (\<open>middleware/exceptions.py\<close>), the headers of
  every answer (\<open>middleware/security.py\<close>), the check of the redirect URLs that go to Stripe
  (\<open>apps/billing/serializers.py\<close>) and of a stored avatar's URL (\<open>apps/users/services.py\<close>), the captcha
  (\<open>apps/users/captcha.py\<close>), and the public form for inquiries with its throttle (\<open>apps/marketing\<close>).
\<close>

section \<open>Exceptions as answers\<close>

text \<open>\<open>exc_cls.__name__\<close> of the domain errors; other exceptions are no \<open>DomainError\<close>.\<close>

fun domain_error_name :: "exn \<Rightarrow> string option" where
  "domain_error_name UserNotFoundError = Some ''UserNotFoundError''"
| "domain_error_name OrgNotFoundError = Some ''OrgNotFoundError''"
| "domain_error_name SubscriptionNotFoundError = Some ''SubscriptionNotFoundError''"
| "domain_error_name SeatsBelowMemberCountError = Some ''SeatsBelowMemberCountError''"
| "domain_error_name InsufficientPermissionError = Some ''InsufficientPermissionError''"
| "domain_error_name (WebhookDataError s) = Some ''WebhookDataError''"
| "domain_error_name SeatCapReachedAtAcceptError = Some ''SeatCapReachedAtAcceptError''"
| "domain_error_name _ = None"

text \<open>Python's \<open>removesuffix\<close>, and the underscores that \<open>re.sub\<close> puts before capitals inside a name.\<close>

definition removesuffix :: "string \<Rightarrow> string \<Rightarrow> string" where
  "removesuffix s p = (if endswith s p then take (length s - length p) s else s)"

definition is_upper_alpha :: "char \<Rightarrow> bool" where
  "is_upper_alpha c \<longleftrightarrow> 65 \<le> (of_char c :: nat) \<and> (of_char c :: nat) \<le> 90"

definition underscores :: "string \<Rightarrow> string" where
  "underscores s = take 1 s @ concat (map (\<lambda>c. if is_upper_alpha c then ''_'' @ [c] else [c]) (tl s))"

definition code_for :: "string \<Rightarrow> string" where
  "code_for name = lower (underscores (removesuffix name ''Error''))"

definition status_map :: "(exn \<times> nat) list" where
  "status_map = [(UserNotFoundError, 404), (OrgNotFoundError, 404), (SubscriptionNotFoundError, 404),
     (SeatsBelowMemberCountError, 400), (InsufficientPermissionError, 403)]"

text \<open>
  The status and default code of the exceptions the REST framework knows.  A request it could not
  authenticate gets 401, because the authentication class has an \<open>authenticate_header\<close>.
\<close>

fun api_error :: "exn \<Rightarrow> (nat \<times> string) option" where
  "api_error ValidationError = Some (400, ''invalid'')"
| "api_error NotFound = Some (404, ''not_found'')"
| "api_error PermissionDenied = Some (403, ''permission_denied'')"
| "api_error (AuthenticationFailed s) = Some (401, ''authentication_failed'')"
| "api_error OrgAlreadyOwned = Some (409, ''org_already_owned'')"
| "api_error InvitationExpired = Some (410, ''invitation_expired'')"
| "api_error InvitationEmailExists = Some (409, ''email_exists'')"
| "api_error InvitationPendingExists = Some (409, ''invitation_pending'')"
| "api_error SeatLimitReached = Some (409, ''seat_limit_reached'')"
| "api_error InvitationAddressedToOther = Some (403, ''forbidden'')"
| "api_error EmailAlreadyExists = Some (409, ''email_exists'')"
| "api_error InvalidCredentials = Some (401, ''invalid_credentials'')"
| "api_error AccountDeactivated = Some (401, ''account_deactivated'')"
| "api_error InvalidPassword = Some (400, ''invalid_password'')"
| "api_error InvalidOAuthCode = Some (400, ''invalid_code'')"
| "api_error CaptchaFailedError = Some (400, ''captcha_failed'')"
| "api_error _ = None"

text \<open>
  The answer: its status and the \<open>code\<close> of its body; \<open>None\<close> when the handler passes the exception on (the
  server then answers 500).  \<open>http_status\<close> is the status Stripe answered with, \<open>keys\<close> the keys of the
  framework's body, which for a validation error are the names of the fields and otherwise only \<open>detail\<close>.
\<close>

definition domain_exception_handler :: "nat option \<Rightarrow> string list \<Rightarrow> exn \<Rightarrow> (nat \<times> string option) option" where
  "domain_exception_handler http_status keys e =
     (case domain_error_name e of
        Some name \<Rightarrow> Some (case map_of status_map e of Some s \<Rightarrow> s | None \<Rightarrow> 400, Some (code_for name))
      | None \<Rightarrow>
          if is_stripe_error e
          then Some (case http_status of Some s \<Rightarrow> if s = 0 then 502 else s | None \<Rightarrow> 502,
                 Some ''payment_provider_error'')
          else if e = Http404 then Some (404, None)
          else (case api_error e of
              Some (s, code) \<Rightarrow>
                Some (s, if e \<noteq> ValidationError \<or> set keys = {''detail''} then Some code else None)
            | None \<Rightarrow> None))"

lemma domain_error_codes:
  "code_for ''UserNotFoundError'' = ''user_not_found''" "code_for ''OrgNotFoundError'' = ''org_not_found''"
  "code_for ''SubscriptionNotFoundError'' = ''subscription_not_found''"
  "code_for ''SeatsBelowMemberCountError'' = ''seats_below_member_count''"
  "code_for ''InsufficientPermissionError'' = ''insufficient_permission''"
  "code_for ''WebhookDataError'' = ''webhook_data''"
  "code_for ''SeatCapReachedAtAcceptError'' = ''seat_cap_reached_at_accept''"
  by code_simp+

text \<open>The exceptions that reach the client as an error of the server.\<close>

definition unhandled :: "exn \<Rightarrow> bool" where
  "unhandled e \<longleftrightarrow> domain_error_name e = None \<and> api_error e = None \<and> \<not> is_stripe_error e \<and> e \<noteq> Http404"

lemma handler_answers:
  "domain_exception_handler h ks e = None \<longleftrightarrow> unhandled e"
  by (auto simp: domain_exception_handler_def unhandled_def split: option.splits)

lemma handler_client_errors:
  assumes "domain_exception_handler h ks e = Some (s, c)" and "\<not> is_stripe_error e"
  shows "400 \<le> s \<and> s < 500"
  using assms by (cases e) (auto simp: domain_exception_handler_def is_stripe_error_def status_map_def split: if_splits)

text \<open>A missing invitation or member is answered without the code that every other error carries.\<close>

lemma missing_row_has_no_code: "domain_exception_handler h [''detail''] Http404 = Some (404, None)"
  by (simp add: domain_exception_handler_def is_stripe_error_def)

lemma other_answers_have_code:
  "domain_exception_handler h [''detail''] e = Some (s, c) \<Longrightarrow> e \<noteq> Http404 \<Longrightarrow> c \<noteq> None"
  by (auto simp: domain_exception_handler_def split: option.splits if_splits)

section \<open>Security headers\<close>

type_synonym headers = "(string \<times> string) list"

definition docs_policy :: string where
  "docs_policy = ''default-src 'self'; script-src 'self' 'unsafe-inline' https://cdn.jsdelivr.net; '' @
     ''style-src 'self' 'unsafe-inline' https://cdn.jsdelivr.net https://fonts.googleapis.com https://fonts.gstatic.com; '' @
     ''font-src 'self' https://fonts.googleapis.com https://fonts.gstatic.com; '' @
     ''img-src 'self' data: https://cdn.jsdelivr.net https://cdn.redoc.ly; worker-src blob:; '' @
     ''connect-src 'self' https://cdn.jsdelivr.net''"

definition html_policy :: string where
  "html_policy = ''default-src 'self'; script-src 'self'; style-src 'self' 'unsafe-inline'; frame-ancestors 'self'' @ [CHR 0x27]"

fun contains_text :: "string \<Rightarrow> string \<Rightarrow> bool" where
  "contains_text p [] = (p = [])"
| "contains_text p (c # cs) = (startswith (c # cs) p \<or> contains_text p cs)"

definition set_header :: "string \<Rightarrow> string \<Rightarrow> headers \<Rightarrow> headers" where
  "set_header k v hs = AList.update k v hs"

definition security_headers :: "string \<Rightarrow> headers \<Rightarrow> headers" where
  "security_headers path hs0 =
     (let hs = set_header ''Permissions-Policy'' ''camera=(), microphone=(), geolocation=()''
                 (set_header ''Referrer-Policy'' ''strict-origin-when-cross-origin''
                   (set_header ''X-Content-Type-Options'' ''nosniff'' hs0));
          ctype = (case map_of hs ''Content-Type'' of Some v \<Rightarrow> v | None \<Rightarrow> [])
      in if contains_text ''text/html'' ctype
         then set_header ''Content-Security-Policy''
                (if startswith path ''/api/docs/'' \<or> startswith path ''/api/redoc/'' then docs_policy else html_policy) hs
         else hs)"

lemma security_headers_present:
  "map_of (security_headers path hs) ''X-Content-Type-Options'' = Some ''nosniff''"
  "map_of (security_headers path hs) ''Referrer-Policy'' = Some ''strict-origin-when-cross-origin''"
  "map_of hs ''Content-Type'' = Some v \<Longrightarrow> contains_text ''text/html'' v \<Longrightarrow>
     \<exists>p. map_of (security_headers path hs) ''Content-Security-Policy'' = Some p"
  by (auto simp: security_headers_def set_header_def Let_def update_conv')

text \<open>Inline scripts are allowed only on the two pages of the API documentation.\<close>

lemma inline_scripts_only_in_docs:
  assumes "\<not> startswith path ''/api/docs/''" "\<not> startswith path ''/api/redoc/''"
    and "map_of hs ''Content-Type'' = Some v" "contains_text ''text/html'' v"
  shows "map_of (security_headers path hs) ''Content-Security-Policy'' = Some html_policy"
  using assms by (simp add: security_headers_def set_header_def Let_def update_conv')

section \<open>Redirect URLs\<close>

text \<open>
  \<open>urllib.parse.urlparse\<close> up to the path, and the host it reads off the network location.  The check of an
  IP literal in brackets differs between the patch releases of Python 3.12 and is the parameter \<open>bracketed\<close>.
  A character is one of the first 256 of Unicode, none of which normalises to a delimiter.
\<close>

definition after_first :: "char \<Rightarrow> string \<Rightarrow> string" where
  "after_first c s = drop 1 (dropWhile (\<lambda>d. d \<noteq> c) s)"

definition before_first :: "char \<Rightarrow> string \<Rightarrow> string" where
  "before_first c s = takeWhile (\<lambda>d. d \<noteq> c) s"

definition after_last :: "char \<Rightarrow> string \<Rightarrow> string" where
  "after_last c s = rev (before_first c (rev s))"

definition scheme_char :: "char \<Rightarrow> bool" where
  "scheme_char c \<longleftrightarrow> is_alpha c \<or> is_digit c \<or> c \<in> {CHR ''+'', CHR ''-'', CHR ''.''}"

definition clean_url :: "string \<Rightarrow> string" where
  "clean_url url = filter (\<lambda>c. of_char c \<notin> {9, 10, 13 :: nat}) (dropWhile (\<lambda>c. of_char c \<le> (32 :: nat)) url)"

definition split_scheme :: "string \<Rightarrow> string \<times> string" where
  "split_scheme url =
     (let s = before_first CHR '':'' url
      in if CHR '':'' \<in> set url \<and> s \<noteq> [] \<and> is_alpha (hd s) \<and> list_all scheme_char s
         then (lower s, after_first CHR '':'' url) else ([], url))"

definition url_delimiter :: "char \<Rightarrow> bool" where
  "url_delimiter c \<longleftrightarrow> c \<in> {CHR ''/'', CHR ''?'', CHR ''#''}"

definition bracket_error :: "(string \<Rightarrow> bool) \<Rightarrow> string \<Rightarrow> bool" where
  "bracket_error bracketed netloc \<longleftrightarrow>
     (CHR ''['' \<in> set netloc) \<noteq> (CHR '']'' \<in> set netloc)
     \<or> CHR ''['' \<in> set netloc \<and> CHR '']'' \<in> set netloc \<and> \<not> bracketed netloc"

text \<open>\<open>_splitparams\<close>: what follows a semicolon in the last segment is no part of the path.\<close>

definition without_params :: "string \<Rightarrow> string" where
  "without_params path =
     (let last = after_last CHR ''/'' path
      in take (length path - length last) path @ before_first CHR '';'' last)"

record parsed_url =
  pu_scheme :: string
  pu_netloc :: string
  pu_path :: string

definition urlparse :: "(string \<Rightarrow> bool) \<Rightarrow> string \<Rightarrow> parsed_url res" where
  "urlparse bracketed url =
     (let (scheme, rest) = split_scheme (clean_url url);
          (netloc, tail) = (if startswith rest ''//''
             then (takeWhile (\<lambda>c. \<not> url_delimiter c) (drop 2 rest), dropWhile (\<lambda>c. \<not> url_delimiter c) (drop 2 rest))
             else ([], rest));
          path = before_first CHR ''?'' (before_first CHR ''#'' tail)
      in if bracket_error bracketed netloc then Inl ValueError
         else Inr \<lparr>pu_scheme = scheme, pu_netloc = netloc,
                pu_path = (if scheme \<in> {[], ''http'', ''https''} then without_params path else path)\<rparr>)"

definition hostname :: "string \<Rightarrow> string" where
  "hostname netloc =
     (let hostinfo = after_last CHR ''@'' netloc;
          host = (if CHR ''['' \<in> set hostinfo then before_first CHR '']'' (after_first CHR ''['' hostinfo)
                  else before_first CHR '':'' hostinfo)
      in lower (before_first CHR ''%'' host) @ dropWhile (\<lambda>c. c \<noteq> CHR ''%'') host)"

record redirect_settings =
  cors_allowed_origins :: "string list"
  allowed_hosts :: "string list"
  cors_allow_all_origins :: bool

definition host_matchers :: "string list \<Rightarrow> string list \<times> string list" where
  "host_matchers hosts = (filter (\<lambda>h. h \<noteq> ''*'' \<and> \<not> startswith h ''.'') hosts, filter (\<lambda>h. startswith h ''.'') hosts)"

definition validate_redirect_url :: "(string \<Rightarrow> bool) \<Rightarrow> redirect_settings \<Rightarrow> string \<Rightarrow> string res" where
  "validate_redirect_url bracketed S url =
     rbind (urlparse bracketed url) (\<lambda>p.
     if pu_scheme p \<notin> {''http'', ''https''} then Inl ValidationError
     else if cors_allow_all_origins S then Inr url
     else let origin = pu_scheme p @ ''://'' @ pu_netloc p;
              host = hostname (pu_netloc p);
              origin_no_port = (if host \<noteq> [] then pu_scheme p @ ''://'' @ host else origin);
              (exact_hosts, suffix_hosts) = host_matchers (allowed_hosts S)
          in if origin \<in> set (cors_allowed_origins S) \<or> origin_no_port \<in> set (cors_allowed_origins S) then Inr url
             else if host \<in> set exact_hosts then Inr url
             else if list_ex (endswith host) suffix_hosts then Inr url
             else Inl ValidationError)"

text \<open>A URL whose host is plain text, with a port or without, and what may follow it.\<close>

definition plain_host :: "string \<Rightarrow> bool" where
  "plain_host h \<longleftrightarrow> h \<noteq> [] \<and> list_all (\<lambda>c. is_lower_alpha c \<or> is_digit c \<or> c = CHR ''-'' \<or> c = CHR ''.'') h"

definition plain_port :: "string \<Rightarrow> bool" where
  "plain_port p \<longleftrightarrow> p = [] \<or> hd p = CHR '':'' \<and> list_all is_digit (tl p)"

definition url_tail :: "string \<Rightarrow> bool" where
  "url_tail t \<longleftrightarrow> (t = [] \<or> url_delimiter (hd t)) \<and> list_all (\<lambda>c. of_char c \<notin> {9, 10, 13 :: nat}) t"

definition host_allowed :: "redirect_settings \<Rightarrow> string \<Rightarrow> string \<Rightarrow> string \<Rightarrow> bool" where
  "host_allowed S s h p \<longleftrightarrow> cors_allow_all_origins S
     \<or> s @ ''://'' @ h @ p \<in> set (cors_allowed_origins S) \<or> s @ ''://'' @ h \<in> set (cors_allowed_origins S)
     \<or> h \<in> set (allowed_hosts S) \<and> h \<noteq> ''*'' \<and> \<not> startswith h ''.''
     \<or> (\<exists>d\<in>set (allowed_hosts S). startswith d ''.'' \<and> endswith h d)"

lemma plain_char:
  assumes "is_lower_alpha c \<or> is_digit c \<or> c = CHR ''-'' \<or> c = CHR ''.''"
  shows "\<not> url_delimiter c" "c \<noteq> CHR ''@''" "c \<noteq> CHR ''[''" "c \<noteq> CHR '']''" "c \<noteq> CHR '':''" "c \<noteq> CHR ''%''"
    "of_char c \<notin> {9, 10, 13 :: nat}" "lower_char c = c"
  using assms by (auto simp: url_delimiter_def is_lower_alpha_def is_digit_def lower_char_def)

lemma before_first_none: "c \<notin> set s \<Longrightarrow> before_first c (s @ c # t) = s" "c \<notin> set s \<Longrightarrow> before_first c s = s"
  by (auto simp: before_first_def takeWhile_append takeWhile_eq_all_conv)

lemma after_first_none: "c \<notin> set s \<Longrightarrow> after_first c (s @ c # t) = t"
  by (auto simp: after_first_def dropWhile_append)

lemma after_last_none: "c \<notin> set s \<Longrightarrow> after_last c s = s"
  by (simp add: after_last_def before_first_none)

lemma plain_location:
  assumes "plain_host h" "plain_port p" and "c \<in> set (h @ p)"
  shows "\<not> url_delimiter c" "c \<noteq> CHR ''@''" "c \<noteq> CHR ''[''" "c \<noteq> CHR '']''" "of_char c \<notin> {9, 10, 13 :: nat}"
proof -
  have "c = CHR '':'' \<or> is_digit c" if "c \<in> set p"
  proof (cases p)
    case Nil
    with that show ?thesis by simp
  next
    case (Cons d ds)
    with assms(2) have "d = CHR '':'' \<and> (\<forall>x\<in>set ds. is_digit x)"
      unfolding plain_port_def list_all_iff by (metis list.distinct(1) list.sel(1,3))
    with that Cons show ?thesis by (metis set_ConsD)
  qed
  moreover have "c \<in> set h \<Longrightarrow> is_lower_alpha c \<or> is_digit c \<or> c = CHR ''-'' \<or> c = CHR ''.''"
    using assms(1) unfolding plain_host_def list_all_iff by blast
  ultimately consider "is_lower_alpha c \<or> is_digit c \<or> c = CHR ''-'' \<or> c = CHR ''.''" | "c = CHR '':''"
    using assms(3) unfolding set_append by blast
  then have "\<not> url_delimiter c \<and> c \<noteq> CHR ''@'' \<and> c \<noteq> CHR ''['' \<and> c \<noteq> CHR '']'' \<and> of_char c \<notin> {9, 10, 13 :: nat}"
  proof cases
    case 1
    then show ?thesis using plain_char [OF 1] by blast
  next
    case 2
    show ?thesis unfolding 2 by (simp add: url_delimiter_def)
  qed
  then show "\<not> url_delimiter c" "c \<noteq> CHR ''@''" "c \<noteq> CHR ''[''" "c \<noteq> CHR '']''" "of_char c \<notin> {9, 10, 13 :: nat}"
    by blast+
qed

lemma span_location:
  assumes "\<And>c. c \<in> set l \<Longrightarrow> \<not> url_delimiter c" and "t = [] \<or> url_delimiter (hd t)"
  shows "takeWhile (\<lambda>c. \<not> url_delimiter c) (l @ t) = l"
  using assms by (cases t) (auto simp: takeWhile_append)

lemma hostname_plain:
  assumes h: "plain_host h" and p: "plain_port p"
  shows "hostname (h @ p) = h"
proof -
  have all: "list_all (\<lambda>c. is_lower_alpha c \<or> is_digit c \<or> c = CHR ''-'' \<or> c = CHR ''.'') h"
    using h by (simp add: plain_host_def)
  have at: "after_last CHR ''@'' (h @ p) = h @ p"
    by (rule after_last_none) (use plain_location(2) [OF h p] in blast)
  have br: "CHR ''['' \<notin> set (h @ p)" using plain_location(3) [OF h p] by blast
  have colon: "CHR '':'' \<notin> set h" and percent: "CHR ''%'' \<notin> set h"
    using all plain_char(5, 6) by (auto simp: list_all_iff)
  have "before_first CHR '':'' (h @ p) = h"
  proof (cases p)
    case Nil
    with colon show ?thesis by (simp add: before_first_none)
  next
    case (Cons c q)
    with p colon show ?thesis by (simp add: plain_port_def before_first_none)
  qed
  moreover have "lower h = h"
    using all plain_char(8) by (auto simp: lower_def list_all_iff intro: map_idI)
  ultimately show ?thesis
    using at br percent by (simp add: hostname_def before_first_none dropWhile_eq_Nil_conv) metis
qed

lemma clean_plain:
  assumes s: "s \<in> {''http'', ''https''}" and h: "plain_host h" and p: "plain_port p" and t: "url_tail t"
  shows "clean_url (s @ ''://'' @ h @ p @ t) = s @ ''://'' @ h @ p @ t"
proof -
  have "\<forall>c\<in>set (h @ p @ t). of_char c \<notin> {9, 10, 13 :: nat}"
    using plain_location(5) [OF h p] t by (auto simp: url_tail_def list_all_iff)
  then have "filter (\<lambda>c. of_char c \<notin> {9, 10, 13 :: nat}) (h @ p @ t) = h @ p @ t" by (simp add: filter_id_conv)
  with s show ?thesis by (auto simp: clean_url_def)
qed

lemma parse_plain:
  assumes s: "s \<in> {''http'', ''https''}" and h: "plain_host h" and p: "plain_port p" and t: "url_tail t"
  shows "\<exists>path. urlparse bracketed (s @ ''://'' @ h @ p @ t) = Inr \<lparr>pu_scheme = s, pu_netloc = h @ p, pu_path = path\<rparr>"
proof -
  let ?l = "h @ p"
  have scheme: "split_scheme (s @ ''://'' @ h @ p @ t) = (s, ''//'' @ h @ p @ t)"
    using s by (auto simp: split_scheme_def before_first_def after_first_def scheme_char_def is_alpha_def
      is_lower_alpha_def lower_def lower_char_def)
  have loc: "takeWhile (\<lambda>c. \<not> url_delimiter c) (h @ p @ t) = ?l"
    using span_location [of ?l t] plain_location(1) [OF h p] t by (auto simp: url_tail_def)
  have "\<not> bracket_error bracketed ?l"
    using plain_location(3, 4) [OF h p] unfolding bracket_error_def by blast
  with loc show ?thesis
    unfolding urlparse_def clean_plain [OF assms] scheme by (simp add: startswith_def Let_def)
qed

text \<open>
  A redirect URL whose host is plain text is accepted exactly when the host is one of ours: when the origin
  with or without its port is on the list of origins, the host is on the list of hosts, or it ends with one of
  the list's suffixes (or every origin is allowed).  The path, query and fragment play no part.  Neither does
  the port of a listed origin: the comment in the code presents that as what the comparison prevents, the code
  accepts every port (\<open>redirect_any_port\<close>).
\<close>

lemma redirect_by_host:
  assumes s: "s \<in> {''http'', ''https''}" and h: "plain_host h" and p: "plain_port p" and t: "url_tail t"
  shows "validate_redirect_url bracketed S (s @ ''://'' @ h @ p @ t) =
    (if host_allowed S s h p then Inr (s @ ''://'' @ h @ p @ t) else Inl ValidationError)"
proof -
  from parse_plain [OF assms] obtain path where
    "urlparse bracketed (s @ ''://'' @ h @ p @ t) = Inr \<lparr>pu_scheme = s, pu_netloc = h @ p, pu_path = path\<rparr>" by blast
  moreover have "h \<noteq> []" using h by (simp add: plain_host_def)
  ultimately show ?thesis
    using s by (auto simp: validate_redirect_url_def hostname_plain [OF h p] host_allowed_def host_matchers_def
      Let_def list_ex_iff)
qed

text \<open>
  The origin that is compared a second time leaves out the port, and with it everything before \<open>@\<close>: a browser
  ends the host of the first URL at the backslash and goes to \<open>evil.example\<close>.
\<close>

definition sample_redirects :: redirect_settings where
  "sample_redirects = \<lparr>cors_allowed_origins = [''https://app.example.com''], allowed_hosts = [''api.example.com''],
     cors_allow_all_origins = False\<rparr>"

definition disguised_url :: string where
  "disguised_url = ''https://evil.example'' @ [CHR 0x5C] @ ''@app.example.com/''"

lemma redirect_userinfo_ignored:
  "validate_redirect_url (\<lambda>_. True) sample_redirects disguised_url = Inr disguised_url"
  by code_simp

lemma redirect_any_port:
  "validate_redirect_url (\<lambda>_. True) sample_redirects ''https://app.example.com:9999/'' = Inr ''https://app.example.com:9999/''"
  by code_simp

lemma redirect_refused:
  "validate_redirect_url (\<lambda>_. True) sample_redirects ''https://app.example.com.evil.example/'' = Inl ValidationError"
  "validate_redirect_url (\<lambda>_. True) sample_redirects ''javascript://app.example.com/%0aalert(1)'' = Inl ValidationError"
  "validate_redirect_url (\<lambda>_. True) sample_redirects ''//app.example.com/'' = Inl ValidationError"
  by code_simp+

subsection \<open>The file a stored avatar URL names\<close>

text \<open>\<open>_delete_local_avatar\<close>: the name it asks the storage to delete, when there is one.\<close>

definition local_avatar :: "(string \<Rightarrow> bool) \<Rightarrow> string \<Rightarrow> string option \<Rightarrow> string option res" where
  "local_avatar bracketed media_url avatar_url =
     (case avatar_url of
        None \<Rightarrow> Inr None
      | Some url \<Rightarrow> if url = [] then Inr None
          else rbind (urlparse bracketed url) (\<lambda>p.
            Inr (if startswith (pu_path p) media_url then Some (drop (length media_url) (pu_path p)) else None)))"

lemma stored_avatar_is_local:
  "local_avatar (\<lambda>_. True) ''/media/'' (Some ''https://api.example.com/media/avatars/1/x.webp'') = Inr (Some ''avatars/1/x.webp'')"
  "local_avatar (\<lambda>_. True) ''/media/'' (Some ''https://lh3.googleusercontent.com/a/x'') = Inr None"
  by code_simp+

text \<open>Only the path is compared: a picture of another site under the same prefix counts as a local file.\<close>

lemma foreign_avatar_is_local:
  "local_avatar (\<lambda>_. True) ''/media/'' (Some ''https://cdn.example.org/media/avatars/1/x.webp'') = Inr (Some ''avatars/1/x.webp'')"
  by code_simp

section \<open>The captcha\<close>

text \<open>
  What \<open>siteverify\<close> answered: nothing that could be read (a network error, an error status, no JSON), JSON
  that is no object, or an object with its three entries, the score exact; a missing entry is \<open>None\<close>, a score
  of \<open>null\<close> is \<open>Some None\<close>.
\<close>

datatype siteverify = Unreachable | NoObject | Verdict bool "string option" "rat option option"

definition verify_recaptcha :: "string \<Rightarrow> rat \<Rightarrow> string \<Rightarrow> string \<Rightarrow> siteverify \<Rightarrow> unit res" where
  "verify_recaptcha secret_key min_score token action answer =
     (if secret_key = [] then Inr ()
      else if token = [] then Inl CaptchaFailedError
      else (case answer of
          Unreachable \<Rightarrow> Inr ()
        | NoObject \<Rightarrow> Inl AttributeError
        | Verdict success acted score \<Rightarrow>
            if \<not> success then Inl CaptchaFailedError
            else if acted \<noteq> Some action then Inl CaptchaFailedError
            else (case score of
                None \<Rightarrow> if 0 < min_score then Inl CaptchaFailedError else Inr ()
              | Some None \<Rightarrow> Inl TypeError
              | Some (Some s) \<Rightarrow> if s < min_score then Inl CaptchaFailedError else Inr ())))"

lemma captcha_passed:
  "verify_recaptcha secret_key min_score token action answer = Inr () \<longleftrightarrow>
     secret_key = [] \<or> token \<noteq> [] \<and> (answer = Unreachable
       \<or> (\<exists>score. answer = Verdict True (Some action) score
            \<and> (score = None \<and> min_score \<le> 0 \<or> (\<exists>s. score = Some (Some s) \<and> min_score \<le> s))))"
  by (cases answer) (auto simp: verify_recaptcha_def split: option.splits)

text \<open>A request that needs a captcha runs its view only behind the check.\<close>

definition captcha_protected :: "unit res \<Rightarrow> 'a io \<Rightarrow> 'a io" where
  "captcha_protected verdict view = mseq (mlift verdict) view"

lemma captcha_refusal_is_silent:
  "verify_recaptcha k m token action answer = Inl e \<Longrightarrow>
     captcha_protected (verify_recaptcha k m token action answer) view w = (Inl e, w)"
  by (simp add: captcha_protected_def mseq_run mlift_def)

section \<open>Inquiries\<close>

subsection \<open>The throttle's rate\<close>

definition unit_seconds :: "(char \<times> int) list" where
  "unit_seconds = [(CHR ''s'', 1), (CHR ''m'', 60), (CHR ''h'', 3600), (CHR ''d'', 86400)]"

text \<open>\<open>rate.split("/")\<close> must give two parts.\<close>

definition parse_rate :: "string option \<Rightarrow> (int \<times> int) option res" where
  "parse_rate rate =
     (case rate of
        None \<Rightarrow> Inr None
      | Some r \<Rightarrow>
          if length (filter (\<lambda>c. c = CHR ''/'') r) \<noteq> 1 then Inl ValueError
          else let num_str = before_first CHR ''/'' r; period = after_first CHR ''/'' r;
                   digits = takeWhile is_digit period; rest = dropWhile is_digit period
               in rbind (py_int_text 10 num_str) (\<lambda>num_requests.
                  rbind (if digits = [] then Inr 1 else py_int_text 10 digits) (\<lambda>multiplier.
                  case map_of unit_seconds (case rest of [] \<Rightarrow> CHR ''s'' | c # _ \<Rightarrow> c) of
                    None \<Rightarrow> Inl KeyError
                  | Some secs \<Rightarrow> Inr (Some (num_requests, multiplier * secs)))))"

lemma parse_rate_examples:
  "parse_rate (Some ''3/10minute'') = Inr (Some (3, 600))" "parse_rate (Some ''5/hour'') = Inr (Some (5, 3600))"
  "parse_rate (Some ''7/30'') = Inr (Some (7, 30))" "parse_rate (Some ''7/week'') = Inl KeyError"
  "parse_rate (Some ''x/minute'') = Inl ValueError" "parse_rate (Some ''1'') = Inl ValueError"
  by code_simp+

subsection \<open>The form\<close>

record inquiry =
  inq_email :: string
  inq_message :: string
  inq_source :: string
  inq_honeypot :: string

record inquiry_mail =
  im_to :: string
  im_source :: string
  im_sender :: string
  im_message :: string

text \<open>The choice and length checks of the fields, then \<open>validate\<close>; the message arrives stripped.\<close>

definition inquiry_valid :: "inquiry \<Rightarrow> bool" where
  "inquiry_valid q \<longleftrightarrow> length (inq_email q) \<le> 254 \<and> length (inq_message q) \<le> 5000
     \<and> inq_source q \<in> {''landing-cta'', ''contact-page''}
     \<and> \<not> (inq_source q = ''contact-page'' \<and> inq_message q = [])"

text \<open>The status of the answer and the mail tasks queued.\<close>

definition inquiry_post :: "string \<Rightarrow> inquiry \<Rightarrow> (nat \<times> inquiry_mail list) res" where
  "inquiry_post inbox q =
     (if \<not> inquiry_valid q then Inl ValidationError
      else if inq_honeypot q \<noteq> [] then Inr (204, [])
      else let to_address = strip_chars is_space inbox
           in if to_address = [] then Inr (500, [])
              else Inr (204, [\<lparr>im_to = to_address, im_source = inq_source q, im_sender = inq_email q,
                      im_message = inq_message q\<rparr>]))"

lemma inquiry_forwarded:
  assumes "inquiry_post inbox q = Inr (s, m # ms)"
  shows "s = 204 \<and> ms = [] \<and> im_to m = strip_chars is_space inbox \<and> im_to m \<noteq> [] \<and> im_sender m = inq_email q
    \<and> inq_honeypot q = [] \<and> (im_source m = ''contact-page'' \<longrightarrow> im_message m \<noteq> [])"
  using assms by (auto simp: inquiry_post_def inquiry_valid_def Let_def split: if_splits)

text \<open>A caught robot gets the answer of a success.\<close>

lemma honeypot_indistinguishable:
  "inquiry_valid q \<Longrightarrow> strip_chars is_space inbox \<noteq> [] \<Longrightarrow>
     map_sum id fst (inquiry_post inbox (q\<lparr>inq_honeypot := h\<rparr>)) = map_sum id fst (inquiry_post inbox q)"
  by (simp add: inquiry_post_def inquiry_valid_def Let_def)

definition redact_email :: "string \<Rightarrow> string" where
  "redact_email email =
     (let domain = after_first CHR ''@'' email
      in if domain = [] then ''***'' else take 1 (before_first CHR ''@'' email) @ ''***@'' @ domain)"

text \<open>Two addresses that differ only behind the first character of the local part are logged alike.\<close>

lemma redaction_hides:
  assumes "CHR ''@'' \<notin> set l" "CHR ''@'' \<notin> set l'" and "take 1 l = take 1 l'"
  shows "redact_email (l @ ''@'' @ d) = redact_email (l' @ ''@'' @ d)"
  using assms by (simp add: redact_email_def after_first_none before_first_none)

end
