(* ===== verification/Profile.thy ===== *)
theory Profile
  imports Erasure Pricing Requests "HOL-Library.List_Lexorder" "HOL-Library.Char_ord"
begin

text \<open>
  The profile of a user: the reference lists (\<open>saasmint_core/services/locale.py\<close>, \<open>phone.py\<close> and
  \<open>apps/users/views_references.py\<close>), the check of a profile update (\<open>UpdateUserSerializer\<close> of
  \<open>apps/users/serializers.py\<close>) in front of the view of theory Erasure, and the profile's phone as it is
  sent back.  The time zones of the platform are the parameter \<open>zones\<close>.
\<close>

section \<open>Reference lists\<close>

definition supported_locales :: "string list" where
  "supported_locales = [''en'', ''es'', ''fr'', ''de'', ''pt-BR'', ''it'', ''ja'', ''zh-CN'', ''nl'', ''ar'', ''ko'',
     ''ru'', ''pl'', ''tr'', ''sv'', ''id'', ''zh-TW'', ''da'', ''nb'', ''pt-PT'']"

text \<open>The calling codes with the countries of their label; the flags before the countries are left out.\<close>

definition supported_phone_prefixes :: "(string \<times> string) list" where
  "supported_phone_prefixes = [
     (''+1'', ''US/CA''), (''+7'', ''RU/KZ''), (''+20'', ''EG''), (''+27'', ''ZA''), (''+30'', ''GR''),
     (''+31'', ''NL''), (''+32'', ''BE''), (''+33'', ''FR''), (''+34'', ''ES''), (''+36'', ''HU''),
     (''+39'', ''IT''), (''+40'', ''RO''), (''+41'', ''CH''), (''+43'', ''AT''), (''+44'', ''GB''),
     (''+45'', ''DK''), (''+46'', ''SE''), (''+47'', ''NO''), (''+48'', ''PL''), (''+49'', ''DE''),
     (''+51'', ''PE''), (''+52'', ''MX''), (''+53'', ''CU''), (''+54'', ''AR''), (''+55'', ''BR''),
     (''+56'', ''CL''), (''+57'', ''CO''), (''+58'', ''VE''), (''+60'', ''MY''), (''+61'', ''AU''),
     (''+62'', ''ID''), (''+63'', ''PH''), (''+64'', ''NZ''), (''+65'', ''SG''), (''+66'', ''TH''),
     (''+81'', ''JP''), (''+82'', ''KR''), (''+84'', ''VN''), (''+86'', ''CN''), (''+90'', ''TR''),
     (''+91'', ''IN''), (''+92'', ''PK''), (''+93'', ''AF''), (''+94'', ''LK''), (''+95'', ''MM''),
     (''+212'', ''MA''), (''+213'', ''DZ''), (''+216'', ''TN''), (''+218'', ''LY''), (''+220'', ''GM''),
     (''+221'', ''SN''), (''+234'', ''NG''), (''+249'', ''SD''), (''+251'', ''ET''), (''+254'', ''KE''),
     (''+255'', ''TZ''), (''+256'', ''UG''), (''+260'', ''ZM''), (''+263'', ''ZW''), (''+351'', ''PT''),
     (''+352'', ''LU''), (''+353'', ''IE''), (''+354'', ''IS''), (''+355'', ''AL''), (''+356'', ''MT''),
     (''+358'', ''FI''), (''+359'', ''BG''), (''+370'', ''LT''), (''+371'', ''LV''), (''+372'', ''EE''),
     (''+380'', ''UA''), (''+381'', ''RS''), (''+385'', ''HR''), (''+386'', ''SI''), (''+387'', ''BA''),
     (''+420'', ''CZ''), (''+421'', ''SK''), (''+852'', ''HK''), (''+853'', ''MO''), (''+855'', ''KH''),
     (''+856'', ''LA''), (''+880'', ''BD''), (''+886'', ''TW''), (''+960'', ''MV''), (''+961'', ''LB''),
     (''+962'', ''JO''), (''+963'', ''SY''), (''+964'', ''IQ''), (''+965'', ''KW''), (''+966'', ''SA''),
     (''+967'', ''YE''), (''+968'', ''OM''), (''+970'', ''PS''), (''+971'', ''AE''), (''+972'', ''IL''),
     (''+973'', ''BH''), (''+974'', ''QA''), (''+975'', ''BT''), (''+976'', ''MN''), (''+977'', ''NP''),
     (''+992'', ''TJ''), (''+993'', ''TM''), (''+994'', ''AZ''), (''+995'', ''GE''), (''+996'', ''KG''),
     (''+998'', ''UZ'')]"

definition locale_list_view :: "string list" where
  "locale_list_view = sort supported_locales"

definition currency_list_view :: "string list" where
  "currency_list_view = sort supported_currencies"

definition sort_prefix_key :: "string \<Rightarrow> int res" where
  "sort_prefix_key prefix = py_int_text 10 (dropWhile (\<lambda>c. c = CHR ''+'') prefix)"

text \<open>\<open>sorted(..., key=sort_prefix_key)\<close>; a key that is no number would raise when the module is loaded.\<close>

definition phone_prefix_list_view :: "(string \<times> string) list res" where
  "phone_prefix_list_view =
     (if list_ex (\<lambda>(p, l). isl (sort_prefix_key p)) supported_phone_prefixes then Inl ValueError
      else Inr (sort_key (\<lambda>(p, l). projr (sort_prefix_key p)) supported_phone_prefixes))"

definition timezone_list_view :: "string list \<Rightarrow> string list" where
  "timezone_list_view zones = sort zones"

text \<open>The keys, computed; they ascend as the table is written.\<close>

definition calling_codes :: "int list" where
  "calling_codes = [
     1, 7, 20, 27, 30, 31, 32, 33, 34, 36, 39, 40, 41, 43, 44, 45, 46, 47, 48, 49, 51, 52, 53, 54, 55,
     56, 57, 58, 60, 61, 62, 63, 64, 65, 66, 81, 82, 84, 86, 90, 91, 92, 93, 94, 95, 212, 213, 216, 218,
     220, 221, 234, 249, 251, 254, 255, 256, 260, 263, 351, 352, 353, 354, 355, 356, 358, 359, 370, 371,
     372, 380, 381, 385, 386, 387, 420, 421, 852, 853, 855, 856, 880, 886, 960, 961, 962, 963, 964, 965,
     966, 967, 968, 970, 971, 972, 973, 974, 975, 976, 977, 992, 993, 994, 995, 996, 998]"

lemma prefix_keys: "map (\<lambda>(p, l). sort_prefix_key p) supported_phone_prefixes = map Inr calling_codes"
  unfolding supported_phone_prefixes_def calling_codes_def by code_simp

lemma calling_codes_ascend: "sorted calling_codes" "distinct calling_codes"
proof -
  have "sorted_wrt (<) calling_codes"
    unfolding calling_codes_def
    by (simp del: sorted_wrt.simps add: sorted_wrt2 [OF transp_on_less] sorted_wrt1)
  then show "sorted calling_codes" "distinct calling_codes" by (simp_all add: strict_sorted_iff)
qed

text \<open>The list is served in the order of the calling codes, which is the order it is written in.\<close>

lemma phone_prefix_list: "phone_prefix_list_view = Inr supported_phone_prefixes"
proof -
  have keys: "map projr (map (\<lambda>(p, l). sort_prefix_key p) supported_phone_prefixes) = calling_codes"
    unfolding prefix_keys by (simp add: comp_def)
  then have "map (\<lambda>(p, l). projr (sort_prefix_key p)) supported_phone_prefixes = calling_codes"
    by (simp add: comp_def split_def)
  with calling_codes_ascend(1)
  have "sort_key (\<lambda>(p, l). projr (sort_prefix_key p)) supported_phone_prefixes = supported_phone_prefixes"
    by (intro sort_key_id_if_sorted) simp
  moreover have "\<not> isl (sort_prefix_key p)" if "(p, l) \<in> set supported_phone_prefixes" for p l
  proof -
    from that have "sort_prefix_key p \<in> set (map (\<lambda>(p, l). sort_prefix_key p) supported_phone_prefixes)" by force
    then show ?thesis unfolding prefix_keys by auto
  qed
  ultimately show ?thesis by (auto simp: phone_prefix_list_view_def list_ex_iff)
qed

lemma prefixes_distinct: "distinct (map fst supported_phone_prefixes)"
proof -
  have "map sort_prefix_key (map fst supported_phone_prefixes) = map Inr calling_codes"
    using prefix_keys by (simp add: comp_def split_def)
  moreover have "distinct (map Inr calling_codes :: int res list)"
    using calling_codes_ascend(2) by (simp add: distinct_map)
  ultimately show ?thesis by (metis distinct_map)
qed

lemma reference_lists:
  "sorted locale_list_view" "set locale_list_view = set supported_locales"
  "sorted currency_list_view" "set currency_list_view = set supported_currencies"
  by (simp_all add: locale_list_view_def currency_list_view_def)

section \<open>The check of an update\<close>

text \<open>A text field of the framework: surrounding white space is dropped, blank text is refused.\<close>

definition char_field :: "nat \<Rightarrow> nat \<Rightarrow> string \<Rightarrow> string res" where
  "char_field lo hi s =
     (let t = strip_chars is_space s
      in if t = [] \<or> length t < lo \<or> hi < length t then Inl ValidationError else Inr t)"

text \<open>A field that may be left out, and one that may also be \<open>null\<close>.\<close>

fun optional :: "('a \<Rightarrow> 'b res) \<Rightarrow> 'a option \<Rightarrow> 'b option res" where
  "optional f None = Inr None"
| "optional f (Some x) = rbind (f x) (\<lambda>y. Inr (Some y))"

record profile_body =
  pb_full_name :: "string option"
  pb_preferred_locale :: "string option"
  pb_preferred_currency :: "string option"
  pb_phone :: "(string \<times> string) option option"
  pb_timezone :: "string option option"
  pb_job_title :: "string option option"
  pb_pronouns :: "string option option"
  pb_bio :: "string option option"

definition validate_in_set :: "string list \<Rightarrow> string \<Rightarrow> string res" where
  "validate_in_set allowed v = (if v \<in> set allowed then Inr v else Inl ValidationError)"

definition validate_prefix :: "string \<Rightarrow> string res" where
  "validate_prefix v = (if v \<in> fst ` set supported_phone_prefixes then Inr v else Inl ValidationError)"

definition phone_write :: "string \<times> string \<Rightarrow> (string \<times> string) res" where
  "phone_write p = rbind (char_field 0 5 (fst p)) (\<lambda>prefix. rbind (validate_prefix prefix) (\<lambda>prefix.
     rbind (char_field 4 15 (snd p)) (\<lambda>number. Inr (prefix, number))))"

definition validate_timezone :: "string list \<Rightarrow> string \<Rightarrow> string res" where
  "validate_timezone zones v = (if v \<in> set zones then Inr v else Inl ValidationError)"

definition update_user_serializer :: "string list \<Rightarrow> profile_body \<Rightarrow> account_update res" where
  "update_user_serializer zones b =
     rbind (optional (char_field 3 255) (pb_full_name b)) (\<lambda>name.
     rbind (optional (\<lambda>v. rbind (char_field 0 10 v) (validate_in_set supported_locales)) (pb_preferred_locale b)) (\<lambda>loc.
     rbind (optional (\<lambda>v. rbind (char_field 0 3 v) (validate_in_set supported_currencies)) (pb_preferred_currency b)) (\<lambda>cur.
     rbind (optional (optional phone_write) (pb_phone b)) (\<lambda>phone.
     rbind (optional (optional (\<lambda>v. rbind (char_field 0 50 v) (validate_timezone zones))) (pb_timezone b)) (\<lambda>zone.
     rbind (optional (optional (char_field 0 100)) (pb_job_title b)) (\<lambda>job.
     rbind (optional (optional (char_field 0 50)) (pb_pronouns b)) (\<lambda>pronouns.
     rbind (optional (optional (char_field 0 500)) (pb_bio b)) (\<lambda>bio.
     Inr \<lparr>au_full_name = name, au_locale = loc, au_currency = cur, au_phone = phone, au_timezone = zone,
       au_job_title = job, au_pronouns = pronouns, au_bio = bio\<rparr>))))))))"

definition account_patch_request :: "string list \<Rightarrow> user \<Rightarrow> profile_body \<Rightarrow> user io" where
  "account_patch_request zones u b = mbind (mlift (update_user_serializer zones b)) (account_patch_view u)"

text \<open>\<open>UserSerializer\<close>: the phone is \<open>null\<close> when neither part is set.\<close>

definition phone_read :: "user \<Rightarrow> (string option \<times> string option) option" where
  "phone_read u = (if u_phone_prefix u = None \<and> u_phone u = None then None else Some (u_phone_prefix u, u_phone u))"

section \<open>Profiles stay valid\<close>

definition phone_ok :: "user \<Rightarrow> bool" where
  "phone_ok u \<longleftrightarrow> (case (u_phone_prefix u, u_phone u) of
     (None, None) \<Rightarrow> True
   | (Some p, Some n) \<Rightarrow> p \<in> fst ` set supported_phone_prefixes \<and> 4 \<le> length n \<and> length n \<le> 15
   | _ \<Rightarrow> False)"

definition profile_ok :: "string list \<Rightarrow> user \<Rightarrow> bool" where
  "profile_ok zones u \<longleftrightarrow> u_locale u \<in> set supported_locales \<and> u_currency u \<in> set supported_currencies \<and> phone_ok u
     \<and> (case u_timezone u of None \<Rightarrow> True | Some z \<Rightarrow> z \<in> set zones)"

lemma char_field_Inr: "char_field lo hi s = Inr t \<Longrightarrow> lo \<le> length t \<and> length t \<le> hi \<and> t = strip_chars is_space s"
  by (auto simp: char_field_def Let_def split: if_splits)

lemma optional_InrE:
  assumes "optional f x = Inr y"
  obtains "x = None" "y = None" | a b where "x = Some a" "f a = Inr b" "y = Some b"
  using assms by (cases x) (auto elim!: rbind_InrE)

lemma phone_write_Inr:
  "phone_write p = Inr (a, n) \<Longrightarrow> a \<in> fst ` set supported_phone_prefixes \<and> 4 \<le> length n \<and> length n \<le> 15"
  by (auto simp: phone_write_def validate_prefix_def split: if_splits elim!: rbind_InrE dest: char_field_Inr)

lemma serializer_parts:
  assumes "update_user_serializer zones b = Inr a"
  shows "optional (\<lambda>v. rbind (char_field 0 10 v) (validate_in_set supported_locales)) (pb_preferred_locale b) = Inr (au_locale a)"
    and "optional (\<lambda>v. rbind (char_field 0 3 v) (validate_in_set supported_currencies)) (pb_preferred_currency b) = Inr (au_currency a)"
    and "optional (optional phone_write) (pb_phone b) = Inr (au_phone a)"
    and "optional (optional (\<lambda>v. rbind (char_field 0 50 v) (validate_timezone zones))) (pb_timezone b) = Inr (au_timezone a)"
proof -
  from assms obtain name loc cur phone zone job pronouns bio where
    "optional (\<lambda>v. rbind (char_field 0 10 v) (validate_in_set supported_locales)) (pb_preferred_locale b) = Inr loc"
    "optional (\<lambda>v. rbind (char_field 0 3 v) (validate_in_set supported_currencies)) (pb_preferred_currency b) = Inr cur"
    "optional (optional phone_write) (pb_phone b) = Inr phone"
    "optional (optional (\<lambda>v. rbind (char_field 0 50 v) (validate_timezone zones))) (pb_timezone b) = Inr zone"
    "a = \<lparr>au_full_name = name, au_locale = loc, au_currency = cur, au_phone = phone, au_timezone = zone,
       au_job_title = job, au_pronouns = pronouns, au_bio = bio\<rparr>"
    unfolding update_user_serializer_def by (elim rbind_InrE) (auto simp only: sum.inject)
  then show "optional (\<lambda>v. rbind (char_field 0 10 v) (validate_in_set supported_locales)) (pb_preferred_locale b) = Inr (au_locale a)"
    "optional (\<lambda>v. rbind (char_field 0 3 v) (validate_in_set supported_currencies)) (pb_preferred_currency b) = Inr (au_currency a)"
    "optional (optional phone_write) (pb_phone b) = Inr (au_phone a)"
    "optional (optional (\<lambda>v. rbind (char_field 0 50 v) (validate_timezone zones))) (pb_timezone b) = Inr (au_timezone a)"
    by simp_all
qed

lemma optional_set:
  "optional (\<lambda>v. rbind (f v) (validate_in_set xs)) x = Inr y \<Longrightarrow> case y of None \<Rightarrow> True | Some l \<Rightarrow> l \<in> set xs"
  by (auto simp: validate_in_set_def split: if_splits elim!: optional_InrE rbind_InrE)

lemma optional_phone:
  assumes "optional (optional phone_write) x = Inr y"
  shows "case y of Some (Some (p, n)) \<Rightarrow> p \<in> fst ` set supported_phone_prefixes \<and> 4 \<le> length n \<and> length n \<le> 15
      | _ \<Rightarrow> True"
  using assms by (elim optional_InrE) (auto simp only: option.case prod.case dest: phone_write_Inr)

lemma optional_zone:
  "optional (optional (\<lambda>v. rbind (f v) (validate_timezone zones))) x = Inr y \<Longrightarrow>
     case y of Some (Some z) \<Rightarrow> z \<in> set zones | _ \<Rightarrow> True"
  by (auto simp: validate_timezone_def split: if_splits elim!: optional_InrE rbind_InrE)

lemma validated_update:
  assumes "update_user_serializer zones b = Inr a"
  shows "case au_locale a of None \<Rightarrow> True | Some l \<Rightarrow> l \<in> set supported_locales"
    and "case au_currency a of None \<Rightarrow> True | Some c \<Rightarrow> c \<in> set supported_currencies"
    and "case au_phone a of Some (Some (p, n)) \<Rightarrow> p \<in> fst ` set supported_phone_prefixes \<and> 4 \<le> length n \<and> length n \<le> 15
      | _ \<Rightarrow> True"
    and "case au_timezone a of Some (Some z) \<Rightarrow> z \<in> set zones | _ \<Rightarrow> True"
  by (rule optional_set optional_phone optional_zone, rule serializer_parts, rule assms)+

lemma update_profile:
  assumes "update_user_serializer zones b = Inr a" and "profile_ok zones u"
  shows "profile_ok zones (apply_update a u)"
  using validated_update [OF assms(1)] assms(2)
  by (auto simp: profile_ok_def phone_ok_def apply_update_def sent_def split: option.splits)

text \<open>After a patch, accepted or refused, every profile is still valid.\<close>

lemma profiles_stay_valid:
  "keeps (on_db (\<lambda>d. \<forall>u\<in>set (users d). profile_ok zones u)) (account_patch_request zones v b)"
proof (rule keepsI)
  fix w assume w: "on_db (\<lambda>d. \<forall>u\<in>set (users d). profile_ok zones u) w"
  show "on_db (\<lambda>d. \<forall>u\<in>set (users d). profile_ok zones u) (snd (account_patch_request zones v b w))"
  proof (cases "update_user_serializer zones b")
    case (Inl e)
    with w show ?thesis by (simp add: account_patch_request_def mlift_def mbind_run)
  next
    case (Inr a)
    have "profile_ok zones ((apply_update a u)\<lparr>u_updated_at := t\<rparr>)" if "profile_ok zones u" for u t
      using update_profile [OF Inr that] by (simp add: profile_ok_def phone_ok_def)
    then have "keeps (on_db (\<lambda>d. \<forall>u\<in>set (users d). profile_ok zones u))
        (save_user k (\<lambda>r. (apply_update a r)\<lparr>u_updated_at := t\<rparr>))" for k t
      unfolding save_user_def invalidate_auth_user_cache_def
      by (intro keeps_intros)
        (auto simp: keeps_def on_db_def save_row_def update_rows_def users_T_def set_update_where Let_def)
    then have "keeps (on_db (\<lambda>d. \<forall>u\<in>set (users d). profile_ok zones u)) (account_patch_view v a)"
      unfolding account_patch_view_def by (intro keeps_intros)
    from keepsD [OF this w] Inr show ?thesis by (simp add: account_patch_request_def mlift_def mbind_run)
  qed
qed

text \<open>The phone that was sent is the phone that is read, and \<open>null\<close> clears both parts.\<close>

lemma phone_round_trip:
  assumes "update_user_serializer zones b = Inr a"
  shows "pb_phone b = Some None \<Longrightarrow> phone_read (apply_update a u) = None"
    and "pb_phone b = Some (Some (p, n)) \<Longrightarrow>
      phone_read (apply_update a u) = Some (Some (strip_chars is_space p), Some (strip_chars is_space n))"
    and "pb_phone b = None \<Longrightarrow> phone_read (apply_update a u) = phone_read u"
proof -
  from assms have ph: "optional (optional phone_write) (pb_phone b) = Inr (au_phone a)" by (rule serializer_parts)
  show "phone_read (apply_update a u) = None" if "pb_phone b = Some None"
  proof -
    from ph that have "au_phone a = Some None" by simp
    then show ?thesis by (simp add: phone_read_def apply_update_def sent_def)
  qed
  show "phone_read (apply_update a u) = phone_read u" if "pb_phone b = None"
  proof -
    from ph that have "au_phone a = None" by simp
    then show ?thesis by (simp add: phone_read_def apply_update_def sent_def)
  qed
  show "phone_read (apply_update a u) = Some (Some (strip_chars is_space p), Some (strip_chars is_space n))"
    if "pb_phone b = Some (Some (p, n))"
  proof -
    from ph that obtain q where q: "phone_write (p, n) = Inr q" "au_phone a = Some (Some q)"
      by (auto elim!: rbind_InrE)
    from q(1) have "q = (strip_chars is_space p, strip_chars is_space n)"
      by (auto simp: phone_write_def validate_prefix_def split: if_splits elim!: rbind_InrE dest!: char_field_Inr)
    with q(2) show ?thesis by (simp add: phone_read_def apply_update_def sent_def)
  qed
qed

end
