(* ===== verification/Seed.thy ===== *)
theory Seed
  imports Pricing
begin

text \<open>
  The commands and the daily task that maintain the catalogue in the database:
  \<open>management/commands/seed_catalog.py\<close> and \<open>sync_localized_prices\<close> of \<open>apps/billing/tasks.py\<close>, with
  the launch countries of \<open>apps/billing/vat.py\<close>.

  The exchange-rate feed and the floating-point arithmetic that turns a dollar amount and a rate into
  a friendly amount (\<open>round_friendly\<close>, \<open>_to_minor_units\<close>) are parameters: fields of \<open>fx\<close>.
\<close>

section \<open>Launch countries\<close>

definition eurozone :: "string list" where
  "eurozone = [''AT'', ''BE'', ''HR'', ''CY'', ''EE'', ''FI'', ''FR'', ''DE'', ''GR'', ''IE'', ''IT'', ''LV'', ''LT'', ''LU'',
     ''MT'', ''NL'', ''PT'', ''SK'', ''SI'', ''ES'']"

definition country_currency :: "(string \<times> string) list" where
  "country_currency = map (\<lambda>c. (c, ''eur'')) eurozone
     @ [(''DK'', ''dkk''), (''SE'', ''sek''), (''PL'', ''pln''), (''GB'', ''gbp''), (''US'', ''usd''), (''CN'', ''cny'')]"

section \<open>The seeded catalogue\<close>

record plan_spec =
  ps_name :: string
  ps_description :: string
  ps_context :: plan_context
  ps_tier :: plan_tier
  ps_interval :: plan_interval
  ps_amount :: int

definition yearly_discount_months :: int where "yearly_discount_months = 10"

text \<open>The dash of the suffix, in UTF-8.\<close>

definition yearly_description_suffix :: string where
  "yearly_description_suffix = '' Billed annually '' @ [CHR 0xE2, CHR 0x80, CHR 0x94] @ '' two months free.''"

definition monthly_plans :: "plan_spec list" where
  "monthly_plans = [
     \<lparr>ps_name = ''Personal Basic'', ps_description =
        ''For power users. Advanced analytics, priority email support, and API access.'',
      ps_context = PERSONAL, ps_tier = BASIC, ps_interval = MONTH, ps_amount = 1999\<rparr>,
     \<lparr>ps_name = ''Personal Pro'', ps_description =
        ''Everything in Basic plus custom integrations, audit logs, and dedicated support.'',
      ps_context = PERSONAL, ps_tier = PRO, ps_interval = MONTH, ps_amount = 4999\<rparr>,
     \<lparr>ps_name = ''Team Basic'', ps_description =
        ''For small teams. Per-seat pricing, shared dashboards, and team analytics.'',
      ps_context = TEAM, ps_tier = BASIC, ps_interval = MONTH, ps_amount = 1799\<rparr>,
     \<lparr>ps_name = ''Team Pro'', ps_description =
        ''For growing organizations. Per-seat pricing, SSO, audit logs, and dedicated support.'',
      ps_context = TEAM, ps_tier = PRO, ps_interval = MONTH, ps_amount = 4599\<rparr>]"

definition yearly :: "plan_spec \<Rightarrow> plan_spec" where
  "yearly s = s\<lparr>ps_description := ps_description s @ yearly_description_suffix, ps_interval := YEAR,
     ps_amount := ps_amount s * yearly_discount_months\<rparr>"

definition build_plans :: "plan_spec list" where
  "build_plans = monthly_plans @ map yearly monthly_plans"

definition boost_products :: "(string \<times> int \<times> int) list" where
  "boost_products = [(''50 Credits'', 50, 499), (''200 Credits'', 200, 1499), (''500 Credits'', 500, 2999)]"

text \<open>The stored values of the choices.\<close>

fun context_value :: "plan_context \<Rightarrow> string" where
  "context_value PERSONAL = ''personal''"
| "context_value TEAM = ''team''"

fun tier_number :: "plan_tier \<Rightarrow> nat" where
  "tier_number FREE = 1"
| "tier_number BASIC = 2"
| "tier_number PRO = 3"

fun interval_value :: "plan_interval \<Rightarrow> string" where
  "interval_value MONTH = ''month''"
| "interval_value YEAR = ''year''"

section \<open>Seeding plans and products\<close>

text \<open>\<open>Model.objects.get_or_create(\<dots>)\<close> on a condition that no constraint makes unique.\<close>

definition get_or_create :: "'r table \<Rightarrow> ('r \<Rightarrow> bool) \<Rightarrow> (uuid \<Rightarrow> 'r) \<Rightarrow> 'r io" where
  "get_or_create T P new =
     mbind (rows T P) (\<lambda>found.
     case found of
       r # rest \<Rightarrow> if rest = [] then mret r else mraise MultipleObjectsReturned
     | [] \<Rightarrow> mbind fresh_uuid (\<lambda>i.
         mtry (atomic (mseq (create_row T (new i)) (mret (new i))))
           (\<lambda>e. if e = IntegrityError
                then mbind (rows T P) (\<lambda>again. case again of [r] \<Rightarrow> mret r | _ \<Rightarrow> mraise e)
                else mraise e)))"

definition plan_matches :: "plan_spec \<Rightarrow> plan \<Rightarrow> bool" where
  "plan_matches s p \<longleftrightarrow> p_context p = ps_context s \<and> p_tier p = ps_tier s \<and> p_interval p = ps_interval s"

definition plan_placeholder :: "plan_spec \<Rightarrow> string" where
  "plan_placeholder s = ''price_placeholder_'' @ context_value (ps_context s) @ ''_'' @ str_nat (tier_number (ps_tier s))
     @ ''_'' @ interval_value (ps_interval s)"

definition seed_plan :: "plan_spec \<Rightarrow> unit io" where
  "seed_plan s =
     mbind (get_or_create plans_T (plan_matches s) (\<lambda>i. \<lparr>p_id = i, p_name = ps_name s,
         p_description = ps_description s, p_context = ps_context s, p_tier = ps_tier s,
         p_interval = ps_interval s, p_is_active = True\<rparr>)) (\<lambda>plan.
     mbind (first_row plan_prices_T (\<lambda>r. pp_plan r = p_id plan)) (\<lambda>existing.
     case existing of
       None \<Rightarrow> mbind fresh_uuid (\<lambda>i. create_row plan_prices_T \<lparr>pp_id = i, pp_plan = p_id plan,
           pp_stripe_price_id = plan_placeholder s, pp_amount = ps_amount s\<rparr>)
     | Some r \<Rightarrow>
         if pp_amount r \<noteq> ps_amount s
         then save_row plan_prices_T (pp_id r) (\<lambda>x. x\<lparr>pp_amount := ps_amount s\<rparr>)
         else mret ()))"

definition product_placeholder :: "int \<Rightarrow> string" where
  "product_placeholder credits = ''price_placeholder_boost_'' @ str_nat (nat credits)"

definition has_name :: "string \<Rightarrow> product \<Rightarrow> bool" where
  "has_name name p \<longleftrightarrow> pr_name p = name"

definition seed_product :: "string \<times> int \<times> int \<Rightarrow> unit io" where
  "seed_product s = (case s of (name, credits, amount) \<Rightarrow>
     mbind (get_or_create products_T (has_name name) (\<lambda>i. \<lparr>pr_id = i, pr_name = name,
         pr_credits = credits, pr_is_active = True\<rparr>)) (\<lambda>product.
     mbind (first_row product_prices_T (\<lambda>r. xp_product r = pr_id product)) (\<lambda>existing.
     case existing of
       None \<Rightarrow> mbind fresh_uuid (\<lambda>i. create_row product_prices_T \<lparr>xp_id = i, xp_product = pr_id product,
           xp_stripe_price_id = product_placeholder credits, xp_amount = amount\<rparr>)
     | Some r \<Rightarrow>
         if xp_amount r \<noteq> amount
         then save_row product_prices_T (xp_id r) (\<lambda>x. x\<lparr>xp_amount := amount\<rparr>)
         else mret ())))"

fun each :: "('a \<Rightarrow> unit io) \<Rightarrow> 'a list \<Rightarrow> unit io" where
  "each f [] = mret ()"
| "each f (x # xs) = mseq (f x) (each f xs)"

section \<open>Seeding country prices\<close>

text \<open>The row of a price and a country in \<open>existing_by_key\<close>; a later row replaces an earlier one.\<close>

definition owner_key :: "country_price \<Rightarrow> uuid option" where
  "owner_key cp = (if cp_plan_price cp \<noteq> None then cp_plan_price cp else cp_product_price cp)"

definition existing_row :: "country_price list \<Rightarrow> uuid \<Rightarrow> string \<Rightarrow> country_price option" where
  "existing_row cps owner country = find (\<lambda>cp. owner_key cp = Some owner \<and> cp_country cp = country) (rev cps)"

fun price_row_id :: "catalog_price \<Rightarrow> uuid" where
  "price_row_id (OfPlan p) = pp_id p"
| "price_row_id (OfProduct p) = xp_id p"

fun owner_columns :: "catalog_price \<Rightarrow> uuid option \<times> uuid option" where
  "owner_columns (OfPlan p) = (Some (pp_id p), None)"
| "owner_columns (OfProduct p) = (None, Some (xp_id p))"

text \<open>What a pair adds to the rows to create and to the rows to update.\<close>

definition collect_country_row ::
  "country_price list \<Rightarrow> (string \<times> string) \<times> catalog_price \<Rightarrow> (country_price list \<times> country_price list) io" where
  "collect_country_row cps pair = (case pair of ((country, currency), price) \<Rightarrow>
     case existing_row cps (price_row_id price) country of
       None \<Rightarrow>
         mbind (mlift (derive_base (price_amount price) (standard_vat_rate country))) (\<lambda>base.
         mbind fresh_uuid (\<lambda>i. mbind now (\<lambda>t.
         mret ([\<lparr>cp_id = i, cp_plan_price = fst (owner_columns price), cp_product_price = snd (owner_columns price),
                 cp_country = country, cp_currency = currency, cp_sticker_minor = price_amount price,
                 cp_base_minor = base, cp_is_curated = False, cp_stripe_price_id = None, cp_updated_at = t\<rparr>], []))))
     | Some cp \<Rightarrow>
         mbind (mlift (recompute_base cp)) (\<lambda>new.
         mret ([], if cp_base_minor cp \<noteq> cp_base_minor new then [new] else [])))"

fun collect_rows ::
  "country_price list \<Rightarrow> ((string \<times> string) \<times> catalog_price) list \<Rightarrow> (country_price list \<times> country_price list) io" where
  "collect_rows cps [] = mret ([], [])"
| "collect_rows cps (p # ps) =
     mbind (collect_country_row cps p) (\<lambda>(c, u).
     mbind (collect_rows cps ps) (\<lambda>(cs, us). mret (c @ cs, u @ us)))"

definition country_pairs :: "plan_price list \<Rightarrow> product_price list \<Rightarrow> ((string \<times> string) \<times> catalog_price) list" where
  "country_pairs pps xps = List.product country_currency (map OfPlan pps @ map OfProduct xps)"

definition update_base :: "country_price \<Rightarrow> unit io" where
  "update_base cp = save_row country_prices_T (cp_id cp) (\<lambda>r. r\<lparr>cp_base_minor := cp_base_minor cp\<rparr>)"

definition seed_country_prices :: "unit io" where
  "seed_country_prices =
     mbind (mgets db) (\<lambda>d.
     mbind (collect_rows (country_prices d) (country_pairs (plan_prices d) (product_prices d))) (\<lambda>(to_create, to_update).
     mseq (each (create_row country_prices_T) to_create) (each update_base to_update)))"

definition seed_catalog :: "unit io" where
  "seed_catalog = atomic (mseq (each seed_plan build_plans)
     (mseq (each seed_product boost_products) seed_country_prices))"

section \<open>Seeding settles\<close>

text \<open>
  Seeding runs one operation for each entry of a list.  The contract: the operation of an entry
  establishes what the entry asks for, keeps what the other entries ask for, and does nothing where
  the entry already has it.
\<close>

locale seeder =
  fixes seed :: "'a \<Rightarrow> unit io" and seeded :: "'a \<Rightarrow> db \<Rightarrow> bool" and entries :: "'a list"
  assumes entries: "distinct entries"
    and safe: "keeps consistent (seed x)"
    and establishes: "consistent w \<Longrightarrow> seed x w = (Inr (), w') \<Longrightarrow> seeded x (db w')"
    and preserves: "x \<in> set entries \<Longrightarrow> y \<in> set entries \<Longrightarrow> x \<noteq> y \<Longrightarrow> consistent w \<Longrightarrow> seeded x (db w) \<Longrightarrow>
          seed y w = (Inr (), w') \<Longrightarrow> seeded x (db w')"
    and idle: "consistent w \<Longrightarrow> seeded x (db w) \<Longrightarrow> seed x w = (Inr (), w)"
begin

lemma each_safe: "keeps consistent (each seed xs)"
  by (induction xs) (simp_all only: each.simps keeps_mret keeps_mseq safe)

lemma each_preserves:
  "consistent w \<Longrightarrow> seeded x (db w) \<Longrightarrow> x \<in> set entries \<Longrightarrow> x \<notin> set ys \<Longrightarrow> set ys \<subseteq> set entries \<Longrightarrow>
   each seed ys w = (Inr (), w') \<Longrightarrow> seeded x (db w')"
proof (induction ys arbitrary: w)
  case (Cons y ys)
  then obtain w1 where w1: "seed y w = (Inr (), w1)" "each seed ys w1 = (Inr (), w')"
    by (auto elim: mseq_InrE)
  with Cons.prems show ?case
    using preserves [of x y w w1] keepsD_run [OF safe Cons.prems(1) w1(1)] Cons.IH [of w1] by auto
qed simp

lemma each_establishes:
  "consistent w \<Longrightarrow> distinct ys \<Longrightarrow> set ys \<subseteq> set entries \<Longrightarrow> each seed ys w = (Inr (), w') \<Longrightarrow>
   x \<in> set ys \<Longrightarrow> seeded x (db w')"
proof (induction ys arbitrary: w)
  case (Cons y ys)
  then obtain w1 where w1: "seed y w = (Inr (), w1)" "each seed ys w1 = (Inr (), w')"
    by (auto elim: mseq_InrE)
  note c = keepsD_run [OF safe Cons.prems(1) w1(1)]
  show ?case
  proof (cases "x = y")
    case True
    with Cons.prems w1 establishes [OF Cons.prems(1) w1(1)] show ?thesis
      using each_preserves [OF c _ _ _ _ w1(2), of x] by simp
  next
    case False
    with Cons.prems w1 c show ?thesis by (intro Cons.IH [of w1]) auto
  qed
qed simp

lemma each_idle: "consistent w \<Longrightarrow> (\<And>x. x \<in> set ys \<Longrightarrow> seeded x (db w)) \<Longrightarrow> each seed ys w = (Inr (), w)"
  by (induction ys) (simp_all add: mseq_run idle)

end

lemma get_or_create_Inr:
  assumes "get_or_create T P new w = (Inr r, w')" and "\<And>i. P (new i)"
    and "\<And>xs d. t_get T (t_set T xs d) = xs"
  obtains (found) "w' = w" and "filter P (t_get T (db w)) = [r]"
  | (made) "filter P (t_get T (db w)) = []" and "db w' = t_set T (t_get T (db w) @ [r]) (db w)" and "P r"
proof (cases "filter P (t_get T (db w))")
  case (Cons x rest)
  with assms(1) show ?thesis by (intro found) (auto simp: get_or_create_def run_simps split: if_splits)
next
  case Nil
  let ?w = "w\<lparr>drawn := drawn w + 1\<rparr>" and ?r = "new (id_supply w (drawn w))"
  obtain a w1 where a: "atomic (mseq (create_row T ?r) (mret ?r)) ?w = (a, w1)" by force
  show ?thesis
  proof (cases a)
    case (Inl e)
    with a have "db w1 = db w" by (auto dest: atomic_raise_db)
    with assms(1) Nil a Inl show ?thesis by (auto simp: get_or_create_def run_simps split: if_splits)
  next
    case (Inr x)
    with a have "atomic (mseq (create_row T ?r) (mret ?r)) ?w = (Inr x, w1)" by simp
    then have "x = ?r" "db w1 = t_set T (t_get T (db w) @ [?r]) (db w)"
      by (auto elim!: atomic_InrE simp: run_simps create_row_def split: if_splits)
    with assms(1,2) Nil a Inr show ?thesis by (intro made) (auto simp: get_or_create_def run_simps)
  qed
qed

text \<open>
  An entry of the catalogue is a row that is found by what the entry says and a price row of that
  row.  The contract covers plans, which are found by context, tier and interval, and products,
  which are found by name.
\<close>

definition with_price ::
  "'p table \<Rightarrow> ('p \<Rightarrow> uuid) \<Rightarrow> ('p \<Rightarrow> int) \<Rightarrow> (int \<Rightarrow> 'p \<Rightarrow> 'p) \<Rightarrow> int \<Rightarrow> (uuid \<Rightarrow> 'p) \<Rightarrow> uuid \<Rightarrow> unit io" where
  "with_price PT owner amount set_amount want new k = mbind (first_row PT (\<lambda>r. owner r = k)) (\<lambda>existing.
     case existing of
       None \<Rightarrow> mbind fresh_uuid (\<lambda>i. create_row PT (new i))
     | Some r \<Rightarrow> if amount r \<noteq> want then save_row PT (t_pk PT r) (set_amount want) else mret ())"

definition entry_seeded ::
  "'r table \<Rightarrow> 'p table \<Rightarrow> ('p \<Rightarrow> uuid) \<Rightarrow> ('p \<Rightarrow> int) \<Rightarrow> ('r \<Rightarrow> bool) \<Rightarrow> int \<Rightarrow> db \<Rightarrow> bool" where
  "entry_seeded T PT owner amount P want d \<longleftrightarrow> (\<exists>p. filter P (t_get T d) = [p]
     \<and> (\<exists>r\<in>set (t_get PT d). owner r = t_pk T p \<and> amount r = want))"

locale priced_catalog =
  fixes T :: "'r table" and PT :: "'p table" and seed :: "'s \<Rightarrow> unit io"
    and matches :: "'s \<Rightarrow> 'r \<Rightarrow> bool" and new :: "'s \<Rightarrow> uuid \<Rightarrow> 'r" and key :: "'s \<Rightarrow> 'k"
    and owner :: "'p \<Rightarrow> uuid" and amount :: "'p \<Rightarrow> int" and set_amount :: "int \<Rightarrow> 'p \<Rightarrow> 'p"
    and want :: "'s \<Rightarrow> int" and new_price :: "'s \<Rightarrow> uuid \<Rightarrow> uuid \<Rightarrow> 'p" and entries :: "'s list"
  assumes seed: "seed s = mbind (get_or_create T (matches s) (new s)) (\<lambda>r.
        with_price PT owner amount set_amount (want s) (new_price s (t_pk T r)) (t_pk T r))"
    and tables: "t_get T (t_set T xs d) = xs" "t_get PT (t_set PT ys d) = ys"
        "t_get PT (t_set T xs d) = t_get PT d" "t_get T (t_set PT ys d) = t_get T d"
    and keyed: "consistent w \<Longrightarrow> distinct (map (t_pk T) (t_get T (db w)))"
        "consistent w \<Longrightarrow> distinct (map (t_pk PT) (t_get PT (db w)))"
        "consistent w \<Longrightarrow> distinct (map owner (t_get PT (db w)))"
    and rows: "matches s (new s i)" "owner (new_price s k i) = k" "amount (new_price s k i) = want s"
        "owner (set_amount a r) = owner r" "amount (set_amount a r) = a"
    and get_safe: "keeps consistent (get_or_create T (matches s) (new s))"
    and price_safe: "keeps consistent (with_price PT owner amount set_amount a (new_price s k) k)"
    and keys: "matches x p \<Longrightarrow> matches y p \<Longrightarrow> key x = key y" "distinct (map key entries)"
begin

lemma seed_safe: "keeps consistent (seed s)"
  unfolding seed by (intro keeps_mbind get_safe price_safe)

lemma price_effect:
  assumes w: "consistent w"
    and run: "with_price PT owner amount set_amount (want s) (new_price s k) k w = (Inr (), w')"
  shows "t_get T (db w') = t_get T (db w)"
    and "\<exists>r\<in>set (t_get PT (db w')). owner r = k \<and> amount r = want s"
    and "\<forall>r\<in>set (t_get PT (db w)). owner r \<noteq> k \<longrightarrow> r \<in> set (t_get PT (db w'))"
proof -
  have "t_get T (db w') = t_get T (db w)
    \<and> (\<exists>r\<in>set (t_get PT (db w')). owner r = k \<and> amount r = want s)
    \<and> (\<forall>r\<in>set (t_get PT (db w)). owner r \<noteq> k \<longrightarrow> r \<in> set (t_get PT (db w')))"
  proof (cases "first_by (t_pk PT) (filter (\<lambda>r. owner r = k) (t_get PT (db w)))")
    case None
    with run show ?thesis
      by (auto simp: with_price_def mbind_run create_row_def tables rows split: if_splits)
  next
    case (Some r)
    then have r: "r \<in> set (t_get PT (db w))" "owner r = k" by (auto dest: first_by_filter_Some)
    show ?thesis
    proof (cases "amount r = want s")
      case True with run Some r show ?thesis by (auto simp: with_price_def mbind_run)
    next
      case False
      with run Some have upd: "t_get PT (db w') = update_where (\<lambda>x. t_pk PT x = t_pk PT r) (set_amount (want s))
          (t_get PT (db w))" "t_get T (db w') = t_get T (db w)"
        by (auto simp: with_price_def mbind_run save_row_def update_rows_def tables Let_def split: if_splits)
      have "set_amount (want s) r \<in> set (t_get PT (db w'))"
        using r(1) by (simp add: upd set_update_where) blast
      moreover have "x \<in> set (t_get PT (db w'))" if "x \<in> set (t_get PT (db w))" "owner x \<noteq> k" for x
      proof -
        have "t_pk PT x \<noteq> t_pk PT r" using distinct_map_eqD [OF keyed(2) [OF w] that(1) r(1)] that(2) r(2) by blast
        with that(1) show ?thesis by (simp add: upd set_update_where)
      qed
      ultimately show ?thesis using upd(2) r(2) rows(4,5) by metis
    qed
  qed
  then show "t_get T (db w') = t_get T (db w)"
    "\<exists>r\<in>set (t_get PT (db w')). owner r = k \<and> amount r = want s"
    "\<forall>r\<in>set (t_get PT (db w)). owner r \<noteq> k \<longrightarrow> r \<in> set (t_get PT (db w'))" by blast+
qed

lemma seed_effect:
  assumes w: "consistent w" and run: "seed s w = (Inr (), w')"
  obtains p where "filter (matches s) (t_get T (db w')) = [p]"
    and "\<exists>r\<in>set (t_get PT (db w')). owner r = t_pk T p \<and> amount r = want s"
    and "set (t_get T (db w)) \<subseteq> set (t_get T (db w'))"
    and "\<forall>P. \<not> P p \<longrightarrow> filter P (t_get T (db w')) = filter P (t_get T (db w))"
    and "\<forall>r\<in>set (t_get PT (db w)). owner r \<noteq> t_pk T p \<longrightarrow> r \<in> set (t_get PT (db w'))"
proof -
  from run [unfolded seed] obtain p w1
    where g: "get_or_create T (matches s) (new s) w = (Inr p, w1)"
      and rest: "with_price PT owner amount set_amount (want s) (new_price s (t_pk T p)) (t_pk T p) w1 = (Inr (), w')"
    by (rule mbind_InrE)
  have w1: "consistent w1" by (rule keepsD_run [OF get_safe w g])
  have got: "filter (matches s) (t_get T (db w1)) = [p] \<and> set (t_get T (db w)) \<subseteq> set (t_get T (db w1))
      \<and> (\<forall>P. \<not> P p \<longrightarrow> filter P (t_get T (db w1)) = filter P (t_get T (db w)))
      \<and> t_get PT (db w1) = t_get PT (db w)"
    using g by (rule get_or_create_Inr) (auto simp: rows tables)
  note price = price_effect [OF w1 rest]
  show ?thesis
  proof (rule that [of p])
    show "\<exists>r\<in>set (t_get PT (db w')). owner r = t_pk T p \<and> amount r = want s" by (rule price(2))
  qed (use got price(1,3) in simp_all)
qed

lemma seed_establishes:
  "consistent w \<Longrightarrow> seed s w = (Inr (), w') \<Longrightarrow> entry_seeded T PT owner amount (matches s) (want s) (db w')"
  by (erule (1) seed_effect) (unfold entry_seeded_def, blast)

lemma seed_idle:
  assumes w: "consistent w" and s: "entry_seeded T PT owner amount (matches s) (want s) (db w)"
  shows "seed s w = (Inr (), w)"
proof -
  from s obtain p r where p: "filter (matches s) (t_get T (db w)) = [p]"
    and r: "r \<in> set (t_get PT (db w))" "owner r = t_pk T p" "amount r = want s"
    unfolding entry_seeded_def by blast
  have "first_by (t_pk PT) (filter (\<lambda>x. owner x = t_pk T p) (t_get PT (db w))) = Some r"
    by (rule first_by_unique) (use r distinct_map_eqD [OF keyed(3) [OF w]] in auto)
  with p r(3) show ?thesis by (simp add: seed get_or_create_def with_price_def mbind_run)
qed

lemma seed_preserves:
  assumes xy: "x \<in> set entries" "y \<in> set entries" "x \<noteq> y" and w: "consistent w"
    and s: "entry_seeded T PT owner amount (matches x) (want x) (db w)" and run: "seed y w = (Inr (), w')"
  shows "entry_seeded T PT owner amount (matches x) (want x) (db w')"
  using w run
proof (rule seed_effect)
  fix q assume q: "filter (matches y) (t_get T (db w')) = [q]"
    and keep: "set (t_get T (db w)) \<subseteq> set (t_get T (db w'))"
    and same: "\<forall>P. \<not> P q \<longrightarrow> filter P (t_get T (db w')) = filter P (t_get T (db w))"
    and prices: "\<forall>r\<in>set (t_get PT (db w)). owner r \<noteq> t_pk T q \<longrightarrow> r \<in> set (t_get PT (db w'))"
  from s obtain p r where p: "filter (matches x) (t_get T (db w)) = [p]"
    and r: "r \<in> set (t_get PT (db w))" "owner r = t_pk T p" "amount r = want x"
    unfolding entry_seeded_def by blast
  have pm: "p \<in> set (t_get T (db w'))" "matches x p" using p keep by (auto simp: filter_eq_Cons_iff)
  have qm: "q \<in> set (t_get T (db w'))" "matches y q" using q by (auto simp: filter_eq_Cons_iff)
  have nq: "\<not> matches x q" using keys(1) qm(2) distinct_map_eqD [OF keys(2) xy(1,2)] xy(3) by blast
  have "t_pk T p \<noteq> t_pk T q"
    using distinct_map_eqD [OF keyed(1) [OF keepsD_run [OF seed_safe w run]] pm(1) qm(1)] pm(2) nq by blast
  with same nq p prices r show ?thesis unfolding entry_seeded_def by (auto intro!: bexI [of _ r])
qed

end

sublocale priced_catalog \<subseteq> seeder seed "\<lambda>s. entry_seeded T PT owner amount (matches s) (want s)" entries
  by unfold_locales
    (use keys(2) in \<open>auto simp: distinct_map intro: seed_safe seed_establishes seed_preserves seed_idle\<close>)

definition plan_key :: "plan_spec \<Rightarrow> plan_context \<times> plan_tier \<times> plan_interval" where
  "plan_key s = (ps_context s, ps_tier s, ps_interval s)"

lemma catalogue_keyed:
  assumes "consistent w"
  shows "distinct (map p_id (plans (db w)))" and "distinct (map pr_id (products (db w)))"
    and "distinct (map pp_id (plan_prices (db w)))" and "distinct (map pp_plan (plan_prices (db w)))"
    and "distinct (map xp_id (product_prices (db w)))" and "distinct (map xp_product (product_prices (db w)))"
  using assms by (simp_all add: consistent_def db_ok_def tables_ok_def table_ok_defs)

lemma catalogue_pk:
  "t_pk plans_T = p_id" "t_pk plan_prices_T = pp_id" "t_pk products_T = pr_id" "t_pk product_prices_T = xp_id"
  by (simp_all add: plans_T_def plan_prices_T_def products_T_def product_prices_T_def)

interpretation seeded_plans: priced_catalog plans_T plan_prices_T seed_plan plan_matches
  "\<lambda>s i. \<lparr>p_id = i, p_name = ps_name s, p_description = ps_description s, p_context = ps_context s,
     p_tier = ps_tier s, p_interval = ps_interval s, p_is_active = True\<rparr>"
  plan_key pp_plan pp_amount "\<lambda>a r. r\<lparr>pp_amount := a\<rparr>" ps_amount
  "\<lambda>s k i. \<lparr>pp_id = i, pp_plan = k, pp_stripe_price_id = plan_placeholder s, pp_amount = ps_amount s\<rparr>"
  build_plans
proof
  show "distinct (map plan_key build_plans)" by code_simp
  show "seed_plan s = mbind (get_or_create plans_T (plan_matches s)
      (\<lambda>i. \<lparr>p_id = i, p_name = ps_name s, p_description = ps_description s, p_context = ps_context s,
         p_tier = ps_tier s, p_interval = ps_interval s, p_is_active = True\<rparr>)) (\<lambda>r.
      with_price plan_prices_T pp_plan pp_amount (\<lambda>a r. r\<lparr>pp_amount := a\<rparr>) (ps_amount s)
        (\<lambda>i. \<lparr>pp_id = i, pp_plan = t_pk plans_T r, pp_stripe_price_id = plan_placeholder s,
          pp_amount = ps_amount s\<rparr>) (t_pk plans_T r))" for s
    by (simp add: seed_plan_def with_price_def catalogue_pk cong: option.case_cong if_cong)
  show "keeps consistent (get_or_create plans_T (plan_matches s) new)" for s new
    unfolding get_or_create_def by (intro keeps_intros plans_tab.create_row_ok [THEN consistent_intro])
  show "keeps consistent (with_price plan_prices_T pp_plan pp_amount (\<lambda>a r. r\<lparr>pp_amount := a\<rparr>) a new k)" for a new k
    unfolding with_price_def by (intro keeps_intros plan_prices_tab.create_row_ok [THEN consistent_intro]) simp
qed (auto simp: plans_T_def plan_prices_T_def plan_matches_def plan_key_def catalogue_keyed)

interpretation seeded_products: priced_catalog products_T product_prices_T seed_product "\<lambda>s. has_name (fst s)"
  "\<lambda>s i. \<lparr>pr_id = i, pr_name = fst s, pr_credits = fst (snd s), pr_is_active = True\<rparr>"
  fst xp_product xp_amount "\<lambda>a r. r\<lparr>xp_amount := a\<rparr>" "\<lambda>s. snd (snd s)"
  "\<lambda>s k i. \<lparr>xp_id = i, xp_product = k, xp_stripe_price_id = product_placeholder (fst (snd s)), xp_amount = snd (snd s)\<rparr>"
  boost_products
proof
  show "distinct (map fst boost_products)" by code_simp
  show "seed_product s = mbind (get_or_create products_T (has_name (fst s))
      (\<lambda>i. \<lparr>pr_id = i, pr_name = fst s, pr_credits = fst (snd s), pr_is_active = True\<rparr>)) (\<lambda>r.
      with_price product_prices_T xp_product xp_amount (\<lambda>a r. r\<lparr>xp_amount := a\<rparr>) (snd (snd s))
        (\<lambda>i. \<lparr>xp_id = i, xp_product = t_pk products_T r,
          xp_stripe_price_id = product_placeholder (fst (snd s)), xp_amount = snd (snd s)\<rparr>) (t_pk products_T r))" for s
    by (cases s) (simp add: seed_product_def with_price_def catalogue_pk cong: option.case_cong if_cong)
  show "keeps consistent (get_or_create products_T P new)" for P new
    unfolding get_or_create_def by (intro keeps_intros products_tab.create_row_ok [THEN consistent_intro])
  show "keeps consistent (with_price product_prices_T xp_product xp_amount (\<lambda>a r. r\<lparr>xp_amount := a\<rparr>) a new k)" for a new k
    unfolding with_price_def by (intro keeps_intros product_prices_tab.create_row_ok [THEN consistent_intro]) simp
qed (auto simp: products_T_def product_prices_T_def has_name_def catalogue_keyed)

section \<open>Country prices settle\<close>

text \<open>The base of the row is the one its sticker and the country's rate give.\<close>

definition base_right :: "country_price \<Rightarrow> bool" where
  "base_right cp \<longleftrightarrow> derive_base (cp_sticker_minor cp) (standard_vat_rate (cp_country cp)) = Inr (cp_base_minor cp)"

lemma base_right_recompute: "base_right cp \<Longrightarrow> recompute_base cp = Inr cp"
  by (simp add: base_right_def recompute_base_def rbind_def)

text \<open>The new rows and the recomputed rows that a pass over the pairs collects.\<close>

definition same_sticker :: "country_price \<Rightarrow> country_price \<Rightarrow> bool" where
  "same_sticker r u \<longleftrightarrow> cp_sticker_minor r = cp_sticker_minor u \<and> cp_country r = cp_country u"

definition collected ::
  "country_price list \<Rightarrow> ((string \<times> string) \<times> catalog_price) list \<Rightarrow> country_price list \<Rightarrow> country_price list \<Rightarrow> bool" where
  "collected cps pairs cs us \<longleftrightarrow> (\<forall>c\<in>set cs. base_right c)
     \<and> (\<forall>u\<in>set us. base_right u \<and> (\<exists>r\<in>set cps. cp_id r = cp_id u \<and> same_sticker r u))
     \<and> (\<forall>((country, currency), price)\<in>set pairs.
          (\<exists>c\<in>set cs. owner_key c = Some (price_row_id price) \<and> cp_country c = country)
          \<or> (\<exists>r. existing_row cps (price_row_id price) country = Some r
               \<and> (base_right r \<or> (\<exists>u\<in>set us. cp_id u = cp_id r))))"

lemma existing_row_key:
  "existing_row cps k country = Some r \<Longrightarrow> r \<in> set cps \<and> owner_key r = Some k \<and> cp_country r = country"
  by (auto simp: existing_row_def find_Some_iff) (metis length_rev nth_mem set_rev)

lemma owner_columns_key:
  "owner_key \<lparr>cp_id = i, cp_plan_price = fst (owner_columns p), cp_product_price = snd (owner_columns p),
     cp_country = c, cp_currency = u, cp_sticker_minor = s, cp_base_minor = b, cp_is_curated = z,
     cp_stripe_price_id = k, cp_updated_at = t\<rparr> = Some (price_row_id p)"
  by (cases p) (simp_all add: owner_key_def)

lemma collect_country_row_Inr:
  assumes "collect_country_row cps pair w = (Inr (cs, us), w')"
  shows "collected cps [pair] cs us \<and> db w' = db w"
proof -
  obtain country currency price where pair: "pair = ((country, currency), price)" by (metis prod.exhaust)
  show ?thesis
  proof (cases "existing_row cps (price_row_id price) country")
    case None
    with assms show ?thesis
      by (auto simp: pair collect_country_row_def collected_def base_right_def mbind_run owner_columns_key mlift_def
          split: sum.splits)
  next
    case (Some r)
    with assms obtain new where new: "recompute_base r = Inr new" "cs = []" "w' = w"
        "us = (if cp_base_minor r \<noteq> cp_base_minor new then [new] else [])"
      by (auto simp: pair collect_country_row_def mbind_run mlift_def split: sum.splits)
    then have "base_right new" "cp_id new = cp_id r" "same_sticker r new" "cp_base_minor r = cp_base_minor new \<Longrightarrow> base_right r"
      by (auto simp: recompute_base_def rbind_def base_right_def same_sticker_def split: sum.splits)
    with Some new existing_row_key [OF Some] show ?thesis by (auto simp: pair collected_def)
  qed
qed

lemma collect_rows_Inr:
  "collect_rows cps pairs w = (Inr (cs, us), w') \<Longrightarrow> collected cps pairs cs us \<and> db w' = db w"
proof (induction pairs arbitrary: w cs us)
  case Nil then show ?case by (simp add: collected_def)
next
  case (Cons p ps)
  from Cons.prems [unfolded collect_rows.simps] obtain c u w1 cs1 us1 where
    one: "collect_country_row cps p w = (Inr (c, u), w1)" and
    rest: "collect_rows cps ps w1 = (Inr (cs1, us1), w')" and eq: "cs = c @ cs1" "us = u @ us1"
    by (auto elim!: mbind_InrE split: prod.splits)
  from collect_country_row_Inr [OF one] Cons.IH [OF rest] show ?case
    unfolding collected_def eq by (simp add: ball_Un) blast
qed

text \<open>Where every pair has a row with the right base there is nothing to collect.\<close>

definition country_settled :: "country_price list \<Rightarrow> ((string \<times> string) \<times> catalog_price) list \<Rightarrow> bool" where
  "country_settled cps pairs \<longleftrightarrow> (\<forall>((country, currency), price)\<in>set pairs.
     \<exists>r. existing_row cps (price_row_id price) country = Some r \<and> base_right r)"

lemma collect_rows_idle: "country_settled cps pairs \<Longrightarrow> collect_rows cps pairs w = (Inr ([], []), w)"
proof (induction pairs)
  case (Cons p ps)
  then obtain r where "existing_row cps (price_row_id (snd p)) (fst (fst p)) = Some r" "base_right r"
    by (auto simp: country_settled_def)
  then have "collect_country_row cps p w = (Inr ([], []), w)"
    by (cases p) (auto simp: collect_country_row_def base_right_recompute mlift_def mbind_run)
  moreover have "country_settled cps ps" using Cons.prems by (auto simp: country_settled_def)
  ultimately show ?case using Cons.IH by (simp add: mbind_run)
qed simp

text \<open>The writes: the new rows at the end of the table, the changed ones in place.\<close>

definition overwrite :: "('r \<Rightarrow> uuid) \<Rightarrow> ('r \<Rightarrow> 'r \<Rightarrow> 'r) \<Rightarrow> 'r list \<Rightarrow> 'r \<Rightarrow> 'r" where
  "overwrite k f us r = fold (\<lambda>u x. if k x = k u then f u x else x) us r"

lemma overwrite_Nil [simp]: "overwrite k f [] = (\<lambda>r. r)"
  by (rule ext) (simp add: overwrite_def)

lemma overwrite_Cons: "overwrite k f (u # us) r = overwrite k f us (if k r = k u then f u r else r)"
  by (simp add: overwrite_def)

context model_table begin

lemma each_create: "each (create_row T) cs w = (Inr (), w') \<Longrightarrow> t_get T (db w') = t_get T (db w) @ cs"
proof (induction cs arbitrary: w)
  case (Cons c cs)
  from Cons.prems obtain w1 where w1: "create_row T c w = (Inr (), w1)" "each (create_row T) cs w1 = (Inr (), w')"
    by (auto elim: mseq_InrE)
  from Cons.IH [OF w1(2)] create_row_reads [OF w1(1)] show ?case by simp
qed simp

lemma each_save:
  "each (\<lambda>u. save_row T (t_pk T u) (f u)) us w = (Inr (), w') \<Longrightarrow>
   t_get T (db w') = map (overwrite (t_pk T) f us) (t_get T (db w))"
proof (induction us arbitrary: w)
  case (Cons u us)
  from Cons.prems obtain w1 where w1: "save_row T (t_pk T u) (f u) w = (Inr (), w1)"
      "each (\<lambda>u. save_row T (t_pk T u) (f u)) us w1 = (Inr (), w')"
    by (auto elim: mseq_InrE)
  have "t_get T (db w1) = update_where (\<lambda>r. t_pk T r = t_pk T u) (f u) (t_get T (db w))"
    using update_rows_reads [OF w1(1) [unfolded save_row_def]] .
  with Cons.IH [OF w1(2)] show ?case by (simp add: update_where_def overwrite_Cons)
qed simp

end

definition rebase :: "country_price list \<Rightarrow> country_price \<Rightarrow> country_price" where
  "rebase = overwrite cp_id (\<lambda>u x. x\<lparr>cp_base_minor := cp_base_minor u\<rparr>)"

lemma rebase_Nil [simp]: "rebase [] = (\<lambda>r. r)"
  by (simp add: rebase_def)

lemma rebase_Cons:
  "rebase (u # us) r = rebase us (if cp_id r = cp_id u then r\<lparr>cp_base_minor := cp_base_minor u\<rparr> else r)"
  by (simp add: rebase_def overwrite_Cons)

lemma rebase_same: "cp_id (rebase us r) = cp_id r \<and> same_sticker (rebase us r) r \<and> owner_key (rebase us r) = owner_key r"
  by (induction us arbitrary: r) (auto simp: rebase_Cons same_sticker_def owner_key_def)

lemma rebase_right:
  assumes "\<forall>u\<in>set us. base_right u \<and> (cp_id u = cp_id r \<longrightarrow> same_sticker r u)"
    and "base_right r \<or> (\<exists>u\<in>set us. cp_id u = cp_id r)"
  shows "base_right (rebase us r)"
  using assms
proof (induction us arbitrary: r)
  case (Cons u us)
  show ?case
  proof (cases "cp_id r = cp_id u")
    case True
    let ?r = "r\<lparr>cp_base_minor := cp_base_minor u\<rparr>"
    have u: "base_right u" "same_sticker r u" using Cons.prems(1) True by auto
    then have "base_right ?r" by (simp add: base_right_def same_sticker_def)
    moreover have "\<forall>v\<in>set us. base_right v \<and> (cp_id v = cp_id ?r \<longrightarrow> same_sticker ?r v)"
      using Cons.prems(1) by (simp add: same_sticker_def)
    ultimately show ?thesis using Cons.IH [of ?r] True by (simp add: rebase_Cons)
  next
    case False
    with Cons show ?thesis by (simp add: rebase_Cons)
  qed
qed simp

lemma each_update_base:
  "each update_base us w = (Inr (), w') \<Longrightarrow> country_prices (db w') = map (rebase us) (country_prices (db w))"
  using country_prices_tab.each_save [of "\<lambda>u r. r\<lparr>cp_base_minor := cp_base_minor u\<rparr>" us w w']
  by (simp add: update_base_def [abs_def] rebase_def country_prices_T_def)

lemma each_create_row:
  "each (create_row country_prices_T) cs w = (Inr (), w') \<Longrightarrow> country_prices (db w') = country_prices (db w) @ cs"
  using country_prices_tab.each_create by (simp add: country_prices_T_def)

lemma find_append: "find P (xs @ ys) = (case find P xs of None \<Rightarrow> find P ys | Some x \<Rightarrow> Some x)"
  by (induction xs) simp_all

lemma find_map_same: "(\<And>r. P (g r) = P r) \<Longrightarrow> find P (map g xs) = map_option g (find P xs)"
  by (induction xs) simp_all

lemma existing_row_map:
  assumes "\<And>r. owner_key (g r) = owner_key r \<and> cp_country (g r) = cp_country r"
  shows "existing_row (map g cps) k country = map_option g (existing_row cps k country)"
  unfolding existing_row_def rev_map by (rule find_map_same) (simp add: assms)

text \<open>After the writes every pair has its row, with the base that the sticker and the rate give.\<close>

lemma written_settled:
  assumes c: "collected cps pairs cs us" and ids: "distinct (map cp_id (cps @ cs))"
  shows "country_settled (map (rebase us) (cps @ cs)) pairs"
  unfolding country_settled_def
proof (clarify, goal_cases)
  case (1 country currency price)
  let ?k = "price_row_id price"
  have us: "\<forall>u\<in>set us. base_right u \<and> (cp_id u = cp_id r \<longrightarrow> same_sticker r u)" if "r \<in> set (cps @ cs)" for r
  proof (intro ballI conjI impI)
    fix u assume u: "u \<in> set us" with c show "base_right u" by (simp add: collected_def)
    assume "cp_id u = cp_id r"
    moreover from u c obtain r0 where r0: "r0 \<in> set cps" "cp_id r0 = cp_id u" "same_sticker r0 u"
      unfolding collected_def by blast
    ultimately have "r0 = r" using distinct_map_eqD [OF ids _ that] by simp
    with r0(3) show "same_sticker r u" by simp
  qed
  have row: "\<exists>r. existing_row (cps @ cs) ?k country = Some r \<and> (base_right r \<or> (\<exists>u\<in>set us. cp_id u = cp_id r))"
  proof (cases "existing_row cs ?k country")
    case (Some r)
    then have "base_right r" using existing_row_key [OF Some] c by (simp add: collected_def)
    with Some show ?thesis by (simp add: existing_row_def find_append)
  next
    case None
    then have "\<not> (\<exists>x\<in>set cs. owner_key x = Some ?k \<and> cp_country x = country)"
      by (simp add: existing_row_def find_None_iff)
    with c 1 obtain r where "existing_row cps ?k country = Some r"
        "base_right r \<or> (\<exists>u\<in>set us. cp_id u = cp_id r)" unfolding collected_def by fast
    with None show ?thesis by (simp add: existing_row_def find_append)
  qed
  then obtain r where r: "existing_row (cps @ cs) ?k country = Some r"
    "base_right r \<or> (\<exists>u\<in>set us. cp_id u = cp_id r)" by blast
  have "existing_row (map (rebase us) (cps @ cs)) ?k country = Some (rebase us r)"
    by (subst existing_row_map) (use r(1) rebase_same in \<open>auto simp: same_sticker_def\<close>)
  moreover have "base_right (rebase us r)"
    by (rule rebase_right [OF us r(2)]) (use existing_row_key [OF r(1)] in simp)
  ultimately show ?case by blast
qed

section \<open>A second run changes nothing\<close>

lemma seed_country_prices_safe: "keeps consistent seed_country_prices"
proof -
  have rows: "keeps consistent (collect_rows cps ps)" for cps ps
    by (induction ps) (simp_all only: collect_rows.simps collect_country_row_def prod.case_eq_if, (intro keeps_intros | assumption)+)
  have created: "keeps consistent (each (create_row country_prices_T) cs)" for cs
    by (induction cs) (simp_all only: each.simps, (intro keeps_intros | assumption)+)
  have updated: "keeps consistent (each update_base us)" for us
    by (induction us) (simp_all only: each.simps update_base_def, (intro keeps_intros | assumption | simp)+)
  show ?thesis unfolding seed_country_prices_def prod.case_eq_if by (intro keeps_intros rows created updated)
qed

lemma seed_country_prices_settles:
  assumes w: "consistent w" and run: "seed_country_prices w = (Inr (), w')"
  shows "country_settled (country_prices (db w')) (country_pairs (plan_prices (db w')) (product_prices (db w')))"
    and "plans (db w') = plans (db w)" and "products (db w') = products (db w)"
    and "plan_prices (db w') = plan_prices (db w)" and "product_prices (db w') = product_prices (db w)"
proof -
  let ?cps = "country_prices (db w)" and ?pairs = "country_pairs (plan_prices (db w)) (product_prices (db w))"
  from run [unfolded seed_country_prices_def] obtain cs us w1 w2
    where c: "collect_rows ?cps ?pairs w = (Inr (cs, us), w1)"
      and w2: "each (create_row country_prices_T) cs w1 = (Inr (), w2)" and w': "each update_base us w2 = (Inr (), w')"
    by (auto elim!: mbind_InrE mseq_InrE split: prod.splits)
  note col = collect_rows_Inr [OF c]
  have rest: "each (create_row country_prices_T) cs v = (Inr (), v') \<Longrightarrow>
    plans (db v') = plans (db v) \<and> products (db v') = products (db v) \<and>
    plan_prices (db v') = plan_prices (db v) \<and> product_prices (db v') = product_prices (db v)" for v v' cs
    by (induction cs arbitrary: v) (auto elim!: mseq_InrE simp: create_row_def country_prices_T_def split: if_splits)
  have rest': "each update_base us v = (Inr (), v') \<Longrightarrow>
    plans (db v') = plans (db v) \<and> products (db v') = products (db v) \<and>
    plan_prices (db v') = plan_prices (db v) \<and> product_prices (db v') = product_prices (db v)" for v v' us
    by (induction us arbitrary: v)
      (auto elim!: mseq_InrE simp: update_base_def save_row_def update_rows_def country_prices_T_def Let_def split: if_splits)
  have same: "plans (db w') = plans (db w)" "products (db w') = products (db w)"
    "plan_prices (db w') = plan_prices (db w)" "product_prices (db w') = product_prices (db w)"
    using rest [OF w2] rest' [OF w'] col by simp_all
  have cp: "country_prices (db w') = map (rebase us) (?cps @ cs)"
    using each_create_row [OF w2] each_update_base [OF w'] col by simp
  have "map cp_id (?cps @ cs) = map cp_id (country_prices (db w'))" using rebase_same by (simp add: cp)
  moreover have "distinct (map cp_id (country_prices (db w')))"
    using keepsD_run [OF seed_country_prices_safe w run] by (simp add: consistent_def db_ok_def tables_ok_def country_prices_ok_def)
  ultimately have "country_settled (map (rebase us) (?cps @ cs)) ?pairs"
    using written_settled col by metis
  with cp same show "country_settled (country_prices (db w')) (country_pairs (plan_prices (db w')) (product_prices (db w')))"
    by simp
  show "plans (db w') = plans (db w)" "products (db w') = products (db w)"
    "plan_prices (db w') = plan_prices (db w)" "product_prices (db w') = product_prices (db w)" by (fact same)+
qed

lemma seed_country_prices_idle:
  "country_settled (country_prices (db w)) (country_pairs (plan_prices (db w)) (product_prices (db w)))
    \<Longrightarrow> seed_country_prices w = (Inr (), w)"
  by (simp add: seed_country_prices_def mbind_run mseq_run collect_rows_idle)

text \<open>Each part of the command keeps what the parts before it set up.\<close>

abbreviation "plan_there \<equiv> \<lambda>s. entry_seeded plans_T plan_prices_T pp_plan pp_amount (plan_matches s) (ps_amount s)"
abbreviation "product_there \<equiv>
  \<lambda>s. entry_seeded products_T product_prices_T xp_product xp_amount (has_name (fst s)) (snd (snd s))"

lemma products_leave_plans:
  "each seed_product ss w = (Inr (), w') \<Longrightarrow> plans (db w') = plans (db w) \<and> plan_prices (db w') = plan_prices (db w)"
proof (induction ss arbitrary: w)
  case (Cons s ss)
  from Cons.prems obtain w1 where w1: "seed_product s w = (Inr (), w1)" "each seed_product ss w1 = (Inr (), w')"
    by (auto elim: mseq_InrE)
  have "keeps (on_db (\<lambda>d. plans d = plans (db w) \<and> plan_prices d = plan_prices (db w))) (seed_product s)"
    unfolding seed_product_def get_or_create_def prod.case_eq_if
    by (intro keeps_intros on_db_writes; simp add: products_T_def product_prices_T_def)+
  from keepsD_run [OF this _ w1(1)] have "plans (db w1) = plans (db w)" "plan_prices (db w1) = plan_prices (db w)"
    by (simp_all add: on_db_def)
  with Cons.IH [OF w1(2)] show ?case by simp
qed simp

lemma rebase_base: "\<exists>b. rebase us r = r\<lparr>cp_base_minor := b\<rparr>"
proof (induction us arbitrary: r)
  case Nil show ?case by (rule exI [of _ "cp_base_minor r"]) simp
next
  case (Cons u us)
  from Cons.IH [of "if cp_id r = cp_id u then r\<lparr>cp_base_minor := cp_base_minor u\<rparr> else r"]
  show ?case by (auto simp: rebase_Cons)
qed

lemma seed_country_prices_stickers:
  assumes "seed_country_prices w = (Inr (), w')" and "r \<in> set (country_prices (db w))"
  shows "\<exists>b. r\<lparr>cp_base_minor := b\<rparr> \<in> set (country_prices (db w'))"
proof -
  from assms(1) [unfolded seed_country_prices_def] obtain cs us w1 w2
    where c: "collect_rows (country_prices (db w)) (country_pairs (plan_prices (db w)) (product_prices (db w))) w = (Inr (cs, us), w1)"
      and w2: "each (create_row country_prices_T) cs w1 = (Inr (), w2)" and w': "each update_base us w2 = (Inr (), w')"
    by (auto elim!: mbind_InrE mseq_InrE split: prod.splits)
  have "rebase us r \<in> set (country_prices (db w'))"
    using each_create_row [OF w2] each_update_base [OF w'] collect_rows_Inr [OF c] assms(2) by auto
  with rebase_base [of us r] show ?thesis by metis
qed

lemma each_keeps: "(\<And>x. keeps Q (f x)) \<Longrightarrow> keeps Q (each f xs)"
  by (induction xs) (simp_all only: each.simps keeps_mret keeps_mseq)

lemma entries_leave_countries:
  "keeps (on_db (\<lambda>d. country_prices d = cps)) (each seed_plan ps)"
  "keeps (on_db (\<lambda>d. country_prices d = cps)) (each seed_product xs)"
  unfolding seed_plan_def seed_product_def get_or_create_def prod.case_eq_if
  by (intro each_keeps keeps_intros on_db_writes;
      simp add: plans_T_def plan_prices_T_def products_T_def product_prices_T_def)+

text \<open>The body of the command, run in its transaction.\<close>

definition seed_body :: "unit io" where
  "seed_body = mseq (each seed_plan build_plans) (mseq (each seed_product boost_products) seed_country_prices)"

lemma seed_body_settles:
  assumes w: "consistent w" and run: "seed_body w = (Inr (), w')"
  shows "\<And>v. db v = db w' \<Longrightarrow> seed_body v = (Inr (), v)"
    and "\<forall>r\<in>set (country_prices (db w)). \<exists>b. r\<lparr>cp_base_minor := b\<rparr> \<in> set (country_prices (db w'))"
proof -
  from run [unfolded seed_body_def] obtain w1 w2
    where r1: "each seed_plan build_plans w = (Inr (), w1)" and r2: "each seed_product boost_products w1 = (Inr (), w2)"
      and r3: "seed_country_prices w2 = (Inr (), w')"
    by (auto elim!: mseq_InrE)
  have w1: "consistent w1" by (rule keepsD_run [OF seeded_plans.each_safe w r1])
  have w2: "consistent w2" by (rule keepsD_run [OF seeded_products.each_safe w1 r2])
  have w': "consistent w'" by (rule keepsD_run [OF seed_country_prices_safe w2 r3])
  note settled = seed_country_prices_settles [OF w2 r3]
  have plans: "plan_there s (db w')" if "s \<in> set build_plans" for s
    using seeded_plans.each_establishes [OF w _ _ r1 that] seeded_plans.entries products_leave_plans [OF r2] settled(2,4)
    by (simp add: entry_seeded_def plans_T_def plan_prices_T_def)
  have products: "product_there s (db w')" if "s \<in> set boost_products" for s
    using seeded_products.each_establishes [OF w1 _ _ r2 that] seeded_products.entries settled(3,5)
    by (simp add: entry_seeded_def products_T_def product_prices_T_def)
  show "seed_body v = (Inr (), v)" if v: "db v = db w'" for v
  proof -
    have "consistent v" using w' v by (simp add: consistent_def)
    then show ?thesis using plans products settled(1)
      by (simp add: seed_body_def mseq_run v seeded_plans.each_idle seeded_products.each_idle seed_country_prices_idle)
  qed
  have "country_prices (db w2) = country_prices (db w)"
    using keepsD_run [OF entries_leave_countries(1) _ r1] keepsD_run [OF entries_leave_countries(2) _ r2]
    by (simp add: on_db_def)
  with seed_country_prices_stickers [OF r3]
  show "\<forall>r\<in>set (country_prices (db w)). \<exists>b. r\<lparr>cp_base_minor := b\<rparr> \<in> set (country_prices (db w'))" by simp
qed

text \<open>
  C33. Seeding the catalogue is idempotent: after a run that succeeded, on any consistent database, a
  second run succeeds and leaves the database exactly as it is; and the run moved nothing of a country
  price that was already there (a curated sticker, its flag, its Stripe price) except its derived base.
\<close>

theorem seeding_idempotent:
  assumes "consistent w" and "seed_catalog w = (Inr (), w')"
  shows "(\<exists>w''. seed_catalog w' = (Inr (), w'') \<and> db w'' = db w')
    \<and> (\<forall>r\<in>set (country_prices (db w)). \<exists>b. r\<lparr>cp_base_minor := b\<rparr> \<in> set (country_prices (db w')))"
proof -
  from assms(2) [unfolded seed_catalog_def, folded seed_body_def] obtain w0 w1
    where w0: "db w0 = db w" "seed_body w0 = (Inr (), w1)" and w1: "db w' = db w1" by (rule atomic_InrE)
  have c: "consistent w0" using assms(1) w0(1) by (simp add: consistent_def)
  note settled = seed_body_settles [OF c w0(2)]
  have again: "seed_body (enter w') = (Inr (), enter w')" by (rule settled(1)) (simp add: w1)
  have "fst (seed_catalog w') = Inr ()" "db (snd (seed_catalog w')) = db w'"
    unfolding seed_catalog_def seed_body_def [symmetric]
    using again by (simp_all add: atomic_enter atomic_enter_db)
  then have "\<exists>w''. seed_catalog w' = (Inr (), w'') \<and> db w'' = db w'"
    by (metis prod.collapse)
  with settled(2) show ?thesis by (simp add: w0(1) w1)
qed

text \<open>A run on a catalogue without country prices succeeds: the new rows have distinct keys and owners that exist.\<close>

definition row_key :: "country_price \<Rightarrow> (uuid option \<times> uuid option) \<times> string" where
  "row_key cp = ((cp_plan_price cp, cp_product_price cp), cp_country cp)"

lemma collect_rows_fresh:
  "\<forall>p\<in>set pairs. 0 \<le> price_amount (snd p) \<Longrightarrow>
   \<exists>cs. collect_rows [] pairs w = (Inr (cs, []), w\<lparr>drawn := drawn w + length pairs\<rparr>)
     \<and> map cp_id cs = map (id_supply w) [drawn w ..< drawn w + length pairs]
     \<and> map row_key cs = map (\<lambda>p. (owner_columns (snd p), fst (fst p))) pairs
     \<and> (\<forall>c\<in>set cs. cp_stripe_price_id c = None)"
proof (induction pairs arbitrary: w)
  case (Cons p ps)
  obtain country currency price where p: "p = ((country, currency), price)" by (metis prod.exhaust)
  have "\<exists>b. derive_base (price_amount price) (standard_vat_rate country) = Inr b"
    using Cons.prems standard_vat_range(1) [of country] by (simp add: p derive_base_def)
  then obtain b where b: "derive_base (price_amount price) (standard_vat_rate country) = Inr b" by blast
  let ?w = "w\<lparr>drawn := Suc (drawn w)\<rparr>"
  let ?c = "\<lparr>cp_id = id_supply w (drawn w), cp_plan_price = fst (owner_columns price),
     cp_product_price = snd (owner_columns price), cp_country = country, cp_currency = currency,
     cp_sticker_minor = price_amount price, cp_base_minor = b, cp_is_curated = False,
     cp_stripe_price_id = None, cp_updated_at = clock w\<rparr>"
  have one: "collect_country_row [] p w = (Inr ([?c], []), ?w)"
    by (simp add: collect_country_row_def p existing_row_def run_simps b mlift_def)
  have rk: "row_key ?c = (owner_columns price, country)" by (simp add: row_key_def)
  obtain cs where cs: "collect_rows [] ps ?w = (Inr (cs, []), ?w\<lparr>drawn := drawn ?w + length ps\<rparr>)"
      "map cp_id cs = map (id_supply ?w) [drawn ?w ..< drawn ?w + length ps]"
      "map row_key cs = map (\<lambda>p. (owner_columns (snd p), fst (fst p))) ps"
      "\<forall>c\<in>set cs. cp_stripe_price_id c = None"
    using Cons.IH [of ?w] Cons.prems by auto
  show ?case
    by (rule exI [of _ "?c # cs"]) (use cs one rk in \<open>simp add: mbind_run p upt_conv_Cons del: upt_Suc\<close>)
qed simp

lemma country_prices_ok_prefix: "country_prices_ok (xs @ ys) \<Longrightarrow> country_prices_ok xs"
  by (simp add: country_prices_ok_def)

lemma each_create_succeeds:
  "country_prices_ok (country_prices (db w) @ cs) \<Longrightarrow> \<forall>c\<in>set cs. refs_ok (db w) (country_refs c) \<Longrightarrow>
   \<exists>w'. each (create_row country_prices_T) cs w = (Inr (), w')"
proof (induction cs arbitrary: w)
  case (Cons c cs)
  let ?w = "w\<lparr>db := db w\<lparr>country_prices := country_prices (db w) @ [c]\<rparr>\<rparr>"
  have "country_prices_ok (country_prices (db w) @ [c])"
    by (rule country_prices_ok_prefix [of _ cs]) (use Cons.prems(1) in simp)
  then have one: "create_row country_prices_T c w = (Inr (), ?w)"
    using Cons.prems(2) by (simp add: create_row_def country_prices_T_def)
  have "pk (db ?w) k = pk (db w) k" for k by (cases k) simp_all
  then have refs: "\<forall>c\<in>set cs. refs_ok (db ?w) (country_refs c)"
    using Cons.prems(2) by (simp only: refs_ok_def) simp
  have "\<exists>w'. each (create_row country_prices_T) cs ?w = (Inr (), w')"
    by (rule Cons.IH) (use Cons.prems(1) refs in simp_all)
  with one show ?case by (auto simp: mseq_run)
qed simp

lemma distinct_somes_map:
  "distinct (map f xs) \<Longrightarrow> (\<And>x y. x \<in> set xs \<Longrightarrow> y \<in> set xs \<Longrightarrow> g x = g y \<Longrightarrow> g x \<noteq> None \<Longrightarrow> f x = f y) \<Longrightarrow>
   distinct (somes (map g xs))"
proof (induction xs)
  case (Cons x xs)
  show ?case
  proof (cases "g x")
    case (Some k)
    have "Some k \<notin> g ` set xs"
    proof
      assume "Some k \<in> g ` set xs"
      then obtain y where y: "y \<in> set xs" "g y = Some k" by auto
      with Cons.prems(2) [of x y] Some have "f x = f y" by simp
      with Cons.prems(1) y(1) show False by auto
    qed
    with Some Cons show ?thesis by (auto simp: image_iff)
  qed (use Cons in auto)
qed simp

lemma country_rows_ok:
  assumes "distinct (map cp_id cs)" and "distinct (map row_key cs)" and "\<forall>c\<in>set cs. cp_stripe_price_id c = None"
    and "\<forall>c\<in>set cs. \<exists>p. fst (row_key c) = owner_columns p"
  shows "country_prices_ok cs"
proof -
  have xor: "xor_owner (cp_plan_price c) (cp_product_price c)" if c: "c \<in> set cs" for c
  proof -
    obtain p where "fst (row_key c) = owner_columns p" using assms(4) c by blast
    then have "cp_plan_price c = fst (owner_columns p)" "cp_product_price c = snd (owner_columns p)"
      by (simp_all add: row_key_def prod_eq_iff)
    then show ?thesis by (cases p) (simp_all add: xor_owner_def)
  qed
  have one: "cp_plan_price c = None \<longleftrightarrow> cp_product_price c \<noteq> None" if "c \<in> set cs" for c
    using xor [OF that] by (auto simp: xor_owner_def)
  have "distinct (somes (map cp_stripe_price_id cs))"
    by (rule distinct_somes_map [OF assms(2)]) (use assms(3) in simp)
  moreover have "distinct (somes (map (\<lambda>p. map_option (\<lambda>k. (k, cp_country p)) (cp_plan_price p)) cs))"
  proof (rule distinct_somes_map [OF assms(2)], goal_cases)
    case (1 x y) with one [OF 1(1)] one [OF 1(2)] show ?case by (cases "cp_plan_price x"; cases "cp_plan_price y") (auto simp: row_key_def)
  qed
  moreover have "distinct (somes (map (\<lambda>p. map_option (\<lambda>k. (k, cp_country p)) (cp_product_price p)) cs))"
  proof (rule distinct_somes_map [OF assms(2)], goal_cases)
    case (1 x y) with one [OF 1(1)] one [OF 1(2)] show ?case by (cases "cp_product_price x"; cases "cp_product_price y") (auto simp: row_key_def)
  qed
  ultimately show ?thesis using assms(1) xor by (simp add: country_prices_ok_def list_all_iff)
qed

lemma country_pairs_distinct:
  assumes "distinct (map pp_id pps)" and "distinct (map xp_id xps)"
  shows "distinct (map (\<lambda>p. (owner_columns (snd p), fst (fst p))) (country_pairs pps xps))"
proof -
  let ?prices = "map OfPlan pps @ map OfProduct xps"
  have "map owner_columns ?prices = map (\<lambda>k. (Some k, None)) (map pp_id pps) @ map (\<lambda>k. (None, Some k)) (map xp_id xps)"
    by simp
  moreover have "distinct \<dots>" using assms by (auto simp: distinct_map inj_on_def)
  ultimately have prices: "distinct (map owner_columns ?prices)" by (simp only:)
  have countries: "distinct (map fst country_currency)" by code_simp
  have "inj_on (\<lambda>p. (owner_columns (snd p), fst (fst p))) (set (List.product country_currency ?prices))"
    by (rule inj_onI) (use distinct_map_eqD [OF prices] distinct_map_eqD [OF countries] in \<open>auto simp del: set_map set_append\<close>)
  moreover have "distinct (List.product country_currency ?prices)"
    using prices countries by (intro distinct_product) (simp_all only: distinct_map)
  ultimately show ?thesis by (simp only: country_pairs_def distinct_map)
qed

lemma seed_country_prices_fresh:
  assumes w: "consistent w" and none: "country_prices (db w) = []" and inj: "inj (id_supply w)"
    and amounts: "list_all (\<lambda>r. 0 \<le> pp_amount r) (plan_prices (db w))" "list_all (\<lambda>r. 0 \<le> xp_amount r) (product_prices (db w))"
  shows "fst (seed_country_prices w) = Inr ()"
proof -
  let ?pairs = "country_pairs (plan_prices (db w)) (product_prices (db w))"
  let ?w = "w\<lparr>drawn := drawn w + length ?pairs\<rparr>"
  have "0 \<le> price_amount (snd p)" if "p \<in> set ?pairs" for p
    using that amounts by (auto simp: country_pairs_def list_all_iff)
  then obtain cs where run: "collect_rows [] ?pairs w = (Inr (cs, []), ?w)"
    and ids: "map cp_id cs = map (id_supply w) [drawn w ..< drawn w + length ?pairs]"
    and keys: "map row_key cs = map (\<lambda>p. (owner_columns (snd p), fst (fst p))) ?pairs"
    and unminted: "\<forall>c\<in>set cs. cp_stripe_price_id c = None"
    using collect_rows_fresh [of ?pairs w] by auto
  have key: "\<exists>p\<in>set ?pairs. row_key c = (owner_columns (snd p), fst (fst p))" if "c \<in> set cs" for c
  proof -
    have "row_key c \<in> set (map row_key cs)" using that by simp
    then show ?thesis by (simp only: keys) auto
  qed
  have ok: "country_prices_ok cs"
  proof (rule country_rows_ok)
    show "distinct (map cp_id cs)" unfolding ids using inj by (simp add: distinct_map inj_on_def inj_def)
    show "distinct (map row_key cs)" unfolding keys by (rule country_pairs_distinct) (use catalogue_keyed [OF w] in auto)
    show "\<forall>c\<in>set cs. cp_stripe_price_id c = None" by (rule unminted)
    show "\<forall>c\<in>set cs. \<exists>p. fst (row_key c) = owner_columns p" using key by fastforce
  qed
  have refs: "refs_ok (db w) (country_refs c)" if c: "c \<in> set cs" for c
  proof -
    obtain p where p: "p \<in> set ?pairs" "row_key c = (owner_columns (snd p), fst (fst p))" using key c by blast
    then have "snd p \<in> OfPlan ` set (plan_prices (db w)) \<union> OfProduct ` set (product_prices (db w))"
      by (auto simp: country_pairs_def)
    with p(2) show ?thesis by (auto simp: row_key_def country_refs_def refs_ok_def)
  qed
  have "\<exists>w'. each (create_row country_prices_T) cs ?w = (Inr (), w')"
    by (rule each_create_succeeds) (use ok refs none in simp_all)
  then show ?thesis using run none by (auto simp: seed_country_prices_def run_simps)
qed

text \<open>A catalogue with its plans and packs but without country prices.\<close>

lemma entry_seeded_code [code]:
  "entry_seeded T PT owner amount P want d \<longleftrightarrow>
     (case filter P (t_get T d) of
        [p] \<Rightarrow> list_ex (\<lambda>r. owner r = t_pk T p \<and> amount r = want) (t_get PT d)
      | _ \<Rightarrow> False)"
  by (auto simp: entry_seeded_def list_ex_iff split: list.splits)

definition plain_catalogue :: db where
  "plain_catalogue = empty_db\<lparr>
     plans := map (\<lambda>(i, s). \<lparr>p_id = i, p_name = ps_name s, p_description = [], p_context = ps_context s,
        p_tier = ps_tier s, p_interval = ps_interval s, p_is_active = True\<rparr>) (zip [0..<8] build_plans),
     plan_prices := map (\<lambda>(i, s). \<lparr>pp_id = i, pp_plan = i, pp_stripe_price_id = replicate i CHR ''p'',
        pp_amount = ps_amount s\<rparr>) (zip [0..<8] build_plans),
     products := map (\<lambda>(i, s). \<lparr>pr_id = i, pr_name = fst s, pr_credits = fst (snd s), pr_is_active = True\<rparr>)
        (zip [0..<3] boost_products),
     product_prices := map (\<lambda>(i, s). \<lparr>xp_id = i, xp_product = i, xp_stripe_price_id = replicate i CHR ''x'',
        xp_amount = snd (snd s)\<rparr>) (zip [0..<3] boost_products)\<rparr>"

lemma plain_catalogue_facts:
  "tables_ok plain_catalogue" "list_all (\<lambda>s. plan_there s plain_catalogue) build_plans"
  "list_all (\<lambda>s. product_there s plain_catalogue) boost_products"
  "list_all (\<lambda>r. 0 \<le> pp_amount r) (plan_prices plain_catalogue)"
  "list_all (\<lambda>r. 0 \<le> xp_amount r) (product_prices plain_catalogue)"
  "refs_ok plain_catalogue (all_refs plain_catalogue)"
  by code_simp+

lemma start_world_db: "db (start_world d) = d"
  by (simp add: start_world_def)

lemma plain_catalogue_runs: "fst (seed_catalog (start_world plain_catalogue)) = Inr ()"
proof -
  let ?w = "enter (start_world plain_catalogue)"
  have d: "db ?w = plain_catalogue" by (simp add: start_world_db)
  have c: "consistent ?w" unfolding consistent_def d db_ok_def fk_ok_def using plain_catalogue_facts(1,6) by blast
  have "each seed_plan build_plans ?w = (Inr (), ?w)"
    by (rule seeded_plans.each_idle [OF c]) (use plain_catalogue_facts(2) in \<open>simp add: start_world_db list_all_iff\<close>)
  moreover have "each seed_product boost_products ?w = (Inr (), ?w)"
    by (rule seeded_products.each_idle [OF c]) (use plain_catalogue_facts(3) in \<open>simp add: start_world_db list_all_iff\<close>)
  moreover have "fst (seed_country_prices ?w) = Inr ()"
    by (rule seed_country_prices_fresh [OF c])
      (use plain_catalogue_facts(4,5) in \<open>simp_all add: start_world_db, simp_all add: plain_catalogue_def empty_db_def start_world_def inj_def\<close>)
  ultimately show ?thesis by (simp add: seed_catalog_def atomic_enter mseq_run)
qed

theorem seeding_idempotent_witness:
  "\<exists>w' w''. seed_catalog (start_world plain_catalogue) = (Inr (), w') \<and> seed_catalog w' = (Inr (), w'') \<and> db w'' = db w'"
proof -
  have c: "consistent (start_world plain_catalogue)"
    unfolding consistent_def start_world_db db_ok_def fk_ok_def using plain_catalogue_facts(1,6) by blast
  obtain w' where w': "seed_catalog (start_world plain_catalogue) = (Inr (), w')"
    using plain_catalogue_runs by (metis prod.collapse)
  from seeding_idempotent [OF c w'] w' show ?thesis by blast
qed

end
