(* ===== verification/FxSync.thy ===== *)
theory FxSync
  imports Seed
begin

text \<open>
  The daily task \<open>sync_localized_prices\<close> of \<open>apps/billing/tasks.py\<close>: the amounts shown in other
  currencies follow the exchange-rate feed, and so do the country stickers that nobody curated.
  \<open>round_friendly\<close> is that of \<open>saasmint_core/services/currency.py\<close>.

  The feed's answer is a parameter: \<open>fx_answer\<close> says what the task reads of it, a rate that
  \<open>float(v)\<close> refuses being \<open>None\<close>.  Rates are finite, and the floating-point arithmetic of the
  conversion is that of exact rationals.
\<close>

section \<open>Friendly amounts\<close>

text \<open>\<open>min(options, key=\<dots>)\<close>: the first of the least.\<close>

fun min_by :: "('a \<Rightarrow> 'b::linorder) \<Rightarrow> 'a \<Rightarrow> 'a list \<Rightarrow> 'a" where
  "min_by f x [] = x"
| "min_by f x (y # ys) = (let m = min_by f y ys in if f x \<le> f m then x else m)"

text \<open>Python's \<open>round\<close>, to even on a tie, and \<open>quantize(Decimal("1"), rounding=ROUND_HALF_UP)\<close>.\<close>

definition round_half_even :: "rat \<Rightarrow> int" where
  "round_half_even x = (let f = \<lfloor>x\<rfloor>; d = x - of_int f in
     if d < 1/2 then f else if 1/2 < d then f + 1 else if even f then f else f + 1)"

definition round_half_up :: "rat \<Rightarrow> int" where
  "round_half_up x = (if x < 0 then - \<lfloor>1/2 - x\<rfloor> else \<lfloor>x + 1/2\<rfloor>)"

definition round_friendly :: "rat \<Rightarrow> string \<Rightarrow> rat" where
  "round_friendly amount currency =
     (if amount \<le> 0 then 0
      else if lower currency \<in> set zero_decimal_currencies then
        (let step = (if amount \<ge> 1000 then 100 else 10) in of_int (round_half_even (amount / of_int step) * step))
      else
        (let whole = of_int \<lfloor>amount\<rfloor> in
         min_by (\<lambda>x. \<bar>x - amount\<bar>) (whole - 1/100) [whole + 49/100, whole + 99/100, whole + 149/100]))"

definition to_minor_units :: "rat \<Rightarrow> string \<Rightarrow> int" where
  "to_minor_units amount currency =
     round_half_up (if lower currency \<in> set zero_decimal_currencies then amount else amount * 100)"

section \<open>The feed\<close>

datatype fx_answer = FeedDown | NotAnObject | Payload (succeeded: bool) (rates_of: "(string \<times> rat option) list option")

text \<open>\<open>{k.lower(): float(v) for k, v in rates_raw.items()}\<close>; \<open>None\<close> where a value is malformed.\<close>

definition api_rates :: "(string \<times> rat option) list \<Rightarrow> (string \<rightharpoonup> rat) option" where
  "api_rates raw = (if list_all (\<lambda>(k, v). v \<noteq> None) raw
     then Some (map_of (rev (map (\<lambda>(k, v). (lower k, the v)) raw))) else None)"

definition fx_amount :: "rat \<Rightarrow> int \<Rightarrow> string \<Rightarrow> int" where
  "fx_amount rate amount currency =
     to_minor_units (round_friendly (format_amount amount ''usd'' * rate) currency) currency"

definition suggested_sticker :: "(string \<rightharpoonup> rat) \<Rightarrow> int \<Rightarrow> string \<Rightarrow> int option" where
  "suggested_sticker rates amount currency =
     (if currency = ''usd'' then Some amount else map_option (\<lambda>r. fx_amount r amount currency) (rates currency))"

definition compute_new_amounts :: "(string \<rightharpoonup> rat) \<Rightarrow> int \<Rightarrow> (string \<times> int) list" where
  "compute_new_amounts rates amount = List.map_filter
     (\<lambda>c. map_option (\<lambda>r. (c, fx_amount r amount c)) (rates c)) (filter (\<lambda>c. c \<noteq> ''usd'') supported_currencies)"

section \<open>The rows\<close>

text \<open>The rows to create, those whose amount changed and those that are only marked as checked.\<close>

type_synonym upserts = "localized_price list \<times> localized_price list \<times> localized_price list"

definition localized_row :: "localized_price list \<Rightarrow> catalog_price \<Rightarrow> string \<Rightarrow> localized_price option" where
  "localized_row lps price currency = find (\<lambda>r. owns_localized price r \<and> lp_currency r = currency) (rev lps)"

definition upsert_currency :: "localized_price list \<Rightarrow> catalog_price \<times> string \<times> int \<Rightarrow> upserts io" where
  "upsert_currency lps target = (case target of (price, currency, new_amount) \<Rightarrow> mbind now (\<lambda>t.
     case localized_row lps price currency of
       None \<Rightarrow> mbind fresh_uuid (\<lambda>i. mret
         ([\<lparr>lp_id = i, lp_plan_price = fst (owner_columns price), lp_product_price = snd (owner_columns price),
            lp_currency = currency, lp_amount_minor = new_amount, lp_stripe_price_id = None, lp_synced_at = t\<rparr>], [], []))
     | Some r \<Rightarrow>
         if lp_amount_minor r \<noteq> new_amount
         then mret ([], [r\<lparr>lp_amount_minor := new_amount, lp_synced_at := t\<rparr>], [])
         else mret ([], [], [r\<lparr>lp_synced_at := t\<rparr>])))"

fun upsert_all :: "localized_price list \<Rightarrow> (catalog_price \<times> string \<times> int) list \<Rightarrow> upserts io" where
  "upsert_all lps [] = mret ([], [], [])"
| "upsert_all lps (x # xs) = mbind (upsert_currency lps x) (\<lambda>(c, u, h).
     mbind (upsert_all lps xs) (\<lambda>(cs, us, hs). mret (c @ cs, u @ us, h @ hs)))"

definition fx_targets :: "(string \<rightharpoonup> rat) \<Rightarrow> db \<Rightarrow> (catalog_price \<times> string \<times> int) list" where
  "fx_targets rates d = concat (map (\<lambda>p. map (Pair p) (compute_new_amounts rates (price_amount p)))
     (map OfPlan (plan_prices d) @ map OfProduct (product_prices d)))"

definition save_amount :: "localized_price \<Rightarrow> unit io" where
  "save_amount u = save_row localized_prices_T (lp_id u)
     (\<lambda>r. r\<lparr>lp_amount_minor := lp_amount_minor u, lp_synced_at := lp_synced_at u\<rparr>)"

definition save_heartbeat :: "localized_price \<Rightarrow> unit io" where
  "save_heartbeat u = save_row localized_prices_T (lp_id u) (\<lambda>r. r\<lparr>lp_synced_at := lp_synced_at u\<rparr>)"

text \<open>The amount of the price that owns a country price.\<close>

definition owner_amount :: "db \<Rightarrow> country_price \<Rightarrow> int res" where
  "owner_amount d cp =
     (case cp_plan_price cp of
        Some k \<Rightarrow> (case find (\<lambda>r. pp_id r = k) (plan_prices d) of None \<Rightarrow> Inl AttributeError | Some r \<Rightarrow> Inr (pp_amount r))
      | None \<Rightarrow>
          (case cp_product_price cp of None \<Rightarrow> Inl AttributeError
           | Some k \<Rightarrow> (case find (\<lambda>r. xp_id r = k) (product_prices d) of None \<Rightarrow> Inl AttributeError | Some r \<Rightarrow> Inr (xp_amount r))))"

definition refresh_country :: "(string \<rightharpoonup> rat) \<Rightarrow> datetime \<Rightarrow> db \<Rightarrow> country_price \<Rightarrow> country_price list res" where
  "refresh_country rates t d cp = rbind (owner_amount d cp) (\<lambda>amount.
     case suggested_sticker rates amount (cp_currency cp) of
       None \<Rightarrow> Inr []
     | Some suggested \<Rightarrow>
         rbind (derive_base suggested (standard_vat_rate (cp_country cp))) (\<lambda>new_base.
         Inr (if cp_sticker_minor cp \<noteq> suggested \<or> cp_base_minor cp \<noteq> new_base
              then [cp\<lparr>cp_sticker_minor := suggested, cp_base_minor := new_base, cp_updated_at := t\<rparr>] else [])))"

fun rconcat :: "('a \<Rightarrow> 'b list res) \<Rightarrow> 'a list \<Rightarrow> 'b list res" where
  "rconcat f [] = Inr []"
| "rconcat f (x # xs) = rbind (f x) (\<lambda>ys. rbind (rconcat f xs) (\<lambda>zs. Inr (ys @ zs)))"

definition save_sticker :: "country_price \<Rightarrow> unit io" where
  "save_sticker u = save_row country_prices_T (cp_id u)
     (\<lambda>r. r\<lparr>cp_sticker_minor := cp_sticker_minor u, cp_base_minor := cp_base_minor u, cp_updated_at := cp_updated_at u\<rparr>)"

section \<open>The task\<close>

definition refresh_localized :: "(string \<rightharpoonup> rat) \<Rightarrow> nat io" where
  "refresh_localized rates = mbind (mgets db) (\<lambda>d.
     mbind (upsert_all (localized_prices d) (fx_targets rates d)) (\<lambda>(cs, us, hs).
     mseq (each (create_row localized_prices_T) cs)
     (mseq (each save_amount us) (mseq (each save_heartbeat hs) (mret (length cs + length us))))))"

definition refresh_stickers :: "(string \<rightharpoonup> rat) \<Rightarrow> nat io" where
  "refresh_stickers rates = mbind (mgets db) (\<lambda>d. mbind now (\<lambda>t.
     mbind (mlift (rconcat (refresh_country rates t d) (filter (\<lambda>cp. \<not> cp_is_curated cp) (country_prices d)))) (\<lambda>us.
     mseq (each save_sticker us) (mret (length us)))))"

definition sync_localized_prices :: "fx_answer \<Rightarrow> nat io" where
  "sync_localized_prices answer =
     (case answer of
        FeedDown \<Rightarrow> mret 0
      | NotAnObject \<Rightarrow> mraise AttributeError
      | Payload ok raw \<Rightarrow>
          if \<not> ok then mret 0
          else (case raw of None \<Rightarrow> mret 0
            | Some rs \<Rightarrow> (case api_rates rs of None \<Rightarrow> mret 0
                | Some rates \<Rightarrow>
                    atomic (mbind (refresh_localized rates) (\<lambda>n. mbind (refresh_stickers rates) (\<lambda>m. mret (n + m)))))))"

section \<open>Charm prices\<close>

lemma round_half_up_int [simp]: "round_half_up (of_int n) = n"
proof -
  have "\<lfloor>of_int n + 1/2 :: rat\<rfloor> = n" "\<lfloor>1/2 - of_int n :: rat\<rfloor> = - n" by (simp_all add: floor_eq_iff)
  then show ?thesis by (simp add: round_half_up_def)
qed

lemma min_by_mem: "min_by f x ys \<in> set (x # ys)"
  by (induction f x ys rule: min_by.induct) (auto simp: Let_def)

lemma min_by_least:
  "f (min_by f x [y, z, u]) \<le> f x" "f (min_by f x [y, z, u]) \<le> f y"
  "f (min_by f x [y, z, u]) \<le> f z" "f (min_by f x [y, z, u]) \<le> f u"
  by (auto simp: Let_def)

lemma charm_two_decimals:
  assumes c: "lower currency \<notin> set zero_decimal_currencies" and a: "6/25 < amount"
  defines "n \<equiv> to_minor_units (round_friendly amount currency) currency"
  shows "0 < n" and "n mod 50 = 49" and "\<bar>of_int n - 100 * amount\<bar> \<le> 25"
proof -
  define k where "k = \<lfloor>amount\<rfloor>"
  let ?f = "\<lambda>x. \<bar>x - amount\<bar>" and ?w = "of_int k :: rat"
  define m where "m = min_by ?f (?w - 1/100) [?w + 49/100, ?w + 99/100, ?w + 149/100]"
  have k: "?w \<le> amount" "amount < ?w + 1" unfolding k_def by linarith+
  have k0: "0 \<le> k" using a unfolding k_def by simp
  note least = min_by_least [of ?f "?w - 1/100" "?w + 49/100" "?w + 99/100" "?w + 149/100", folded m_def]
  have close: "\<bar>m - amount\<bar> \<le> 1/4"
  proof -
    consider "amount \<le> ?w + 24/100" | "?w + 24/100 < amount" "amount \<le> ?w + 74/100" | "?w + 74/100 < amount" by linarith
    then show ?thesis
    proof cases
      case 1 with k have "?f (?w - 1/100) \<le> 1/4" by linarith
      with least(1) show ?thesis by (rule order_trans)
    next
      case 2 then have "?f (?w + 49/100) \<le> 1/4" by linarith
      with least(2) show ?thesis by (rule order_trans)
    next
      case 3 with k have "?f (?w + 99/100) \<le> 1/4" by linarith
      with least(3) show ?thesis by (rule order_trans)
    qed
  qed
  have n: "n = round_half_up (m * 100)"
    using a c by (simp add: n_def to_minor_units_def round_friendly_def m_def k_def Let_def)
  have "m \<in> set [?w - 1/100, ?w + 49/100, ?w + 99/100, ?w + 149/100]" unfolding m_def by (rule min_by_mem)
  then consider "m = ?w - 1/100" | "m = ?w + 49/100" | "m = ?w + 99/100" | "m = ?w + 149/100"
    unfolding list.set insert_iff empty_iff by argo
  then obtain i where i: "i \<in> {-1, 49, 99, 149}" "m * 100 = of_int (100 * k + i)"
  proof cases
    case 1 show ?thesis by (rule that [of "-1"]) (simp_all add: 1)
  next
    case 2 show ?thesis by (rule that [of 49]) (simp_all add: 2)
  next
    case 3 show ?thesis by (rule that [of 99]) (simp_all add: 3)
  next
    case 4 show ?thesis by (rule that [of 149]) (simp_all add: 4)
  qed
  have ni: "n = 100 * k + i" unfolding n i(2) by (rule round_half_up_int)
  have "i mod 50 = 49" using i(1) by auto
  moreover have "n = i + 50 * (2 * k)" unfolding ni by simp
  ultimately have r: "n mod 50 = 49" by (simp only: mod_mult_self2)
  then show "n mod 50 = 49" .
  show d: "\<bar>of_int n - 100 * amount\<bar> \<le> 25" using close i(2) unfolding ni by linarith
  have "of_int (- 1) < (of_int n :: rat)" using d a by (simp only: of_int_minus of_int_1)
  then have "- 1 < n" by (simp only: of_int_less_iff)
  moreover have "n \<noteq> 0" using r by auto
  ultimately show "0 < n" by simp
qed

lemma round_half_even_near: "\<bar>of_int (round_half_even x) - x\<bar> \<le> 1/2"
proof -
  define f where "f = \<lfloor>x\<rfloor>"
  have f: "of_int f \<le> x" "x < of_int f + 1" unfolding f_def by linarith+
  have "round_half_even x = f \<and> x - of_int f \<le> 1/2 \<or> round_half_even x = f + 1 \<and> 1/2 \<le> x - of_int f"
    by (auto simp: round_half_even_def Let_def f_def)
  then show ?thesis using f by auto
qed

lemma charm_no_decimals:
  assumes c: "lower currency \<in> set zero_decimal_currencies" and a: "0 < amount"
  defines "n \<equiv> to_minor_units (round_friendly amount currency) currency"
    and "step \<equiv> (if 1000 \<le> amount then 100 else 10 :: int)"
  shows "n mod step = 0" and "\<bar>of_int n - amount\<bar> \<le> of_int step / 2"
proof -
  have step: "0 < step" by (simp add: step_def)
  let ?q = "amount / of_int step"
  have "round_friendly amount currency = of_int (round_half_even ?q * step)"
    using c a by (simp add: round_friendly_def step_def Let_def)
  then have n: "n = round_half_even ?q * step"
    using c by (simp only: n_def to_minor_units_def if_True round_half_up_int)
  then show "n mod step = 0" by simp
  have "\<bar>of_int (round_half_even ?q) - ?q\<bar> \<le> 1/2" by (rule round_half_even_near)
  then have "\<bar>(of_int (round_half_even ?q) - ?q) * of_int step\<bar> \<le> 1/2 * of_int step"
    unfolding abs_mult using step by (intro mult_mono) simp_all
  moreover have "(of_int (round_half_even ?q) - ?q) * of_int step = of_int n - amount"
    using step by (simp add: n left_diff_distrib)
  ultimately show "\<bar>of_int n - amount\<bar> \<le> of_int step / 2" by simp
qed

text \<open>
  The friendly amount is a charm price near the converted one.  In a currency with two decimals an
  amount above 0.24 becomes a positive number of minor units that ends in 49 or 99, at most 25 minor
  units away; in a currency without decimals it becomes a multiple of 10 (of 100 from 1000 on), at most
  half a step away.
\<close>

theorem charm_price:
  assumes "6/25 < amount" and "n = to_minor_units (round_friendly amount currency) currency"
  shows "if lower currency \<in> set zero_decimal_currencies
    then n mod (if 1000 \<le> amount then 100 else 10) = 0
       \<and> \<bar>of_int n - amount\<bar> \<le> (if 1000 \<le> amount then 50 else 5)
    else 0 < n \<and> n mod 50 = 49 \<and> \<bar>of_int n - 100 * amount\<bar> \<le> 25"
proof (cases "lower currency \<in> set zero_decimal_currencies")
  case True
  then show ?thesis using charm_no_decimals [OF True, of amount] assms by (auto split: if_splits)
next
  case False
  then show ?thesis using charm_two_decimals [OF False assms(1)] assms(2) by simp
qed

theorem charm_price_witness:
  "to_minor_units (round_friendly (1723/100) ''eur'') ''eur'' = 1699 \<and> (1699::int) mod 50 = 49"
proof -
  have v: "1699 = to_minor_units (round_friendly (1723/100) ''eur'') ''eur''" "lower ''eur'' \<notin> set zero_decimal_currencies"
    by code_simp+
  have "(6/25 :: rat) < 1723/100" by simp
  from charm_price [OF this v(1)] v show ?thesis by simp
qed

text \<open>A positive amount below that bound can become negative.\<close>

lemma charm_price_negative: "to_minor_units (round_friendly (1/10) ''eur'') ''eur'' = - 1"
  by code_simp

section \<open>What the task writes\<close>

lemma overwrite_fixed: "\<forall>u\<in>set us. k u \<noteq> k r \<Longrightarrow> overwrite k f us r = r"
  by (induction us) (auto simp: overwrite_Cons)

text \<open>
  What holds of a row after the writes: \<open>Q\<close> says what the writes rely on and keep, \<open>P\<close> what a write
  to the row establishes.
\<close>

lemma overwrite_rule:
  assumes "\<And>u x. u \<in> set us \<Longrightarrow> k u = k x \<Longrightarrow> Q x \<Longrightarrow> k (f u x) = k x \<and> Q (f u x) \<and> P (f u x)"
    and "Q r" and "P r \<or> (\<exists>u\<in>set us. k u = k r)"
  shows "k (overwrite k f us r) = k r \<and> Q (overwrite k f us r) \<and> P (overwrite k f us r)"
  using assms
proof (induction us arbitrary: r)
  case (Cons u us)
  let ?r = "if k r = k u then f u r else r"
  have step: "k ?r = k r \<and> Q ?r \<and> (P ?r \<or> (\<exists>v\<in>set us. k v = k ?r))"
    using Cons.prems(1) [of u r] Cons.prems(2,3) by auto
  have "k (overwrite k f us ?r) = k ?r \<and> Q (overwrite k f us ?r) \<and> P (overwrite k f us ?r)"
    by (rule Cons.IH) (use Cons.prems(1) step in auto)
  with step show ?case by (simp add: overwrite_Cons)
qed simp

lemma overwrite_keeps:
  assumes "\<And>u x. u \<in> set us \<Longrightarrow> k u = k x \<Longrightarrow> Q x \<Longrightarrow> Q (f u x)" and "Q r"
  shows "Q (overwrite k f us r)"
  using assms by (induction us arbitrary: r) (simp_all add: overwrite_Cons)

text \<open>Equal but for the columns that the task may write.\<close>

definition same_localized :: "localized_price \<Rightarrow> localized_price \<Rightarrow> bool" where
  "same_localized r r' \<longleftrightarrow> r'\<lparr>lp_amount_minor := 0, lp_synced_at := 0\<rparr> = r\<lparr>lp_amount_minor := 0, lp_synced_at := 0\<rparr>"

definition same_country :: "country_price \<Rightarrow> country_price \<Rightarrow> bool" where
  "same_country r r' \<longleftrightarrow> r'\<lparr>cp_sticker_minor := 0, cp_base_minor := 0, cp_updated_at := 0\<rparr>
     = r\<lparr>cp_sticker_minor := 0, cp_base_minor := 0, cp_updated_at := 0\<rparr>"

definition put_amount :: "localized_price \<Rightarrow> localized_price \<Rightarrow> localized_price" where
  "put_amount u r = r\<lparr>lp_amount_minor := lp_amount_minor u, lp_synced_at := lp_synced_at u\<rparr>"

definition put_heartbeat :: "localized_price \<Rightarrow> localized_price \<Rightarrow> localized_price" where
  "put_heartbeat u r = r\<lparr>lp_synced_at := lp_synced_at u\<rparr>"

definition put_sticker :: "country_price \<Rightarrow> country_price \<Rightarrow> country_price" where
  "put_sticker u r = r\<lparr>cp_sticker_minor := cp_sticker_minor u, cp_base_minor := cp_base_minor u,
     cp_updated_at := cp_updated_at u\<rparr>"

lemma each_other_table:
  assumes "\<And>x v v'. f x v = (Inr (), v') \<Longrightarrow> g (db v') = g (db v)"
  shows "each f xs w = (Inr (), w') \<Longrightarrow> g (db w') = g (db w)"
proof (induction xs arbitrary: w)
  case (Cons x xs)
  then obtain w1 where "f x w = (Inr (), w1)" "each f xs w1 = (Inr (), w')" by (auto elim: mseq_InrE)
  with Cons.IH [of w1] assms show ?case by metis
qed simp

lemma localized_writes_frame:
  assumes "v' = snd (m v)" and "m \<in> range (create_row localized_prices_T) \<union> range save_amount \<union> range save_heartbeat"
  shows "(db v')\<lparr>localized_prices := []\<rparr> = (db v)\<lparr>localized_prices := []\<rparr>"
  using assms
  by (auto simp: save_amount_def save_heartbeat_def save_row_def create_row_def update_rows_def localized_prices_T_def Let_def)

text \<open>What a pass over the targets collects.\<close>

type_synonym target = "catalog_price \<times> string \<times> int"

definition creates :: "datetime \<Rightarrow> target set \<Rightarrow> localized_price \<Rightarrow> bool" where
  "creates t X c \<longleftrightarrow> lp_stripe_price_id c = None \<and> lp_synced_at c = t
     \<and> (\<exists>p cur a. (p, cur, a) \<in> X \<and> owns_localized p c \<and> lp_currency c = cur \<and> lp_amount_minor c = a)"

definition changes :: "localized_price list \<Rightarrow> datetime \<Rightarrow> target set \<Rightarrow> localized_price \<Rightarrow> bool" where
  "changes lps t X u \<longleftrightarrow> (\<exists>r p cur a. (p, cur, a) \<in> X \<and> localized_row lps p cur = Some r
     \<and> u = r\<lparr>lp_amount_minor := a, lp_synced_at := t\<rparr>)"

definition beats :: "localized_price list \<Rightarrow> datetime \<Rightarrow> target set \<Rightarrow> localized_price \<Rightarrow> bool" where
  "beats lps t X h \<longleftrightarrow> (\<exists>r p cur a. (p, cur, a) \<in> X \<and> localized_row lps p cur = Some r
     \<and> lp_amount_minor r = a \<and> h = r\<lparr>lp_synced_at := t\<rparr>)"

definition reached ::
  "localized_price list \<Rightarrow> localized_price set \<Rightarrow> localized_price set \<Rightarrow> localized_price set \<Rightarrow> target \<Rightarrow> bool" where
  "reached lps C U H x = (case x of (p, cur, a) \<Rightarrow>
     (\<exists>c\<in>C. owns_localized p c \<and> lp_currency c = cur)
   \<or> (\<exists>r. localized_row lps p cur = Some r
        \<and> ((\<exists>u\<in>U. lp_id u = lp_id r) \<or> lp_amount_minor r = a \<and> (\<exists>h\<in>H. lp_id h = lp_id r))))"

definition upserted ::
  "localized_price list \<Rightarrow> datetime \<Rightarrow> target set \<Rightarrow> localized_price set \<Rightarrow> localized_price set \<Rightarrow> localized_price set \<Rightarrow> bool" where
  "upserted lps t X C U H \<longleftrightarrow> (\<forall>c\<in>C. creates t X c) \<and> (\<forall>u\<in>U. changes lps t X u) \<and> (\<forall>h\<in>H. beats lps t X h)
     \<and> (\<forall>x\<in>X. reached lps C U H x)"

lemma upserted_mono:
  "X \<subseteq> Y \<Longrightarrow> creates t X c \<Longrightarrow> creates t Y c"
  "X \<subseteq> Y \<Longrightarrow> changes lps t X c \<Longrightarrow> changes lps t Y c"
  "X \<subseteq> Y \<Longrightarrow> beats lps t X c \<Longrightarrow> beats lps t Y c"
  "C \<subseteq> C' \<Longrightarrow> U \<subseteq> U' \<Longrightarrow> H \<subseteq> H' \<Longrightarrow> reached lps C U H x \<Longrightarrow> reached lps C' U' H' x"
  unfolding creates_def changes_def beats_def by blast+ (auto simp: reached_def split: prod.splits)

lemma upserted_Un:
  assumes "upserted lps t X C U H" and "upserted lps t Y C' U' H'"
  shows "upserted lps t (X \<union> Y) (C \<union> C') (U \<union> U') (H \<union> H')"
proof -
  note 1 = upserted_mono(1) [of X "X \<union> Y"] upserted_mono(1) [of Y "X \<union> Y"]
    and 2 = upserted_mono(2) [of X "X \<union> Y"] upserted_mono(2) [of Y "X \<union> Y"]
    and 3 = upserted_mono(3) [of X "X \<union> Y"] upserted_mono(3) [of Y "X \<union> Y"]
    and 4 = upserted_mono(4) [of C "C \<union> C'" U "U \<union> U'" H "H \<union> H'"] upserted_mono(4) [of C' "C \<union> C'" U' "U \<union> U'" H' "H \<union> H'"]
  show ?thesis using assms 1 2 3 4 by (simp add: upserted_def ball_Un)
qed

lemma upsert_currency_Inr:
  assumes "upsert_currency lps x w = (Inr (cs, us, hs), w')"
  shows "upserted lps (clock w) {x} (set cs) (set us) (set hs) \<and> db w' = db w \<and> clock w' = clock w"
proof -
  obtain p cur a where x: "x = (p, cur, a)" by (metis prod.exhaust)
  have own: "owns_localized p \<lparr>lp_id = i, lp_plan_price = fst (owner_columns p), lp_product_price = snd (owner_columns p),
      lp_currency = cur, lp_amount_minor = a, lp_stripe_price_id = None, lp_synced_at = t\<rparr>" for i t
    by (cases p) simp_all
  show ?thesis
  proof (cases "localized_row lps p cur")
    case None
    with assms own show ?thesis by (auto simp: x upsert_currency_def mbind_run upserted_def creates_def reached_def)
  next
    case (Some l)
    with assms show ?thesis
      by (cases "lp_amount_minor l = a")
        (auto simp: x upsert_currency_def mbind_run upserted_def changes_def beats_def reached_def)
  qed
qed

lemma upsert_all_Inr:
  "upsert_all lps xs w = (Inr (cs, us, hs), w') \<Longrightarrow>
   upserted lps (clock w) (set xs) (set cs) (set us) (set hs) \<and> db w' = db w \<and> clock w' = clock w"
proof (induction xs arbitrary: w cs us hs)
  case Nil then show ?case by (auto simp: upserted_def)
next
  case (Cons x xs)
  from Cons.prems [unfolded upsert_all.simps] obtain c u h w1 cs1 us1 hs1 where
    one: "upsert_currency lps x w = (Inr (c, u, h), w1)" and rest: "upsert_all lps xs w1 = (Inr (cs1, us1, hs1), w')"
    and r: "cs = c @ cs1" "us = u @ us1" "hs = h @ hs1"
    by (auto elim!: mbind_InrE split: prod.splits)
  note one = upsert_currency_Inr [OF one] and rest = Cons.IH [OF rest]
  have "upserted lps (clock w) ({x} \<union> set xs) (set c \<union> set cs1) (set u \<union> set us1) (set h \<union> set hs1)"
    by (rule upserted_Un) (use one rest in simp_all)
  with one rest show ?case by (simp add: r)
qed

text \<open>The task's first half, as an equation for the table.\<close>

definition relocalized :: "localized_price list \<Rightarrow> localized_price list \<Rightarrow> localized_price \<Rightarrow> localized_price" where
  "relocalized us hs r = overwrite lp_id put_heartbeat hs (overwrite lp_id put_amount us r)"

lemma refresh_localized_Inr:
  assumes "refresh_localized rates w = (Inr n, w')"
  obtains cs us hs where "upserted (localized_prices (db w)) (clock w) (set (fx_targets rates (db w))) (set cs) (set us) (set hs)"
    and "n = length cs + length us"
    and "db w' = (db w)\<lparr>localized_prices := map (relocalized us hs) (localized_prices (db w) @ cs)\<rparr>"
proof -
  from assms [unfolded refresh_localized_def] obtain cs us hs w1 w2 w3
    where up: "upsert_all (localized_prices (db w)) (fx_targets rates (db w)) w = (Inr (cs, us, hs), w1)"
      and w2: "each (create_row localized_prices_T) cs w1 = (Inr (), w2)"
      and w3: "each save_amount us w2 = (Inr (), w3)" and w': "each save_heartbeat hs w3 = (Inr (), w')"
      and n: "n = length cs + length us"
    by (auto elim!: mbind_InrE mseq_InrE split: prod.splits)
  note up' = upsert_all_Inr [OF up]
  have t: "t_get localized_prices_T = localized_prices" "t_pk localized_prices_T = lp_id"
    by (simp_all add: localized_prices_T_def)
  have "localized_prices (db w2) = localized_prices (db w1) @ cs"
    using localized_prices_tab.each_create [OF w2] by (simp add: t)
  moreover have "localized_prices (db w3) = map (overwrite lp_id put_amount us) (localized_prices (db w2))"
    using localized_prices_tab.each_save [of put_amount us w2 w3] w3
    by (simp add: t save_amount_def [abs_def] put_amount_def [abs_def])
  moreover have "localized_prices (db w') = map (overwrite lp_id put_heartbeat hs) (localized_prices (db w3))"
    using localized_prices_tab.each_save [of put_heartbeat hs w3 w'] w'
    by (simp add: t save_heartbeat_def [abs_def] put_heartbeat_def [abs_def])
  ultimately have rows: "localized_prices (db w') = map (relocalized us hs) (localized_prices (db w) @ cs)"
    using up' by (simp add: relocalized_def)
  have same: "(db v')\<lparr>localized_prices := []\<rparr> = (db v)\<lparr>localized_prices := []\<rparr>"
    if "each f xs v = (Inr (), v')" "f \<in> {create_row localized_prices_T, save_amount, save_heartbeat}"
    for f :: "localized_price \<Rightarrow> unit io" and xs v v'
  proof (rule each_other_table [where f = f and g = "\<lambda>d. d\<lparr>localized_prices := []\<rparr>", OF _ that(1)])
    fix x v v' assume "f x v = (Inr (), v')"
    then show "(db v')\<lparr>localized_prices := []\<rparr> = (db v)\<lparr>localized_prices := []\<rparr>"
      by (intro localized_writes_frame [of v' "f x"]) (use that(2) in auto)
  qed
  have "(db w')\<lparr>localized_prices := []\<rparr> = (db w)\<lparr>localized_prices := []\<rparr>"
    using same [OF w2] same [OF w3] same [OF w'] up' by simp
  then have "(db w')\<lparr>localized_prices := [], localized_prices := localized_prices (db w')\<rparr>
      = (db w)\<lparr>localized_prices := [], localized_prices := localized_prices (db w')\<rparr>" by simp
  then have "db w' = (db w)\<lparr>localized_prices := localized_prices (db w')\<rparr>" by simp
  with rows up' n that [of cs us hs] show ?thesis by simp
qed

text \<open>The second half: every row that nobody curated takes the suggested sticker.\<close>

lemma rconcat_Inr:
  "rconcat f xs = Inr ys \<Longrightarrow> (\<forall>x\<in>set xs. \<exists>zs. f x = Inr zs \<and> set zs \<subseteq> set ys) \<and> (\<forall>y\<in>set ys. \<exists>x\<in>set xs. \<exists>zs. f x = Inr zs \<and> y \<in> set zs)"
  by (induction xs arbitrary: ys) (auto elim!: rbind_InrE, blast+)

lemma rconcat_Nil: "\<forall>x\<in>set xs. f x = Inr [] \<Longrightarrow> rconcat f xs = Inr []"
  by (induction xs) simp_all

lemma rconcat_memE:
  assumes "rconcat f xs = Inr ys" and "y \<in> set ys"
  obtains x zs where "x \<in> set xs" and "f x = Inr zs" and "y \<in> set zs"
  using rconcat_Inr [OF assms(1)] assms(2) by blast

lemma refresh_country_id: "refresh_country rates t d x = Inr zs \<Longrightarrow> u \<in> set zs \<Longrightarrow> cp_id u = cp_id x"
  by (auto simp: refresh_country_def rbind_def split: sum.splits option.splits if_splits)

definition put_stickers :: "country_price list \<Rightarrow> country_price \<Rightarrow> country_price" where
  "put_stickers us = overwrite cp_id put_sticker us"

lemma refresh_stickers_Inr:
  assumes "refresh_stickers rates w = (Inr n, w')"
  obtains us where "rconcat (refresh_country rates (clock w) (db w)) (filter (\<lambda>cp. \<not> cp_is_curated cp) (country_prices (db w))) = Inr us"
    and "n = length us"
    and "db w' = (db w)\<lparr>country_prices := map (put_stickers us) (country_prices (db w))\<rparr>"
proof -
  from assms [unfolded refresh_stickers_def] obtain us
    where us: "rconcat (refresh_country rates (clock w) (db w)) (filter (\<lambda>cp. \<not> cp_is_curated cp) (country_prices (db w))) = Inr us"
      and w': "each save_sticker us w = (Inr (), w')" and n: "n = length us"
    by (auto elim!: mbind_InrE mseq_InrE simp: mlift_def split: sum.splits)
  have "country_prices (db w') = map (put_stickers us) (country_prices (db w))"
    using country_prices_tab.each_save [of put_sticker us w w'] w'
    by (simp add: country_prices_T_def save_sticker_def [abs_def] put_sticker_def [abs_def] put_stickers_def)
  moreover have "(db w')\<lparr>country_prices := []\<rparr> = (db w)\<lparr>country_prices := []\<rparr>"
    by (rule each_other_table [where f = save_sticker and g = "\<lambda>d. d\<lparr>country_prices := []\<rparr>", OF _ w'])
      (auto simp: save_sticker_def save_row_def update_rows_def country_prices_T_def Let_def split: if_splits)
  then have "(db w')\<lparr>country_prices := [], country_prices := country_prices (db w')\<rparr>
      = (db w)\<lparr>country_prices := [], country_prices := country_prices (db w')\<rparr>" by simp
  then have "db w' = (db w)\<lparr>country_prices := country_prices (db w')\<rparr>" by simp
  ultimately show ?thesis using us n that [of us] by simp
qed

lemma put_stickers_curated:
  assumes us: "rconcat (refresh_country rates t d) (filter (\<lambda>cp. \<not> cp_is_curated cp) cps) = Inr us"
    and d: "distinct (map cp_id cps)" and r: "r \<in> set cps" "cp_is_curated r"
  shows "put_stickers us r = r"
  unfolding put_stickers_def
proof (rule overwrite_fixed, intro ballI notI)
  fix u assume u: "u \<in> set us" "cp_id u = cp_id r"
  obtain x zs where x: "x \<in> set (filter (\<lambda>cp. \<not> cp_is_curated cp) cps)"
    and zs: "refresh_country rates t d x = Inr zs" "u \<in> set zs" by (rule rconcat_memE [OF us u(1)])
  note x = x [simplified] and id = refresh_country_id [OF zs]
  have "x = r" using distinct_map_eqD [OF d _ r(1), of x] x u(2) id by simp
  with x r(2) show False by simp
qed

lemma put_stickers_same: "same_country r (put_stickers us r)"
  unfolding put_stickers_def
  by (rule overwrite_keeps [where Q = "same_country r"]) (simp_all add: same_country_def put_sticker_def)

lemma relocalized_same: "same_localized r (relocalized us hs r)"
  unfolding relocalized_def
  by (intro overwrite_keeps [where Q = "same_localized r"])
    (simp_all add: same_localized_def put_heartbeat_def put_amount_def)

lemma same_fields:
  "same_localized r r' \<Longrightarrow> lp_id r' = lp_id r \<and> lp_plan_price r' = lp_plan_price r \<and> lp_product_price r' = lp_product_price r
     \<and> lp_currency r' = lp_currency r \<and> lp_stripe_price_id r' = lp_stripe_price_id r"
  "same_country c c' \<Longrightarrow> cp_id c' = cp_id c \<and> cp_plan_price c' = cp_plan_price c \<and> cp_product_price c' = cp_product_price c
     \<and> cp_country c' = cp_country c \<and> cp_currency c' = cp_currency c \<and> cp_is_curated c' = cp_is_curated c
     \<and> cp_stripe_price_id c' = cp_stripe_price_id c"
  unfolding same_localized_def same_country_def by (cases r; cases r'; simp) (cases c; cases c'; simp)

section \<open>The task leaves curated prices and Stripe identifiers alone\<close>

definition sync_body :: "(string \<rightharpoonup> rat) \<Rightarrow> nat io" where
  "sync_body rates = mbind (refresh_localized rates) (\<lambda>n. mbind (refresh_stickers rates) (\<lambda>m. mret (n + m)))"

text \<open>What a sync may have done to the database.\<close>

definition sync_touched :: "db \<Rightarrow> db \<Rightarrow> bool" where
  "sync_touched d d' \<longleftrightarrow> (\<exists>g h cs.
     d' = d\<lparr>localized_prices := map h (localized_prices d) @ cs, country_prices := map g (country_prices d)\<rparr>
     \<and> (\<forall>r. same_localized r (h r)) \<and> (\<forall>r. same_country r (g r))
     \<and> (\<forall>c\<in>set cs. lp_stripe_price_id c = None)
     \<and> (\<forall>r\<in>set (country_prices d). cp_is_curated r \<longrightarrow> g r = r))"

lemma sync_body_Inr:
  assumes "consistent w" and "sync_body rates w = (Inr n, w')"
  shows "sync_touched (db w) (db w')"
proof -
  from assms(2) [unfolded sync_body_def] obtain n1 w1 n2
    where one: "refresh_localized rates w = (Inr n1, w1)" and two: "refresh_stickers rates w1 = (Inr n2, w')"
    by (auto elim!: mbind_InrE)
  from one obtain cs us hs where c: "upserted (localized_prices (db w)) (clock w) (set (fx_targets rates (db w))) (set cs) (set us) (set hs)"
    and d1: "db w1 = (db w)\<lparr>localized_prices := map (relocalized us hs) (localized_prices (db w) @ cs)\<rparr>"
    by (rule refresh_localized_Inr)
  from two obtain vs where vs: "rconcat (refresh_country rates (clock w1) (db w1)) (filter (\<lambda>cp. \<not> cp_is_curated cp) (country_prices (db w1))) = Inr vs"
    and d2: "db w' = (db w1)\<lparr>country_prices := map (put_stickers vs) (country_prices (db w1))\<rparr>"
    by (rule refresh_stickers_Inr)
  have d: "distinct (map cp_id (country_prices (db w1)))"
    using assms(1) by (simp add: d1 consistent_def db_ok_def tables_ok_def country_prices_ok_def)
  show ?thesis unfolding sync_touched_def
  proof (intro exI conjI ballI impI allI)
    show "db w' = (db w)\<lparr>localized_prices := map (relocalized us hs) (localized_prices (db w)) @ map (relocalized us hs) cs,
        country_prices := map (put_stickers vs) (country_prices (db w))\<rparr>" by (simp add: d1 d2)
    show "lp_stripe_price_id c = None" if m: "c \<in> set (map (relocalized us hs) cs)" for c
    proof -
      obtain c0 where "c0 \<in> set cs" "c = relocalized us hs c0" using m by auto
      with c same_fields(1) [OF relocalized_same [of c0 us hs]] show ?thesis
        by (simp add: upserted_def creates_def)
    qed
    show "put_stickers vs r = r" if "r \<in> set (country_prices (db w))" "cp_is_curated r" for r
      by (rule put_stickers_curated [OF vs d]) (use that in \<open>simp_all add: d1\<close>)
  qed (simp_all add: relocalized_same put_stickers_same)
qed

lemma price_sync_touched:
  assumes "consistent w" and "sync_localized_prices answer w = (r, w')"
  shows "db w' = db w \<or> sync_touched (db w) (db w') \<and> (\<exists>rs n. answer = Payload True (Some rs) \<and> r = Inr n)"
proof (cases "\<exists>rs rates. answer = Payload True (Some rs) \<and> api_rates rs = Some rates")
  case False
  with assms(2) have "w' = w" by (auto simp: sync_localized_prices_def split: fx_answer.splits if_splits option.splits)
  then show ?thesis by simp
next
  case True
  then obtain rs rates where a: "answer = Payload True (Some rs)" "api_rates rs = Some rates" by blast
  with assms(2) have run: "atomic (sync_body rates) w = (r, w')"
    by (simp add: sync_localized_prices_def sync_body_def)
  show ?thesis
  proof (cases r)
    case (Inl e) with run show ?thesis by (auto dest: atomic_raise_db)
  next
    case (Inr n)
    with run obtain w0 w1 where w0: "db w0 = db w" "sync_body rates w0 = (Inr n, w1)" "db w' = db w1"
      by (auto elim: atomic_InrE)
    have c: "consistent w0" using assms(1) w0(1) by (simp add: consistent_def)
    from sync_body_Inr [OF c w0(2)] show ?thesis using a Inr w0 by simp
  qed
qed

text \<open>
  C34. The daily price sync never breaks what people set or what was sent to Stripe.  Whatever the feed
  answers: a country price that was curated stays exactly as it is; every other country price and every
  localized price keeps its owner, its currency, its country and its Stripe price, only amounts and
  time stamps move; new localized prices have no Stripe price yet; no other table changes.  And where the
  feed is down, says that it failed or is malformed, or the task raises, the database is as before.
\<close>

theorem price_sync_safe:
  assumes "consistent w" and "sync_localized_prices answer w = (r, w')"
  shows "db w' = db w \<or> sync_touched (db w) (db w') \<and> (\<exists>rs n. answer = Payload True (Some rs) \<and> r = Inr n)"
  using assms by (rule price_sync_touched)

theorem price_sync_safe_witness:
  "sync_touched sample_db (db (snd (sync_localized_prices (Payload True (Some [(''EUR'', Some (9/10))])) (start_world sample_db))))"
proof -
  let ?run = "sync_localized_prices (Payload True (Some [(''EUR'', Some (9/10))])) (start_world sample_db)"
  have n: "localized_prices (db (snd ?run)) \<noteq> localized_prices sample_db" by code_simp
  obtain r w' where run: "?run = (r, w')" by force
  from price_sync_safe [OF sample_consistent run] n run show ?thesis by (auto simp: start_world_db)
qed

section \<open>A second sync finds nothing to change\<close>

context model_table begin

lemma save_row_idle:
  assumes "db_ok (db w)" and "\<And>r. r \<in> set (t_get T (db w)) \<Longrightarrow> t_pk T r = k \<Longrightarrow> f r = r"
  shows "save_row T k f w = (Inr (), w)"
proof -
  have "update_where (\<lambda>r. t_pk T r = k) f (t_get T (db w)) = t_get T (db w)"
    by (rule update_where_idle) (use assms(2) in blast)
  moreover have "t_ok T (t_get T (db w))" using assms(1) ok_get by (simp add: db_ok_def)
  moreover have "refs_ok (db w) (t_refs T (f r))" if "r \<in> set (t_get T (db w))" "t_pk T r = k" for r
    using assms(1) assms(2) [OF that] refs_get [OF that(1)] by (auto simp: db_ok_def fk_ok_def refs_ok_iff)
  ultimately show ?thesis by (simp add: save_row_def update_rows_def Let_def set_get list_all_iff)
qed

end

definition catalogue_prices :: "db \<Rightarrow> catalog_price set" where
  "catalogue_prices d = OfPlan ` set (plan_prices d) \<union> OfProduct ` set (product_prices d)"

lemma fx_targets_mem:
  "(p, cur, a) \<in> set (fx_targets rates d) \<Longrightarrow>
   p \<in> catalogue_prices d \<and> (\<exists>r. rates cur = Some r \<and> a = fx_amount r (price_amount p) cur)"
  by (auto simp: fx_targets_def catalogue_prices_def compute_new_amounts_def List.map_filter_def)

lemma fx_targets_functional:
  "(p, cur, a) \<in> set (fx_targets rates d) \<Longrightarrow> (p, cur, b) \<in> set (fx_targets rates d) \<Longrightarrow> a = b"
  by (auto dest!: fx_targets_mem)

lemma localized_row_key:
  "localized_row lps p cur = Some r \<Longrightarrow> r \<in> set lps \<and> owns_localized p r \<and> lp_currency r = cur"
  by (auto simp: localized_row_def find_Some_iff) (metis length_rev nth_mem set_rev)

lemma localized_row_append:
  "localized_row (xs @ ys) p cur = (case localized_row ys p cur of None \<Rightarrow> localized_row xs p cur | Some r \<Rightarrow> Some r)"
  by (simp add: localized_row_def find_append split: option.split)

lemma localized_row_map:
  assumes "\<And>r. same_localized r (g r)"
  shows "localized_row (map g lps) p cur = map_option g (localized_row lps p cur)"
  unfolding localized_row_def rev_map
  by (rule find_map_same) (use same_fields(1) [OF assms] in \<open>cases p; simp\<close>)

definition localized_settled :: "localized_price list \<Rightarrow> datetime \<Rightarrow> target set \<Rightarrow> bool" where
  "localized_settled lps t X \<longleftrightarrow> (\<forall>p cur a. (p, cur, a) \<in> X \<longrightarrow>
     (\<exists>r. localized_row lps p cur = Some r \<and> lp_amount_minor r = a \<and> lp_synced_at r = t))"

lemma localized_settles:
  assumes up: "upserted lps t X (set cs) (set us) (set hs)" and ids: "distinct (map lp_id (lps @ cs))"
    and fn: "\<And>p cur a b. (p, cur, a) \<in> X \<Longrightarrow> (p, cur, b) \<in> X \<Longrightarrow> a = b"
    and owner: "\<And>r p q cur a cur' b. r \<in> set (lps @ cs) \<Longrightarrow> (p, cur, a) \<in> X \<Longrightarrow> (q, cur', b) \<in> X \<Longrightarrow>
      owns_localized p r \<Longrightarrow> owns_localized q r \<Longrightarrow> p = q"
  shows "localized_settled (map (relocalized us hs) (lps @ cs)) t X"
  unfolding localized_settled_def
proof (intro allI impI)
  fix p cur a assume x: "(p, cur, a) \<in> X"
  let ?g = "relocalized us hs"
  have u_row: "\<exists>r\<in>set lps. lp_id u = lp_id r" if u: "u \<in> set us \<union> set hs" for u
  proof -
    from up u have "changes lps t X u \<or> beats lps t X u" by (auto simp: upserted_def)
    then show ?thesis by (auto simp: changes_def beats_def dest!: localized_row_key)
  qed
  have "\<exists>r. localized_row (lps @ cs) p cur = Some r \<and> lp_amount_minor (?g r) = a \<and> lp_synced_at (?g r) = t"
  proof (cases "localized_row cs p cur")
    case (Some c)
    note c = localized_row_key [OF Some]
    obtain q cur' b where q: "(q, cur', b) \<in> X" "owns_localized q c" "lp_currency c = cur'" "lp_amount_minor c = b"
      and t: "lp_synced_at c = t" using up c by (auto simp: upserted_def creates_def)
    have "q = p" by (rule owner [OF _ q(1) x]) (use c q in auto)
    with q c x fn have a: "lp_amount_minor c = a" by blast
    have fixed: "\<forall>u\<in>set us \<union> set hs. lp_id u \<noteq> lp_id c"
    proof
      fix u assume "u \<in> set us \<union> set hs"
      with u_row obtain r where "r \<in> set lps" "lp_id u = lp_id r" by blast
      with ids c show "lp_id u \<noteq> lp_id c" by auto
    qed
    have "?g c = c" unfolding relocalized_def using fixed by (simp add: overwrite_fixed)
    with Some a t show ?thesis by (simp add: localized_row_append)
  next
    case None
    have none: "\<not> (\<exists>c\<in>set cs. owns_localized p c \<and> lp_currency c = cur)"
      using None by (auto simp: localized_row_def find_None_iff)
    have "reached lps (set cs) (set us) (set hs) (p, cur, a)" using up x by (auto simp: upserted_def)
    with none obtain r where r: "localized_row lps p cur = Some r"
      and hit: "(\<exists>u\<in>set us. lp_id u = lp_id r) \<or> lp_amount_minor r = a \<and> (\<exists>h\<in>set hs. lp_id h = lp_id r)"
      by (auto simp: reached_def)
    note rk = localized_row_key [OF r]
    have us: "lp_amount_minor u = a \<and> lp_synced_at u = t" if u: "u \<in> set us" "lp_id u = lp_id r" for u
    proof -
      obtain r0 q cur' b where q: "(q, cur', b) \<in> X" "localized_row lps q cur' = Some r0"
        "u = r0\<lparr>lp_amount_minor := b, lp_synced_at := t\<rparr>"
        using up u(1) by (auto simp: upserted_def changes_def)
      note r0 = localized_row_key [OF q(2)]
      have "r0 = r" using distinct_map_eqD [OF ids, of r0 r] r0 rk u(2) q(3) by simp
      moreover have "q = p" by (rule owner [OF _ q(1) x, of r0]) (use r0 rk \<open>r0 = r\<close> in auto)
      ultimately have "b = a" using fn q(1) x r0 rk by blast
      with q(3) show ?thesis by simp
    qed
    have hs: "lp_synced_at h = t" if "h \<in> set hs" for h
      using up that by (auto simp: upserted_def beats_def)
    let ?r1 = "overwrite lp_id put_amount us r"
    have one: "lp_id ?r1 = lp_id r \<and> lp_amount_minor ?r1 = a \<and> (lp_synced_at ?r1 = t \<or> (\<exists>h\<in>set hs. lp_id h = lp_id ?r1))"
    proof (cases "\<exists>u\<in>set us. lp_id u = lp_id r")
      case True
      have "lp_id ?r1 = lp_id r \<and> lp_id ?r1 = lp_id r \<and> (lp_amount_minor ?r1 = a \<and> lp_synced_at ?r1 = t)"
        by (rule overwrite_rule [where Q = "\<lambda>x. lp_id x = lp_id r" and P = "\<lambda>x. lp_amount_minor x = a \<and> lp_synced_at x = t"])
          (use us True in \<open>auto simp: put_amount_def\<close>)
      then show ?thesis by simp
    next
      case False
      then have "?r1 = r" by (intro overwrite_fixed) auto
      with False hit show ?thesis by auto
    qed
    have "lp_id (?g r) = lp_id ?r1 \<and> lp_amount_minor (?g r) = a \<and> lp_synced_at (?g r) = t"
      unfolding relocalized_def
      by (rule overwrite_rule [where Q = "\<lambda>x. lp_amount_minor x = a" and P = "\<lambda>x. lp_synced_at x = t"])
        (use hs one in \<open>auto simp: put_heartbeat_def\<close>)
    with None r show ?thesis by (simp add: localized_row_append)
  qed
  then show "\<exists>r. localized_row (map ?g (lps @ cs)) p cur = Some r \<and> lp_amount_minor r = a \<and> lp_synced_at r = t"
    by (auto simp: localized_row_map relocalized_same simp del: map_append)
qed

text \<open>A pass over settled targets only marks rows as checked, at the time of the pass.\<close>

lemma upsert_all_idle:
  "localized_settled lps t (set xs) \<Longrightarrow>
   \<exists>hs. upsert_all lps xs w = (Inr ([], [], hs), w) \<and> (\<forall>h\<in>set hs. lp_synced_at h = clock w)"
proof (induction xs)
  case (Cons x xs)
  obtain p cur a where x: "x = (p, cur, a)" by (metis prod.exhaust)
  then have "(p, cur, a) \<in> set (x # xs)" by simp
  with Cons.prems obtain r where r: "localized_row lps p cur = Some r" "lp_amount_minor r = a"
    unfolding localized_settled_def by blast
  then have "upsert_currency lps x w = (Inr ([], [], [r\<lparr>lp_synced_at := clock w\<rparr>]), w)"
    by (simp add: x upsert_currency_def mbind_run)
  moreover obtain hs where "upsert_all lps xs w = (Inr ([], [], hs), w)" "\<forall>h\<in>set hs. lp_synced_at h = clock w"
    using Cons by (auto simp: localized_settled_def)
  ultimately show ?case by (auto simp: mbind_run)
qed simp

lemma heartbeat_returns:
  assumes w: "consistent w"
  shows "\<exists>w'. save_heartbeat h w = (Inr (), w')"
proof -
  let ?xs = "localized_prices (db w)" and ?f = "\<lambda>r. r\<lparr>lp_synced_at := lp_synced_at h\<rparr>"
  have ok: "localized_prices_ok ?xs" using w by (simp add: consistent_def db_ok_def tables_ok_def)
  then have "localized_prices_ok (update_where (\<lambda>r. lp_id r = lp_id h) ?f ?xs)"
    by (auto simp: localized_prices_ok_def map_update_where list_all_iff dest!: update_where_mem)
  moreover have "refs_ok (db w) (localized_refs (?f r))" if "r \<in> set ?xs" for r
    using w that by (simp add: consistent_def db_ok_def fk_ok_rows list_all_iff localized_refs_def)
  ultimately show ?thesis by (simp add: save_heartbeat_def save_row_def update_rows_def Let_def list_all_iff)
qed

lemma keeps_heartbeat: "keeps consistent (save_heartbeat h)"
  unfolding save_heartbeat_def by (intro keeps_intros; (simp add: localized_prices_T_def)?)

lemma heartbeats_return: "consistent w \<Longrightarrow> \<exists>w'. each save_heartbeat hs w = (Inr (), w')"
proof (induction hs arbitrary: w)
  case (Cons h hs)
  from heartbeat_returns [OF Cons.prems] obtain w1 where w1: "save_heartbeat h w = (Inr (), w1)" by blast
  with Cons.IH [OF keepsD_run [OF keeps_heartbeat Cons.prems w1]] show ?case by (auto simp: mseq_run)
qed simp

text \<open>What a later pass with the same rates leaves: the rows as they were, some marked as checked now.\<close>

definition checked_again :: "datetime \<Rightarrow> localized_price list \<Rightarrow> localized_price list \<Rightarrow> bool" where
  "checked_again t = list_all2 (\<lambda>r r'. r' = r \<or> r' = r\<lparr>lp_synced_at := t\<rparr>)"

lemma relocalized_checked:
  assumes "\<forall>h\<in>set hs. lp_synced_at h = t"
  shows "checked_again t rs (map (relocalized [] hs) rs)"
proof -
  have "relocalized [] hs r = r \<or> relocalized [] hs r = r\<lparr>lp_synced_at := t\<rparr>" for r
    unfolding relocalized_def
    by (rule overwrite_keeps [where Q = "\<lambda>x. x = r \<or> x = r\<lparr>lp_synced_at := t\<rparr>"]) (use assms in \<open>auto simp: put_heartbeat_def\<close>)
  then show ?thesis by (simp add: checked_again_def list_all2_map2 list_all2_same)
qed

lemma refresh_localized_idle:
  assumes "consistent w" and "localized_settled (localized_prices (db w)) t (set (fx_targets rates (db w)))"
  obtains w' rs where "refresh_localized rates w = (Inr 0, w')" and "db w' = (db w)\<lparr>localized_prices := rs\<rparr>"
    and "checked_again (clock w) (localized_prices (db w)) rs"
proof -
  obtain hs where up: "upsert_all (localized_prices (db w)) (fx_targets rates (db w)) w = (Inr ([], [], hs), w)"
    and t: "\<forall>h\<in>set hs. lp_synced_at h = clock w"
    using upsert_all_idle [OF assms(2)] by blast
  obtain w' where w': "each save_heartbeat hs w = (Inr (), w')" using heartbeats_return [OF assms(1)] by blast
  have run: "refresh_localized rates w = (Inr 0, w')"
    using up w' by (simp add: refresh_localized_def mbind_run mseq_run)
  have rows: "localized_prices (db w') = map (relocalized [] hs) (localized_prices (db w))"
    using localized_prices_tab.each_save [of put_heartbeat hs w w'] w'
    by (simp add: localized_prices_T_def save_heartbeat_def [abs_def] put_heartbeat_def [abs_def] relocalized_def)
  have "(db w')\<lparr>localized_prices := []\<rparr> = (db w)\<lparr>localized_prices := []\<rparr>"
  proof (rule each_other_table [where f = save_heartbeat and g = "\<lambda>d. d\<lparr>localized_prices := []\<rparr>", OF _ w'])
    fix x v v' assume "save_heartbeat x v = (Inr (), v')"
    then show "(db v')\<lparr>localized_prices := []\<rparr> = (db v)\<lparr>localized_prices := []\<rparr>"
      by (intro localized_writes_frame [of v' "save_heartbeat x"]) auto
  qed
  then have "(db w')\<lparr>localized_prices := [], localized_prices := localized_prices (db w')\<rparr>
      = (db w)\<lparr>localized_prices := [], localized_prices := localized_prices (db w')\<rparr>" by simp
  then have "db w' = (db w)\<lparr>localized_prices := localized_prices (db w')\<rparr>" by simp
  then have "db w' = (db w)\<lparr>localized_prices := map (relocalized [] hs) (localized_prices (db w))\<rparr>"
    by (simp only: rows)
  from run this relocalized_checked [OF t] show thesis by (rule that)
qed

text \<open>The rows that nobody curated have the sticker that the rates suggest.\<close>

definition stickers_settled :: "(string \<rightharpoonup> rat) \<Rightarrow> db \<Rightarrow> bool" where
  "stickers_settled rates d \<longleftrightarrow>
     (\<forall>r\<in>set (country_prices d). \<not> cp_is_curated r \<longrightarrow> (\<forall>t. refresh_country rates t d r = Inr []))"

lemma refresh_stickers_idle: "stickers_settled rates (db w) \<Longrightarrow> refresh_stickers rates w = (Inr 0, w)"
  by (simp add: refresh_stickers_def run_simps mlift_def rconcat_Nil stickers_settled_def)

lemma refresh_country_same:
  assumes "refresh_country rates t d r = Inr zs" and "same_country r r'"
    and "zs = [] \<Longrightarrow> r' = r"
    and "\<And>u. zs = [u] \<Longrightarrow> cp_sticker_minor r' = cp_sticker_minor u \<and> cp_base_minor r' = cp_base_minor u"
    and "plan_prices d' = plan_prices d" and "product_prices d' = product_prices d"
  shows "refresh_country rates t' d' r' = Inr []"
proof -
  have own: "owner_amount d' r' = owner_amount d r"
    by (simp only: owner_amount_def same_fields(2) [OF assms(2)] assms(5,6))
  show ?thesis using assms(1,3,4) same_fields(2) [OF assms(2)]
    by (auto simp: refresh_country_def own elim!: rbind_InrE split: option.splits if_splits)
qed

lemma stickers_settle:
  assumes us: "rconcat (refresh_country rates t d) (filter (\<lambda>cp. \<not> cp_is_curated cp) (country_prices d)) = Inr us"
    and ids: "distinct (map cp_id (country_prices d))"
  shows "stickers_settled rates (d\<lparr>country_prices := map (put_stickers us) (country_prices d)\<rparr>)"
  unfolding stickers_settled_def
proof (intro ballI impI allI)
  fix r' t' assume r': "r' \<in> set (country_prices (d\<lparr>country_prices := map (put_stickers us) (country_prices d)\<rparr>))"
    "\<not> cp_is_curated r'"
  then obtain r where r: "r \<in> set (country_prices d)" "r' = put_stickers us r" by auto
  note same = put_stickers_same [of r us, folded r(2)]
  have "r \<in> set (filter (\<lambda>cp. \<not> cp_is_curated cp) (country_prices d))"
    using r(1) r'(2) same_fields(2) [OF same] by simp
  with rconcat_Inr [OF us] obtain zs where zs: "refresh_country rates t d r = Inr zs" "set zs \<subseteq> set us" by blast
  have hit: "u \<in> set zs" if u: "u \<in> set us" "cp_id u = cp_id r" for u
  proof -
    obtain x ys where x: "x \<in> set (filter (\<lambda>cp. \<not> cp_is_curated cp) (country_prices d))"
      and ys: "refresh_country rates t d x = Inr ys" "u \<in> set ys" by (rule rconcat_memE [OF us u(1)])
    have "x = r" using distinct_map_eqD [OF ids _ r(1), of x] x u(2) refresh_country_id [OF ys] by simp
    with ys zs(1) show ?thesis by simp
  qed
  have own: "cp_id u = cp_id r" if "zs = [u]" for u
    by (rule refresh_country_id [OF zs(1)]) (simp add: that)
  show "refresh_country rates t' (d\<lparr>country_prices := map (put_stickers us) (country_prices d)\<rparr>) r' = Inr []"
  proof (rule refresh_country_same [OF zs(1) same])
    show "r' = r" if "zs = []"
      unfolding r(2) put_stickers_def by (rule overwrite_fixed) (use hit that in auto)
    show "cp_sticker_minor r' = cp_sticker_minor u \<and> cp_base_minor r' = cp_base_minor u" if z: "zs = [u]" for u
    proof -
      have "cp_id (put_stickers us r) = cp_id r \<and> cp_id (put_stickers us r) = cp_id r
        \<and> (cp_sticker_minor (put_stickers us r) = cp_sticker_minor u \<and> cp_base_minor (put_stickers us r) = cp_base_minor u)"
        unfolding put_stickers_def
      proof (rule overwrite_rule [where Q = "\<lambda>x. cp_id x = cp_id r"])
        fix v x :: country_price assume v: "v \<in> set us" "cp_id v = cp_id x" "cp_id x = cp_id r"
        then have "v = u" using hit [of v] z by simp
        then show "cp_id (put_sticker v x) = cp_id x \<and> cp_id (put_sticker v x) = cp_id r \<and>
          (cp_sticker_minor (put_sticker v x) = cp_sticker_minor u \<and> cp_base_minor (put_sticker v x) = cp_base_minor u)"
          using v by (simp add: put_sticker_def)
      next
        have "u \<in> set us" "cp_id u = cp_id r" using zs(2) z own [OF z] by simp_all
        then show "(cp_sticker_minor r = cp_sticker_minor u \<and> cp_base_minor r = cp_base_minor u) \<or> (\<exists>v\<in>set us. cp_id v = cp_id r)"
          by blast
      qed simp
      then show ?thesis by (simp add: r(2))
    qed
  qed simp_all
qed

text \<open>Both halves: the state after a run is one in which a run does nothing.\<close>

lemma keeps_each_supplied: "(\<And>x. keeps (supplied f g t n) (h x)) \<Longrightarrow> keeps (supplied f g t n) (each h xs)"
  by (rule each_keeps)

lemma sync_body_supplied: "keeps (supplied f g t n) (sync_body rates)"
proof -
  have one: "keeps (supplied f g t n) (upsert_currency lps x)" for lps x
    unfolding upsert_currency_def prod.case_eq_if by (intro keeps_intros)
  have all: "keeps (supplied f g t n) (upsert_all lps xs)" for lps xs
    by (induction xs) (simp_all only: upsert_all.simps prod.case_eq_if, (intro keeps_intros one | assumption)+)
  show ?thesis
    unfolding sync_body_def refresh_localized_def refresh_stickers_def prod.case_eq_if save_amount_def save_heartbeat_def save_sticker_def
    by (intro keeps_intros all keeps_each_supplied)
qed

lemma sync_body_consistent: "keeps consistent (sync_body rates)"
proof -
  have one: "keeps consistent (upsert_currency lps x)" for lps x
    unfolding upsert_currency_def prod.case_eq_if by (intro keeps_intros)
  have all: "keeps consistent (upsert_all lps xs)" for lps xs
    by (induction xs) (simp_all only: upsert_all.simps prod.case_eq_if, (intro keeps_intros one | assumption)+)
  show ?thesis
    unfolding sync_body_def refresh_localized_def refresh_stickers_def prod.case_eq_if save_amount_def save_heartbeat_def save_sticker_def
    by (intro keeps_intros all each_keeps; (simp add: country_prices_T_def localized_prices_T_def)?)
qed

lemma owns_same: "same_localized r r' \<Longrightarrow> owns_localized p r' = owns_localized p r"
  by (drule same_fields(1), cases p) simp_all

lemma owner_unique:
  assumes "consistent w" and "r \<in> set (localized_prices (db w))"
    and "p \<in> catalogue_prices (db w)" "q \<in> catalogue_prices (db w)" and "owns_localized p r" "owns_localized q r"
  shows "p = q"
proof -
  have x: "xor_owner (lp_plan_price r) (lp_product_price r)"
    using assms(1,2) by (simp add: consistent_def db_ok_def tables_ok_def localized_prices_ok_def list_all_iff)
  note k = catalogue_keyed [OF assms(1)]
  show ?thesis using assms(3-6) x distinct_map_eqD [OF k(3)] distinct_map_eqD [OF k(5)]
    by (auto simp: catalogue_prices_def xor_owner_def)
qed

lemma sync_body_settles:
  assumes w: "consistent w" and run: "sync_body rates w = (Inr n, w')" and v: "db v = db w'"
  obtains v' rs where "sync_body rates v = (Inr 0, v')" and "db v' = (db v)\<lparr>localized_prices := rs\<rparr>"
    and "checked_again (clock v) (localized_prices (db v)) rs"
proof -
  have c: "consistent w'" by (rule keepsD_run [OF sync_body_consistent w run])
  then have cv: "consistent v" using v by (simp add: consistent_def)
  from run [unfolded sync_body_def] obtain n1 w1 n2
    where one: "refresh_localized rates w = (Inr n1, w1)" and two: "refresh_stickers rates w1 = (Inr n2, w')"
    by (auto elim!: mbind_InrE)
  from one obtain cs us hs where up: "upserted (localized_prices (db w)) (clock w) (set (fx_targets rates (db w))) (set cs) (set us) (set hs)"
    and d1: "db w1 = (db w)\<lparr>localized_prices := map (relocalized us hs) (localized_prices (db w) @ cs)\<rparr>"
    by (rule refresh_localized_Inr)
  from two obtain vs where vs: "rconcat (refresh_country rates (clock w1) (db w1)) (filter (\<lambda>cp. \<not> cp_is_curated cp) (country_prices (db w1))) = Inr vs"
    and d2: "db w' = (db w1)\<lparr>country_prices := map (put_stickers vs) (country_prices (db w1))\<rparr>"
    by (rule refresh_stickers_Inr)
  let ?lps = "localized_prices (db w) @ cs" and ?X = "set (fx_targets rates (db w))"
  have rows: "localized_prices (db w') = map (relocalized us hs) ?lps" by (simp add: d1 d2)
  have same: "plan_prices (db w') = plan_prices (db w)" "product_prices (db w') = product_prices (db w)"
    by (simp_all add: d1 d2)
  have "distinct (map lp_id (localized_prices (db w')))"
    using c by (simp add: consistent_def db_ok_def tables_ok_def localized_prices_ok_def)
  moreover have "map lp_id (localized_prices (db w')) = map lp_id ?lps"
    unfolding rows using same_fields(1) [OF relocalized_same] by simp
  ultimately have ids: "distinct (map lp_id ?lps)" by simp
  have owner: "p = q" if "r \<in> set ?lps" "(p, cur, a) \<in> ?X" "(q, cur', b) \<in> ?X" "owns_localized p r" "owns_localized q r"
    for r p q cur a cur' b
  proof -
    have "relocalized us hs r \<in> set (localized_prices (db w'))" using that(1) unfolding rows set_map by (rule imageI)
    moreover have "p \<in> catalogue_prices (db w')" "q \<in> catalogue_prices (db w')"
      using that(2,3) fx_targets_mem same by (auto simp: catalogue_prices_def)
    moreover have "owns_localized p (relocalized us hs r)" "owns_localized q (relocalized us hs r)"
      using that(4,5) owns_same [OF relocalized_same [of r us hs]] by blast+
    ultimately show ?thesis using owner_unique [OF c] by blast
  qed
  have "localized_settled (map (relocalized us hs) ?lps) (clock w) ?X"
    by (rule localized_settles [OF up ids]) (use fx_targets_functional owner in blast)+
  then have L: "localized_settled (localized_prices (db v)) (clock w) (set (fx_targets rates (db v)))"
    using same by (simp add: v rows fx_targets_def)
  have "distinct (map cp_id (country_prices (db w1)))"
    using w by (simp add: d1 consistent_def db_ok_def tables_ok_def country_prices_ok_def)
  then have S: "stickers_settled rates (db v)" unfolding v d2 by (rule stickers_settle [OF vs])
  obtain v' rs where run': "refresh_localized rates v = (Inr 0, v')" and d: "db v' = (db v)\<lparr>localized_prices := rs\<rparr>"
    and chk: "checked_again (clock v) (localized_prices (db v)) rs"
    using cv L by (rule refresh_localized_idle)
  have "refresh_country rates t (db v') r = refresh_country rates t (db v) r" for t r
    by (simp add: d refresh_country_def owner_amount_def cong: option.case_cong)
  then have "stickers_settled rates (db v')" using S by (simp add: d stickers_settled_def)
  then have "sync_body rates v = (Inr 0, v')"
    by (simp add: sync_body_def mbind_run run' refresh_stickers_idle)
  from this d chk show thesis by (rule that)
qed

text \<open>
  C35. The stability gate: after a sync that succeeded, a second sync with the same rates, at any later time,
  reports 0 and changes no price.  It creates and deletes no row, and in the rows that there are it
  writes at most the time at which an amount was last checked; every amount, every sticker and every
  Stripe price id is as it was, so that no Stripe price is minted again.
\<close>

theorem price_sync_stable:
  assumes "consistent w" and "sync_localized_prices (Payload True (Some rs)) w = (Inr n, w')" and "db v = db w'"
  shows "\<exists>v' lps. sync_localized_prices (Payload True (Some rs)) v = (Inr 0, v')
    \<and> db v' = (db v)\<lparr>localized_prices := lps\<rparr>
    \<and> list_all2 (\<lambda>r r'. r' = r \<or> r' = r\<lparr>lp_synced_at := clock v\<rparr>) (localized_prices (db v)) lps"
proof (cases "api_rates rs")
  case None
  then show ?thesis
    by (intro exI [of _ v] exI [of _ "localized_prices (db v)"]) (simp add: sync_localized_prices_def list_all2_same)
next
  case (Some rates)
  then have run: "sync_localized_prices (Payload True (Some rs)) x = atomic (sync_body rates) x" for x
    by (simp add: sync_localized_prices_def sync_body_def)
  with assms(2) obtain w0 w1
    where w0: "db w0 = db w" "sync_body rates w0 = (Inr n, w1)" "db w' = db w1"
    by (auto elim: atomic_InrE)
  have c: "consistent w0" using assms(1) w0(1) by (simp add: consistent_def)
  obtain v1 lps where idle: "sync_body rates (enter v) = (Inr 0, v1)" "db v1 = (db (enter v))\<lparr>localized_prices := lps\<rparr>"
    "checked_again (clock (enter v)) (localized_prices (db (enter v))) lps"
    by (rule sync_body_settles [OF c w0(2), of "enter v"]) (use assms(3) w0(3) in simp_all)
  then have "fst (atomic (sync_body rates) v) = Inr 0" "db (snd (atomic (sync_body rates) v)) = db v1"
    by (simp_all add: atomic_enter atomic_enter_db)
  with idle show ?thesis unfolding run
    by (intro exI [of _ "snd (atomic (sync_body rates) v)"] exI [of _ lps]) (simp add: checked_again_def prod_eq_iff)
qed

text \<open>An hour later the second run finds the amounts it wrote.\<close>

theorem price_sync_stable_witness:
  "\<exists>w' v'. sync_localized_prices (Payload True (Some [(''EUR'', Some (9/10))])) (start_world sample_db) = (Inr 3, w')
     \<and> sync_localized_prices (Payload True (Some [(''EUR'', Some (9/10))])) (w'\<lparr>clock := 3600000000\<rparr>) = (Inr 0, v')
     \<and> map lp_amount_minor (localized_prices (db v')) = map lp_amount_minor (localized_prices (db w'))"
proof -
  let ?run = "sync_localized_prices (Payload True (Some [(''EUR'', Some (9/10))])) (start_world sample_db)"
  have "fst ?run = Inr 3" by code_simp
  then obtain w' where w': "?run = (Inr 3, w')" by (metis prod.collapse)
  from price_sync_stable [OF sample_consistent w', of "w'\<lparr>clock := 3600000000\<rparr>"] obtain v' lps where
    v': "sync_localized_prices (Payload True (Some [(''EUR'', Some (9/10))])) (w'\<lparr>clock := 3600000000\<rparr>) = (Inr 0, v')"
    "localized_prices (db v') = lps"
    and same: "list_all2 (\<lambda>r r'. r' = r \<or> r' = r\<lparr>lp_synced_at := 3600000000\<rparr>) (localized_prices (db w')) lps"
    by auto
  from same have "map lp_amount_minor lps = map lp_amount_minor (localized_prices (db w'))"
    by (induction rule: list_all2_induct) auto
  with v' w' show ?thesis by blast
qed

end
