(* ===== verification/StripeCatalog.thy ===== *)
theory StripeCatalog
  imports FxSync "HOL-Library.AList"
begin

text \<open>
  The commands that keep Stripe in step with the local catalogue,
  \<open>management/commands/sync_stripe_catalog.py\<close> and \<open>audit_stripe_catalog.py\<close> of \<open>apps/billing\<close>.

  Stripe answers through \<open>call_stripe\<close>; a list that the code pages through is one answer.  Identifiers
  of Stripe objects are strings.  What the commands print is left out.
\<close>

section \<open>Lookup keys\<close>

definition key_char :: "char \<Rightarrow> bool" where
  "key_char c \<longleftrightarrow> is_lower_alpha c \<or> is_digit c"

text \<open>\<open>re.sub(r"[^a-z0-9]+", "_", s)\<close>: one underscore for each run.\<close>

fun squeeze :: "bool \<Rightarrow> string \<Rightarrow> string" where
  "squeeze skipping [] = []"
| "squeeze skipping (c # cs) =
     (if key_char c then c # squeeze False cs
      else if skipping then squeeze True cs else CHR ''_'' # squeeze True cs)"

definition key_slug :: "string \<Rightarrow> string" where
  "key_slug value = strip_chars (\<lambda>c. c = CHR ''_'') (squeeze False (lower value))"

fun tier_name :: "plan_tier \<Rightarrow> string" where
  "tier_name FREE = ''free''"
| "tier_name BASIC = ''basic''"
| "tier_name PRO = ''pro''"

definition in_currency :: "string \<Rightarrow> string \<Rightarrow> string" where
  "in_currency base currency = (if currency = ''usd'' then base else base @ ''_'' @ currency)"

definition plan_lookup_key :: "plan \<Rightarrow> string \<Rightarrow> string" where
  "plan_lookup_key plan currency = in_currency (''plan_'' @ context_value (p_context plan) @ ''_'' @ tier_name (p_tier plan)
     @ ''_'' @ interval_value (p_interval plan)) currency"

definition product_lookup_key :: "product \<Rightarrow> string \<Rightarrow> string" where
  "product_lookup_key product currency = in_currency (''product_'' @ key_slug (pr_name product)) currency"

definition country_lookup_key :: "string \<Rightarrow> string \<Rightarrow> string" where
  "country_lookup_key base country = base @ ''_c_'' @ lower country"

section \<open>The owner of a country price\<close>

datatype catalog_item = PlanItem plan | ProductItem product

text \<open>\<open>cp.plan_price.plan\<close> or \<open>cp.product_price.product\<close>.\<close>

definition plan_of_price :: "db \<Rightarrow> uuid \<Rightarrow> plan option" where
  "plan_of_price d k = (case find (\<lambda>r. pp_id r = k) (plan_prices d) of None \<Rightarrow> None
     | Some r \<Rightarrow> find (\<lambda>p. p_id p = pp_plan r) (plans d))"

definition product_of_price :: "db \<Rightarrow> uuid \<Rightarrow> product option" where
  "product_of_price d k = (case find (\<lambda>r. xp_id r = k) (product_prices d) of None \<Rightarrow> None
     | Some r \<Rightarrow> find (\<lambda>p. pr_id p = xp_product r) (products d))"

definition owner_item :: "db \<Rightarrow> country_price \<Rightarrow> catalog_item res" where
  "owner_item d cp = (case cp_plan_price cp of
       Some k \<Rightarrow> (case plan_of_price d k of None \<Rightarrow> Inl AttributeError | Some p \<Rightarrow> Inr (PlanItem p))
     | None \<Rightarrow> (case cp_product_price cp of None \<Rightarrow> Inl AttributeError
         | Some k \<Rightarrow> (case product_of_price d k of None \<Rightarrow> Inl AttributeError | Some p \<Rightarrow> Inr (ProductItem p))))"

fun base_lookup_key :: "catalog_item \<Rightarrow> string" where
  "base_lookup_key (PlanItem p) = plan_lookup_key p ''usd''"
| "base_lookup_key (ProductItem p) = product_lookup_key p ''usd''"

fun item_active :: "catalog_item \<Rightarrow> bool" where
  "item_active (PlanItem p) = p_is_active p"
| "item_active (ProductItem p) = pr_is_active p"

text \<open>\<open>_ACTIVE_OWNER_Q\<close>: the owning plan or product is active.\<close>

definition active_owner :: "db \<Rightarrow> country_price \<Rightarrow> bool" where
  "active_owner d cp \<longleftrightarrow>
     (case cp_plan_price cp of None \<Rightarrow> False | Some k \<Rightarrow> (case plan_of_price d k of None \<Rightarrow> False | Some p \<Rightarrow> p_is_active p))
   \<or> (case cp_product_price cp of None \<Rightarrow> False | Some k \<Rightarrow> (case product_of_price d k of None \<Rightarrow> False | Some p \<Rightarrow> pr_is_active p))"

definition collect_lookup_keys :: "string list \<Rightarrow> db \<Rightarrow> string list res" where
  "collect_lookup_keys currencies d =
     rbind (rconcat (\<lambda>cp. rbind (owner_item d cp) (\<lambda>i. Inr [country_lookup_key (base_lookup_key i) (cp_country cp)]))
       (sort_key cp_country (filter (active_owner d) (country_prices d)))) (\<lambda>country_keys.
     Inr (concat (map (\<lambda>p. map (plan_lookup_key p) currencies) (sort_key plan_order (filter p_is_active (plans d))))
       @ concat (map (\<lambda>p. map (product_lookup_key p) currencies) (filter pr_is_active (products d)))
       @ country_keys))"

section \<open>The prices that Stripe already has\<close>

type_synonym price_table = "string \<rightharpoonup> json"

definition attr_text :: "json \<Rightarrow> string \<Rightarrow> string res" where
  "attr_text j k = rbind (attr j k) (\<lambda>v. Inr (py_str v))"

fun json_list :: "json \<Rightarrow> json list res" where
  "json_list (JArr xs) = Inr xs"
| "json_list _ = Inl TypeError"

fun add_prices :: "price_table \<Rightarrow> json list \<Rightarrow> price_table res" where
  "add_prices t [] = Inr t"
| "add_prices t (price # ps) = rbind (attr price ''lookup_key'') (\<lambda>k.
     add_prices (if truthy k then t(py_str k \<mapsto> price) else t) ps)"

function bulk_fetch :: "env \<Rightarrow> price_table \<Rightarrow> string list \<Rightarrow> price_table io" where
  "bulk_fetch E t keys =
     (if keys = [] then mret t
      else mbind (call_stripe E (PriceList (take 10 keys))) (\<lambda>page.
        mbind (mlift (rbind (attr page ''data'') json_list)) (\<lambda>prices.
        mbind (mlift (add_prices t prices)) (\<lambda>t'. bulk_fetch E t' (drop 10 keys)))))"
  by pat_completeness auto
termination by (relation "measure (\<lambda>(E, t, keys). length keys)") auto

declare bulk_fetch.simps [simp del]

section \<open>One price\<close>

record wanted_price =
  wp_key :: string
  wp_amount :: int
  wp_currency :: string
  wp_interval :: "string option"
  wp_product_name :: string
  wp_description :: "string option"
  wp_product_metadata :: "(string \<times> string) list"
  wp_price_metadata :: "(string \<times> string) list"

definition price_matches :: "json \<Rightarrow> wanted_price \<Rightarrow> bool res" where
  "price_matches price p =
     rbind (attr price ''unit_amount'') (\<lambda>amount.
     if amount \<noteq> JInt (wp_amount p) then Inr False
     else rbind (attr price ''currency'') (\<lambda>currency.
     if currency \<noteq> JStr (wp_currency p) then Inr False
     else rbind (attr price ''recurring'') (\<lambda>recurring.
     case wp_interval p of
       None \<Rightarrow> Inr (recurring = JNull)
     | Some i \<Rightarrow> if recurring = JNull then Inr False
                  else rbind (attr recurring ''interval'') (\<lambda>j. Inr (j = JStr i)))))"

text \<open>\<open>{**existing, **metadata}\<close>\<close>

definition merge_metadata :: "(string \<times> string) list \<Rightarrow> (string \<times> string) list \<Rightarrow> (string \<times> string) list" where
  "merge_metadata existing new = fold (\<lambda>(k, v) d. AList.update k v d) new existing"

fun metadata_pairs :: "json \<Rightarrow> (string \<times> string) list res" where
  "metadata_pairs (JObj kvs) = Inr (map (\<lambda>(k, v). (k, py_str v)) kvs)"
| "metadata_pairs j = (if truthy j then Inl AttributeError else Inr [])"

fun is_object :: "json \<Rightarrow> bool" where
  "is_object (JObj kvs) = True"
| "is_object _ = False"

text \<open>The id, name, description and metadata that are known of the Stripe product.\<close>

definition known_product :: "json \<Rightarrow> (string \<times> json \<times> json \<times> (string \<times> string) list) res" where
  "known_product product =
     (if is_object product
      then rbind (attr_text product ''id'') (\<lambda>i. rbind (attr product ''name'') (\<lambda>n.
           rbind (attr product ''description'') (\<lambda>d. rbind (attr product ''metadata'') (\<lambda>m.
           rbind (metadata_pairs m) (\<lambda>kvs. Inr (i, n, d, kvs))))))
      else Inr (py_str product, JNull, JNull, []))"

definition sync_stripe_product :: "env \<Rightarrow> json \<Rightarrow> wanted_price \<Rightarrow> unit io" where
  "sync_stripe_product E product p =
     mbind (mlift (known_product product)) (\<lambda>(i, n, d, kvs).
     let name = (if n \<noteq> JNull \<and> n \<noteq> JStr (wp_product_name p) then Some (wp_product_name p) else None);
         description = (case wp_description p of
             Some t \<Rightarrow> if t \<noteq> [] \<and> d \<noteq> JStr t then Some t else None
           | None \<Rightarrow> None);
         merged = merge_metadata kvs (wp_product_metadata p);
         metadata = (if merged \<noteq> kvs then Some merged else None)
     in if name = None \<and> description = None \<and> metadata = None then mret ()
        else mseq (call_stripe E (ProductModify i name description metadata)) (mret ()))"

text \<open>\<open>getattr(price, "tax_behavior", None)\<close>\<close>

definition tax_behavior :: "json \<Rightarrow> json" where
  "tax_behavior price = (case attr price ''tax_behavior'' of Inl e \<Rightarrow> JNull | Inr j \<Rightarrow> j)"

definition ensure_tax_behavior :: "env \<Rightarrow> json \<Rightarrow> unit io" where
  "ensure_tax_behavior E price =
     (if tax_behavior price = JStr ''exclusive'' then mret ()
      else if tax_behavior price \<notin> {JNull, JStr ''unspecified''} then mret ()
      else mbind (mlift (attr_text price ''id'')) (\<lambda>i. mseq (call_stripe E (PriceSetExclusive i)) (mret ())))"

definition create_price :: "env \<Rightarrow> wanted_price \<Rightarrow> string \<Rightarrow> string io" where
  "create_price E p product_id =
     mbind (call_stripe E (PriceCreate \<lparr>np_product = product_id, np_unit_amount = wp_amount p,
       np_currency = wp_currency p, np_lookup_key = wp_key p, np_interval = wp_interval p,
       np_metadata = wp_price_metadata p\<rparr>)) (\<lambda>j. mlift (attr_text j ''id''))"

definition upsert_price :: "env \<Rightarrow> price_table \<Rightarrow> wanted_price \<Rightarrow> string io" where
  "upsert_price E existing p =
     (case existing (wp_key p) of
        Some current \<Rightarrow>
          mbind (mlift (attr current ''product'')) (\<lambda>product.
          mbind (mlift (price_matches current p)) (\<lambda>same.
          if same then
            mseq (sync_stripe_product E product p) (mseq (ensure_tax_behavior E current) (mlift (attr_text current ''id'')))
          else
            mbind (mlift (if is_object product then attr_text product ''id'' else Inr (py_str product))) (\<lambda>product_id.
            mbind (mlift (attr_text current ''id'')) (\<lambda>i.
            mseq (call_stripe E (PriceArchive i))
            (mseq (sync_stripe_product E (JStr product_id) p) (create_price E p product_id))))))
      | None \<Rightarrow>
          mbind (call_stripe E (ProductCreate (wp_product_name p)
            (case wp_description p of None \<Rightarrow> None | Some t \<Rightarrow> if t = [] then None else Some t) (wp_product_metadata p))) (\<lambda>j.
          mbind (mlift (attr_text j ''id'')) (\<lambda>product_id. create_price E p product_id)))"

section \<open>Plans, products and countries\<close>

text \<open>The first localized row of a price in a currency.\<close>

definition first_localized :: "catalog_price \<Rightarrow> string \<Rightarrow> localized_price option io" where
  "first_localized price currency =
     first_row localized_prices_T (\<lambda>r. owns_localized price r \<and> lp_currency r = currency)"

definition unit_amount_for :: "fx_answer \<Rightarrow> catalog_price \<Rightarrow> string \<Rightarrow> int option io" where
  "unit_amount_for answer price currency =
     (if currency = ''usd'' then mret (Some (price_amount price))
      else mbind (first_localized price currency) (\<lambda>row.
        case row of
          Some r \<Rightarrow> mret (Some (lp_amount_minor r))
        | None \<Rightarrow> mseq (sync_localized_prices answer)
            (mbind (first_localized price currency) (\<lambda>row. mret (map_option lp_amount_minor row)))))"

definition write_price_id :: "catalog_price \<Rightarrow> string \<Rightarrow> string \<Rightarrow> unit io" where
  "write_price_id price new_id currency =
     (if currency = ''usd'' then
        if new_id = price_id price then mret ()
        else (case price of
            OfPlan r \<Rightarrow> save_row plan_prices_T (pp_id r) (\<lambda>x. x\<lparr>pp_stripe_price_id := new_id\<rparr>)
          | OfProduct r \<Rightarrow> save_row product_prices_T (xp_id r) (\<lambda>x. x\<lparr>xp_stripe_price_id := new_id\<rparr>))
      else mbind (first_localized price currency) (\<lambda>row.
        case row of
          None \<Rightarrow> mret ()
        | Some r \<Rightarrow> if lp_stripe_price_id r = Some new_id then mret ()
            else save_row localized_prices_T (lp_id r) (\<lambda>x. x\<lparr>lp_stripe_price_id := Some new_id\<rparr>)))"

definition item_wanted :: "catalog_item \<Rightarrow> string \<Rightarrow> string \<Rightarrow> int \<Rightarrow> wanted_price" where
  "item_wanted i key currency amount = (case i of
     PlanItem p \<Rightarrow> \<lparr>wp_key = key, wp_amount = amount, wp_currency = currency,
       wp_interval = Some (interval_value (p_interval p)), wp_product_name = p_name p,
       wp_description = (if p_description p = [] then None else Some (p_description p)),
       wp_product_metadata = [(''local_plan_id'', uuid_str (p_id p)), (''kind'', ''plan'')],
       wp_price_metadata = [(''local_plan_id'', uuid_str (p_id p))]\<rparr>
   | ProductItem p \<Rightarrow> \<lparr>wp_key = key, wp_amount = amount, wp_currency = currency,
       wp_interval = None, wp_product_name = pr_name p,
       wp_description = Some (str_int (pr_credits p) @ '' credits''),
       wp_product_metadata = [(''local_product_id'', uuid_str (pr_id p)), (''kind'', ''product'')],
       wp_price_metadata = [(''local_product_id'', uuid_str (pr_id p))]\<rparr>)"

definition sync_item :: "env \<Rightarrow> fx_answer \<Rightarrow> price_table \<Rightarrow> string \<Rightarrow> string \<Rightarrow> catalog_item \<Rightarrow> catalog_price \<Rightarrow> unit io" where
  "sync_item E answer existing currency key item price =
     mbind (unit_amount_for answer price currency) (\<lambda>amount.
     case amount of None \<Rightarrow> mret ()
     | Some a \<Rightarrow> mbind (upsert_price E existing (item_wanted item key currency a)) (\<lambda>new_id.
         write_price_id price new_id currency))"

definition sync_plans :: "env \<Rightarrow> fx_answer \<Rightarrow> price_table \<Rightarrow> string \<Rightarrow> unit io" where
  "sync_plans E answer existing currency =
     mbind (mgets (\<lambda>w. map (\<lambda>p. (p, price_of_plan (db w) (p_id p))) (sort_key plan_order (filter p_is_active (plans (db w)))))) (\<lambda>ps.
     each (\<lambda>(plan, price). case price of
         None \<Rightarrow> mret ()
       | Some r \<Rightarrow> sync_item E answer existing currency (plan_lookup_key plan currency) (PlanItem plan) (OfPlan r)) ps)"

definition sync_products :: "env \<Rightarrow> fx_answer \<Rightarrow> price_table \<Rightarrow> string \<Rightarrow> unit io" where
  "sync_products E answer existing currency =
     mbind (mgets (\<lambda>w. map (\<lambda>p. (p, price_of_product (db w) (pr_id p))) (filter pr_is_active (products (db w))))) (\<lambda>ps.
     each (\<lambda>(product, price). case price of
         None \<Rightarrow> mret ()
       | Some r \<Rightarrow> sync_item E answer existing currency (product_lookup_key product currency) (ProductItem product) (OfProduct r)) ps)"

definition country_wanted :: "catalog_item \<Rightarrow> country_price \<Rightarrow> wanted_price" where
  "country_wanted item cp =
     (let p = item_wanted item (country_lookup_key (base_lookup_key item) (cp_country cp)) (cp_currency cp) (cp_base_minor cp)
      in p\<lparr>wp_price_metadata := wp_price_metadata p @ [(''country'', cp_country cp)]\<rparr>)"

definition sync_country_price :: "env \<Rightarrow> price_table \<Rightarrow> catalog_item \<times> country_price \<Rightarrow> unit io" where
  "sync_country_price E existing row = (case row of (item, cp) \<Rightarrow>
     mbind (mlift (recompute_base cp)) (\<lambda>new.
     mseq (if cp_base_minor cp \<noteq> cp_base_minor new
           then save_row country_prices_T (cp_id cp) (\<lambda>r. r\<lparr>cp_base_minor := cp_base_minor new\<rparr>) else mret ())
     (mbind (upsert_price E existing (country_wanted item new)) (\<lambda>new_id.
     if cp_stripe_price_id cp = Some new_id then mret ()
     else save_row country_prices_T (cp_id cp) (\<lambda>r. r\<lparr>cp_stripe_price_id := Some new_id\<rparr>)))))"

definition country_rows_to_sync :: "db \<Rightarrow> (catalog_item \<times> country_price) list res" where
  "country_rows_to_sync d = rconcat (\<lambda>cp. rbind (owner_item d cp) (\<lambda>i. Inr [(i, cp)]))
     (sort_key cp_country (filter (active_owner d) (country_prices d)))"

definition sync_country_prices :: "env \<Rightarrow> price_table \<Rightarrow> unit io" where
  "sync_country_prices E existing = mbind (mgets db) (\<lambda>d.
     mbind (mlift (country_rows_to_sync d)) (\<lambda>rs. each (sync_country_price E existing) rs))"

definition sync_stripe_catalog :: "env \<Rightarrow> fx_answer \<Rightarrow> unit io" where
  "sync_stripe_catalog E answer =
     (if stripe_secret_key E = [] then mret ()
      else mbind (mgets db) (\<lambda>d.
        mbind (mlift (collect_lookup_keys (billing_currencies E) d)) (\<lambda>keys.
        mbind (bulk_fetch E Map.empty keys) (\<lambda>existing.
        mseq (each (\<lambda>c. mseq (sync_plans E answer existing c) (sync_products E answer existing c)) (billing_currencies E))
          (sync_country_prices E existing)))))"

section \<open>The audit\<close>

text \<open>\<open>(sp.metadata.to_dict() if sp.metadata else {}) or {}\<close>\<close>

definition stripe_metadata :: "json \<Rightarrow> json res" where
  "stripe_metadata sp = rbind (attr sp ''metadata'') (\<lambda>m.
     if truthy m then (if is_object m then Inr m else Inl AttributeError) else Inr (JObj []))"

definition owned :: "string set \<Rightarrow> string set \<Rightarrow> json \<Rightarrow> bool" where
  "owned plan_ids product_ids md =
     (let kind = (case dget md ''kind'' of Inl e \<Rightarrow> JNull | Inr k \<Rightarrow> k);
          local_plan = (case dget md ''local_plan_id'' of Inl e \<Rightarrow> JNull | Inr k \<Rightarrow> k);
          local_product = (case dget md ''local_product_id'' of Inl e \<Rightarrow> JNull | Inr k \<Rightarrow> k);
          local_id = as_str (py_or local_plan local_product)
      in kind = JStr ''plan'' \<and> (case local_id of None \<Rightarrow> False | Some i \<Rightarrow> i \<in> plan_ids)
       \<or> kind = JStr ''product'' \<and> (case local_id of None \<Rightarrow> False | Some i \<Rightarrow> i \<in> product_ids))"

fun strays :: "string set \<Rightarrow> string set \<Rightarrow> json list \<Rightarrow> json list res" where
  "strays plan_ids product_ids [] = Inr []"
| "strays plan_ids product_ids (sp # sps) = rbind (stripe_metadata sp) (\<lambda>md.
     rbind (strays plan_ids product_ids sps) (\<lambda>rest.
     Inr (if owned plan_ids product_ids md then rest else sp # rest)))"

text \<open>Whether a price of the product backs an active subscription; the search stops at the first that does.\<close>

fun has_active_sub :: "env \<Rightarrow> json list \<Rightarrow> bool io" where
  "has_active_sub E [] = mret False"
| "has_active_sub E (price # ps) =
     mbind (mlift (attr price ''recurring'')) (\<lambda>recurring.
     if recurring = JNull then has_active_sub E ps
     else mbind (mlift (attr_text price ''id'')) (\<lambda>i.
       mbind (call_stripe E (ActiveSubscriptionsOf i)) (\<lambda>subs.
       mbind (mlift (attr subs ''data'')) (\<lambda>data.
       if truthy data then mret True else has_active_sub E ps))))"

text \<open>
  \<open>stripe.Price.list(product=\<dots>, active=True)\<close>: only the prices of the product that are still active are
  listed, so a subscription that runs on an archived price is not looked at.
\<close>

definition stray_in_use :: "env \<Rightarrow> string \<Rightarrow> bool io" where
  "stray_in_use E i =
     mbind (call_stripe E (ActivePricesOfProduct i)) (\<lambda>page.
     mbind (mlift (rbind (attr page ''data'') json_list)) (\<lambda>prices. has_active_sub E prices))"

definition archive_stray :: "env \<Rightarrow> json \<Rightarrow> unit io" where
  "archive_stray E sp =
     mbind (mlift (attr_text sp ''id'')) (\<lambda>i.
     mbind (stray_in_use E i) (\<lambda>active.
     if active then mret () else mseq (call_stripe E (ProductArchive i)) (mret ())))"

definition audit_stripe_catalog :: "env \<Rightarrow> bool \<Rightarrow> unit io" where
  "audit_stripe_catalog E archive =
     (if stripe_secret_key E = [] then mret ()
      else mbind (mgets db) (\<lambda>d.
        mbind (call_stripe E ProductListActive) (\<lambda>page.
        mbind (mlift (rbind (attr page ''data'') json_list)) (\<lambda>sps.
        mbind (mlift (strays (set (map (\<lambda>p. uuid_str (p_id p)) (plans d))) (set (map (\<lambda>p. uuid_str (pr_id p)) (products d))) sps)) (\<lambda>found.
        if found = [] \<or> \<not> archive then mret () else each (archive_stray E) found)))))"

section \<open>Distinct targets have distinct lookup keys\<close>

definition plan_slot :: "plan \<Rightarrow> plan_context \<times> plan_tier \<times> plan_interval" where
  "plan_slot p = (p_context p, p_tier p, p_interval p)"

definition plan_base :: "plan_context \<times> plan_tier \<times> plan_interval \<Rightarrow> string" where
  "plan_base s = (case s of (c, t, i) \<Rightarrow> ''plan_'' @ context_value c @ ''_'' @ tier_name t @ ''_'' @ interval_value i)"

lemma plan_key_base: "plan_lookup_key p c = in_currency (plan_base (plan_slot p)) c"
  by (simp add: plan_lookup_key_def plan_base_def plan_slot_def)

definition all_slots :: "(plan_context \<times> plan_tier \<times> plan_interval) list" where
  "all_slots = List.product [PERSONAL, TEAM] (List.product [FREE, BASIC, PRO] [MONTH, YEAR])"

lemma slot_listed: "s \<in> set all_slots"
proof (cases s)
  case (fields c t i)
  show ?thesis unfolding fields all_slots_def by (cases c; cases t; cases i; simp)
qed

text \<open>No base is a prefix of another one.\<close>

lemma bases_prefix_free:
  "list_all (\<lambda>s. list_all (\<lambda>s'. take (length (plan_base s)) (plan_base s') = plan_base s \<longrightarrow> s = s') all_slots) all_slots"
  by code_simp

lemma base_append_inj:
  assumes "plan_base s @ xs = plan_base s' @ ys" shows "s = s' \<and> xs = ys"
proof -
  have "take (length (plan_base s)) (plan_base s') = plan_base s \<or> take (length (plan_base s')) (plan_base s) = plan_base s'"
  proof (cases "length (plan_base s) \<le> length (plan_base s')")
    case True
    have "take (length (plan_base s)) (plan_base s' @ ys) = plan_base s" unfolding assms [symmetric] by simp
    with True show ?thesis by simp
  next
    case False
    have "take (length (plan_base s')) (plan_base s @ xs) = plan_base s'" unfolding assms by simp
    with False show ?thesis by simp
  qed
  moreover have "\<forall>u\<in>set all_slots. \<forall>v\<in>set all_slots. take (length (plan_base u)) (plan_base v) = plan_base u \<longrightarrow> u = v"
    using bases_prefix_free by (simp only: list_all_iff)
  ultimately have "s = s'" using slot_listed [of s] slot_listed [of s'] by metis
  with assms show ?thesis by simp
qed

text \<open>The suffixes of the two dimensions, by currency and by country, never meet.\<close>

definition key_suffix :: "string + string \<Rightarrow> string" where
  "key_suffix x = (case x of Inl c \<Rightarrow> (if c = ''usd'' then [] else ''_'' @ c) | Inr k \<Rightarrow> ''_c_'' @ lower k)"

definition plan_target_key :: "plan \<Rightarrow> string + string \<Rightarrow> string" where
  "plan_target_key p x = (case x of Inl c \<Rightarrow> plan_lookup_key p c | Inr k \<Rightarrow> country_lookup_key (plan_lookup_key p ''usd'') k)"

lemma plan_target_suffix: "plan_target_key p x = plan_base (plan_slot p) @ key_suffix x"
  by (cases x) (simp_all add: plan_target_key_def plan_key_base in_currency_def country_lookup_key_def key_suffix_def)

lemma currency_letters: "list_all (\<lambda>c. c \<noteq> [] \<and> take 2 c \<noteq> ''c_'') supported_currencies"
  by code_simp

definition same_dimension :: "string + string \<Rightarrow> string + string \<Rightarrow> bool" where
  "same_dimension x y = (case (x, y) of (Inl c, Inl c') \<Rightarrow> c = c' | (Inr k, Inr k') \<Rightarrow> lower k = lower k' | _ \<Rightarrow> False)"

definition sold_in :: "string + string \<Rightarrow> bool" where
  "sold_in x = (case x of Inl c \<Rightarrow> c \<in> set supported_currencies | Inr k \<Rightarrow> True)"

lemma key_suffix_inj:
  assumes "sold_in x" "sold_in y" and "key_suffix x = key_suffix y"
  shows "same_dimension x y"
proof -
  have c: "c \<noteq> [] \<and> take 2 c \<noteq> ''c_''" if "x = Inl c \<or> y = Inl c" for c
    using assms(1,2) that currency_letters by (auto simp: list_all_iff sold_in_def)
  show ?thesis
  proof (cases x; cases y)
    fix a b assume "x = Inl a" "y = Inl b"
    with assms(3) c show ?thesis by (auto simp: key_suffix_def same_dimension_def split: if_splits)
  next
    fix a b assume xy: "x = Inl a" "y = Inr b"
    with assms(3) have "a = ''c_'' @ lower b" by (auto simp: key_suffix_def split: if_splits)
    with c [of a] xy show ?thesis by simp
  next
    fix a b assume xy: "x = Inr a" "y = Inl b"
    with assms(3) have "b = ''c_'' @ lower a" by (auto simp: key_suffix_def split: if_splits)
    with c [of b] xy show ?thesis by simp
  next
    fix a b assume "x = Inr a" "y = Inr b"
    with assms(3) show ?thesis by (simp add: key_suffix_def same_dimension_def)
  qed
qed

text \<open>
  The lookup keys of plans never collide: two plans that differ in context, tier or interval, two
  supported currencies, two countries, and a currency and a country always have different keys, so the
  table of existing prices never confuses the Stripe price of one with that of another.
\<close>

theorem plan_keys_distinct:
  assumes "sold_in x" and "sold_in y" and "plan_target_key p x = plan_target_key q y"
  shows "plan_slot p = plan_slot q \<and> same_dimension x y"
proof -
  from base_append_inj [OF assms(3) [unfolded plan_target_suffix]]
  have "plan_slot p = plan_slot q" "key_suffix x = key_suffix y" by blast+
  with key_suffix_inj [OF assms(1,2)] show ?thesis by blast
qed

theorem plan_keys_distinct_witness:
  "plan_target_key (hd (plans sample_db)) (Inl ''eur'') \<noteq> plan_target_key (hd (plans sample_db)) (Inr ''FR'')"
proof
  assume "plan_target_key (hd (plans sample_db)) (Inl ''eur'') = plan_target_key (hd (plans sample_db)) (Inr ''FR'')"
  moreover have "sold_in (Inl ''eur'')" "sold_in (Inr ''FR'')" by code_simp+
  ultimately have "same_dimension (Inl ''eur'') (Inr ''FR'')" using plan_keys_distinct by blast
  then show False by (simp add: same_dimension_def)
qed

text \<open>Products have no such guarantee: a name may end like a currency.\<close>

lemma product_keys_collide:
  "product_lookup_key \<lparr>pr_id = 1, pr_name = ''Foo'', pr_credits = 1, pr_is_active = True\<rparr> ''eur''
   = product_lookup_key \<lparr>pr_id = 2, pr_name = ''Foo EUR'', pr_credits = 1, pr_is_active = True\<rparr> ''usd''"
  by code_simp

section \<open>The bulk fetch\<close>

text \<open>
  The existing prices are fetched in full: the calls to Stripe ask for every wanted key, in order and
  once, in batches of one to ten keys (the limit of Stripe), whatever it answers; if an answer breaks the
  run the calls made so far are a prefix of these.
\<close>

fun batches :: "nat \<Rightarrow> string list \<Rightarrow> string list list" where
  "batches 0 keys = []"
| "batches (Suc n) keys = (if keys = [] then [] else take 10 keys # batches n (drop 10 keys))"

lemma batches_cover: "length keys \<le> n \<Longrightarrow> concat (batches n keys) = keys"
  by (induction n keys rule: batches.induct) auto

lemma batches_size: "b \<in> set (batches n keys) \<Longrightarrow> 1 \<le> length b \<and> length b \<le> 10"
  by (induction n keys rule: batches.induct) (auto split: if_splits simp: Suc_le_eq)

lemma bulk_fetch_calls:
  "length keys \<le> n \<Longrightarrow> bulk_fetch E t keys w = (r, w') \<Longrightarrow>
   \<exists>k. calls w' = calls w @ map PriceList (take k (batches n keys)) \<and> db w' = db w
     \<and> (\<forall>t'. r = Inr t' \<longrightarrow> k \<ge> length (batches n keys))"
proof (induction n keys arbitrary: t w rule: batches.induct)
  case (1 keys)
  then show ?case by (simp add: bulk_fetch.simps)
next
  case (2 n keys)
  show ?case
  proof (cases "keys = []")
    case True with 2 show ?thesis by (simp add: bulk_fetch.simps)
  next
    case False
    let ?c = "PriceList (take 10 keys)" and ?w = "w\<lparr>calls := calls w @ [PriceList (take 10 keys)]\<rparr>"
    have one: "calls ?w = calls w @ map PriceList (take 1 (batches (Suc n) keys))" using False by simp
    show ?thesis
    proof (cases "\<exists>page prices t'. stripe E (calls w) ?c = Inr page \<and> rbind (attr page ''data'') json_list = Inr prices
        \<and> add_prices t prices = Inr t'")
      case True
      then obtain page prices t' where "stripe E (calls w) ?c = Inr page"
        "rbind (attr page ''data'') json_list = Inr prices" "add_prices t prices = Inr t'" by blast
      with 2(3) False have run: "bulk_fetch E t' (drop 10 keys) ?w = (r, w')"
        by (subst (asm) bulk_fetch.simps) (simp add: run_simps)
      have "length (drop 10 keys) \<le> n" using 2(2) False by (cases keys) auto
      from 2(1) [OF False this run] obtain k where
        "calls w' = calls ?w @ map PriceList (take k (batches n (drop 10 keys)))" "db w' = db ?w"
        "\<forall>t'. r = Inr t' \<longrightarrow> k \<ge> length (batches n (drop 10 keys))" by blast
      with False show ?thesis by (intro exI [of _ "Suc k"]) simp
    next
      case bad: False
      have "w' = ?w \<and> (\<exists>e. r = Inl e)"
        using 2(3) bad by (subst (asm) bulk_fetch.simps) (auto simp: False run_simps split: sum.splits, metis)
      with one show ?thesis by (intro exI [of _ 1]) auto
    qed
  qed
qed

theorem lookup_batches:
  assumes "bulk_fetch E Map.empty keys w = (r, w')"
  shows "\<exists>bs. calls w' = calls w @ map PriceList bs \<and> db w' = db w \<and> (\<forall>b\<in>set bs. 1 \<le> length b \<and> length b \<le> 10)
    \<and> (\<exists>rest. concat bs @ rest = keys \<and> ((\<exists>t. r = Inr t) \<longrightarrow> rest = []))"
proof -
  let ?bs = "batches (length keys) keys"
  obtain k where k: "calls w' = calls w @ map PriceList (take k ?bs)" "db w' = db w"
    "\<forall>t'. r = Inr t' \<longrightarrow> k \<ge> length ?bs" using bulk_fetch_calls [OF order_refl assms] by blast
  have "concat (take k ?bs) @ concat (drop k ?bs) = keys"
    using batches_cover [of keys "length keys"] by (simp only: concat_append [symmetric] append_take_drop_id order_refl)
  moreover have "(\<exists>t. r = Inr t) \<longrightarrow> concat (drop k ?bs) = []" using k(3) by auto
  moreover have "\<forall>b\<in>set (take k ?bs). 1 \<le> length b \<and> length b \<le> 10" using batches_size in_set_takeD by metis
  ultimately show ?thesis using k(1,2) by blast
qed

section \<open>One price in Stripe\<close>

text \<open>Calls that make or retire a price or a product.\<close>

fun mints :: "stripe_call \<Rightarrow> bool" where
  "mints (PriceCreate p) = True"
| "mints (PriceArchive i) = True"
| "mints (ProductCreate n d m) = True"
| "mints (ProductArchive i) = True"
| "mints _ = False"

lemma sync_stripe_product_calls:
  assumes "sync_stripe_product E product p w = (r, w')"
  shows "db w' = db w \<and> (\<exists>cs. calls w' = calls w @ cs \<and> list_all (\<lambda>c. \<not> mints c) cs \<and> length cs \<le> 1)"
  using assms by (auto simp: sync_stripe_product_def run_simps Let_def split: sum.splits prod.splits if_splits)

lemma ensure_tax_behavior_calls:
  assumes "ensure_tax_behavior E price w = (r, w')"
  shows "db w' = db w \<and> (\<exists>cs. calls w' = calls w @ cs \<and> list_all (\<lambda>c. \<not> mints c) cs \<and> length cs \<le> 1)"
  using assms by (auto simp: ensure_tax_behavior_def run_simps split: sum.splits if_splits)

definition price_to_create :: "wanted_price \<Rightarrow> string \<Rightarrow> stripe_call" where
  "price_to_create p product_id = PriceCreate \<lparr>np_product = product_id, np_unit_amount = wp_amount p,
     np_currency = wp_currency p, np_lookup_key = wp_key p, np_interval = wp_interval p, np_metadata = wp_price_metadata p\<rparr>"

definition product_id_of :: "json \<Rightarrow> string res" where
  "product_id_of current = rbind (attr current ''product'') (\<lambda>product.
     if is_object product then attr_text product ''id'' else Inr (py_str product))"

lemma create_price_Inr:
  assumes "create_price E p k w = (Inr i, w')"
  shows "db w' = db w \<and> calls w' = calls w @ [price_to_create p k]"
  using assms by (auto simp: create_price_def run_simps price_to_create_def split: sum.splits)

text \<open>
  C36. What one target costs in Stripe.  When it succeeds the database is untouched and exactly one of
  these happened: a price with the key exists and matches, its id is returned, and nothing is created or
  archived; a price exists but differs, then it is archived first, and one price with the wanted amount,
  currency, interval and key is created under the same product; no price exists, then one product and one
  price of it are created.
\<close>

theorem upsert_price_outcomes:
  assumes "upsert_price E existing p w = (Inr i, w')"
  shows "db w' = db w \<and>
    (case existing (wp_key p) of
       Some current \<Rightarrow>
         price_matches current p = Inr True \<and> attr_text current ''id'' = Inr i
           \<and> (\<exists>cs. calls w' = calls w @ cs \<and> list_all (\<lambda>c. \<not> mints c) cs)
       \<or> price_matches current p = Inr False
           \<and> (\<exists>old k cs. attr_text current ''id'' = Inr old \<and> product_id_of current = Inr k
                \<and> calls w' = calls w @ [PriceArchive old] @ cs @ [price_to_create p k] \<and> list_all (\<lambda>c. \<not> mints c) cs)
     | None \<Rightarrow> \<exists>d k. calls w' = calls w @ [ProductCreate (wp_product_name p) d (wp_product_metadata p), price_to_create p k])"
proof (cases "existing (wp_key p)")
  case None
  with assms show ?thesis
    by (auto simp: upsert_price_def dest!: create_price_Inr elim!: mbind_InrE mlift_InrE split: sum.splits)
next
  case (Some current)
  with assms obtain product same w0 where product: "attr current ''product'' = Inr product"
    and same: "price_matches current p = Inr same"
    and run: "(if same then mseq (sync_stripe_product E product p) (mseq (ensure_tax_behavior E current) (mlift (attr_text current ''id'')))
      else mbind (mlift (if is_object product then attr_text product ''id'' else Inr (py_str product))) (\<lambda>product_id.
            mbind (mlift (attr_text current ''id'')) (\<lambda>i.
            mseq (call_stripe E (PriceArchive i))
            (mseq (sync_stripe_product E (JStr product_id) p) (create_price E p product_id))))) w = (Inr i, w')"
    by (auto simp: upsert_price_def elim!: mbind_InrE mlift_InrE)
  show ?thesis
  proof (cases same)
    case True
    with run obtain w1 w2 where "sync_stripe_product E product p w = (Inr (), w1)"
      "ensure_tax_behavior E current w1 = (Inr (), w2)" "attr_text current ''id'' = Inr i" "w' = w2"
      by (auto elim!: mseq_InrE mlift_InrE)
    with sync_stripe_product_calls ensure_tax_behavior_calls same True Some show ?thesis by fastforce
  next
    case False
    with run obtain k old w1 w2 where k: "product_id_of current = Inr k" "attr_text current ''id'' = Inr old"
      and w1: "w1 = w\<lparr>calls := calls w @ [PriceArchive old]\<rparr>"
      and w2: "sync_stripe_product E (JStr k) p w1 = (Inr (), w2)" and w': "create_price E p k w2 = (Inr i, w')"
      by (auto elim!: mseq_InrE mbind_InrE mlift_InrE simp: product_id_of_def product)
    from sync_stripe_product_calls [OF w2] create_price_Inr [OF w'] obtain cs
      where "db w' = db w" "calls w' = calls w @ [PriceArchive old] @ cs @ [price_to_create p k]" "list_all (\<lambda>c. \<not> mints c) cs"
      by (auto simp: w1)
    with same False Some k show ?thesis by auto
  qed
qed

section \<open>The audit spares what is in use\<close>

text \<open>Stripe was asked \<open>c\<close> and answered \<open>j\<close>; the active prices of the product \<open>i\<close> were found to back no active subscription.\<close>

definition asked :: "env \<Rightarrow> stripe_call list \<Rightarrow> stripe_call \<Rightarrow> json \<Rightarrow> bool" where
  "asked E cl c j \<longleftrightarrow> (\<exists>pre post. cl = pre @ c # post \<and> stripe E pre c = Inr j)"

definition price_unused :: "env \<Rightarrow> stripe_call list \<Rightarrow> json \<Rightarrow> bool" where
  "price_unused E cl price \<longleftrightarrow> attr price ''recurring'' = Inr JNull
     \<or> (\<exists>i subs data. attr_text price ''id'' = Inr i \<and> asked E cl (ActiveSubscriptionsOf i) subs
          \<and> attr subs ''data'' = Inr data \<and> \<not> truthy data)"

definition product_unused :: "env \<Rightarrow> stripe_call list \<Rightarrow> string \<Rightarrow> bool" where
  "product_unused E cl i \<longleftrightarrow> (\<exists>page prices. asked E cl (ActivePricesOfProduct i) page
     \<and> rbind (attr page ''data'') json_list = Inr prices \<and> list_all (price_unused E cl) prices)"

lemma asked_now: "stripe E cl c = Inr j \<Longrightarrow> asked E (cl @ [c]) c j"
  by (auto simp: asked_def)

lemma asked_mono: "asked E cl c j \<Longrightarrow> asked E (cl @ cs) c j"
  unfolding asked_def
proof (elim exE conjE)
  fix pre post assume "cl = pre @ c # post" "stripe E pre c = Inr j"
  then have "cl @ cs = pre @ c # (post @ cs) \<and> stripe E pre c = Inr j" by simp
  then show "\<exists>pre post. cl @ cs = pre @ c # post \<and> stripe E pre c = Inr j" by blast
qed

lemma price_unused_mono: "price_unused E cl p \<Longrightarrow> price_unused E (cl @ cs) p"
  by (auto simp: price_unused_def intro: asked_mono)

definition logged :: "stripe_call list \<Rightarrow> world \<Rightarrow> bool" where
  "logged cl w \<longleftrightarrow> (\<exists>cs. calls w = cl @ cs)"

lemma keeps_logged_call: "keeps (logged cl) (call_stripe E c)"
  by (auto simp: keeps_def logged_def)

lemma keeps_logged_search: "keeps (logged cl) (has_active_sub E ps)"
  by (induction ps) (simp_all only: has_active_sub.simps, (intro keeps_intros keeps_logged_call | assumption)+)

lemma has_active_sub_calls: "has_active_sub E ps w = (r, w') \<Longrightarrow> \<exists>cs. calls w' = calls w @ cs"
  using keepsD_run [OF keeps_logged_search, of "calls w" w E ps r w'] by (auto simp: logged_def)

lemma has_active_sub_False:
  "has_active_sub E ps w = (Inr False, w') \<Longrightarrow> list_all (price_unused E (calls w')) ps"
proof (induction ps arbitrary: w)
  case (Cons p ps)
  from Cons.prems obtain recurring where recurring: "attr p ''recurring'' = Inr recurring"
    by (auto elim!: mbind_InrE mlift_InrE)
  show ?case
  proof (cases "recurring = JNull")
    case True
    with recurring Cons.prems have "has_active_sub E ps w = (Inr False, w')" by (simp add: run_simps)
    with Cons.IH True recurring show ?thesis by (simp add: price_unused_def)
  next
    case False
    with recurring Cons.prems obtain i subs data where i: "attr_text p ''id'' = Inr i"
      and subs: "stripe E (calls w) (ActiveSubscriptionsOf i) = Inr subs" "attr subs ''data'' = Inr data" "\<not> truthy data"
      and rest: "has_active_sub E ps (w\<lparr>calls := calls w @ [ActiveSubscriptionsOf i]\<rparr>) = (Inr False, w')"
      by (auto simp: run_simps split: sum.splits if_splits)
    obtain cs where cs: "calls w' = (calls w @ [ActiveSubscriptionsOf i]) @ cs" using has_active_sub_calls [OF rest] by auto
    have "asked E (calls w') (ActiveSubscriptionsOf i) subs" unfolding cs by (intro asked_mono asked_now subs(1))
    with i subs have "price_unused E (calls w') p" by (auto simp: price_unused_def)
    with Cons.IH [OF rest] show ?thesis by simp
  qed
qed simp

text \<open>Every archive call after the first \<open>n\<close> calls was for an unused product out of \<open>S\<close>.\<close>

definition spared :: "env \<Rightarrow> string set \<Rightarrow> nat \<Rightarrow> stripe_call list \<Rightarrow> bool" where
  "spared E S n cl \<longleftrightarrow>
     (\<forall>pre i post. cl = pre @ ProductArchive i # post \<longrightarrow> n \<le> length pre \<longrightarrow> product_unused E pre i \<and> i \<in> S)"

lemma spared_start: "spared E S (length cl) cl"
  by (auto simp: spared_def)

lemma spared_snoc:
  assumes "spared E S n cl" and "\<And>i. c = ProductArchive i \<Longrightarrow> product_unused E cl i \<and> i \<in> S"
  shows "spared E S n (cl @ [c])"
  unfolding spared_def
proof (intro allI impI)
  fix pre i post assume e: "cl @ [c] = pre @ ProductArchive i # post" and n: "n \<le> length pre"
  show "product_unused E pre i \<and> i \<in> S"
  proof (cases post rule: rev_cases)
    case Nil with e assms(2) show ?thesis by auto
  next
    case (snoc ps x) with e have "cl = pre @ ProductArchive i # ps" by auto
    with assms(1) n show ?thesis by (auto simp: spared_def)
  qed
qed

abbreviation "sparing E S n \<equiv> \<lambda>w. spared E S n (calls w)"

lemma keeps_sparing_call: "(\<And>i. c \<noteq> ProductArchive i) \<Longrightarrow> keeps (sparing E S n) (call_stripe E' c)"
  by (auto simp: keeps_def intro: spared_snoc)

lemma keeps_sparing_search: "keeps (sparing E S n) (has_active_sub E' ps)"
  by (induction ps) (simp_all only: has_active_sub.simps, (intro keeps_intros keeps_sparing_call | simp | assumption)+)

lemma keeps_sparing_archive:
  assumes "\<And>i. attr_text sp ''id'' = Inr i \<Longrightarrow> i \<in> S"
  shows "keeps (sparing E S n) (archive_stray E sp)"
proof (rule keepsI)
  fix w :: world assume w: "spared E S n (calls w)"
  show "spared E S n (calls (snd (archive_stray E sp w)))"
  proof (cases "attr_text sp ''id''")
    case (Inl e) with w show ?thesis by (simp add: archive_stray_def run_simps)
  next
    case (Inr i)
    have run: "archive_stray E sp w = mbind (stray_in_use E i)
        (\<lambda>active. if active then mret () else mseq (call_stripe E (ProductArchive i)) (mret ())) w"
      by (simp add: archive_stray_def Inr mbind_run)
    have k: "keeps (sparing E S n) (stray_in_use E i)"
      unfolding stray_in_use_def by (intro keeps_intros keeps_sparing_call keeps_sparing_search) simp
    obtain r w1 where s: "stray_in_use E i w = (r, w1)" by force
    have w1: "spared E S n (calls w1)" by (rule keepsD_run [OF k w s])
    show ?thesis
    proof (cases "r = Inr False")
      case False
      then have "snd (archive_stray E sp w) = w1" unfolding run
        by (cases r) (auto simp: mbind_def s split: if_splits)
      with w1 show ?thesis by simp
    next
      case True
      from s [unfolded True stray_in_use_def] obtain page prices where page: "stripe E (calls w) (ActivePricesOfProduct i) = Inr page"
        and prices: "rbind (attr page ''data'') json_list = Inr prices"
        and sub: "has_active_sub E prices (w\<lparr>calls := calls w @ [ActivePricesOfProduct i]\<rparr>) = (Inr False, w1)"
        by (auto elim!: mbind_InrE mlift_InrE)
      obtain cs where cs: "calls w1 = (calls w @ [ActivePricesOfProduct i]) @ cs" using has_active_sub_calls [OF sub] by auto
      have "asked E (calls w1) (ActivePricesOfProduct i) page" unfolding cs by (intro asked_mono asked_now page)
      with prices has_active_sub_False [OF sub] have "product_unused E (calls w1) i" by (auto simp: product_unused_def)
      then have "spared E S n (calls w1 @ [ProductArchive i])" using w1 assms [OF Inr] by (intro spared_snoc) auto
      moreover have "calls (snd (archive_stray E sp w)) = calls w1 @ [ProductArchive i]"
        unfolding run by (simp add: mbind_def s True mseq_def split: sum.split)
      ultimately show ?thesis by simp
    qed
  qed
qed

lemma strays_mem:
  "strays P Q sps = Inr found \<Longrightarrow> sp \<in> set found \<Longrightarrow>
   sp \<in> set sps \<and> (\<exists>md. stripe_metadata sp = Inr md \<and> \<not> owned P Q md)"
  by (induction sps arbitrary: found) (auto elim!: rbind_InrE split: if_splits)

lemma each_sparing:
  assumes "\<forall>sp\<in>set found. \<forall>i. attr_text sp ''id'' = Inr i \<longrightarrow> i \<in> S"
  shows "keeps (sparing E S n) (each (archive_stray E) found)"
  using assms by (induction found) (simp_all only: each.simps, (intro keeps_intros keeps_sparing_archive | simp)+)

definition plan_ids :: "db \<Rightarrow> string set" where "plan_ids d = set (map (\<lambda>p. uuid_str (p_id p)) (plans d))"
definition product_ids :: "db \<Rightarrow> string set" where "product_ids d = set (map (\<lambda>p. uuid_str (pr_id p)) (products d))"

text \<open>The ids of listed products whose metadata names no plan or product of the database.\<close>

definition stray_ids :: "db \<Rightarrow> json list \<Rightarrow> string set" where
  "stray_ids d sps = {i. \<exists>sp\<in>set sps. attr_text sp ''id'' = Inr i
     \<and> (\<exists>md. stripe_metadata sp = Inr md \<and> \<not> owned (plan_ids d) (product_ids d) md)}"

text \<open>
  C38. The audit asks before it archives.  Whatever Stripe answers and however the run ends, every product
  that it archives is one that Stripe listed, whose metadata names no plan or product of the database,
  and for which Stripe, asked before the archive call about each active recurring price of the product,
  found no active subscription; without \<open>--archive\<close> nothing is archived.  (Prices that are archived
  already are not listed by the command, so nothing is claimed of subscriptions that still run on them.)
\<close>

theorem audit_spares_subscriptions:
  assumes "audit_stripe_catalog E archive w = (r, w')" and "calls w' = pre @ ProductArchive i # post"
    and "length (calls w) \<le> length pre"
  shows "archive \<and> product_unused E pre i
    \<and> (\<exists>page sps. stripe E (calls w) ProductListActive = Inr page \<and> rbind (attr page ''data'') json_list = Inr sps
         \<and> i \<in> stray_ids (db w) sps)"
proof -
  note run = assms(1) [unfolded audit_stripe_catalog_def]
  have "ProductArchive i \<in> set (drop (length (calls w)) (calls w'))" using assms(3) by (simp add: assms(2))
  then have new: "calls w' \<noteq> calls w @ [ProductListActive]" "calls w' \<noteq> calls w" by auto
  let ?w = "w\<lparr>calls := calls w @ [ProductListActive]\<rparr>"
  from run new obtain page sps found where page: "stripe E (calls w) ProductListActive = Inr page"
    and sps: "rbind (attr page ''data'') json_list = Inr sps"
    and found: "strays (plan_ids (db w)) (product_ids (db w)) sps = Inr found" and archive
    and each: "each (archive_stray E) found ?w = (r, w')"
    by (auto simp: run_simps plan_ids_def product_ids_def split: if_splits sum.splits)
  have "keeps (sparing E (stray_ids (db w) sps) (length (calls w))) (each (archive_stray E) found)"
    by (rule each_sparing) (use strays_mem [OF found] in \<open>auto simp: stray_ids_def\<close>)
  moreover have "spared E (stray_ids (db w) sps) (length (calls w)) (calls ?w)"
    by (simp, rule spared_snoc [OF spared_start]) simp
  ultimately have "spared E (stray_ids (db w) sps) (length (calls w)) (calls w')"
    using each by (rule keepsD_run)
  with assms(2,3) have "product_unused E pre i" "i \<in> stray_ids (db w) sps" by (auto simp: spared_def)
  with page sps \<open>archive\<close> show ?thesis by blast
qed

text \<open>A stray product without prices is archived; one whose price is subscribed to is not.\<close>

definition audited_env :: "json list \<Rightarrow> env" where
  "audited_env subs = start_env\<lparr>stripe := (\<lambda>cl c. case c of
      ProductListActive \<Rightarrow> Inr (JObj [(''data'', JArr [JObj [(''id'', JStr ''prod_old''), (''metadata'', JObj [])]])])
    | ActivePricesOfProduct i \<Rightarrow> Inr (JObj [(''data'', JArr [JObj [(''id'', JStr ''price_old''), (''recurring'', JObj [(''interval'', JStr ''month'')])]])])
    | ActiveSubscriptionsOf i \<Rightarrow> Inr (JObj [(''data'', JArr subs)])
    | _ \<Rightarrow> Inr (JObj []))\<rparr>"

theorem audit_spares_subscriptions_witness:
  "product_unused (audited_env []) [ProductListActive, ActivePricesOfProduct ''prod_old'', ActiveSubscriptionsOf ''price_old''] ''prod_old''
   \<and> calls (snd (audit_stripe_catalog (audited_env [JObj []]) True (start_world sample_db)))
      = [ProductListActive, ActivePricesOfProduct ''prod_old'', ActiveSubscriptionsOf ''price_old'']"
proof -
  let ?run = "audit_stripe_catalog (audited_env []) True (start_world sample_db)"
  obtain r w' where run: "?run = (r, w')" by force
  have "calls (snd ?run) = [ProductListActive, ActivePricesOfProduct ''prod_old'', ActiveSubscriptionsOf ''price_old'']
      @ ProductArchive ''prod_old'' # []"
    by (simp add: audit_stripe_catalog_def archive_stray_def stray_in_use_def run_simps audited_env_def start_env_def
        start_world_def attr_text_def stripe_metadata_def owned_def py_or_def)
  then have c: "calls w' = [ProductListActive, ActivePricesOfProduct ''prod_old'', ActiveSubscriptionsOf ''price_old'']
      @ ProductArchive ''prod_old'' # []" by (simp only: run snd_conv)
  have "length (calls (start_world sample_db)) \<le> length [ProductListActive, ActivePricesOfProduct ''prod_old'', ActiveSubscriptionsOf ''price_old'']"
    by (simp add: start_world_def)
  from audit_spares_subscriptions [OF run c this]
  have "product_unused (audited_env []) [ProductListActive, ActivePricesOfProduct ''prod_old'', ActiveSubscriptionsOf ''price_old''] ''prod_old''"
    by blast
  moreover have "calls (snd (audit_stripe_catalog (audited_env [JObj []]) True (start_world sample_db)))
      = [ProductListActive, ActivePricesOfProduct ''prod_old'', ActiveSubscriptionsOf ''price_old'']"
    by (simp add: audit_stripe_catalog_def archive_stray_def stray_in_use_def run_simps audited_env_def start_env_def
        start_world_def attr_text_def stripe_metadata_def owned_def py_or_def)
  ultimately show ?thesis by blast
qed

text \<open>Instances of the properties of the sync: one plan without a price in Stripe.\<close>

definition wanted_example :: wanted_price where
  "wanted_example = \<lparr>wp_key = ''plan_x'', wp_amount = 1900, wp_currency = ''usd'', wp_interval = Some ''month'',
     wp_product_name = ''Pro'', wp_description = None, wp_product_metadata = [], wp_price_metadata = []\<rparr>"

theorem upsert_price_outcomes_witness:
  "calls (snd (upsert_price start_env Map.empty wanted_example (start_world sample_db)))
     = [ProductCreate ''Pro'' None [], price_to_create wanted_example ''new'']"
proof -
  let ?run = "upsert_price start_env Map.empty wanted_example (start_world sample_db)"
  have f: "fst ?run = Inr ''new''"
    by (simp add: upsert_price_def run_simps start_env_def attr_text_def create_price_def)
  have l: "hd (calls (snd ?run)) = ProductCreate ''Pro'' None []" "last (calls (snd ?run)) = price_to_create wanted_example ''new''"
    by (simp_all add: upsert_price_def run_simps start_env_def attr_text_def create_price_def start_world_def wanted_example_def
        price_to_create_def)
  obtain w' where run: "?run = (Inr ''new'', w')" using f by (metis prod.collapse)
  from upsert_price_outcomes [OF run] obtain d k
    where "calls w' = calls (start_world sample_db) @ [ProductCreate (wp_product_name wanted_example) d
      (wp_product_metadata wanted_example), price_to_create wanted_example k]" by auto
  with l run show ?thesis by (simp add: start_world_def)
qed

theorem lookup_batches_witness:
  "\<exists>bs. calls (snd (bulk_fetch start_env Map.empty [''a'', ''b''] (start_world sample_db))) = map PriceList bs
     \<and> (\<forall>b\<in>set bs. length b \<le> 10)"
proof -
  obtain r w' where "bulk_fetch start_env Map.empty [''a'', ''b''] (start_world sample_db) = (r, w')" by force
  from lookup_batches [OF this] this show ?thesis by (auto simp: start_world_def)
qed

section \<open>The sync leaves the commercial terms alone\<close>

definition unminted :: "country_price \<Rightarrow> country_price" where
  "unminted r = (if cp_is_curated r then r\<lparr>cp_base_minor := 0, cp_stripe_price_id := None\<rparr>
     else r\<lparr>cp_sticker_minor := 0, cp_base_minor := 0, cp_updated_at := 0, cp_stripe_price_id := None\<rparr>)"

definition commercial_terms :: "db \<Rightarrow> db" where
  "commercial_terms d = d\<lparr>plan_prices := map (\<lambda>r. r\<lparr>pp_stripe_price_id := []\<rparr>) (plan_prices d),
     product_prices := map (\<lambda>r. r\<lparr>xp_stripe_price_id := []\<rparr>) (product_prices d), localized_prices := [],
     country_prices := map unminted (country_prices d)\<rparr>"

definition on_terms :: "db \<Rightarrow> world \<Rightarrow> bool" where
  "on_terms t w \<longleftrightarrow> consistent w \<and> commercial_terms (db w) = t"

lemma unminted_same: "same_country r r' \<Longrightarrow> (cp_is_curated r \<Longrightarrow> r' = r) \<Longrightarrow> unminted r' = unminted r"
  by (cases "cp_is_curated r") (simp, frule same_fields(2), cases r, cases r', simp add: unminted_def same_country_def)

lemma sync_touched_terms: "sync_touched d d' \<Longrightarrow> commercial_terms d' = commercial_terms d"
proof -
  assume "sync_touched d d'"
  then obtain g h cs where d': "d' = d\<lparr>localized_prices := map h (localized_prices d) @ cs, country_prices := map g (country_prices d)\<rparr>"
    and g: "\<forall>r. same_country r (g r)" "\<forall>r\<in>set (country_prices d). cp_is_curated r \<longrightarrow> g r = r"
    by (auto simp: sync_touched_def)
  have "map (\<lambda>r. unminted (g r)) (country_prices d) = map unminted (country_prices d)"
    by (rule map_cong [OF refl]) (use g unminted_same in blast)
  then show ?thesis by (simp add: d' commercial_terms_def comp_def)
qed

lemma sync_prices_consistent: "keeps consistent (sync_localized_prices answer)"
  unfolding sync_localized_prices_def sync_body_def [symmetric]
  by (cases answer) (simp_all only: fx_answer.case, (intro keeps_intros sync_body_consistent)+)

lemma sync_prices_terms: "keeps (on_terms t) (sync_localized_prices answer)"
proof (rule keepsI)
  fix w assume w: "on_terms t w"
  obtain r w' where run: "sync_localized_prices answer w = (r, w')" by force
  have c: "consistent w" using w by (simp add: on_terms_def)
  have "consistent w'" by (rule keepsD_run [OF sync_prices_consistent c run])
  with price_sync_touched [OF c run] sync_touched_terms w
  show "on_terms t (snd (sync_localized_prices answer w))" by (auto simp: on_terms_def run)
qed

lemma keeps_terms:
  assumes "keeps consistent m" and "\<And>t. keeps (on_db (\<lambda>d. commercial_terms d = t)) m"
  shows "keeps (on_terms t) m"
proof (rule keepsI)
  fix w assume "on_terms t w"
  with keepsD [OF assms(1), of w] keepsD [OF assms(2) [of t], of w] show "on_terms t (snd (m w))"
    by (simp add: on_terms_def on_db_def)
qed

lemma mint_consistent:
  "keeps consistent (save_row plan_prices_T k (\<lambda>x. x\<lparr>pp_stripe_price_id := i\<rparr>))"
  "keeps consistent (save_row product_prices_T k (\<lambda>x. x\<lparr>xp_stripe_price_id := i\<rparr>))"
  "keeps consistent (save_row localized_prices_T k (\<lambda>x. x\<lparr>lp_stripe_price_id := j\<rparr>))"
  "keeps consistent (save_row country_prices_T k (\<lambda>x. x\<lparr>cp_base_minor := b\<rparr>))"
  "keeps consistent (save_row country_prices_T k (\<lambda>x. x\<lparr>cp_stripe_price_id := j\<rparr>))"
  by (intro save_consistent; simp add: plan_prices_T_def product_prices_T_def localized_prices_T_def country_prices_T_def)+

lemma mint_terms:
  "keeps (on_db (\<lambda>d. commercial_terms d = t)) (save_row plan_prices_T k (\<lambda>x. x\<lparr>pp_stripe_price_id := i\<rparr>))"
  "keeps (on_db (\<lambda>d. commercial_terms d = t)) (save_row product_prices_T k (\<lambda>x. x\<lparr>xp_stripe_price_id := i\<rparr>))"
  "keeps (on_db (\<lambda>d. commercial_terms d = t)) (save_row localized_prices_T k (\<lambda>x. x\<lparr>lp_stripe_price_id := j\<rparr>))"
  "keeps (on_db (\<lambda>d. commercial_terms d = t)) (save_row country_prices_T k (\<lambda>x. x\<lparr>cp_base_minor := b\<rparr>))"
  "keeps (on_db (\<lambda>d. commercial_terms d = t)) (save_row country_prices_T k (\<lambda>x. x\<lparr>cp_stripe_price_id := j\<rparr>))"
proof -
  have m: "map f (update_where P g xs) = map f xs" if "\<And>x. f (g x) = f x" for f g P and xs :: "'z list"
    using that by (rule map_update_where)
  note u = keeps_def on_db_def save_row_def update_rows_def Let_def commercial_terms_def m unminted_def
    plan_prices_T_def product_prices_T_def localized_prices_T_def country_prices_T_def
  show "keeps (on_db (\<lambda>d. commercial_terms d = t)) (save_row plan_prices_T k (\<lambda>x. x\<lparr>pp_stripe_price_id := i\<rparr>))" by (simp add: u)
  show "keeps (on_db (\<lambda>d. commercial_terms d = t)) (save_row product_prices_T k (\<lambda>x. x\<lparr>xp_stripe_price_id := i\<rparr>))" by (simp add: u)
  show "keeps (on_db (\<lambda>d. commercial_terms d = t)) (save_row localized_prices_T k (\<lambda>x. x\<lparr>lp_stripe_price_id := j\<rparr>))" by (simp add: u)
  show "keeps (on_db (\<lambda>d. commercial_terms d = t)) (save_row country_prices_T k (\<lambda>x. x\<lparr>cp_base_minor := b\<rparr>))" by (simp add: u)
  show "keeps (on_db (\<lambda>d. commercial_terms d = t)) (save_row country_prices_T k (\<lambda>x. x\<lparr>cp_stripe_price_id := j\<rparr>))" by (simp add: u)
qed

lemmas write_terms = keeps_terms [OF mint_consistent(1) mint_terms(1)] keeps_terms [OF mint_consistent(2) mint_terms(2)]
  keeps_terms [OF mint_consistent(3) mint_terms(3)] keeps_terms [OF mint_consistent(4) mint_terms(4)]
  keeps_terms [OF mint_consistent(5) mint_terms(5)]

lemma call_terms: "keeps (on_terms t) (call_stripe E c)"
  by (intro keeps_terms keeps_intros)

lemma upsert_terms: "keeps (on_terms t) (upsert_price E existing p)"
  unfolding upsert_price_def sync_stripe_product_def ensure_tax_behavior_def create_price_def Let_def prod.case_eq_if
  by (intro keeps_intros call_terms)

lemma sync_item_terms: "keeps (on_terms t) (sync_item E answer existing currency key item price)"
  unfolding sync_item_def unit_amount_for_def write_price_id_def first_localized_def
  by (cases price; simp only: catalog_price.case; intro keeps_intros upsert_terms sync_prices_terms write_terms)

lemma bulk_fetch_terms: "keeps (on_terms t) (bulk_fetch E tab keys)"
proof (induction E tab keys rule: bulk_fetch.induct)
  case (1 E tab keys)
  then show ?case by (subst bulk_fetch.simps) (intro keeps_intros call_terms; simp)
qed

lemma catalog_sync_terms: "keeps (on_terms t) (sync_stripe_catalog E answer)"
proof -
  have plans: "keeps (on_terms t) (sync_plans E answer existing c)" for existing c
    unfolding sync_plans_def prod.case_eq_if by (intro keeps_intros each_keeps sync_item_terms)
  have products: "keeps (on_terms t) (sync_products E answer existing c)" for existing c
    unfolding sync_products_def prod.case_eq_if by (intro keeps_intros each_keeps sync_item_terms)
  have countries: "keeps (on_terms t) (sync_country_prices E existing)" for existing
    unfolding sync_country_prices_def sync_country_price_def prod.case_eq_if
    by (intro keeps_intros each_keeps upsert_terms write_terms)
  show ?thesis unfolding sync_stripe_catalog_def
    by (intro keeps_intros each_keeps plans products countries bulk_fetch_terms)
qed

text \<open>
  C37. Syncing with Stripe never changes what is sold or for how much.  Whatever Stripe and the feed
  answer and wherever the run breaks off (it is not one transaction): plans, products, the dollar amount
  of every price, every curated sticker, the owner, country and currency of every country price, and
  every other table stay as they are; only Stripe ids, derived bases, localized amounts and the stickers
  that nobody curated move.
\<close>

theorem catalog_sync_safe:
  assumes "consistent w" and "sync_stripe_catalog E answer w = (r, w')"
  shows "consistent w' \<and> commercial_terms (db w') = commercial_terms (db w)"
  using keepsD_run [OF catalog_sync_terms [of "commercial_terms (db w)"] _ assms(2)] assms(1)
  by (simp add: on_terms_def)

text \<open>Against a Stripe that has no prices yet and numbers what it creates.\<close>

definition empty_stripe :: env where
  "empty_stripe = start_env\<lparr>stripe := (\<lambda>cl c. case c of
      PriceList ks \<Rightarrow> Inr (JObj [(''data'', JArr [])])
    | _ \<Rightarrow> Inr (JObj [(''id'', JStr (str_nat (length cl)))]))\<rparr>"

theorem catalog_sync_safe_witness:
  "map pp_amount (plan_prices (db (snd (sync_stripe_catalog empty_stripe FeedDown (start_world sample_db))))) = [1900, 900, 4900]"
proof -
  let ?run = "sync_stripe_catalog empty_stripe FeedDown (start_world sample_db)"
  obtain r w' where run: "?run = (r, w')" by force
  have a: "map pp_amount (plan_prices (commercial_terms d)) = map pp_amount (plan_prices d)" for d
    by (simp add: commercial_terms_def)
  from catalog_sync_safe [OF sample_consistent run]
  have "map pp_amount (plan_prices (db w')) = map pp_amount (plan_prices sample_db)"
    unfolding start_world_db by (metis a)
  moreover have "map pp_amount (plan_prices sample_db) = [1900, 900, 4900]" by code_simp
  ultimately show ?thesis by (simp only: run snd_conv)
qed

end
