(* ===== verification/Frames.thy ===== *)
theory Frames
  imports Endpoint Erasure OrgViews AuthViews BillingViews
begin

text \<open>
  What the requests and tasks leave alone.  A predicate of the database that does not look at the
  tables of accounts, customers and events is kept by everything that writes only there
  (\<open>account_frame\<close>); one that moreover does not look at the subscriptions is kept by the billing
  operations (\<open>billing_frame\<close>), one that does not look at the members and invitations by the
  operations of organisations (\<open>org_frame\<close>).  Each locale is interpreted on the parts of the
  invariant of the system, which \<open>System\<close> assembles.
\<close>

lemma keeps_context [keeps_intros]:
  "(c = PERSONAL \<Longrightarrow> keeps P m) \<Longrightarrow> (c = TEAM \<Longrightarrow> keeps P k) \<Longrightarrow>
   keeps P (case c of PERSONAL \<Rightarrow> m | TEAM \<Rightarrow> k)"
  by (cases c) simp_all

section \<open>Accounts\<close>

locale account_frame =
  fixes Q :: "db \<Rightarrow> bool"
  assumes users: "Q d \<Longrightarrow> Q (d\<lparr>users := us\<rparr>)"
    and refresh: "Q d \<Longrightarrow> Q (d\<lparr>refresh_tokens := rs\<rparr>)"
    and verification: "Q d \<Longrightarrow> Q (d\<lparr>verification_tokens := ts\<rparr>)"
    and reset: "Q d \<Longrightarrow> Q (d\<lparr>reset_tokens := ts\<rparr>)"
    and links: "Q d \<Longrightarrow> Q (d\<lparr>link_requests := ls\<rparr>)"
    and social: "Q d \<Longrightarrow> Q (d\<lparr>social_accounts := sas\<rparr>)"
    and orgs: "Q d \<Longrightarrow> Q (d\<lparr>orgs := os\<rparr>)"
    and customers: "Q d \<Longrightarrow> Q (d\<lparr>customers := cs\<rparr>)"
    and event_added: "Q d \<Longrightarrow> Q (d\<lparr>stripe_events := stripe_events d @ [e]\<rparr>)"
    and event_marked: "Q d \<Longrightarrow> (\<And>e. e_id (f e) = e_id e \<and> e_stripe_id (f e) = e_stripe_id e \<and> e_payload (f e) = e_payload e)
      \<Longrightarrow> Q (d\<lparr>stripe_events := update_where Pe f (stripe_events d)\<rparr>)"
    and drop_users: "Q d \<Longrightarrow> Q (cascade_users Pu d)"
    and drop_orgs: "Q d \<Longrightarrow> Q (cascade_orgs Po d)"
    and drop_customers: "Q d \<Longrightarrow> Q (cascade_customers Pc d)"
    and drop_members: "Q d \<Longrightarrow> Q (d\<lparr>members := keep Pm (members d)\<rparr>)"
    and close_invitations: "Q d \<Longrightarrow>
      Q (d\<lparr>invitations := update_where Pi (\<lambda>i. i\<lparr>i_status := st\<rparr>) (invitations d)\<rparr>)"
begin

lemmas frame = users refresh verification reset links social orgs customers

lemma tokens [keeps_intros]:
  "keeps (on_db Q) (create_refresh_token E u)" "keeps (on_db Q) (revoke_where P)"
  "keeps (on_db Q) (owner_or k e)" "keeps (on_db Q) (rotate_refresh_token E raw)"
  "keeps (on_db Q) (create_email_verification_token E u)"
  "keeps (on_db Q) (create_password_reset_token E u)"
  "keeps (on_db Q) (create_social_link_token E u p pid name avatar)"
  "keeps (on_db Q) (verify_email_token E raw)" "keeps (on_db Q) (verify_password_reset_token E raw)"
  "keeps (on_db Q) (verify_social_link_token E raw)"
  unfolding create_refresh_token_def revoke_where_def owner_or_def rotate_refresh_token_def
    create_email_verification_token_def create_password_reset_token_def create_social_link_token_def
    create_one_time_token_def verify_email_token_def verify_password_reset_token_def
    verify_social_link_token_def verify_one_time_token_def consume_one_time_token_def Let_def
  by (intro keeps_intros on_db_writes; simp add: frame)+

lemma user_writes [keeps_intros]:
  "keeps (on_db Q) (insert_user u)" "keeps (on_db Q) (save_user k f)" "keeps (on_db Q) (save_fields v g)"
  "keeps (on_db Q) (create_user E email password extra)" "keeps (on_db Q) (email_is_registered email)"
  "keeps (on_db Q) (get_or_create_social provider pid k)"
  "keeps (on_db Q) (expire_unused verification_tokens_T k)" "keeps (on_db Q) (expire_unused link_requests_T k)"
  unfolding insert_user_def save_user_def save_fields_def invalidate_auth_user_cache_def create_user_def
    email_is_registered_def get_or_create_social_def expire_unused_def Let_def
  by (intro keeps_intros on_db_writes; simp add: frame)+

lemma sign_in [keeps_intros]:
  "keeps (on_db Q) (create_access_token J u)" "keeps (on_db Q) (token_response J u r n)"
  "keeps (on_db Q) (link_or_request provider info u)" "keeps (on_db Q) (resolve_oauth_user E provider info)"
  "keeps (on_db Q) (activate_user E J pw0 u)" "keeps (on_db Q) (replace_password E J u pw b)"
  "keeps (on_db Q) (link_and_sign_in E J req u existing)" "keeps (on_db Q) (request_link E provider info v)"
  unfolding create_access_token_def token_response_def link_or_request_def resolve_oauth_user_def
    activate_user_def replace_password_def link_and_sign_in_def request_link_def
    revoke_all_refresh_tokens_def Let_def
  by (intro keeps_intros on_db_writes; simp add: frame)+

lemma auth_views [keeps_intros]:
  "keeps (on_db Q) (register_user E J email pw name)"
  "keeps (on_db Q) (verify_email_view E J token pw0)"
  "keeps (on_db Q) (resend_verification_view E email)"
  "keeps (on_db Q) (login_view E J B email pw)"
  "keeps (on_db Q) (refresh_view E J raw)" "keeps (on_db Q) (logout_view E raw)"
  "keeps (on_db Q) (forgot_password_view E email)"
  "keeps (on_db Q) (reset_password_view E J token pw)"
  "keeps (on_db Q) (change_password_view E J user current pw)"
  "keeps (on_db Q) (oauth_authorize provider session)"
  "keeps (on_db Q) (oauth_exchange_view code)"
  "keeps (on_db Q) (confirm_link_view E J token)"
  unfolding register_user_def verify_email_view_def resend_verification_view_def login_view_def
    refresh_view_def logout_view_def revoke_refresh_token_def forgot_password_view_def reset_password_view_def
    change_password_view_def oauth_authorize_def oauth_exchange_view_def
    consume_oauth_exchange_def confirm_link_view_def Let_def
  by (intro keeps_intros on_db_writes)+

lemma oauth_views [keeps_intros]:
  "keeps (on_db Q) (oauth_callback E J A uri provider code state error session)"
  unfolding oauth_callback_def finish_oauth_def store_oauth_exchange_def by (intro keeps_intros)

lemma account_patch [keeps_intros]: "keeps (on_db Q) (account_patch_view u a)"
  unfolding account_patch_view_def by (intro keeps_intros)

lemma authentication [keeps_intros]: "keeps (on_db Q) (authenticate J header)"
  unfolding authenticate_def load_auth_user_def Let_def
  by (intro keeps_intros | split jwt_error.split cache_value.split option.split, intro conjI impI allI)+

lemma cleanups:
  "keeps (on_db Q) cleanup_expired_refresh_tokens" "keeps (on_db Q) cleanup_expired_social_link_requests"
  "keeps (on_db Q) cleanup_expired_email_verification_tokens"
  "keeps (on_db Q) cleanup_expired_password_reset_tokens"
  unfolding cleanup_expired_refresh_tokens_def cleanup_expired_social_link_requests_def
    cleanup_expired_email_verification_tokens_def cleanup_expired_password_reset_tokens_def delete_expired_rows_def
  by (rule keeps_mmodify; simp add: on_db_def frame)+

section \<open>Deletions\<close>

lemma deletions [keeps_intros]:
  "keeps (on_db Q) (delete_users Pu)" "keeps (on_db Q) (delete_orgs Po)" "keeps (on_db Q) (customer_delete k)"
  "keeps (on_db Q) (delete_rows members_T Pm)" "keeps (on_db Q) (cancel_pending_invitations gs)"
  unfolding delete_users_def delete_orgs_def customer_delete_def cancel_pending_invitations_def
  by (auto simp: keeps_def on_db_def Let_def update_rows_def drop_users drop_orgs drop_customers drop_members
      close_invitations)

lemma org_deletions [keeps_intros]:
  "keeps (on_db Q) (delete_orgs_db gs)" "keeps (on_db Q) (delete_org_db_only g)"
  "keeps (on_db Q) (delete_org g)" "keeps (on_db Q) (delete_orgs_created_by_user u)"
  "keeps (on_db Q) (delete_org_on_subscription_cancel g)"
  "keeps (on_db Q) (delete_org_on_subscription_cancel_task g)"
  unfolding delete_org_def delete_orgs_created_by_user_def delete_org_on_subscription_cancel_def
    delete_org_on_subscription_cancel_task_def get_active_stripe_sub_def delete_org_db_only_def
    delete_orgs_db_def Let_def
  by (intro keeps_intros keeps_atomic_on_db)+

lemma erasure [keeps_intros]:
  "keeps (on_db Q) (account_delete_view E N u)" "keeps (on_db Q) (account_export_view N u)"
  unfolding account_delete_view_def account_export_view_def export_user_data_def delete_account_def load_user_and_customer_def user_get_by_id_def
    user_hard_delete_def pre_delete_def stripe_request_def django_sel django_users_sel option.case
    customer_get_def get_active_for_user_def get_active_for_customer_def get_latest_active_def
  by (intro keeps_intros)+

section \<open>Customers, events and organisations\<close>

lemma customer_writes [keeps_intros]:
  "keeps (on_db Q) (get_or_create_customer E u g email name locale django_customers)"
  unfolding get_or_create_customer_def customer_save_def django_sel customer_get_def Let_def
  by (intro keeps_intros on_db_writes; simp add: frame)+

text \<open>An event is stored once and then only marked: its row keeps its keys and its payload.\<close>

lemma event_marks [keeps_intros]:
  "keeps (on_db Q) (mark_processed sid)" "keeps (on_db Q) (mark_failed sid x)"
  unfolding mark_processed_def mark_failed_def
  by (auto simp: keeps_def on_db_def mbind_run update_rows_def Let_def event_marked split: sum.splits prod.splits)

lemma event_create: "keeps (on_db Q) (create_row stripe_events_T e)"
  by (auto simp: keeps_def on_db_def create_row_def event_added)

lemma event_endpoint [keeps_intros]: "keeps (on_db Q) (stripe_webhook E G q)"
  unfolding stripe_webhook_def store_and_dispatch_def get_or_create_event_def Let_def
  by (intro keeps_intros event_create keeps_atomic_on_db; simp)

lemma status_writes [keeps_intros]: "keeps (on_db Q) (set_status i st)"
  unfolding set_status_def by (auto simp: keeps_def on_db_def save_row_def update_rows_def Let_def close_invitations)

lemma org_guards [keeps_intros]:
  "keeps (on_db Q) (get_org_and_member u g rs)" "keeps (on_db Q) (valid_role r)"
  "keeps (on_db Q) (member_of g u)" "keeps (on_db Q) (pending_invitation tok)"
  "keeps (on_db Q) (validate_seat_limit g)" "keeps (on_db Q) (lock_active_team_sub g)"
  "keeps (on_db Q) (check_seat_cap g)"
  unfolding get_org_and_member_def valid_role_def member_of_def pending_invitation_def
    validate_seat_limit_def check_seat_cap_def lock_active_team_sub_def
  by (intro keeps_intros)+

lemma org_views [keeps_intros]:
  "keeps (on_db Q) (org_patch_view u g name logo)" "keeps (on_db Q) (org_delete_view u g)"
  "keeps (on_db Q) (member_delete_view u g k)" "keeps (on_db Q) (invitation_cancel_view u g k)"
  "keeps (on_db Q) (invitation_decline_view u tok)"
  unfolding org_patch_view_def org_delete_view_def member_delete_view_def invitation_cancel_view_def
    invitation_decline_view_def
  by (intro keeps_intros on_db_writes; simp add: frame)+

section \<open>Sessions with Stripe\<close>

lemma price_reads [keeps_intros]:
  "keeps (on_db Q) (get_active_plan_price k)" "keeps (on_db Q) (get_active_product_price k)"
  "keeps (on_db Q) (resolve_checkout_price E price q v)" "keeps (on_db Q) (resolve_plan_change_price pp cur)"
  "keeps (on_db Q) (first_membership user)" "keeps (on_db Q) (effective_context user c)"
  unfolding get_active_plan_price_def get_active_product_price_def resolve_checkout_price_def
    get_country_stripe_price_def resolve_stripe_price_id_def localized_for_currency_def
    resolve_plan_change_price_def first_membership_def effective_context_def default_subscription_context_def
  by (intro keeps_intros)+

lemma authority_reads [keeps_intros]:
  "keeps (on_db Q) (require_billing_authority user c)" "keeps (on_db Q) (resolve_mutation_context param user)"
  "keeps (on_db Q) (resolve_billing_customer user ctx g)"
  "keeps (on_db Q) (resolve_product_purchase_context user ctx)" "keeps (on_db Q) (validate_team_checkout user name)"
  unfolding require_billing_authority_def resolve_mutation_context_def resolve_billing_customer_def
    resolve_product_purchase_context_def validate_team_checkout_def django_sel customer_get_def
  by (intro keeps_intros)+

lemma checkout_views [keeps_intros]:
  "keeps (on_db Q) (checkout_session_view E user body q)"
  "keeps (on_db Q) (product_checkout_session_view E user price success cancel q)"
  "keeps (on_db Q) (portal_session_view E user param return_url)"
  unfolding checkout_session_view_def open_checkout_def checkout_customer_def user_customer_def
    create_team_stripe_customer_def create_checkout_session_def product_checkout_session_view_def
    buyer_customer_def create_product_checkout_session_def portal_session_view_def
    create_billing_portal_session_def
  by (intro keeps_intros)+

end

section \<open>Subscriptions\<close>

locale billing_frame = account_frame +
  assumes subscriptions: "Q d \<Longrightarrow> Q (d\<lparr>subscriptions := xs\<rparr>)"
begin

lemma subscription_writes [keeps_intros]:
  "keeps (on_db Q) (subscription_save s)" "keeps (on_db Q) (sync_django sub)"
  "keeps (on_db Q) (cancel_subscription E k b django_subscriptions)"
  by (rule keeps_sub_save_frame keeps_sync_frame keeps_cancel_frame, erule subscriptions)+

lemma team_subscription [keeps_intros]:
  "keeps (on_db Q) (persist_team_subscription E j)" "keeps (on_db Q) (schedule_personal_cancel E u)"
  unfolding persist_team_subscription_def schedule_personal_cancel_def django_sel customer_get_def
  by (intro keeps_intros)+

lemma billing_services [keeps_intros]:
  "keeps (on_db Q) (resume_subscription E k django_subscriptions)"
  "keeps (on_db Q) (release_pending_schedule_for_customer E k django_subscriptions)"
  "keeps (on_db Q) (change_plan E sid price amount prorate n)"
  "keeps (on_db Q) (update_seat_count E s m django_subscriptions)"
  unfolding resume_subscription_def release_pending_schedule_for_customer_def release_pending_schedule_def
    change_plan_def apply_immediate_plan_change_def schedule_downgrade_at_period_end_def update_seat_count_def
    require_active_def mirror_cancel_state_def django_sel get_active_for_customer_def get_latest_active_def Let_def
  by (intro keeps_intros)+

lemma subscription_views [keeps_intros]: "keeps (on_db Q) (run_billing E user q r)"
  by (cases r;
      simp only: run_billing.simps subscription_patch_view_def change_subscription_def apply_cancel_toggle_def
        apply_plan_change_def apply_seat_only_def answer_update_def announce_cancel_def notify_cancel_def
        refetch_subscription_after_mutation_def get_active_subscriptions_for_user_def
        billing_notice_recipients_def requested_price_def check_requested_seats_def
        reject_seat_limit_below_member_count_def get_customer_and_paid_subscription_def
        subscription_delete_view_def scheduled_change_delete_view_def django_sel get_active_for_customer_def
        get_latest_active_def Let_def;
      intro keeps_intros)

end

section \<open>Members and invitations\<close>

locale org_frame = account_frame +
  assumes members: "Q d \<Longrightarrow> Q (d\<lparr>members := ms\<rparr>)"
    and invitations: "Q d \<Longrightarrow> Q (d\<lparr>invitations := is\<rparr>)"
begin

lemma membership_writes [keeps_intros]:
  "keeps (on_db Q) (create_org_with_owner E u name sid live)"
  "keeps (on_db Q) (accept_invitation E invite full)" "keeps (on_db Q) (patch_member caller target role billing)"
  "keeps (on_db Q) (swap_owner target caller)" "keeps (on_db Q) (create_invitation user g email r tok)"
  unfolding create_org_with_owner_def new_org_def new_member_def new_org_customer_def generate_unique_slug_def
    accept_invitation_def join_org_def patch_member_def swap_owner_def create_invitation_def Let_def
  by (intro keeps_intros on_db_writes; simp add: frame members invitations)+

lemma membership_views [keeps_intros]:
  "keeps (on_db Q) (run_org_request u g r)" "keeps (on_db Q) (invitation_accept_view E tok full)"
proof -
  show "keeps (on_db Q) (run_org_request u g r)"
    by (cases r; simp only: run_org_request.simps member_patch_view_def owner_transfer_view_def
        invitation_create_view_def; intro keeps_intros)
  show "keeps (on_db Q) (invitation_accept_view E tok full)"
    unfolding invitation_accept_view_def by (intro keeps_intros)
qed

end

section \<open>The parts of the invariant\<close>

text \<open>No organisation has two owners.\<close>

definition sole_owner :: "db \<Rightarrow> bool" where
  "sole_owner d \<longleftrightarrow> list_all (\<lambda>m. list_all (\<lambda>n. m_role m = OWNER \<and> m_role n = OWNER \<and> m_org m = m_org n
     \<longrightarrow> m = n) (members d)) (members d)"

definition owner_not_invited :: "db \<Rightarrow> bool" where
  "owner_not_invited d \<longleftrightarrow> list_all (\<lambda>i. i_role i \<noteq> OWNER) (invitations d)"

definition team_ok :: "db \<Rightarrow> bool" where
  "team_ok d \<longleftrightarrow> sole_owner d \<and> owner_not_invited d"

lemma team_ok_iff:
  "team_ok d \<longleftrightarrow> (\<forall>m\<in>set (members d). \<forall>n\<in>set (members d). m_role m = OWNER \<longrightarrow> m_role n = OWNER \<longrightarrow>
     m_org m = m_org n \<longrightarrow> m = n) \<and> (\<forall>i\<in>set (invitations d). i_role i \<noteq> OWNER)"
  by (auto simp: team_ok_def sole_owner_def owner_not_invited_def list_all_iff)

lemma cascade_teams:
  "set (members (cascade_users Pu d)) \<subseteq> set (members d)" "set (members (cascade_orgs Po d)) \<subseteq> set (members d)"
  "members (cascade_customers Pc d) = members d" "invitations (cascade_customers Pc d) = invitations d"
  "set (invitations (cascade_orgs Po d)) \<subseteq> set (invitations d)"
  "i_role ` set (invitations (cascade_users Pu d)) \<subseteq> i_role ` set (invitations d)"
  by (auto simp: cascade_users_def cascade_orgs_def cascade_customers_def Let_def set_update_where)

lemma team_ok_sub:
  "team_ok d \<Longrightarrow> set (members d') \<subseteq> set (members d) \<Longrightarrow> i_role ` set (invitations d') \<subseteq> i_role ` set (invitations d)
   \<Longrightarrow> team_ok d'"
  unfolding team_ok_iff by (metis image_iff subset_iff)

interpretation team: billing_frame team_ok
proof (unfold_locales, goal_cases)
  case (15 d Pi st)
  then show ?case by (rule team_ok_sub) (auto simp: set_update_where)
qed (erule team_ok_sub; auto simp: cascade_teams image_mono)+

interpretation ledger_team: org_frame ledger_ok
  by unfold_locales (simp_all add: cascade_users_ledger cascade_orgs_ledger,
      simp_all add: cascade_customers_def Let_def ledger_ok_def balance_of_def granted_to_def)

interpretation ledger: billing_frame ledger_ok
  by unfold_locales (auto simp: ledger_ok_def balance_of_def granted_to_def)

lemma cascade_pending:
  "all_pending_ok d \<Longrightarrow> all_pending_ok (cascade_users Pu d)" "all_pending_ok d \<Longrightarrow> all_pending_ok (cascade_orgs Po d)"
  "all_pending_ok d \<Longrightarrow> all_pending_ok (cascade_customers Pc d)"
  by (auto simp: all_pending_ok_def list_all_iff cascade_users_def cascade_orgs_def cascade_customers_def Let_def)

interpretation pending: org_frame all_pending_ok
  by unfold_locales (simp_all add: cascade_pending, simp_all add: all_pending_ok_def)

end
