(* ===== verification/Admin.thy ===== *)
theory Admin
  imports Frames Seed
begin

text \<open>
  What the administration site does beyond the framework's forms: editing a country price
  (\<open>CountryPriceAdmin.save_model\<close>, \<open>apps/billing/admin.py\<close>), deleting organisations
  (\<open>apps/orgs/admin.py\<close>) and the column that shows a user's subscription (\<open>apps/admin_panel/admin.py\<close>);
  and what the dashboard behind an impersonation shows (\<open>apps/dashboard/views.py\<close>).
\<close>

section \<open>Country prices\<close>

text \<open>
  The form writes the sticker and the flag it shows, every other field being read-only; \<open>save_model\<close> sets
  the flag whatever the form says.  The change form runs in a transaction.
\<close>

definition save_model :: "country_price \<Rightarrow> unit io" where
  "save_model obj =
     mbind (mlift (recompute_base (obj\<lparr>cp_is_curated := True\<rparr>))) (\<lambda>new.
     mbind now (\<lambda>t. save_row country_prices_T (cp_id new) (\<lambda>r. new\<lparr>cp_id := cp_id r, cp_updated_at := t\<rparr>)))"

definition change_country_price :: "uuid \<Rightarrow> int \<Rightarrow> bool \<Rightarrow> unit io" where
  "change_country_price k sticker curated = atomic (
     mbind (get_row country_prices_T (\<lambda>cp. cp_id cp = k) Http404) (\<lambda>cp.
     save_model (cp\<lparr>cp_sticker_minor := sticker, cp_is_curated := curated\<rparr>)))"

section \<open>Organisations\<close>

definition delete_org_view :: "uuid \<Rightarrow> bool \<Rightarrow> nat io" where
  "delete_org_view k confirmed =
     mbind (first_row orgs_T (\<lambda>g. o_id g = k)) (\<lambda>found.
     case found of
       None \<Rightarrow> mraise Http404
     | Some g \<Rightarrow> if confirmed then mseq (delete_org (o_id g)) (mret 302) else mret 200)"

definition delete_org_action :: "uuid list \<Rightarrow> bool \<Rightarrow> nat io" where
  "delete_org_action ks confirmed =
     mbind (rows orgs_T (\<lambda>g. o_id g \<in> set ks)) (\<lambda>gs.
     if \<not> confirmed then mret 0
     else mseq (each (\<lambda>g. delete_org (o_id g)) gs) (mret (length gs)))"

text \<open>Adding, changing and deleting: what the site offers of each model besides the framework's default.\<close>

datatype admin_action = AddRow | ChangeRow | DeleteRow

definition admin_refuses :: "string \<Rightarrow> admin_action \<Rightarrow> bool" where
  "admin_refuses model a \<longleftrightarrow>
     model \<in> {''LocalizedPrice'', ''StripeEvent'', ''CreditTransaction''}
     \<or> model = ''CountryPrice'' \<and> a = AddRow
     \<or> model = ''Org'' \<and> a = DeleteRow"

section \<open>The subscription column\<close>

definition subscription_status :: "uuid \<Rightarrow> sub_status option io" where
  "subscription_status u =
     mbind (get_latest_active (\<lambda>s. s_user s = Some u)) (\<lambda>by_user.
     mbind (mgets (\<lambda>w. w)) (\<lambda>w.
     mbind (get_latest_active (customer_owned_by w u)) (\<lambda>by_customer.
     mret (case by_user of Some s \<Rightarrow> Some (s_status s) | None \<Rightarrow> map_option s_status by_customer))))"

text \<open>The column is empty exactly for the users for whom the program finds no active subscription.\<close>

lemma status_column_matches:
  "\<exists>s r. subscription_status u w = (Inr s, w) \<and> get_active_for_user u w = (Inr r, w) \<and> (s = None \<longleftrightarrow> r = None)"
  by (auto simp: subscription_status_def get_active_for_user_def get_latest_active_def run_simps somes_def
      split: option.splits)

section \<open>Properties of the operations\<close>

lemma save_model_run:
  assumes "save_model obj w = (Inr (), w')"
  obtains b where "derive_base (cp_sticker_minor obj) (standard_vat_rate (cp_country obj)) = Inr b"
    and "db w' = (db w)\<lparr>country_prices := update_where (\<lambda>r. cp_id r = cp_id obj)
           (\<lambda>r. obj\<lparr>cp_is_curated := True, cp_base_minor := b, cp_id := cp_id r, cp_updated_at := clock w\<rparr>) (country_prices (db w))\<rparr>"
  using assms
  by (auto simp: save_model_def recompute_base_def rbind_def mlift_def mbind_run save_row_def update_rows_def
      country_prices_T_def Let_def split: sum.splits if_splits)

text \<open>An edited price is curated, has the sticker of the form and the base that belongs to it.\<close>

lemma change_country_price_run:
  assumes run: "change_country_price k sticker curated w = (Inr (), w')"
  obtains r b where "r \<in> set (country_prices (db w))" and "cp_id r = k"
    and "derive_base sticker (standard_vat_rate (cp_country r)) = Inr b"
    and "r\<lparr>cp_sticker_minor := sticker, cp_is_curated := True, cp_base_minor := b, cp_updated_at := clock w\<rparr>
          \<in> set (country_prices (db w'))"
proof -
  from run [unfolded change_country_price_def] obtain w0 w1
    where same: "db w0 = db w" "clock w0 = clock w"
      and body: "mbind (get_row country_prices_T (\<lambda>cp. cp_id cp = k) Http404) (\<lambda>cp.
        save_model (cp\<lparr>cp_sticker_minor := sticker, cp_is_curated := curated\<rparr>)) w0 = (Inr (), w1)"
      and w1: "db w' = db w1" by (rule atomic_InrE)
  from body obtain r where r: "r \<in> set (country_prices (db w0))" "cp_id r = k"
    and saved: "save_model (r\<lparr>cp_sticker_minor := sticker, cp_is_curated := curated\<rparr>) w0 = (Inr (), w1)"
    by (auto elim!: mbind_InrE simp: get_row_def country_prices_T_def split: option.splits dest!: first_by_filter_Some)
  from save_model_run [OF saved] obtain b
    where b: "derive_base sticker (standard_vat_rate (cp_country r)) = Inr b"
      and d: "db w1 = (db w0)\<lparr>country_prices := update_where (\<lambda>x. cp_id x = k)
        (\<lambda>x. r\<lparr>cp_sticker_minor := sticker, cp_is_curated := True, cp_base_minor := b, cp_id := cp_id x,
           cp_updated_at := clock w0\<rparr>) (country_prices (db w0))\<rparr>"
    using r(2) by auto
  show ?thesis
  proof (rule that [OF _ r(2) b])
    show "r \<in> set (country_prices (db w))" using r(1) same by simp
    show "r\<lparr>cp_sticker_minor := sticker, cp_is_curated := True, cp_base_minor := b, cp_updated_at := clock w\<rparr>
        \<in> set (country_prices (db w'))"
      unfolding w1 d using r same by (auto simp: update_where_def image_iff intro!: bexI [of _ r])
  qed
qed

lemma change_country_price_consistent: "keeps consistent (change_country_price k sticker curated)"
  unfolding change_country_price_def save_model_def
  by (intro keeps_atomic keeps_intros) (simp add: country_prices_T_def)

lemma admin_orgs_consistent:
  "keeps consistent (delete_org_view k confirmed)" "keeps consistent (delete_org_action ks confirmed)"
  unfolding delete_org_view_def delete_org_action_def by (intro keeps_intros each_keeps)+

section \<open>The dashboard\<close>

record dashboard =
  dash_subscription :: "subscription option"
  dash_plan :: "plan option"
  dash_plans :: "plan list"
  dash_products :: "product list"
  dash_memberships :: "org_member list"

definition dashboard_view :: "user \<Rightarrow> dashboard io" where
  "dashboard_view u =
     mbind (get_active_for_user (u_id u)) (\<lambda>sub.
     mbind (rows plans_T p_is_active) (\<lambda>all_plans.
     mbind (rows products_T pr_is_active) (\<lambda>products.
     mbind (rows members_T (\<lambda>m. m_user m = u_id u)) (\<lambda>memberships.
     let context = (if memberships \<noteq> [] then TEAM else PERSONAL);
         plans = filter (\<lambda>p. p_context p = context) all_plans;
         plan = (case sub of None \<Rightarrow> None | Some s \<Rightarrow> List.find (\<lambda>p. p_id p = s_plan s) plans)
     in mret \<lparr>dash_subscription = sub, dash_plan = plan, dash_plans = plans, dash_products = products,
          dash_memberships = memberships\<rparr>))))"

lemma find_mem: "List.find P xs = Some x \<Longrightarrow> x \<in> set xs \<and> P x"
  by (auto simp: find_Some_iff)

lemma dashboard_reads:
  "\<exists>x. dashboard_view u w = (Inr x, w)
     \<and> (\<forall>p\<in>set (dash_plans x). p \<in> set (plans (db w)) \<and> p_is_active p
           \<and> p_context p = (if dash_memberships x = [] then PERSONAL else TEAM))
     \<and> (\<forall>p. dash_plan x = Some p \<longrightarrow> p \<in> set (dash_plans x) \<and> (\<exists>s. dash_subscription x = Some s \<and> p_id p = s_plan s))"
  by (auto simp: dashboard_view_def get_active_for_user_def get_latest_active_def run_simps Let_def plans_T_def
      split: option.splits dest!: find_mem)

text \<open>
  The plan of a personal subscription is looked up among the plans of teams when its user belongs to an
  organisation, and not found.
\<close>

lemma dashboard_misses_personal_plan:
  "\<exists>x. dashboard_view sample_user (start_world sample_db) = (Inr x, start_world sample_db)
     \<and> map_option s_id (dash_subscription x) = Some 40 \<and> dash_plan x = None"
proof -
  have f: "map_sum (\<lambda>_. ()) (\<lambda>x. (map_option s_id (dash_subscription x), dash_plan x)) (fst (dashboard_view sample_user (start_world sample_db)))
      = Inr (Some 40, None)" by code_simp
  obtain x where "dashboard_view sample_user (start_world sample_db) = (Inr x, start_world sample_db)"
    using dashboard_reads by blast
  with f show ?thesis by simp
qed

end
