(* ===== verification/Maintenance.thy ===== *)
theory Maintenance
  imports StripeCatalog Admin
begin

text \<open>
  The commands and the daily task that maintain the catalogue, as steps of the system: a property of
  the database that does not look at the catalogue survives each of them, whatever Stripe and the
  exchange-rate feed answer and wherever a command breaks off.  A price that somebody curated survives them.
\<close>

datatype maintenance = SeedCatalog | SyncPrices fx_answer | SyncStripe fx_answer | AuditStripe bool

fun run_maintenance :: "env \<Rightarrow> maintenance \<Rightarrow> unit io" where
  "run_maintenance E SeedCatalog = seed_catalog"
| "run_maintenance E (SyncPrices answer) = mseq (sync_localized_prices answer) (mret ())"
| "run_maintenance E (SyncStripe answer) = sync_stripe_catalog E answer"
| "run_maintenance E (AuditStripe archive) = audit_stripe_catalog E archive"

locale catalogue_frame =
  fixes Q :: "db \<Rightarrow> bool"
  assumes plans: "Q d \<Longrightarrow> Q (d\<lparr>plans := ps\<rparr>)"
    and plan_prices: "Q d \<Longrightarrow> Q (d\<lparr>plan_prices := pps\<rparr>)"
    and products: "Q d \<Longrightarrow> Q (d\<lparr>products := xs\<rparr>)"
    and product_prices: "Q d \<Longrightarrow> Q (d\<lparr>product_prices := xps\<rparr>)"
    and localized: "Q d \<Longrightarrow> Q (d\<lparr>localized_prices := lps\<rparr>)"
    and countries: "Q d \<Longrightarrow> Q (d\<lparr>country_prices := cps\<rparr>)"
begin

lemmas catalogue = plans plan_prices products product_prices localized countries

lemmas catalogue_tables = plans_T_def plan_prices_T_def products_T_def product_prices_T_def
  localized_prices_T_def country_prices_T_def

lemma keeps_collect: "keeps (on_db Q) (collect_rows cps ps)"
  by (induction ps) (simp_all only: collect_rows.simps collect_country_row_def prod.case_eq_if, (intro keeps_intros | assumption)+)

lemma keeps_seed: "keeps (on_db Q) seed_catalog"
  unfolding seed_catalog_def seed_plan_def seed_product_def seed_country_prices_def update_base_def get_or_create_def
    prod.case_eq_if
  by (intro keeps_atomic_on_db each_keeps keeps_intros keeps_collect on_db_writes; simp add: catalogue_tables catalogue)+

lemma keeps_upserts: "keeps (on_db Q) (upsert_all lps xs)"
  by (induction xs) (simp_all only: upsert_all.simps upsert_currency_def prod.case_eq_if, (intro keeps_intros | assumption)+)

lemma keeps_fx: "keeps (on_db Q) (sync_localized_prices answer)"
proof -
  have "keeps (on_db Q) (atomic (sync_body rates))" for rates
    unfolding sync_body_def refresh_localized_def refresh_stickers_def save_amount_def save_heartbeat_def save_sticker_def
      prod.case_eq_if
    by (intro keeps_atomic_on_db each_keeps keeps_intros keeps_upserts on_db_writes; simp add: catalogue_tables catalogue)+
  then show ?thesis unfolding sync_localized_prices_def sync_body_def [symmetric]
    by (cases answer) (simp_all only: fx_answer.case, (intro keeps_intros | assumption)+)
qed

lemma keeps_upsert_price: "keeps (on_db Q) (upsert_price E existing p)"
  unfolding upsert_price_def sync_stripe_product_def ensure_tax_behavior_def create_price_def Let_def prod.case_eq_if
  by (intro keeps_intros)

lemma keeps_bulk_fetch: "keeps (on_db Q) (bulk_fetch E tab keys)"
proof (induction E tab keys rule: bulk_fetch.induct)
  case (1 E tab keys)
  then show ?case by (subst bulk_fetch.simps) (intro keeps_intros; simp)
qed

lemma keeps_item: "keeps (on_db Q) (sync_item E answer existing currency key item price)"
  unfolding sync_item_def unit_amount_for_def write_price_id_def first_localized_def
  by (cases price; simp only: catalog_price.case;
      intro keeps_intros keeps_upsert_price keeps_fx on_db_writes; simp add: catalogue_tables catalogue)

lemma keeps_stripe: "keeps (on_db Q) (sync_stripe_catalog E answer)"
  unfolding sync_stripe_catalog_def sync_plans_def sync_products_def sync_country_prices_def sync_country_price_def
    prod.case_eq_if
  by (intro keeps_intros each_keeps keeps_item keeps_upsert_price keeps_bulk_fetch on_db_writes;
      simp add: catalogue_tables catalogue)

lemma keeps_search: "keeps (on_db Q) (has_active_sub E ps)"
  by (induction ps) (simp_all only: has_active_sub.simps, (intro keeps_intros | assumption)+)

lemma keeps_audit: "keeps (on_db Q) (audit_stripe_catalog E archive)"
  unfolding audit_stripe_catalog_def archive_stray_def stray_in_use_def by (intro keeps_intros each_keeps keeps_search)

lemma maintained: "keeps (on_db Q) (run_maintenance E m)"
  by (cases m; simp only: run_maintenance.simps; intro keeps_intros keeps_seed keeps_fx keeps_stripe keeps_audit)

lemma curated: "keeps (on_db Q) (change_country_price k sticker flag)"
  unfolding change_country_price_def save_model_def
  by (intro keeps_atomic_on_db keeps_intros on_db_writes) (simp add: catalogue_tables catalogue)

end

interpretation team_catalogue: catalogue_frame team_ok
  by unfold_locales (auto simp: team_ok_iff)

interpretation ledger_catalogue: catalogue_frame ledger_ok
  by unfold_locales (simp_all add: ledger_ok_def balance_of_def granted_to_def)

interpretation pending_catalogue: catalogue_frame all_pending_ok
  by unfold_locales (simp_all add: all_pending_ok_def)

text \<open>Each keeps the constraints of the database.\<close>

lemma maintenance_consistent: "keeps consistent (run_maintenance E m)"
proof (cases m)
  case SeedCatalog
  have "keeps consistent seed_body" unfolding seed_body_def
    by (intro keeps_mseq seeded_plans.each_safe seeded_products.each_safe seed_country_prices_safe)
  then show ?thesis unfolding SeedCatalog run_maintenance.simps seed_catalog_def seed_body_def [symmetric]
    by (rule keeps_atomic)
next
  case (SyncPrices answer)
  then show ?thesis by (simp only: run_maintenance.simps) (intro keeps_intros sync_prices_consistent)
next
  case (SyncStripe answer)
  show ?thesis unfolding SyncStripe run_maintenance.simps
  proof (rule keepsI)
    fix w assume "consistent w"
    then have "on_terms (commercial_terms (db w)) w" by (simp add: on_terms_def)
    from keepsD [OF catalog_sync_terms this] show "consistent (snd (sync_stripe_catalog E answer w))"
      by (simp add: on_terms_def)
  qed
next
  case (AuditStripe archive)
  have "keeps consistent (has_active_sub E ps)" for ps
    by (induction ps) (simp_all only: has_active_sub.simps, (intro keeps_intros | assumption)+)
  then show ?thesis unfolding AuditStripe run_maintenance.simps audit_stripe_catalog_def archive_stray_def stray_in_use_def
    by (intro keeps_intros each_keeps)
qed

section \<open>Curated prices\<close>

text \<open>What a country price offers: its owner, country, currency, sticker and whether somebody set it.\<close>

definition offer :: "country_price \<Rightarrow> country_price" where
  "offer r = r\<lparr>cp_base_minor := 0, cp_stripe_price_id := None, cp_updated_at := 0\<rparr>"

definition offered :: "country_price \<Rightarrow> db \<Rightarrow> bool" where
  "offered r d \<longleftrightarrow> (\<exists>r'\<in>set (country_prices d). offer r' = offer r)"

lemma offeredE:
  assumes "offered r d"
  obtains r' where "r' \<in> set (country_prices d)" and "offer r' = offer r" and "cp_is_curated r' = cp_is_curated r"
proof -
  from assms obtain r' where r': "r' \<in> set (country_prices d)" "offer r' = offer r" by (auto simp: offered_def)
  from r'(2) have "cp_is_curated (offer r') = cp_is_curated (offer r)" by simp
  then have "cp_is_curated r' = cp_is_curated r" by (simp add: offer_def)
  with r' show ?thesis by (rule that)
qed

lemma offer_unminted: "cp_is_curated r \<Longrightarrow> unminted r' = unminted r \<Longrightarrow> offer r' = offer r"
  by (cases r; cases r') (auto simp: offer_def unminted_def split: if_splits)

lemma seeding_offers:
  assumes w: "consistent w" and run: "seed_catalog w = (x, w')" and r: "offered r (db w)"
  shows "offered r (db w')"
proof (cases x)
  case (Inl e)
  with run r show ?thesis unfolding seed_catalog_def by (auto dest: atomic_raise_db)
next
  case (Inr u)
  with run [unfolded seed_catalog_def, folded seed_body_def] obtain w0 w1
    where w0: "db w0 = db w" "seed_body w0 = (Inr u, w1)" and w1: "db w' = db w1" by (auto elim: atomic_InrE)
  from w w0(1) have c: "consistent w0" by (simp add: consistent_def)
  from r obtain r' where r': "r' \<in> set (country_prices (db w0))" "offer r' = offer r"
    by (auto simp: offered_def w0(1))
  from seed_body_settles(2) [OF c] w0(2) r'(1) obtain b where "r'\<lparr>cp_base_minor := b\<rparr> \<in> set (country_prices (db w1))"
    by auto
  moreover have "offer (r'\<lparr>cp_base_minor := b\<rparr>) = offer r" using r'(2) by (simp add: offer_def)
  ultimately show ?thesis unfolding offered_def w1 by blast
qed

lemma price_sync_offers:
  assumes w: "consistent w" and run: "sync_localized_prices answer w = (x, w')"
    and r: "cp_is_curated r" "offered r (db w)"
  shows "offered r (db w')"
proof -
  from price_sync_touched [OF w run] consider "db w' = db w" | "sync_touched (db w) (db w')" by blast
  then show ?thesis
  proof cases
    case 1
    with r show ?thesis by simp
  next
    case 2
    from r(2) obtain r' where r': "r' \<in> set (country_prices (db w))" "offer r' = offer r" "cp_is_curated r'"
      using r(1) by (auto elim: offeredE)
    with 2 show ?thesis by (auto simp: sync_touched_def offered_def intro!: bexI [of _ r'] image_eqI [of _ _ r'])
  qed
qed

lemma stripe_sync_offers:
  assumes w: "consistent w" and run: "sync_stripe_catalog E answer w = (x, w')"
    and r: "cp_is_curated r" "offered r (db w)"
  shows "offered r (db w')"
proof -
  from r(2) obtain r' where r': "r' \<in> set (country_prices (db w))" "offer r' = offer r" and c: "cp_is_curated r'"
    using r(1) by (auto elim: offeredE)
  have "on_terms (commercial_terms (db w)) w" using w by (simp add: on_terms_def)
  from keepsD_run [OF catalog_sync_terms this run]
  have "commercial_terms (db w') = commercial_terms (db w)" by (simp add: on_terms_def)
  then have "map unminted (country_prices (db w')) = map unminted (country_prices (db w))"
    by (auto simp: commercial_terms_def dest: arg_cong [where f = country_prices])
  from arg_cong [OF this, of set] r'(1) obtain r'' where "r'' \<in> set (country_prices (db w'))" "unminted r'' = unminted r'"
    by (metis (mono_tags, opaque_lifting) image_iff image_set)
  with offer_unminted [OF c] r'(2) show ?thesis by (auto simp: offered_def)
qed

lemma maintenance_offers:
  assumes w: "consistent w" and r: "cp_is_curated r" "offered r (db w)"
  shows "offered r (db (snd (run_maintenance E m w)))"
proof (cases m)
  case SeedCatalog
  obtain x w' where run: "seed_catalog w = (x, w')" by force
  from seeding_offers [OF w run r(2)] show ?thesis by (simp add: SeedCatalog run)
next
  case (SyncPrices answer)
  obtain x w' where run: "sync_localized_prices answer w = (x, w')" by force
  from price_sync_offers [OF w run r] show ?thesis by (cases x) (simp_all add: SyncPrices run)
next
  case (SyncStripe answer)
  obtain x w' where run: "sync_stripe_catalog E answer w = (x, w')" by force
  from stripe_sync_offers [OF w run r] show ?thesis by (simp add: SyncStripe run)
next
  case (AuditStripe archive)
  have "keeps (on_db (offered r)) (audit_stripe_catalog E archive)"
  proof -
    have "keeps (on_db (offered r)) (has_active_sub E ps)" for ps
      by (induction ps) (simp_all only: has_active_sub.simps, (intro keeps_intros | assumption)+)
    then show ?thesis unfolding audit_stripe_catalog_def archive_stray_def stray_in_use_def
      by (intro keeps_intros each_keeps)
  qed
  from keepsD [OF this, of w] r(2) show ?thesis by (simp add: AuditStripe on_db_def)
qed

end
