(* ===== verification/System.thy ===== *)
theory System
  imports Maintenance
begin

text \<open>
  The system as a whole: the invariant that every request, task and clean-up keeps, the requests as
  one datatype, and the states reachable from a fresh installation by any sequence of them.
\<close>

section \<open>The invariant\<close>

definition team_inv :: "db \<Rightarrow> bool" where
  "team_inv d \<longleftrightarrow> db_ok d \<and> team_ok d"

definition sound :: "db \<Rightarrow> bool" where
  "sound d \<longleftrightarrow> db_ok d \<and> ledger_ok d \<and> all_pending_ok d \<and> team_ok d"

lemma keeps_team_inv: "keeps consistent m \<Longrightarrow> keeps (on_db team_ok) m \<Longrightarrow> keeps (on_db team_inv) m"
  by (simp add: keeps_def on_db_def consistent_def team_inv_def)

lemma keeps_ledger_inv: "keeps consistent m \<Longrightarrow> keeps (on_db ledger_ok) m \<Longrightarrow> keeps (on_db ledger_inv) m"
  by (simp add: keeps_def on_db_def consistent_def ledger_inv_def)

lemma keeps_sound_parts:
  "keeps (on_db ledger_inv) m \<Longrightarrow> keeps (on_db all_pending_ok) m \<Longrightarrow> keeps (on_db team_inv) m \<Longrightarrow>
   keeps (on_db sound) m"
  by (simp add: keeps_def on_db_def ledger_inv_def team_inv_def sound_def)

lemma keeps_sound:
  "keeps consistent m \<Longrightarrow> keeps (on_db ledger_ok) m \<Longrightarrow> keeps (on_db all_pending_ok) m \<Longrightarrow>
   keeps (on_db team_ok) m \<Longrightarrow> keeps (on_db sound) m"
  by (simp add: keeps_def on_db_def consistent_def sound_def)

section \<open>Teams\<close>

lemma keeps_mseq_guard: "(b \<Longrightarrow> keeps P k) \<Longrightarrow> keeps P (mseq (mguard b e) k)"
  by (cases b) (simp_all add: keeps_def mseq_run)

lemma add_member_team:
  "team_ok d \<Longrightarrow> m_role m \<noteq> OWNER \<or> (\<forall>n\<in>set (members d). m_org n \<noteq> m_org m) \<Longrightarrow>
   team_ok (d\<lparr>members := members d @ [m]\<rparr>)"
  by (auto simp: team_ok_iff)

lemma new_member_team: "role \<noteq> OWNER \<Longrightarrow> keeps (on_db team_ok) (new_member g u role billing)"
  by (auto simp: keeps_def on_db_def new_member_run Let_def intro!: add_member_team)

lemma map_members_team:
  assumes d: "team_ok d" and f: "\<And>m. m_role (f m) = OWNER \<Longrightarrow> m_role m = OWNER" "\<And>m. m_org (f m) = m_org m"
  shows "team_ok (d\<lparr>members := map f (members d)\<rparr>)"
proof -
  have "f m = f n" if "m \<in> set (members d)" "n \<in> set (members d)" "m_role (f m) = OWNER"
    "m_role (f n) = OWNER" "m_org (f m) = m_org (f n)" for m n
  proof -
    from d that f have "m = n" unfolding team_ok_iff by metis
    then show ?thesis by simp
  qed
  with d show ?thesis unfolding team_ok_iff by auto
qed

lemma update_members_team:
  "team_ok d \<Longrightarrow> (\<And>m. m_role (f m) = OWNER \<Longrightarrow> m_role m = OWNER) \<Longrightarrow> (\<And>m. m_org (f m) = m_org m) \<Longrightarrow>
   team_ok (d\<lparr>members := update_where P f (members d)\<rparr>)"
  unfolding update_where_def by (rule map_members_team) (auto split: if_splits)

lemma patch_member_team: "keeps (on_db team_ok) (patch_member caller target role billing)"
proof -
  have save: "keeps (on_db team_ok) (save_row members_T k (apply_member_update role billing))"
    if "case role of None \<Rightarrow> True | Some x \<Rightarrow> x \<in> set assignable_roles" for k
    using that by (auto simp: keeps_def on_db_def save_row_def update_rows_def Let_def apply_member_update_def
        assignable_roles_def intro!: update_members_team split: option.splits)
  show ?thesis
    unfolding patch_member_def valid_role_def
    by (intro keeps_intros keeps_mseq_guard save)
qed

lemma create_invitation_team:
  assumes "role \<noteq> OWNER" shows "keeps (on_db team_ok) (create_invitation u g email role tok)"
proof -
  have "keeps (on_db team_ok) (create_row invitations_T i)" if "i_role i = role" for i
    using that assms by (auto simp: keeps_def on_db_def create_row_def team_ok_iff)
  then show ?thesis unfolding create_invitation_def Let_def
    by (intro keeps_intros keeps_atomic_on_db) simp
qed

lemma invite_view_team: "keeps (on_db team_ok) (invitation_create_view u g email role)"
  unfolding invitation_create_view_def valid_role_def
  by (intro keeps_intros keeps_mseq_guard create_invitation_team)
    (auto simp: assignable_roles_def split: option.splits)

lemma accept_team: "keeps (on_db team_ok) (invitation_accept_view E tok full)"
proof -
  have "keeps (on_db team_ok) (accept_invitation E i full)" if "i_role i \<noteq> OWNER" for i
    unfolding accept_invitation_def join_org_def set_status_def [symmetric]
    by (intro keeps_intros keeps_atomic_on_db new_member_team that)
  moreover have "i_role i \<noteq> OWNER" if "on_db team_ok w" "pending_invitation tok w = (Inr i, w')" for i w w'
    using that by (auto simp: pending_invitation_def on_db_def team_ok_iff split: option.splits
        dest!: first_by_filter_Some)
  ultimately show ?thesis unfolding invitation_accept_view_def
    by (intro keeps_mbind_from [of _ "pending_invitation tok"] keeps_intros) blast+
qed

text \<open>
  The transfer promotes the new owner first, so inside the transaction there are two owners; what it
  commits has one.
\<close>

lemma swap_owner_team:
  assumes d: "db_ok d" "team_ok d" and caller: "caller \<in> set (members d)" "m_role caller = OWNER"
    and target: "target \<in> set (members d)" "m_org target = m_org caller" "target \<noteq> caller"
  shows "team_ok (d\<lparr>members :=
      update_where (\<lambda>m. m_id m = m_id caller) (\<lambda>m. m\<lparr>m_role := ADMIN, m_is_billing := False\<rparr>)
     (update_where (\<lambda>m. m_id m = m_id target) (\<lambda>m. m\<lparr>m_role := OWNER, m_is_billing := True\<rparr>) (members d))\<rparr>)"
proof -
  have dist: "distinct (map m_id (members d))" using d(1) by (simp add: db_ok_def tables_ok_def members_ok_def)
  define f where "f m = (if m = caller then m\<lparr>m_role := ADMIN, m_is_billing := False\<rparr>
     else if m = target then m\<lparr>m_role := OWNER, m_is_billing := True\<rparr> else m)" for m
  have id: "m_id m = m_id x \<longleftrightarrow> m = x" if "m \<in> set (members d)" "x \<in> set (members d)" for m x
    using distinct_map_eqD [OF dist that] by blast
  have eq: "update_where (\<lambda>m. m_id m = m_id caller) (\<lambda>m. m\<lparr>m_role := ADMIN, m_is_billing := False\<rparr>)
     (update_where (\<lambda>m. m_id m = m_id target) (\<lambda>m. m\<lparr>m_role := OWNER, m_is_billing := True\<rparr>) (members d))
     = map f (members d)"
    using id caller(1) target by (auto simp: update_where_def f_def)
  have one: "m = caller" if "m \<in> set (members d)" "m_role m = OWNER" "m_org m = m_org caller" for m
    using d(2) that caller unfolding team_ok_iff by metis
  have org: "m_org (f m) = m_org m" for m by (simp add: f_def)
  have owner: "m = target \<or> m_role m = OWNER \<and> m \<noteq> caller \<and> m_org m \<noteq> m_org caller"
    if "m \<in> set (members d)" "m_role (f m) = OWNER" for m
    using that one [of m] by (auto simp: f_def split: if_splits)
  have "m = n" if "m \<in> set (members d)" "n \<in> set (members d)" "m_role (f m) = OWNER"
    "m_role (f n) = OWNER" "m_org (f m) = m_org (f n)" for m n
    using owner [OF that(1,3)] owner [OF that(2,4)] that(1,2,5) d(2) target(2)
    unfolding org team_ok_iff by metis
  with d(2) show ?thesis unfolding eq team_ok_iff by auto
qed

lemma transfer_split:
  assumes "owner_transfer_view u g k w = (r, w')"
  obtains (same) "db w' = db w"
  | (swapped) o1 caller target w1 where "get_org_and_member (u_id u) g (Some owner_only) w = (Inr (o1, caller), w)"
      and "member_of g k w = (Inr target, w)" and "m_role target = ADMIN"
      and "swap_owner target caller w = (Inr (), w1)" and "db w' = db w1"
proof -
  obtain a where a: "get_org_and_member (u_id u) g (Some owner_only) w = (a, w)"
    using guard_state by (metis prod.collapse)
  obtain b where b: "member_of g k w = (b, w)"
    by (cases "member_of g k w") (auto simp: member_of_def split: option.splits)
  show ?thesis
  proof (cases "\<exists>o1 caller target. a = Inr (o1, caller) \<and> b = Inr target \<and> m_role target = ADMIN")
    case False
    with assms a b have "w' = w"
      by (cases a; cases b) (auto simp: owner_transfer_view_def mbind_run [of "get_org_and_member x y z" for x y z]
          mseq_run split: if_splits)
    then show ?thesis by (intro same) simp
  next
    case True
    then obtain o1 caller target where x: "a = Inr (o1, caller)" "b = Inr target" "m_role target = ADMIN" by blast
    obtain c w1 where s: "swap_owner target caller w = (c, w1)" by force
    show ?thesis
    proof (cases c)
      case (Inl e)
      with s have "db w1 = db w" by (auto simp: swap_owner_def dest: atomic_raise_db)
      with assms a b x s Inl show ?thesis by (intro same) (simp add: owner_transfer_view_def mseq_run)
    next
      case (Inr y)
      with assms a b x s show ?thesis by (intro swapped [of o1 caller target w1]) (simp_all add: owner_transfer_view_def mseq_run)
    qed
  qed
qed

lemma transfer_team: "keeps (on_db team_inv) (owner_transfer_view u g k)"
proof (rule keepsI)
  fix w assume w: "on_db team_inv w"
  obtain r w' where run: "owner_transfer_view u g k w = (r, w')" by force
  then have c: "consistent w'" using w keepsD_run [OF keeps_org_views(5)]
    by (auto simp: consistent_def on_db_def team_inv_def)
  from run have "team_ok (db w')"
  proof (cases rule: transfer_split)
    case same
    with w show ?thesis by (simp add: on_db_def team_inv_def)
  next
    case (swapped o1 caller target w1)
    from swapped(3) have "m_role caller = OWNER \<Longrightarrow> target \<noteq> caller" by auto
    with swapped w swap_owner_team [of "db w" caller target] show ?thesis
      by (auto simp: on_db_def team_inv_def owner_only_def elim!: swap_owner_InrE guard_InrE member_of_InrE)
  qed
  with c run show "on_db team_inv (snd (owner_transfer_view u g k w))"
    by (simp add: on_db_def team_inv_def consistent_def)
qed

text \<open>A new organisation has no members yet, so its creator is its only owner.\<close>

lemma member_org:
  assumes "db_ok d" and "m \<in> set (members d)" shows "m_org m \<in> o_id ` set (orgs d)"
proof -
  have "refs_ok d (member_refs m)" using assms by (simp add: db_ok_def fk_ok_rows list_all_iff)
  then show ?thesis by (simp add: member_refs_def refs_ok_iff)
qed

lemma create_org_team: "keeps (on_db team_inv) (create_org_with_owner E u name (Some sid) live)"
proof (rule keepsI)
  fix w assume w: "on_db team_inv w"
  obtain r w' where run: "create_org_with_owner E u name (Some sid) live w = (r, w')" by force
  then have c: "consistent w'" using w keepsD_run [OF keeps_team_checkout(1)]
    by (auto simp: consistent_def on_db_def team_inv_def)
  have "team_ok (db w')"
  proof (cases r)
    case (Inl e)
    with run have "db w' = db w" unfolding create_org_with_owner_def by (auto dest: atomic_raise_db)
    with w show ?thesis by (simp add: on_db_def team_inv_def)
  next
    case (Inr gm)
    obtain g m where "gm = (g, m)" by (cases gm)
    with run Inr have "create_org_with_owner E u name (Some sid) live w = (Inr (g, m), w')" by simp
    then show ?thesis
    proof (cases rule: create_org_InrE)
      case old
      with w show ?thesis by (simp add: on_db_def team_inv_def)
    next
      case (new c)
      from c new(2) have "o_id g \<notin> o_id ` set (orgs (db w))"
        by (simp add: consistent_def db_ok_def tables_ok_def orgs_ok_def)
      moreover have d: "db_ok (db w)" "team_ok (db w)" using w by (simp_all add: on_db_def team_inv_def)
      ultimately have "\<forall>n\<in>set (members (db w)). m_org n \<noteq> m_org m"
        using member_org [OF d(1)] new by metis
      with d(2) new(2) show ?thesis by (auto simp: team_ok_iff)
    qed
  qed
  with c run show "on_db team_inv (snd (create_org_with_owner E u name (Some sid) live w))"
    by (simp add: on_db_def team_inv_def consistent_def)
qed

section \<open>Webhooks\<close>

text \<open>Handling an event keeps what its callbacks and the saving of a subscription keep.\<close>

lemma dispatch_keeps:
  assumes "\<And>s. keeps (on_db Q) (subscription_save s)" and "\<And>sub. keeps (on_db Q) (sync_django sub)"
    and "\<And>u n c l s k. keeps (on_db Q) (on_team_checkout_completed E u n c l s k)"
    and "\<And>s p u g. keeps (on_db Q) (on_product_checkout_completed s p u g)"
  shows "keeps (on_db Q) (dispatch event (get_webhook_repos E))"
  unfolding dispatch_def Let_def handler_defs delete_org_on_subscription_cancel_def
    customer_get_def subscription_by_stripe_id_def
  by (intro keeps_intros assms)

lemma team_checkout_team: "keeps (on_db team_inv) (on_team_checkout_completed E u n c l s k)"
  unfolding on_team_checkout_completed_def owner_or_def
  by (intro keeps_intros create_org_team keeps_team_inv)

lemma team_checkout_ledger: "keeps (on_db ledger_ok) (on_team_checkout_completed E u n c l s k)"
  unfolding on_team_checkout_completed_def
  by (intro keeps_intros)

lemma product_team: "keeps (on_db team_ok) (on_product_checkout_completed s p u g)"
  unfolding on_product_checkout_completed_def Let_def
  by (intro keeps_intros grant_frame; simp add: team_ok_iff)

lemma dispatch_sound: "keeps (on_db sound) (dispatch event (get_webhook_repos E))"
proof (rule keeps_sound_parts)
  show "keeps (on_db ledger_inv) (dispatch event (get_webhook_repos E))"
    by (intro dispatch_keeps checkout_keeps_ledger keeps_ledger_inv team_checkout_ledger keeps_intros)
  show "keeps (on_db team_inv) (dispatch event (get_webhook_repos E))"
    by (intro dispatch_keeps team_checkout_team keeps_team_inv product_team keeps_intros)
qed (rule dispatch_all_pending)

section \<open>Billing requests\<close>

lemma paid_pending:
  assumes "\<And>c s sid. pending_ok s \<Longrightarrow> keeps (on_db all_pending_ok) (f (c, s, sid))"
  shows "keeps (on_db all_pending_ok) (mbind (get_customer_and_paid_subscription user ctx g) f)"
proof (rule keeps_mbind_from [OF read_only_keeps [OF customer_reads]])
  fix x w w1
  assume w: "on_db all_pending_ok w" and run: "get_customer_and_paid_subscription user ctx g w = (Inr x, w1)"
  obtain c s sid where x: "x = (c, s, sid)" by (cases x)
  obtain y where y: "resolve_billing_customer user ctx g w = (Inr y, w)"
    using billing_customer_reads by (metis surj_pair)
  then obtain c' where "y = Some c'" using run by (cases y) (auto simp: get_customer_and_paid_subscription_def)
  moreover obtain r where "sub_active_for_customer django_subscriptions (c_id c') w = (Inr r, w)"
    using subs.active_returns by blast
  ultimately have "sub_active_for_customer django_subscriptions (c_id c') w = (Inr (Some s), w)"
    using run y x by (cases r) (auto simp: get_customer_and_paid_subscription_def split: option.splits)
  then have "s \<in> set (subscriptions (db w))" using subs.active_for_customer by blast
  with w have "pending_ok s" by (auto simp: on_db_def all_pending_ok_def list_all_iff)
  with assms x show "keeps (on_db all_pending_ok) (f x)" by blast
qed

lemma seats_pending:
  "pending_ok s \<Longrightarrow> keeps (on_db all_pending_ok) (update_seat_count E s n django_subscriptions)"
  unfolding update_seat_count_def django_sel
  by (intro keeps_intros save_pending) (simp add: pending_ok_def)

lemma change_plan_pending: "keeps (on_db all_pending_ok) (change_plan E sid price amount prorate n)"
  unfolding change_plan_def apply_immediate_plan_change_def schedule_downgrade_at_period_end_def Let_def
  by (intro keeps_intros)

lemma billing_request_pending: "keeps (on_db all_pending_ok) (run_billing E user q r)"
  by (cases r;
      simp only: run_billing.simps subscription_patch_view_def change_subscription_def apply_cancel_toggle_def
        apply_plan_change_def apply_seat_only_def answer_update_def announce_cancel_def notify_cancel_def
        refetch_subscription_after_mutation_def get_active_subscriptions_for_user_def
        billing_notice_recipients_def requested_price_def check_requested_seats_def
        reject_seat_limit_below_member_count_def subscription_delete_view_def scheduled_change_delete_view_def Let_def;
      (intro paid_pending keeps_intros seats_pending change_plan_pending billing_pending; simp))

section \<open>Requests and tasks\<close>

text \<open>
  What is outside the program: the environment of the store, the JWT library, the authentication
  backend, the OAuth providers, the webhook gateway and the email validator.
\<close>

record platform =
  pf_env :: env
  pf_jwt :: jwt
  pf_backend :: auth_backend
  pf_providers :: provider_api
  pf_gateway :: gateway
  pf_emails :: email_validator

text \<open>The requests that need no session.\<close>

datatype open_request =
    Register string string string
  | VerifyEmail string "string option"
  | ResendVerification string
  | Login string string
  | Refresh string
  | Logout string
  | ForgotPassword string
  | ResetPassword string string
  | StartOAuth string "string option"
  | FinishOAuth string string "string option" "string option" "string option" "string option"
  | ExchangeOAuthCode string
  | ConfirmLink string
  | AcceptInvitation string string
  | PostWebhook hook_request

fun run_open :: "platform \<Rightarrow> open_request \<Rightarrow> unit io" where
  "run_open C (Register email password name) = mseq (register_user (pf_env C) (pf_jwt C) email password name) (mret ())"
| "run_open C (VerifyEmail token password) = mseq (verify_email_view (pf_env C) (pf_jwt C) token password) (mret ())"
| "run_open C (ResendVerification email) = mseq (resend_verification_view (pf_env C) email) (mret ())"
| "run_open C (Login email password) =
     mseq (login_view (pf_env C) (pf_jwt C) (pf_backend C) email password) (mret ())"
| "run_open C (Refresh raw) = mseq (refresh_view (pf_env C) (pf_jwt C) raw) (mret ())"
| "run_open C (Logout raw) = mseq (logout_view (pf_env C) raw) (mret ())"
| "run_open C (ForgotPassword email) = mseq (forgot_password_view (pf_env C) email) (mret ())"
| "run_open C (ResetPassword token password) =
     mseq (reset_password_view (pf_env C) (pf_jwt C) token password) (mret ())"
| "run_open C (StartOAuth provider session) = mseq (oauth_authorize provider session) (mret ())"
| "run_open C (FinishOAuth uri provider code state error session) =
     mseq (oauth_callback (pf_env C) (pf_jwt C) (pf_providers C) uri provider code state error session) (mret ())"
| "run_open C (ExchangeOAuthCode code) = mseq (oauth_exchange_view code) (mret ())"
| "run_open C (ConfirmLink token) = mseq (confirm_link_view (pf_env C) (pf_jwt C) token) (mret ())"
| "run_open C (AcceptInvitation token name) = mseq (invitation_accept_view (pf_env C) token name) (mret ())"
| "run_open C (PostWebhook q) = mseq (stripe_webhook (pf_env C) (pf_gateway C) q) (mret ())"

text \<open>The requests of an authenticated user; without a valid token they are refused.\<close>

datatype user_request =
    ChangePassword string string
  | PatchAccount account_update
  | DeleteAccount
  | ExportAccount
  | DeclineInvitation string
  | OrgRequest uuid org_request
  | BillingRequest price_query billing_request
  | OpenCheckout checkout_body price_query
  | BuyCredits uuid string string price_query
  | OpenPortal "string option" string

fun run_user :: "platform \<Rightarrow> user \<Rightarrow> user_request \<Rightarrow> unit io" where
  "run_user C u (ChangePassword old new) = mseq (change_password_view (pf_env C) (pf_jwt C) u old new) (mret ())"
| "run_user C u (PatchAccount a) = mseq (account_patch_view u a) (mret ())"
| "run_user C u DeleteAccount = mseq (account_delete_view (pf_env C) (pf_emails C) u) (mret ())"
| "run_user C u ExportAccount = mseq (account_export_view (pf_emails C) u) (mret ())"
| "run_user C u (DeclineInvitation token) = mseq (invitation_decline_view u token) (mret ())"
| "run_user C u (OrgRequest g r) = run_org_request u g r"
| "run_user C u (BillingRequest q r) = run_billing (pf_env C) u q r"
| "run_user C u (OpenCheckout b q) = mseq (checkout_session_view (pf_env C) u b q) (mret ())"
| "run_user C u (BuyCredits price success cancel q) =
     mseq (product_checkout_session_view (pf_env C) u price success cancel q) (mret ())"
| "run_user C u (OpenPortal param url) = mseq (portal_session_view (pf_env C) u param url) (mret ())"

definition run_authenticated :: "platform \<Rightarrow> string \<Rightarrow> user_request \<Rightarrow> unit io" where
  "run_authenticated C header r =
     mbind (authenticate (pf_jwt C) header) (\<lambda>caller.
     case caller of None \<Rightarrow> mraise (AuthenticationFailed ''not_authenticated'')
     | Some (u, _) \<Rightarrow> run_user C u r)"

text \<open>The tasks; the ones that only send mail touch nothing here.\<close>

fun run_task :: "platform \<Rightarrow> nat \<Rightarrow> task \<Rightarrow> unit io" where
  "run_task C retries (ProcessStripeWebhook k) = mseq (process_stripe_webhook (pf_env C) retries k) (mret ())"
| "run_task C retries (DeleteOrgOnSubscriptionCancel g) = delete_org_on_subscription_cancel_task g"
| "run_task C retries (CancelStripeSubs sids ctx) = cancel_stripe_subs_task (pf_env C) sids"
| "run_task C retries _ = mret ()"

datatype cleanup = RefreshTokens | LinkRequests | VerificationTokens | ResetTokens

fun run_cleanup :: "cleanup \<Rightarrow> unit io" where
  "run_cleanup RefreshTokens = cleanup_expired_refresh_tokens"
| "run_cleanup LinkRequests = cleanup_expired_social_link_requests"
| "run_cleanup VerificationTokens = cleanup_expired_email_verification_tokens"
| "run_cleanup ResetTokens = cleanup_expired_password_reset_tokens"

section \<open>Every step keeps the invariant\<close>

lemma cleanup_sound: "keeps (on_db sound) (run_cleanup c)"
proof (rule keeps_sound)
  show "keeps consistent (run_cleanup c)"
    by (cases c; simp only: run_cleanup.simps cleanup_expired_refresh_tokens_def
        cleanup_expired_social_link_requests_def cleanup_expired_email_verification_tokens_def
        cleanup_expired_password_reset_tokens_def;
      rule delete_expired_consistent, rule delete_consistent,
      simp add: consistent_def db_ok_def tables_ok_def table_ok_defs)
qed (cases c; simp add: ledger_team.cleanups pending.cleanups team.cleanups)+

lemma maintenance_sound: "keeps (on_db sound) (run_maintenance E m)"
  by (intro keeps_sound maintenance_consistent ledger_catalogue.maintained pending_catalogue.maintained
      team_catalogue.maintained)

lemma open_sound: "keeps (on_db sound) (run_open C r)"
proof (cases "\<exists>tok name. r = AcceptInvitation tok name")
  case True
  then show ?thesis
    by (auto intro!: keeps_sound keeps_mseq keeps_mret keeps_org_views accept_team
        ledger_team.membership_views pending.membership_views)
next
  case False
  then show ?thesis
    by (cases r) (simp_all, (intro keeps_sound keeps_intros)+)
qed

lemma org_request_sound: "keeps (on_db sound) (run_org_request u g r)"
proof (rule keeps_sound_parts)
  show "keeps (on_db ledger_inv) (run_org_request u g r)"
    by (intro keeps_ledger_inv keeps_org_request ledger_team.membership_views)
  show "keeps (on_db team_inv) (run_org_request u g r)"
  proof (cases r)
    case (TransferOwner k)
    then show ?thesis by (simp only: run_org_request.simps) (intro keeps_intros transfer_team)
  qed (simp only: run_org_request.simps member_patch_view_def, intro keeps_team_inv keeps_intros
      patch_member_team invite_view_team keeps_org_views(3) [unfolded member_patch_view_def])+
qed (rule pending.membership_views)

lemma billing_views_consistent:
  "keeps consistent (run_billing E user q r)" "keeps consistent (checkout_session_view E user body q)"
  "keeps consistent (product_checkout_session_view E user price success cancel q)"
  "keeps consistent (portal_session_view E user param return_url)"
proof -
  note reads = billing_notice_recipients_def requested_price_def check_requested_seats_def
    reject_seat_limit_below_member_count_def get_customer_and_paid_subscription_def
    refetch_subscription_after_mutation_def get_active_subscriptions_for_user_def notify_cancel_def
    get_active_plan_price_def get_active_product_price_def resolve_checkout_price_def
    get_country_stripe_price_def resolve_stripe_price_id_def localized_for_currency_def
    resolve_plan_change_price_def first_membership_def effective_context_def default_subscription_context_def
    require_billing_authority_def resolve_mutation_context_def resolve_billing_customer_def
    resolve_product_purchase_context_def validate_team_checkout_def django_sel
  show "keeps consistent (run_billing E user q r)"
    by (cases r; simp only: run_billing.simps subscription_patch_view_def change_subscription_def
        apply_cancel_toggle_def apply_plan_change_def apply_seat_only_def answer_update_def announce_cancel_def
        subscription_delete_view_def scheduled_change_delete_view_def Let_def reads; intro keeps_intros)
  show "keeps consistent (checkout_session_view E user body q)"
    "keeps consistent (product_checkout_session_view E user price success cancel q)"
    "keeps consistent (portal_session_view E user param return_url)"
    unfolding checkout_session_view_def open_checkout_def checkout_customer_def user_customer_def
      create_team_stripe_customer_def create_checkout_session_def product_checkout_session_view_def
      buyer_customer_def create_product_checkout_session_def portal_session_view_def
      create_billing_portal_session_def reads
    by (intro keeps_intros)+
qed

lemmas user_consistent = keeps_auth_views keeps_account_patch keeps_erasure keeps_org_views billing_views_consistent

lemma user_sound: "keeps (on_db sound) (run_user C u r)"
proof (cases r)
  case (OrgRequest g q)
  then show ?thesis by (simp add: org_request_sound)
next
  case (BillingRequest q b)
  then show ?thesis
    by (auto intro: keeps_sound billing_views_consistent ledger.subscription_views billing_request_pending
        team.subscription_views)
qed (simp only: run_user.simps, rule keeps_mseq [OF keeps_sound keeps_mret], rule user_consistent,
    (rule ledger_team.auth_views ledger_team.account_patch ledger_team.erasure ledger_team.org_views ledger_team.checkout_views),
    (rule pending.auth_views pending.account_patch pending.erasure pending.org_views pending.checkout_views),
    (rule team.auth_views team.account_patch team.erasure team.org_views team.checkout_views))+

lemma authenticated_sound: "keeps (on_db sound) (run_authenticated C header r)"
  unfolding run_authenticated_def
  by (intro keeps_intros user_sound keeps_sound)

lemma cancel_each_on_db: "keeps (on_db Q) (cancel_each E sids)"
proof (induction sids)
  case Nil
  show ?case unfolding cancel_each.simps by (rule keeps_mret)
next
  case (Cons sid sids)
  then show ?case unfolding cancel_each.simps by (intro keeps_intros)
qed

lemma event_task_sound: "keeps (on_db sound) (process_stripe_webhook E n k)"
proof -
  have "keeps (on_db sound) (mark_processed sid)" "keeps (on_db sound) (mark_failed sid x)" for sid x
    by (intro keeps_sound keeps_intros)+
  then show ?thesis
    unfolding process_stripe_webhook_def process_stored_event_def celery_retry_def webhook_repos_sel django_sel
    by (intro keeps_intros dispatch_sound)
qed

lemma task_sound: "keeps (on_db sound) (run_task C n t)"
proof (cases t)
  case (ProcessStripeWebhook k)
  then show ?thesis by (simp add: keeps_mseq event_task_sound keeps_mret)
next
  case (DeleteOrgOnSubscriptionCancel g)
  then show ?thesis by (simp only: run_task.simps) (intro keeps_sound keeps_intros)
next
  case (CancelStripeSubs sids ctx)
  then show ?thesis
    by (simp only: run_task.simps cancel_stripe_subs_task_def) (intro keeps_intros cancel_each_on_db)
qed (simp_all only: run_task.simps keeps_mret)

section \<open>Reachable states\<close>

text \<open>
  One step of the system: a request without or with a session, a task that is queued (delivered at
  least once, so it may stay queued), a clean-up, a command or task that maintains the catalogue, the
  passage of time, or the eviction of a cache entry.
\<close>

inductive step :: "platform \<Rightarrow> world \<Rightarrow> world \<Rightarrow> bool" for C where
  open_request: "step C w (snd (run_open C r w))"
| user_request: "step C w (snd (run_authenticated C header u w))"
| task: "t \<in> set (queue w) \<Longrightarrow> q = queue w \<or> q = remove1 t (queue w) \<Longrightarrow>
    step C w (snd (run_task C n t (w\<lparr>queue := q\<rparr>)))"
| cleanup: "step C w (snd (run_cleanup c w))"
| maintenance: "step C w (snd (run_maintenance (pf_env C) m w))"
| wait: "0 \<le> dt \<Longrightarrow> step C w (w\<lparr>clock := clock w + dt\<rparr>)"
| evict: "step C w (w\<lparr>cache := (cache w)(k := None)\<rparr>)"

inductive_cases stepE: "step C w w'"

text \<open>What the administration site does on its own.\<close>

inductive admin_step :: "world \<Rightarrow> world \<Rightarrow> bool" where
  curate: "admin_step w (snd (change_country_price k sticker curated w))"
| delete_org: "admin_step w (snd (delete_org_view g confirmed w))"
| delete_selected: "admin_step w (snd (delete_org_action gs confirmed w))"

inductive_cases admin_stepE: "admin_step w w'"

text \<open>
  A fresh installation has at most a catalogue.
\<close>

definition installed :: "world \<Rightarrow> bool" where
  "installed w \<longleftrightarrow> db_ok (db w) \<and> users (db w) = [] \<and> orgs (db w) = [] \<and> members (db w) = []
     \<and> invitations (db w) = [] \<and> subscriptions (db w) = [] \<and> credit_balances (db w) = []
     \<and> credit_transactions (db w) = [] \<and> \<not> in_atomic w \<and> queue w = []"

inductive reachable :: "platform \<Rightarrow> world \<Rightarrow> bool" for C where
  start: "installed w \<Longrightarrow> reachable C w"
| step: "reachable C w \<Longrightarrow> step C w w' \<Longrightarrow> reachable C w'"
| admin: "reachable C w \<Longrightarrow> admin_step w w' \<Longrightarrow> reachable C w'"

lemma step_sound: "step C w w' \<Longrightarrow> sound (db w) \<Longrightarrow> sound (db w')"
proof (erule stepE)
  fix t q n assume "sound (db w)" and "w' = snd (run_task C n t (w\<lparr>queue := q\<rparr>))"
  then show "sound (db w')" using keepsD [OF task_sound, of "w\<lparr>queue := q\<rparr>" C n t] by (simp add: on_db_def)
qed (use keepsD [OF open_sound] keepsD [OF authenticated_sound] keepsD [OF cleanup_sound] keepsD [OF maintenance_sound] in \<open>auto simp: on_db_def\<close>)

lemma admin_sound:
  "keeps (on_db sound) (change_country_price k sticker curated)"
  "keeps (on_db sound) (delete_org_view g confirmed)" "keeps (on_db sound) (delete_org_action gs confirmed)"
proof -
  show "keeps (on_db sound) (change_country_price k sticker curated)"
    by (intro keeps_sound change_country_price_consistent ledger_catalogue.curated pending_catalogue.curated
        team_catalogue.curated)
  show "keeps (on_db sound) (delete_org_view g confirmed)" "keeps (on_db sound) (delete_org_action gs confirmed)"
    unfolding delete_org_view_def delete_org_action_def by (intro keeps_sound keeps_intros each_keeps)+
qed

lemma admin_step_sound: "admin_step w w' \<Longrightarrow> sound (db w) \<Longrightarrow> sound (db w')"
  by (erule admin_stepE) (use keepsD [OF admin_sound(1)] keepsD [OF admin_sound(2)] keepsD [OF admin_sound(3)]
    in \<open>auto simp: on_db_def\<close>)

lemma reachable_sound: "reachable C w \<Longrightarrow> sound (db w)"
proof (induction rule: reachable.induct)
  case (start w)
  then show ?case
    by (simp add: installed_def sound_def ledger_ok_def balance_of_def granted_to_def all_pending_ok_def team_ok_iff)
qed (auto intro: step_sound admin_step_sound)

section \<open>Properties\<close>

text \<open>
  C1. Whatever requests, tasks, retries, clean-ups, catalogue commands and actions of the administration site
  (editing a country price, deleting organisations) a fresh installation has run, in any order, and whether they returned or raised, its database is well formed: every UNIQUE and CHECK
  constraint of the models holds, no foreign key dangles, and a subscription has a scheduled plan
  exactly when it has the date of the change.
\<close>

theorem reachable_well_formed:
  assumes "reachable C w" shows "db_ok (db w) \<and> all_pending_ok (db w)"
  using reachable_sound [OF assms] by (simp add: sound_def)

text \<open>
  C2. In every reachable state an organisation has at most one owner, who holds the billing flag, a
  user owns at most one organisation, and no invitation offers ownership.
\<close>

theorem reachable_one_owner:
  assumes "reachable C w" and "m \<in> set (members (db w))" and "n \<in> set (members (db w))"
    and "m_role m = OWNER" and "m_role n = OWNER"
  shows "(m_org m = m_org n \<longleftrightarrow> m = n) \<and> (m_user m = m_user n \<longleftrightarrow> m = n) \<and> m_is_billing m
    \<and> list_all (\<lambda>i. i_role i \<noteq> OWNER) (invitations (db w))"
proof -
  have s: "db_ok (db w)" "team_ok (db w)" using reachable_sound [OF assms(1)] by (simp_all add: sound_def)
  then have ms: "members_ok (members (db w))" by (simp add: db_ok_def tables_ok_def)
  then have "distinct (map m_user (filter (\<lambda>m. m_role m = OWNER) (members (db w))))" by (simp add: members_ok_def)
  then have "m_user m = m_user n \<Longrightarrow> m = n" by (rule distinct_map_eqD) (use assms in auto)
  with ms s(2) assms show ?thesis by (auto simp: team_ok_iff members_ok_def list_all_iff)
qed

text \<open>
  C3. In every reachable state the credit balance of every owner is the sum of the owner's
  transactions.
\<close>

theorem reachable_balances:
  assumes "reachable C w" shows "balance_of (db w) x = granted_to (db w) x"
  using reachable_sound [OF assms] by (simp add: sound_def ledger_ok_def)

section \<open>What the requests never touch\<close>

text \<open>
  A property of the database that survives the writes of the requests and tasks one by one survives every
  step that is no maintenance of the catalogue.
\<close>

locale bystander = billing_frame Q + org_frame Q for Q +
  assumes credits: "Q d \<Longrightarrow> Q (d\<lparr>credit_balances := bs\<rparr>)" "Q d \<Longrightarrow> Q (d\<lparr>credit_transactions := ts\<rparr>)"
begin

lemma event_kept: "keeps (on_db Q) (process_stripe_webhook E n k)"
proof -
  have product: "keeps (on_db Q) (on_product_checkout_completed s p u g)" for s p u g
    unfolding on_product_checkout_completed_def Let_def by (intro keeps_intros grant_frame credits)
  have team: "keeps (on_db Q) (on_team_checkout_completed E u m c l s j)" for u m c l s j
    unfolding on_team_checkout_completed_def by (intro keeps_intros)
  show ?thesis
    unfolding process_stripe_webhook_def process_stored_event_def celery_retry_def webhook_repos_sel django_sel
    by (intro keeps_intros dispatch_keeps product team)
qed

lemma open_kept: "keeps (on_db Q) (run_open C r)"
  by (cases r) (simp_all, (intro keeps_intros)+)

lemma user_kept: "keeps (on_db Q) (run_authenticated C header u)"
proof -
  have "keeps (on_db Q) (run_user C v u)" for v by (cases u) (simp_all, (intro keeps_intros)+)
  then show ?thesis unfolding run_authenticated_def by (intro keeps_intros)
qed

lemma task_kept: "keeps (on_db Q) (run_task C n t)"
proof (cases t)
  case (ProcessStripeWebhook k)
  then show ?thesis by (simp add: keeps_mseq event_kept keeps_mret)
next
  case (CancelStripeSubs sids ctx)
  then show ?thesis
    by (simp only: run_task.simps cancel_stripe_subs_task_def) (intro keeps_intros cancel_each_on_db)
qed (simp_all only: run_task.simps keeps_mret, intro keeps_intros)

lemma cleanup_kept: "keeps (on_db Q) (run_cleanup c)"
  by (cases c) (simp_all add: cleanups)

end

interpretation offers: bystander "offered r" for r
  by unfold_locales (simp_all add: offered_def cascade_users_def cascade_orgs_def cascade_customers_def Let_def)

lemma step_offers:
  assumes "step C w w'" and w: "consistent w" and r: "cp_is_curated r" "offered r (db w)"
  shows "offered r (db w')"
  using assms(1)
proof (cases rule: step.cases)
  case (maintenance m)
  with maintenance_offers [OF w r] show ?thesis by simp
next
  case (task t q n)
  with keepsD [OF offers.task_kept, of r "w\<lparr>queue := q\<rparr>" C n t] r show ?thesis by (simp add: on_db_def)
qed (use r keepsD [OF offers.open_kept] keepsD [OF offers.user_kept] keepsD [OF offers.cleanup_kept]
    in \<open>auto simp: on_db_def\<close>)

lemma steps_offers:
  assumes "rtranclp (step C) w w'" and "sound (db w)" and r: "cp_is_curated r" "offered r (db w)"
  shows "offered r (db w')"
proof -
  from assms(1) have "sound (db w') \<and> offered r (db w')"
  proof (induction rule: rtranclp_induct)
    case base
    with assms show ?case by simp
  next
    case (step v v')
    then show ?case using step_sound step_offers [OF _ _ r(1)] by (auto simp: sound_def consistent_def)
  qed
  then show ?thesis ..
qed

section \<open>Retries\<close>

text \<open>
  A stored event keeps its keys and its payload, whoever works on it: no step of the system drops or
  rewrites it.
\<close>

definition same_event :: "stripe_event \<Rightarrow> stripe_event \<Rightarrow> bool" where
  "same_event e f \<longleftrightarrow> e_id f = e_id e \<and> e_stripe_id f = e_stripe_id e \<and> e_payload f = e_payload e"

definition has_event :: "stripe_event \<Rightarrow> db \<Rightarrow> bool" where
  "has_event e d \<longleftrightarrow> (\<exists>f\<in>set (stripe_events d). same_event e f)"

lemma has_event_marked:
  assumes "has_event e d"
    and f: "\<And>e. e_id (f e) = e_id e \<and> e_stripe_id (f e) = e_stripe_id e \<and> e_payload (f e) = e_payload e"
  shows "has_event e (d\<lparr>stripe_events := update_where P f (stripe_events d)\<rparr>)"
proof -
  from assms(1) obtain g where g: "g \<in> set (stripe_events d)" "same_event e g" by (auto simp: has_event_def)
  then have "(if P g then f g else g) \<in> set (update_where P f (stripe_events d))" unfolding update_where_def by force
  moreover have "same_event e (if P g then f g else g)" using g(2) f [of g] by (simp add: same_event_def)
  ultimately show ?thesis unfolding has_event_def by auto
qed

interpretation tracked: bystander "has_event e" for e
proof (unfold_locales, goal_cases)
  case (10 d f Pe)
  then show ?case by (rule has_event_marked)
next
  case (9 d g)
  then show ?case by (auto simp: has_event_def)
qed (simp_all add: has_event_def cascade_users_def cascade_orgs_def cascade_customers_def Let_def)

interpretation tracked_catalogue: catalogue_frame "has_event e" for e
  by unfold_locales (simp_all add: has_event_def)

lemma step_tracks:
  assumes "step C w w'" and "has_event e (db w)" shows "has_event e (db w')"
  using assms(1)
proof (cases rule: step.cases)
  case (task t q n)
  with keepsD [OF tracked.task_kept, of e "w\<lparr>queue := q\<rparr>" C n t] assms(2) show ?thesis by (simp add: on_db_def)
qed (use assms(2) keepsD [OF tracked.open_kept] keepsD [OF tracked.user_kept] keepsD [OF tracked.cleanup_kept]
    keepsD [OF tracked_catalogue.maintained] in \<open>auto simp: on_db_def\<close>)

lemma admin_step_tracks:
  assumes "admin_step w w'" and "has_event e (db w)" shows "has_event e (db w')"
proof -
  have "keeps (on_db (has_event e)) (delete_org_view g b)" "keeps (on_db (has_event e)) (delete_org_action gs b)" for g gs b
    unfolding delete_org_view_def delete_org_action_def by (intro keeps_intros each_keeps tracked.org_deletions)+
  from assms(1) keepsD [OF this(1)] keepsD [OF this(2)] keepsD [OF tracked_catalogue.curated] assms(2) show ?thesis
    by (cases rule: admin_step.cases) (auto simp: on_db_def)
qed

text \<open>What the rest of the system does: any requests, tasks, clean-ups, maintenance and administration.\<close>

abbreviation works :: "platform \<Rightarrow> world \<Rightarrow> world \<Rightarrow> bool" where
  "works C \<equiv> (\<lambda>v v'. step C v v' \<or> admin_step v v')\<^sup>*\<^sup>*"

definition waits_for :: "stripe_event \<Rightarrow> world \<Rightarrow> bool" where
  "waits_for e w \<longleftrightarrow> sound (db w) \<and> has_event e (db w)"

lemma works_wait: "works C v v' \<Longrightarrow> waits_for e v \<Longrightarrow> waits_for e v'"
  by (induction rule: rtranclp_induct)
    (auto simp: waits_for_def intro: step_sound admin_step_sound step_tracks admin_step_tracks)

text \<open>
  Celery runs the task of a stored event again as long as it asks for it; \<open>others\<close> is what happens
  in the system between two attempts.
\<close>

function settle :: "env \<Rightarrow> (nat \<Rightarrow> world \<Rightarrow> world) \<Rightarrow> uuid \<Rightarrow> nat \<Rightarrow> unit io" where
  "settle E others k n = mbind (process_stripe_webhook E n k) (\<lambda>outcome.
     case outcome of Processed \<Rightarrow> mret ()
     | RetryIn secs x \<Rightarrow>
         if n < max_retries then mseq (mmodify (others n)) (settle E others k (Suc n)) else mraise x)"
  by pat_completeness auto
termination by (relation "measure (\<lambda>(E, others, k, n). max_retries - n)") auto

declare settle.simps [simp del]

lemma settle_processed: "process_stripe_webhook E n k v = (Inr Processed, v') \<Longrightarrow> settle E others k n v = (Inr (), v')"
  by (subst settle.simps) simp

lemma settle_retry:
  "process_stripe_webhook E n k v = (Inr (RetryIn secs x), v') \<Longrightarrow> n < max_retries \<Longrightarrow>
   settle E others k n v = settle E others k (Suc n) (others n v')"
  by (subst settle.simps) (simp add: mseq_run)

text \<open>The state in which attempt \<open>n\<close> starts.\<close>

primrec attempt_world :: "env \<Rightarrow> (nat \<Rightarrow> world \<Rightarrow> world) \<Rightarrow> uuid \<Rightarrow> world \<Rightarrow> nat \<Rightarrow> world" where
  "attempt_world E others k w 0 = w"
| "attempt_world E others k w (Suc n) = others n (snd (process_stripe_webhook E n k (attempt_world E others k w n)))"

lemma attempt_outcome:
  assumes w: "waits_for e w" and run: "process_stripe_webhook E n (e_id e) w = (r, w')"
  shows "waits_for e w' \<and> (case fst (dispatch (e_payload e) (get_webhook_repos E) w) of
      Inr u \<Rightarrow> r = Inr Processed \<and> (\<exists>g\<in>set (stripe_events (db w')). same_event e g
          \<and> e_processed_at g = Some (clock w) \<and> e_error g = None)
    | Inl x \<Rightarrow> r = (if transient x \<and> n < max_retries then Inr (RetryIn (2 ^ n) x) else Inl x))"
proof -
  from w obtain f where f: "f \<in> set (stripe_events (db w))" "same_event e f"
    by (auto simp: waits_for_def has_event_def)
  then have k: "e_id f = e_id e" "e_payload f = e_payload e" by (simp_all add: same_event_def)
  have c: "consistent w" using w by (simp add: waits_for_def sound_def consistent_def)
  have "sound (db w')" using keepsD_run [OF event_task_sound _ run] w by (simp add: on_db_def waits_for_def)
  moreover have "has_event e (db w')"
    using keepsD_run [OF tracked.event_kept _ run] w by (simp add: on_db_def waits_for_def)
  moreover note process_outcome [OF c f(1), unfolded k, OF run]
  ultimately show ?thesis
    using f by (auto simp: waits_for_def same_event_def max_retries_def image_iff split: sum.splits if_splits)
qed

text \<open>
  C32. A stored event does not get stuck: when handling it fails at most three times, each time with an
  error that may pass, and then succeeds, the retries end with the event processed.  The first attempt
  starts in a state with the invariant, as every reachable state has it.  Between two attempts the rest
  of the system may do anything it does, in any number and order: requests, deliveries and tasks, those
  of other events and of this one included, clean-ups, maintenance, actions of the administration site
  and the passage of time.
\<close>

theorem event_ends_processed:
  assumes "sound (db w)" and "e \<in> set (stripe_events (db w))"
    and "\<And>n v. works C v (others n v)"
    and "n \<le> 3" and "\<And>i. i < n \<Longrightarrow> \<exists>x. transient x
      \<and> fst (dispatch (e_payload e) (get_webhook_repos E) (attempt_world E others (e_id e) w i)) = Inl x"
    and "fst (dispatch (e_payload e) (get_webhook_repos E) (attempt_world E others (e_id e) w n)) = Inr u"
  shows "\<exists>w'. settle E others (e_id e) 0 w = (Inr (), w')
    \<and> (\<exists>g\<in>set (stripe_events (db w')). e_id g = e_id e \<and> e_payload g = e_payload e
        \<and> e_processed_at g \<noteq> None \<and> e_error g = None)"
proof -
  let ?w = "attempt_world E others (e_id e) w"
  have inv: "waits_for e (?w i)" for i
  proof (induction i)
    case 0
    with assms(1,2) show ?case by (auto simp: waits_for_def has_event_def same_event_def)
  next
    case (Suc i)
    from attempt_outcome [OF this surjective_pairing] works_wait [OF assms(3)] show ?case by simp
  qed
  have step: "settle E others (e_id e) i (?w i) = settle E others (e_id e) (Suc i) (?w (Suc i))" if i: "i < n" for i
  proof -
    obtain x where x: "transient x" "fst (dispatch (e_payload e) (get_webhook_repos E) (?w i)) = Inl x"
      using assms(5) i by blast
    have "process_stripe_webhook E i (e_id e) (?w i)
        = (Inr (RetryIn (2 ^ i) x), snd (process_stripe_webhook E i (e_id e) (?w i)))"
      using attempt_outcome [OF inv [of i] surjective_pairing, of E i] x i assms(4)
      by (auto simp: max_retries_def prod_eq_iff)
    from settle_retry [OF this] i assms(4) show ?thesis by (simp add: max_retries_def)
  qed
  have reach: "settle E others (e_id e) 0 w = settle E others (e_id e) i (?w i)" if "i \<le> n" for i
    using that by (induction i) (simp_all add: step del: attempt_world.simps(2))
  let ?v = "snd (process_stripe_webhook E n (e_id e) (?w n))"
  note out = attempt_outcome [OF inv [of n] surjective_pairing, of E n, unfolded assms(6) sum.case]
  then obtain g where g: "g \<in> set (stripe_events (db ?v))" "same_event e g"
    "e_processed_at g = Some (clock (?w n))" "e_error g = None" by blast
  from out have r: "process_stripe_webhook E n (e_id e) (?w n) = (Inr Processed, ?v)" by (simp add: prod_eq_iff)
  from reach [OF order_refl] settle_processed [OF r] have "settle E others (e_id e) 0 w = (Inr (), ?v)" by (rule trans)
  with g show ?thesis by (auto simp: same_event_def)
qed

section \<open>A sample run\<close>

text \<open>
  A fresh installation; Ann registers, and Stripe reports either her team checkout or her purchase of
  a product worth 100 credits.
\<close>

definition installed_db :: db where
  "installed_db = empty_db\<lparr>plans := plans sample_db, plan_prices := plan_prices sample_db, products := products sample_db\<rparr>"

definition ann_uuid :: string where "ann_uuid = ''00000000-0000-0000-0000-0000000003e8''"

definition team_session :: "(string \<times> json) list" where
  "team_session = [(''mode'', JStr ''subscription''), (''client_reference_id'', JStr ann_uuid),
     (''customer'', JStr ''cus_team''), (''livemode'', JBool False), (''subscription'', JNull),
     (''metadata'', JObj [(''org_name'', JStr ''Acme''), (''keep_personal_subscription'', JStr ''true'')])]"

definition credit_session :: "(string \<times> json) list" where
  "credit_session = [(''id'', JStr ''cs_1''), (''mode'', JStr ''payment''), (''client_reference_id'', JStr ann_uuid),
     (''metadata'', JObj [(''product_id'', JStr ''00000000-0000-0000-0000-000000000007'')])]"

definition checkout_event :: "(string \<times> json) list \<Rightarrow> json" where
  "checkout_event obj = JObj [(''id'', JStr ''evt_1''), (''type'', JStr ''checkout.session.completed''),
     (''livemode'', JBool False), (''data'', JObj [(''object'', JObj obj)])]"

definition sample_platform :: platform where
  "sample_platform = \<lparr>pf_env = start_env, pf_jwt = sample_jwt, pf_backend = sample_backend,
     pf_providers = sample_api, pf_gateway = sample_gateway\<lparr>json_loads :=
       (\<lambda>s. if s = ''team'' then Some (checkout_event team_session)
            else if s = ''credit'' then Some (checkout_event credit_session) else None)\<rparr>,
     pf_emails = Some\<rparr>"

definition registered_world :: world where
  "registered_world = snd (run_open sample_platform (Register ''ann@example.com'' ''secret'' ''Ann'') (start_world installed_db))"

definition posted_world :: "string \<Rightarrow> world" where
  "posted_world body = snd (run_open sample_platform (PostWebhook (sample_hook\<lparr>h_body := body\<rparr>)) registered_world)"

definition handled_world :: "string \<Rightarrow> world" where
  "handled_world body = snd (run_task sample_platform 0 (ProcessStripeWebhook 1005) (posted_world body))"

lemma sample_installed: "installed (start_world installed_db)"
  by (simp add: installed_def installed_db_def db_ok_def tables_ok_def table_ok_defs fk_ok_rows sample_simps refs_defs)

lemma sample_platform_sel [simp]: "pf_env sample_platform = start_env" "pf_jwt sample_platform = sample_jwt"
  by (simp_all add: sample_platform_def)

definition registered :: "user list \<Rightarrow> one_time_token list \<Rightarrow> refresh_token list \<Rightarrow> db" where
  "registered us ts rs = installed_db\<lparr>users := us, verification_tokens := ts, refresh_tokens := rs\<rparr>"

lemma registered_run:
  "\<exists>u ts rs c. registered_world = (start_world installed_db)\<lparr>db := registered [u] ts rs, drawn := 5,
     queue := [SendVerificationEmail ''ann@example.com'' (str_nat 1)], cache := c\<rparr> \<and> u_id u = 1000"
  by (simp add: registered_world_def registered_def register_user_def run_simps create_user_run
      email_is_registered_def created_user_def atomic_def create_email_verification_token_def
      create_one_time_token_def create_refresh_token_def create_row_def token_response_run start_env_def
      installed_db_def sample_simps table_ok_defs refs_defs hash_token_def Let_def new_user_def lower_def lower_char_def)

definition posted :: "user list \<Rightarrow> one_time_token list \<Rightarrow> refresh_token list \<Rightarrow> stripe_event list
    \<Rightarrow> (string \<Rightarrow> (cache_value \<times> datetime) option) \<Rightarrow> world" where
  "posted us ts rs es c = (start_world installed_db)\<lparr>db := (registered us ts rs)\<lparr>stripe_events := es\<rparr>, drawn := 6,
     queue := [SendVerificationEmail ''ann@example.com'' (str_nat 1), ProcessStripeWebhook 1005], cache := c\<rparr>"

lemma posted_run:
  assumes "body = ''team'' \<and> obj = team_session \<or> body = ''credit'' \<and> obj = credit_session"
  shows "\<exists>u e ts rs c. posted_world body = posted [u] ts rs [e] c \<and> u_id u = 1000 \<and> e_id e = 1005
    \<and> e_payload e = checkout_event obj \<and> e_stripe_id e = ''evt_1''"
proof -
  obtain u ts rs c where w: "registered_world = (start_world installed_db)\<lparr>db := registered [u] ts rs, drawn := 5,
     queue := [SendVerificationEmail ''ann@example.com'' (str_nat 1)], cache := c\<rparr>" "u_id u = 1000"
    by (rule exE [OF registered_run], elim exE conjE) (rule that)
  have fields: "event_fields (checkout_event obj) = Inr (''evt_1'', ''checkout.session.completed'', False)"
    by (simp add: event_fields_def checkout_event_def)
  have body: "length body \<le> max_webhook_body" using assms by (auto simp: max_webhook_body_def)
  have q: "stripe_webhook start_env (pf_gateway sample_platform) (sample_hook\<lparr>h_body := body\<rparr>) v
    = store_and_dispatch ''evt_1'' ''checkout.session.completed'' False (checkout_event obj) v" for v
    using assms fields body
    by (auto simp: stripe_webhook_def sample_hook_def sample_platform_def sample_gateway_def content_length_def
        max_webhook_body_def key_is_live_def start_env_def startswith_def sample_number)
  show ?thesis
    using w(2) unfolding posted_world_def run_open.simps sample_platform_sel mseq_def mbind_def q w(1)
    by (simp add: store_and_dispatch_def get_or_create_event_def run_simps atomic_def create_row_def
        stripe_events_ok_def Let_def refs_defs posted_def registered_def installed_db_def sample_simps)
qed

lemma sample_reachable:
  assumes "body = ''team'' \<or> body = ''credit''"
  shows "reachable sample_platform (handled_world body)"
proof -
  have "reachable sample_platform registered_world"
    unfolding registered_world_def by (rule reachable.step [OF reachable.start [OF sample_installed] open_request])
  then have p: "reachable sample_platform (posted_world body)"
    unfolding posted_world_def by (rule reachable.step [OF _ open_request])
  obtain obj where "body = ''team'' \<and> obj = team_session \<or> body = ''credit'' \<and> obj = credit_session"
    using assms by blast
  from posted_run [OF this] have "ProcessStripeWebhook 1005 \<in> set (queue (posted_world body))"
    by (auto simp: posted_def)
  from reachable.step [OF p task [OF this disjI1 [OF refl]]] show ?thesis
    by (simp add: handled_world_def)
qed

lemma sample_args:
  "team_checkout_args (JObj team_session) = Inr (Some (1000, JStr ''Acme'', ''cus_team'', JBool False, JNull, True))"
  "product_checkout_args (JObj credit_session) = Inr (Some (''cs_1'', 7, 1000, None))"
  "pick_slug [] (slug_base start_env ''Acme'') = ''acme''"
  by code_simp+

lemma sample_modes:
  "map_of team_session ''mode'' = Some (JStr ''subscription'')" "map_of credit_session ''mode'' = Some (JStr ''payment'')"
  by (simp_all add: team_session_def credit_session_def)

lemmas handled_simps = process_stripe_webhook_def process_stored_event_def dispatch_def checkout_event_def
  on_checkout_completed_def sample_args sample_modes mark_processed_def run_simps atomic_def create_row_def
  update_rows_def posted_def registered_def xor_owner_def Let_def refs_defs installed_db_def sample_simps table_ok_defs

lemma handled_team:
  "\<exists>m. members (db (handled_world ''team'')) = [m] \<and> m_role m = OWNER \<and> m_user m = 1000
     \<and> map o_name (orgs (db (handled_world ''team''))) = [''Acme'']"
proof -
  obtain u e ts rs c where w: "posted_world ''team'' = posted [u] ts rs [e] c" "u_id u = 1000" "e_id e = 1005"
    "e_payload e = checkout_event team_session" "e_stripe_id e = ''evt_1''"
    by (rule exE [OF posted_run [of "''team''" team_session]], simp, elim exE conjE) (rule that)
  show ?thesis
    unfolding handled_world_def run_task.simps sample_platform_sel w(1)
    by (simp add: handled_simps w(2-) on_team_checkout_completed_def owner_or_def create_org_with_owner_def
        existing_team_def new_org_def new_member_def new_org_customer_def generate_unique_slug_def)
qed

lemma handled_credit:
  "map b_balance (credit_balances (db (handled_world ''credit''))) = [100]
   \<and> map b_user (credit_balances (db (handled_world ''credit''))) = [Some 1000]"
proof -
  obtain u e ts rs c where w: "posted_world ''credit'' = posted [u] ts rs [e] c" "u_id u = 1000" "e_id e = 1005"
    "e_payload e = checkout_event credit_session" "e_stripe_id e = ''evt_1''"
    by (rule exE [OF posted_run [of "''credit''" credit_session]], simp, elim exE conjE) (rule that)
  show ?thesis
    unfolding handled_world_def run_task.simps sample_platform_sel w(1)
    by (simp add: handled_simps w(2-) on_product_checkout_def on_product_checkout_completed_def
        grant_credits_for_session_def insert_transaction_def add_to_balance_def get_or_create_balance_def
        in_int4_def save_row_def)
qed

theorem reachable_well_formed_witness:
  "(db_ok (db (handled_world ''team'')) \<and> all_pending_ok (db (handled_world ''team'')))
   \<and> map o_name (orgs (db (handled_world ''team''))) = [''Acme'']"
  using reachable_well_formed [OF sample_reachable, of "''team''"] handled_team by blast

theorem reachable_one_owner_witness:
  "\<exists>m. members (db (handled_world ''team'')) = [m] \<and> m_role m = OWNER \<and> m_is_billing m
   \<and> list_all (\<lambda>i. i_role i \<noteq> OWNER) (invitations (db (handled_world ''team'')))"
proof -
  obtain m where m: "members (db (handled_world ''team'')) = [m]" "m_role m = OWNER" using handled_team by blast
  from reachable_one_owner [OF sample_reachable, of "''team''" m m] m show ?thesis by simp
qed

theorem reachable_balances_witness:
  "balance_of (db (handled_world ''credit'')) (UserOwner 1000) = 100
   \<and> granted_to (db (handled_world ''credit'')) (UserOwner 1000) = 100"
proof -
  obtain b where b: "credit_balances (db (handled_world ''credit'')) = [b]" "b_balance b = 100" "b_user b = Some 1000"
    using handled_credit by auto
  have "credit_balances_ok (credit_balances (db (handled_world ''credit'')))"
    using reachable_sound [OF sample_reachable, of "''credit''"] by (simp add: sound_def db_ok_def tables_ok_def)
  with b have "b_org b = None" by (simp add: credit_balances_ok_def xor_owner_def)
  with b have "balance_of (db (handled_world ''credit'')) (UserOwner 1000) = 100"
    by (simp add: balance_of_def b_cols_def)
  with reachable_balances [OF sample_reachable, of "''credit''" "UserOwner 1000"] show ?thesis by simp
qed

text \<open>
  Stripe fails the first call and answers the later ones: the team checkout of a user whose personal
  subscription is to end is handled in the second attempt.
\<close>

definition flaky_env :: env where
  "flaky_env = start_env\<lparr>stripe := (\<lambda>log c. if log = [] then Inl StripeError
     else Inr (JObj [(''schedule'', JNull), (''cancel_at'', JNull), (''canceled_at'', JNull), (''status'', JStr ''active'')]))\<rparr>"

definition retried_event :: stripe_event where
  "retried_event = sample_event\<lparr>e_payload := checkout_event [(''mode'', JStr ''subscription''),
     (''client_reference_id'', JStr ''00000000-0000-0000-0000-000000000001''), (''customer'', JStr ''cus_2''),
     (''livemode'', JBool False), (''subscription'', JNull), (''metadata'', JObj [(''org_name'', JStr ''Acme'')])]\<rparr>"

definition other_event :: stripe_event where
  "other_event = sample_event\<lparr>e_id := 51, e_stripe_id := ''evt_2'',
     e_payload := JObj [(''type'', JStr ''invoice.paid''), (''data'', JObj [(''object'', JObj [])])]\<rparr>"

definition retried_world :: world where
  "retried_world = (start_world (sample_db\<lparr>stripe_events := [retried_event, other_event]\<rparr>))
     \<lparr>queue := [ProcessStripeWebhook 51]\<rparr>"

definition flaky_platform :: platform where
  "flaky_platform = sample_platform\<lparr>pf_env := flaky_env\<rparr>"

text \<open>Between two attempts the worker handles the other event.\<close>

definition busy :: "nat \<Rightarrow> world \<Rightarrow> world" where
  "busy n v = (if ProcessStripeWebhook 51 \<in> set (queue v)
     then snd (mseq (process_stripe_webhook flaky_env 0 51) (mret ()) (v\<lparr>queue := remove1 (ProcessStripeWebhook 51) (queue v)\<rparr>))
     else v)"

lemma retried_sound: "sound (db retried_world)"
  by (simp add: retried_world_def retried_event_def sample_event_def other_event_def sound_def db_ok_def tables_ok_def
      table_ok_defs fk_ok_rows sample_simps refs_defs xor_owner_def lower_def lower_char_def ledger_ok_def
      balance_of_def granted_to_def all_pending_ok_def pending_ok_def team_ok_iff start_world_def)

lemma busy_works: "works flaky_platform v (busy n v)"
proof (cases "ProcessStripeWebhook 51 \<in> set (queue v)")
  case True
  from step.task [OF this disjI2 [OF refl], of flaky_platform 0] True show ?thesis
    by (simp add: busy_def flaky_platform_def r_into_rtranclp)
qed (simp add: busy_def)

theorem event_ends_processed_witness:
  "\<exists>w'. settle flaky_env busy 50 0 retried_world = (Inr (), w')
    \<and> (\<exists>g\<in>set (stripe_events (db w')). e_id g = 50 \<and> e_payload g = e_payload retried_event
        \<and> e_processed_at g \<noteq> None \<and> e_error g = None)
    \<and> map (\<lambda>f. e_processed_at f \<noteq> None) (stripe_events (db retried_world)) = [False, False]
    \<and> map (\<lambda>f. (e_id f, e_processed_at f \<noteq> None)) (stripe_events (db (attempt_world flaky_env busy 50 retried_world 1)))
        = [(50, False), (51, True)]"
proof -
  let ?d = "dispatch (e_payload retried_event) (get_webhook_repos flaky_env)"
  let ?w = "attempt_world flaky_env busy (e_id retried_event) retried_world"
  have first: "fst (?d (?w 0)) = Inl StripeError" by code_simp
  have second: "fst (?d (?w 1)) = Inr ()" by code_simp
  have fail: "\<exists>x. transient x \<and> fst (?d (?w i)) = Inl x" if "i < 1" for i
    using first that by (auto simp: transient_def is_stripe_error_def)
  have mem: "retried_event \<in> set (stripe_events (db retried_world))" by (simp add: retried_world_def start_world_def)
  have "e_id retried_event = 50" by (simp add: retried_event_def sample_event_def)
  moreover have "map (\<lambda>f. e_processed_at f \<noteq> None) (stripe_events (db retried_world)) = [False, False]"
    "map (\<lambda>f. (e_id f, e_processed_at f \<noteq> None)) (stripe_events (db (attempt_world flaky_env busy 50 retried_world 1)))
        = [(50, False), (51, True)]" by code_simp+
  moreover note event_ends_processed [OF retried_sound mem busy_works _ fail second]
  ultimately show ?thesis by simp
qed

section \<open>A price that somebody set\<close>

lemma curated_lasts:
  assumes w: "reachable C w" and run: "change_country_price k sticker flag w = (Inr (), v)"
    and steps: "rtranclp (step C) v w'"
  shows "\<exists>r0\<in>set (country_prices (db w)). cp_id r0 = k
    \<and> (\<exists>r\<in>set (country_prices (db w')). offer r = offer (r0\<lparr>cp_sticker_minor := sticker, cp_is_curated := True\<rparr>))"
proof -
  from run obtain r0 b where r0: "r0 \<in> set (country_prices (db w))" "cp_id r0 = k"
    and new: "r0\<lparr>cp_sticker_minor := sticker, cp_is_curated := True, cp_base_minor := b, cp_updated_at := clock w\<rparr>
      \<in> set (country_prices (db v))"
    by (rule change_country_price_run)
  let ?r = "r0\<lparr>cp_sticker_minor := sticker, cp_is_curated := True\<rparr>"
  have "admin_step w v" using admin_step.curate [of w k sticker flag] run by simp
  with reachable_sound [OF w] have "sound (db v)" by (rule admin_step_sound [rotated])
  moreover have "offered ?r (db v)" unfolding offered_def by (rule bexI [OF _ new]) (simp add: offer_def)
  ultimately have "offered ?r (db w')" using steps_offers [OF steps, of ?r] by simp
  with r0 show ?thesis by (auto simp: offered_def)
qed

text \<open>
  C40. A price that somebody set in the administration site lasts.  Once the change of a country price was
  accepted in a reachable state, then after any requests, tasks, retries, clean-ups, price syncs, seedings and
  Stripe syncs, whatever their outcome, the row is still there with the sticker that was set, marked as
  curated, and with the owner, the country and the currency it had.
\<close>

theorem curated_price_lasts:
  assumes "reachable C w" and "change_country_price k sticker flag w = (Inr (), v)" and "rtranclp (step C) v w'"
  shows "\<exists>r0\<in>set (country_prices (db w)). cp_id r0 = k
    \<and> (\<exists>r\<in>set (country_prices (db w')). offer r = offer (r0\<lparr>cp_sticker_minor := sticker, cp_is_curated := True\<rparr>))"
  using assms by (rule curated_lasts)

definition priced_db :: db where
  "priced_db = installed_db\<lparr>country_prices := [\<lparr>cp_id = 70, cp_plan_price = Some (pp_id (hd (plan_prices sample_db))),
     cp_product_price = None, cp_country = ''DE'', cp_currency = ''eur'', cp_sticker_minor = 1000, cp_base_minor = 840,
     cp_is_curated = False, cp_stripe_price_id = None, cp_updated_at = 0\<rparr>]\<rparr>"

lemma priced_installed: "installed (start_world priced_db)"
  by (simp add: installed_def priced_db_def installed_db_def db_ok_def tables_ok_def table_ok_defs fk_ok_rows
      sample_simps refs_defs xor_owner_def)

definition curated_world :: world where
  "curated_world = snd (change_country_price 70 1490 False (start_world priced_db))"

theorem curated_price_lasts_witness:
  "\<exists>r\<in>set (country_prices (db (snd (run_maintenance start_env (SyncPrices (Payload True (Some [(''EUR'', Some (9/10))]))) curated_world)))).
     cp_id r = 70 \<and> cp_sticker_minor r = 1490 \<and> cp_is_curated r"
proof -
  let ?m = "SyncPrices (Payload True (Some [(''EUR'', Some (9/10))]))"
  have "fst (change_country_price 70 1490 False (start_world priced_db)) = Inr ()" by code_simp
  then have run: "change_country_price 70 1490 False (start_world priced_db) = (Inr (), curated_world)"
    unfolding curated_world_def by (metis prod.collapse)
  have "step sample_platform curated_world (snd (run_maintenance (pf_env sample_platform) ?m curated_world))"
    by (rule step.maintenance)
  then have "rtranclp (step sample_platform) curated_world (snd (run_maintenance start_env ?m curated_world))"
    by (simp add: sample_platform_def r_into_rtranclp)
  from curated_price_lasts [OF reachable.start [OF priced_installed] run this] obtain r0 r
    where r0: "cp_id r0 = 70"
      and r: "r \<in> set (country_prices (db (snd (run_maintenance start_env ?m curated_world))))"
        "offer r = offer (r0\<lparr>cp_sticker_minor := 1490, cp_is_curated := True\<rparr>)" by blast
  from r(2) r0 have "cp_id (offer r) = 70" "cp_sticker_minor (offer r) = 1490" "cp_is_curated (offer r)"
    by (simp_all add: offer_def)
  with r(1) show ?thesis by (intro bexI [OF _ r(1)]) (simp add: offer_def)
qed

end
