(* ===== verification/Spec2Isabelle.thy ===== *)
theory Spec2Isabelle
  imports Plans TokenRace Endpoint ExchangeRace Erasure OrgViews Checkout Profile System
begin

text \<open>
  A verification development for the backend of saasmint: a Django service that sells subscriptions and
  credits through Stripe to users and organisations (paths below are under \<open>src/core\<close>; \<open>saasmint_core\<close>
  is the framework-free package under \<open>core/saasmint_core\<close>).

  \<^bold>\<open>How the program is modelled.\<close>  A call is a program with exceptions: from the state it gives the
  exception it raised or its value, and the state it left (\<open>prog\<close> of theory Prelude).  A row written
  before a \<open>raise\<close> stays written unless a transaction takes it back.  The state \<open>world\<close> (Store) holds the
  database, the clock, the supply of identifiers and random texts, the \<open>on_commit\<close> callbacks of the open
  transaction, the Celery queue, the log of calls to Stripe and the shared cache.  A Django model is a
  record, a table the list of its rows, \<open>db\<close> all tables; \<open>create_row\<close> and \<open>update_rows\<close> refuse what
  breaks a UNIQUE, CHECK or FOREIGN KEY constraint, deletion follows \<open>on_delete\<close>.  Python integers are
  integers, a \<open>datetime\<close> is its microseconds since the epoch, a UUID the number of its 128 bits, JSON a
  datatype with the accesses the code makes and the exception each raises.

  \<^bold>\<open>Theories, in the order of the code.\<close>
  \<^item> Prelude, PyData: programs, tables, strings; exceptions, JSON, UUID texts, timestamps.
  \<^item> Schema, Store, Cascade, Samples: the models of \<open>apps/*/models.py\<close> with their constraints, the ORM
    operations, transactions, the cache, deletions with their cascades, and a small database for
    instances.  Locale \<open>model_table\<close> states what a model promises; it is interpreted for every model.
  \<^item> Repos: the protocols of \<open>saasmint_core/repositories\<close> as records with locales for what the services
    rely on, and \<open>apps/billing/repositories.py\<close>, on which each locale is interpreted.
  \<^item> Billing, Plans, Webhooks: \<open>saasmint_core/services/billing.py\<close>, \<open>subscriptions.py\<close>, \<open>webhooks.py\<close>.
  \<^item> Credits: the credit ledger of \<open>apps/billing/services.py\<close> as a refinement of an abstract ledger.
  \<^item> Auth, TokenRace: tokens and clean-up tasks of \<open>apps/users/authentication.py\<close> and \<open>tasks.py\<close>, and any
    interleaving of requests on one token.  \<open>token_work\<close> (Auth) is what can happen to refresh tokens between
    two uses of one: any issue, rotation, revocation, clean-up and erasure.
  \<^item> Accounts, OAuth, AuthViews, ExchangeRace: \<open>apps/users/managers.py\<close>, \<open>services.py\<close>, \<open>oauth.py\<close> and
    \<open>auth_views.py\<close>, and concurrent exchanges of one OAuth code: \<open>claim_code\<close>, \<open>read_code\<close> and \<open>drop_code\<close>
    are the three accesses of \<open>consume_oauth_exchange\<close> to the cache, and make up the view (\<open>exchange_split\<close>).
  \<^item> OrgServices, OrgViews: \<open>apps/orgs/services.py\<close>, \<open>tasks.py\<close> and \<open>views.py\<close> with \<open>saasmint_core/services/orgs.py\<close>.
  \<^item> Erasure: \<open>saasmint_core/services/gdpr.py\<close> and the account API of \<open>apps/users/views.py\<close>.
  \<^item> Endpoint: \<open>apps/billing/webhook.py\<close>, the wiring of the webhook handlers, and the task that processes a
    stored event.
  \<^item> Pricing, BillingViews, Checkout: currencies, VAT and prices, \<open>apps/billing/views.py\<close> with the checks of
    its \<open>serializers.py\<close>, and the composition of a checkout with the webhook that reports it.
  \<^item> Seed, StripeCatalog: the commands \<open>seed_catalog\<close>, \<open>sync_stripe_catalog\<close> and \<open>audit_stripe_catalog\<close> of
    \<open>apps/billing/management/commands\<close>; FxSync: \<open>round_friendly\<close> of \<open>saasmint_core/services/currency.py\<close> and
    the daily \<open>sync_localized_prices\<close> of \<open>apps/billing/tasks.py\<close>.
  \<^item> Requests, Profile: what stands around the views, namely \<open>middleware\<close>, the redirect URLs of
    \<open>apps/billing/serializers.py\<close>, \<open>apps/users/captcha.py\<close> and \<open>apps/marketing\<close>; the reference lists and the check
    of a profile update (\<open>apps/users/views_references.py\<close>, \<open>serializers.py\<close>).
  \<^item> Admin: what the administration site and the dashboard do themselves (\<open>apps/*/admin.py\<close>,
    \<open>apps/dashboard/views.py\<close>).
  \<^item> Frames, Maintenance, System: what each request, task and command leaves alone, the invariant of the
    whole system, and the states reachable by any sequence of requests, tasks, retries, clean-ups,
    catalogue commands and the actions of the administration site.

  \<^bold>\<open>How the parts interact.\<close>  A view (AuthViews, OrgViews, BillingViews, Erasure) is given the user its
  access token stands for (Auth), checks the user's role, and calls a service (Billing, Plans, OrgServices,
  Credits) with the repositories of Repos.  A service asks Stripe, whose answer the program does not
  control, writes rows, and leaves e-mails and Stripe calls that must wait for the commit in \<open>hooks\<close> and
  \<open>queue\<close>.  Stripe reports what happened by webhooks: Endpoint stores the event once and queues its
  processing, Webhooks dispatches it to the handlers, which mirror subscriptions, create organisations
  (OrgServices) and grant credits (Credits).  Checkout follows one purchase through both halves.  Seed,
  StripeCatalog and FxSync maintain the rows that Pricing and BillingViews sell from.

  \<^bold>\<open>What the lemmas show.\<close>
  \<^item> Invariants.  \<open>consistent\<close> (Store) is every constraint and foreign key; each operation keeps it, raised
    or not.  \<open>team_ok\<close>, \<open>ledger_ok\<close> and \<open>all_pending_ok\<close> (one owner, balances are sums, a scheduled plan has
    its date) are carried through every request by the locales of Frames and Maintenance and combined over
    all reachable states in System.
  \<^item> Functional behaviour with all error branches: subscriptions (Webhooks, where \<open>mirrors\<close> says column by
    column what a row must hold, independently of the code; Billing, Plans), organisations
    (OrgServices, OrgViews), erasure, the event record (Endpoint), prices in Stripe (StripeCatalog).
  \<^item> Refinement and equivalence: the credit ledger against an abstract one, the displayed price against the
    charged one.  Round trips: metadata of a checkout through the webhook, sticker and base amount.
  \<^item> Safety: who may change what, replay of refresh tokens, webhooks and one-time tokens, interleavings of
    concurrent requests (TokenRace, ExchangeRace), curated prices under everything that can follow (System),
    redirects (Requests), what the audit asks Stripe before it archives (StripeCatalog).
  \<^item> Liveness: a stored event whose handling recovers ends processed, whatever steps of the system run between
    its attempts (System); a price sync repeated at a later time settles (FxSync).
  \<^item> Locales state what one part needs of another (the repositories of Repos, the token tables of Auth, the
    commands of Seed, the frames of Frames, Maintenance and System) and are interpreted on the code's own model.

  \<^bold>\<open>Bounds, fuel and termination.\<close>  No definition has fuel.  The slug search \<open>free_suffix\<close> ends because the
  existing slugs with the base and a larger suffix get fewer; the batched clean-up \<open>prune\<close> because each
  full batch shortens the table; the lookups in Stripe take ten keys at a time off a list; the retries of a
  webhook event (\<open>settle\<close>) count up to \<open>max_retries\<close> = 3, as the task's declaration does.  The remaining
  recursions are structural.  Integers of the database are not given a width: the code never relies on
  wrap-around, and a value out of the column's range would raise where the model stores it.

  \<^bold>\<open>Parameters\<close>, for code outside the repository: Stripe's answers (\<open>stripe\<close> of \<open>env\<close>: any function of the
  calls so far and the new call), the hash functions and the check of a password, the JWT library, Django's
  \<open>slugify\<close> and normalisation of e-mail addresses, the check of a webhook's signature and of its JSON, the
  answers of the OAuth providers, the validator of pydantic for e-mail addresses, the authentication
  backend, the time zones of the platform, Python's check of IP literals in URLs, the answer of the captcha
  service, and the answer of the exchange-rate feed, whose rates are exact rationals where the program
  computes with floats.  What a theorem needs of one of them is a named hypothesis in its statement.

  \<^bold>\<open>Not modelled.\<close>
  \<^item> What a framework does before the code runs: the shape of request bodies (the profile's and the inquiry's
    apart), URL routing, counting requests for a throttle, pagination and the JSON of answers; column
    lengths; the forms of the Django admin, with which a member of staff can edit rows at will; migrations
    and settings.
  \<^item> I/O without state of its own: the text and sending of e-mails, rendered pages, console output of the
    commands, the upload of avatars (an image library and file storage).
  \<^item> Interleavings of requests inside one view, except where TokenRace and ExchangeRace take a view apart;
    elsewhere a request is one step; the retries of an event in System are apart, with any other steps between.  The salt of a password hash; \<open>save(update_fields=...)\<close> on a row that
    was deleted meanwhile; exchange rates that are not finite numbers.
\<close>

end
